(* ===== verification/Prelude.thy ===== *)
theory Prelude
  imports Main "HOL-Library.Word" "HOL-Library.Multiset"
begin

text \<open>
  Shared vocabulary of the development: names for the C integer types, the faults a C
  function can run into instead of returning, the bit-field macro of
  \<^verbatim>\<open>libloragw/inc/loragw_aux.h\<close>, the C library's \<^verbatim>\<open>qsort_r\<close> with its contract as a locale,
  and the generic facts on lists, multisets and words that the component theories use.

  Conventions of every theory: an unsigned integer of \<open>w\<close> bits is a \<open>w word\<close> (arithmetic
  wraps as in C), a signed one is a word read with \<open>sint\<close> or, where it cannot leave its
  range, an \<open>int\<close>; a pointer that may be NULL is an \<open>option\<close>; a fixed array is a list of
  that length; an out-parameter is part of the result; reading or writing outside an array
  is the fault \<open>OutOfBounds\<close>.
\<close>

unbundle bit_operations_syntax

type_synonym u8 = "8 word"
type_synonym u16 = "16 word"
type_synonym u32 = "32 word"
type_synonym u64 = "64 word"

text \<open>A C string, without its terminator, and the literal with a given text.\<close>

type_synonym cstring = "u8 list"

definition cstr :: "string \<Rightarrow> cstring" where
  "cstr s = map of_char s"

text \<open>
  What may happen in place of a return: an access outside an array, the process leaving, a
  failed assertion, a conversion of a floating-point value outside the target type, a signed overflow, a division by zero, an access
  through a null pointer, a loop that does not end, or a \<^verbatim>\<open>memcpy\<close> between overlapping regions.
\<close>

datatype c_fault = OutOfBounds | ExitFailure | AssertFailed | UndefinedConversion | SignedOverflow | DivisionByZero | NullPointer | Diverges | OverlappingCopy

text \<open>The results of the register functions, \<^verbatim>\<open>libloragw/inc/loragw_reg.h\<close>.\<close>

abbreviation (input) LGW_REG_SUCCESS :: int where "LGW_REG_SUCCESS \<equiv> 0"
abbreviation (input) LGW_REG_ERROR :: int where "LGW_REG_ERROR \<equiv> -1"
abbreviation (input) LGW_REG_WARNING :: int where "LGW_REG_WARNING \<equiv> -2"

named_theorems list_slot_simps
named_theorems res_simps

text \<open>Results of fallible code: sequencing, mapping over a list from left to right.\<close>

definition res_bind :: "'e + 'a \<Rightarrow> ('a \<Rightarrow> 'e + 'b) \<Rightarrow> 'e + 'b" where
  "res_bind m f = (case m of Inl e \<Rightarrow> Inl e | Inr a \<Rightarrow> f a)"

fun res_map :: "('a \<Rightarrow> 'e + 'b) \<Rightarrow> 'a list \<Rightarrow> 'e + 'b list" where
  "res_map f [] = Inr []"
| "res_map f (x # xs) = res_bind (f x) (\<lambda>y. res_bind (res_map f xs) (\<lambda>ys. Inr (y # ys)))"

lemma res_bind_simps [simp, res_simps]:
  "res_bind (Inr a) f = f a" "res_bind (Inl e) f = Inl e"
  by (simp_all add: res_bind_def)

lemma res_bind_Inr_iff: "res_bind m f = Inr b \<longleftrightarrow> (\<exists>a. m = Inr a \<and> f a = Inr b)"
  by (cases m) auto

lemma res_bind_Inl_iff: "res_bind m f = Inl e \<longleftrightarrow> m = Inl e \<or> (\<exists>a. m = Inr a \<and> f a = Inl e)"
  by (cases m) auto

text \<open>\<open>n\<close> bytes written to the start of a buffer.\<close>

definition mem_write :: "'a list \<Rightarrow> 'a list \<Rightarrow> 'a list" where
  "mem_write buf xs = xs @ drop (length xs) buf"

lemma length_mem_write: "length xs \<le> length buf \<Longrightarrow> length (mem_write buf xs) = length buf"
  by (simp add: mem_write_def)

lemma take_mem_write [simp]: "take (length xs) (mem_write buf xs) = xs"
  by (simp add: mem_write_def)

text \<open>What \<^verbatim>\<open>%d\<close> prints.\<close>

fun dec_nat :: "nat \<Rightarrow> cstring" where
  "dec_nat n = (if n < 10 then [48 + of_nat n] else dec_nat (n div 10) @ [48 + of_nat (n mod 10)])"

declare dec_nat.simps [simp del]

definition dec_int :: "int \<Rightarrow> cstring" where
  "dec_int i = (if i < 0 then 45 # dec_nat (nat (- i)) else dec_nat (nat i))"

text \<open>\<^verbatim>\<open>TAKE_N_BITS_FROM(b, p, n)\<close> of loragw_aux.h, on a byte.\<close>

definition TAKE_N_BITS_FROM :: "u8 \<Rightarrow> nat \<Rightarrow> nat \<Rightarrow> u8" where
  "TAKE_N_BITS_FROM b p n = (drop_bit p b) AND (mask n)"

text \<open>
  \<^verbatim>\<open>qsort_r\<close> of the C library, run with a comparator that returns a C \<^verbatim>\<open>int\<close>. The sources use
  its documented behaviour only: the array is permuted, and it ends in ascending order of
  the comparator when the comparator is a consistent total preorder on its elements. The
  executable model is an insertion sort; the locale \<open>qsort_contract\<close> states the documented
  behaviour, and what the clients need is proved from the contract.
\<close>

fun qsort_insert :: "('a \<Rightarrow> 'a \<Rightarrow> int) \<Rightarrow> 'a \<Rightarrow> 'a list \<Rightarrow> 'a list" where
  "qsort_insert cmp x [] = [x]"
| "qsort_insert cmp x (y # ys) =
     (if cmp x y \<le> 0 then x # y # ys else y # qsort_insert cmp x ys)"

fun qsort_r :: "('a \<Rightarrow> 'a \<Rightarrow> int) \<Rightarrow> 'a list \<Rightarrow> 'a list" where
  "qsort_r cmp [] = []"
| "qsort_r cmp (x # xs) = qsort_insert cmp x (qsort_r cmp xs)"

definition consistent_on :: "('a \<Rightarrow> 'a \<Rightarrow> int) \<Rightarrow> 'a set \<Rightarrow> bool" where
  "consistent_on cmp A \<longleftrightarrow>
     (\<forall>x\<in>A. \<forall>y\<in>A. cmp x y \<le> 0 \<or> cmp y x \<le> 0) \<and>
     (\<forall>x\<in>A. \<forall>y\<in>A. \<forall>z\<in>A. cmp x y \<le> 0 \<longrightarrow> cmp y z \<le> 0 \<longrightarrow> cmp x z \<le> 0)"

lemma consistent_on_subset: "consistent_on cmp A \<Longrightarrow> B \<subseteq> A \<Longrightarrow> consistent_on cmp B"
  unfolding consistent_on_def by blast

lemma consistent_on_total:
  "consistent_on cmp A \<Longrightarrow> x \<in> A \<Longrightarrow> y \<in> A \<Longrightarrow> \<not> cmp x y \<le> 0 \<Longrightarrow> cmp y x \<le> 0"
  unfolding consistent_on_def by blast

lemma consistent_on_trans:
  "consistent_on cmp A \<Longrightarrow> x \<in> A \<Longrightarrow> y \<in> A \<Longrightarrow> z \<in> A \<Longrightarrow>
     cmp x y \<le> 0 \<Longrightarrow> cmp y z \<le> 0 \<Longrightarrow> cmp x z \<le> 0"
  unfolding consistent_on_def by blast

locale qsort_contract =
  fixes srt :: "('a \<Rightarrow> 'a \<Rightarrow> int) \<Rightarrow> 'a list \<Rightarrow> 'a list"
  assumes srt_mset: "mset (srt cmp xs) = mset xs"
    and srt_sorted: "consistent_on cmp (set xs) \<Longrightarrow> sorted_wrt (\<lambda>x y. cmp x y \<le> 0) (srt cmp xs)"
begin

lemma srt_set: "set (srt cmp xs) = set xs"
  by (metis set_mset_mset srt_mset)

lemma srt_length: "length (srt cmp xs) = length xs"
  by (metis size_mset srt_mset)

lemma srt_filter: "length (filter P (srt cmp xs)) = length (filter P xs)"
  by (metis mset_filter size_mset srt_mset)

text \<open>Sorting by a comparator whose sign agrees with a key sorts by the key.\<close>

lemma srt_by_key:
  fixes k :: "'a \<Rightarrow> 'b :: linorder"
  assumes "\<And>x y. x \<in> set xs \<Longrightarrow> y \<in> set xs \<Longrightarrow> cmp x y \<le> 0 \<longleftrightarrow> k x \<le> k y"
  shows "sorted (map k (srt cmp xs))"
proof -
  have "consistent_on cmp (set xs)"
    unfolding consistent_on_def
  proof (intro conjI ballI impI)
    fix x y assume "x \<in> set xs" "y \<in> set xs"
    then show "cmp x y \<le> 0 \<or> cmp y x \<le> 0" by (simp add: assms linear)
  next
    fix x y z assume "x \<in> set xs" "y \<in> set xs" "z \<in> set xs" "cmp x y \<le> 0" "cmp y z \<le> 0"
    then show "cmp x z \<le> 0" by (metis assms order_trans)
  qed
  then have "sorted_wrt (\<lambda>x y. cmp x y \<le> 0) (srt cmp xs)"
    by (rule srt_sorted)
  then have "sorted_wrt (\<lambda>x y. k x \<le> k y) (srt cmp xs)"
    by (rule sorted_wrt_mono_rel [rotated]) (simp add: assms srt_set)
  then show ?thesis
    by (simp add: sorted_wrt_map)
qed

end

lemma mset_qsort_insert: "mset (qsort_insert cmp x xs) = add_mset x (mset xs)"
  by (induction xs) auto

lemma set_qsort_insert: "set (qsort_insert cmp x xs) = insert x (set xs)"
  by (metis mset_qsort_insert set_mset_add_mset_insert set_mset_mset)

lemma mset_qsort_r: "mset (qsort_r cmp xs) = mset xs"
  by (induction xs) (auto simp: mset_qsort_insert)

lemma set_qsort_r: "set (qsort_r cmp xs) = set xs"
  by (metis mset_qsort_r set_mset_mset)

lemma sorted_qsort_insert:
  assumes "consistent_on cmp (insert x (set xs))" and "sorted_wrt (\<lambda>x y. cmp x y \<le> 0) xs"
  shows "sorted_wrt (\<lambda>x y. cmp x y \<le> 0) (qsort_insert cmp x xs)"
  using assms
proof (induction xs)
  case Nil
  then show ?case by simp
next
  case (Cons y ys)
  have sub: "consistent_on cmp (insert x (set ys))"
    using Cons.prems(1) by (rule consistent_on_subset) auto
  show ?case
  proof (cases "cmp x y \<le> 0")
    case True
    then have "\<forall>z\<in>set ys. cmp x z \<le> 0"
      using Cons.prems(2) consistent_on_trans [OF Cons.prems(1), of x y] by simp
    with True Cons.prems show ?thesis by simp
  next
    case False
    then have "cmp y x \<le> 0"
      using consistent_on_total [OF Cons.prems(1), of x y] by simp
    with False Cons sub show ?thesis by (simp add: set_qsort_insert)
  qed
qed

lemma sorted_qsort_r:
  "consistent_on cmp (set xs) \<Longrightarrow> sorted_wrt (\<lambda>x y. cmp x y \<le> 0) (qsort_r cmp xs)"
proof (induction xs)
  case Nil
  then show ?case by simp
next
  case (Cons x xs)
  have "consistent_on cmp (set xs)"
    using Cons.prems by (rule consistent_on_subset) auto
  with Cons show ?case by (simp add: sorted_qsort_insert set_qsort_r)
qed

interpretation qs: qsort_contract qsort_r
  by unfold_locales (simp_all add: mset_qsort_r sorted_qsort_r)

declare qs.srt_set [simp] qs.srt_length [simp] qs.srt_mset [simp]

subsection \<open>Lists and multisets\<close>

text \<open>
  Overwriting slot \<open>i\<close> with the last slot and dropping that one, as the sources do to remove
  an array element, removes exactly that element.
\<close>

lemma mset_swap_remove [list_slot_simps]:
  assumes "i < n" and "n \<le> length xs"
  shows "mset (take (n - 1) (xs[i := xs ! (n - 1)])) = mset (take n xs) - {#xs ! i#}"
proof -
  obtain m where m: "n = Suc m"
    using assms by (cases n) auto
  have snoc: "take n xs = take m xs @ [xs ! m]"
    using assms m by (simp add: take_Suc_conv_app_nth)
  show ?thesis
  proof (cases "i = m")
    case True
    then show ?thesis using snoc m by (simp add: take_update_swap)
  next
    case False
    then have "i < m" using assms m by simp
    then have "mset ((take m xs)[i := xs ! m]) = add_mset (xs ! m) (mset (take m xs) - {#xs ! i#})"
      using assms m by (simp add: mset_update)
    also have "\<dots> = add_mset (xs ! m) (mset (take m xs)) - {#xs ! i#}"
      using \<open>i < m\<close> assms m
      by (metis Suc_le_lessD diff_union_swap2 in_set_conv_nth length_take min_absorb2 nth_take
          order_less_imp_le set_mset_mset)
    finally show ?thesis using snoc m by (simp add: take_update_swap)
  qed
qed

text \<open>For a symmetric relation, holding pairwise on a list depends on its multiset only.\<close>

lemma sorted_wrt_sym_mset:
  assumes "symp R"
  shows "sorted_wrt R xs \<longleftrightarrow> (\<forall>x\<in>#mset xs. \<forall>y\<in>#mset xs - {#x#}. R x y)"
proof (induction xs)
  case Nil
  then show ?case by simp
next
  case (Cons a xs)
  have "(\<forall>y\<in>#add_mset a (mset xs) - {#x#}. R x y) \<longleftrightarrow> R x a \<and> (\<forall>y\<in>#mset xs - {#x#}. R x y)"
    if "x \<in># mset xs" for x
    using that by (simp add: diff_union_swap2)
  then have "(\<forall>x\<in>#mset (a # xs). \<forall>y\<in>#mset (a # xs) - {#x#}. R x y) \<longleftrightarrow>
      (\<forall>y\<in>set xs. R a y) \<and> (\<forall>x\<in>set xs. R x a) \<and> (\<forall>x\<in>#mset xs. \<forall>y\<in>#mset xs - {#x#}. R x y)"
    by auto
  also have "\<dots> \<longleftrightarrow> (\<forall>y\<in>set xs. R a y) \<and> sorted_wrt R xs"
    using Cons assms by (auto dest: sympD)
  finally show ?case by simp
qed

lemma sorted_wrt_sym_cong:
  assumes "symp R" and "mset xs = mset ys"
  shows "sorted_wrt R xs \<longleftrightarrow> sorted_wrt R ys"
  using assms by (simp add: sorted_wrt_sym_mset)

lemma sorted_wrt_sym_subset:
  assumes "symp R" and "mset ys \<subseteq># mset xs" and "sorted_wrt R xs"
  shows "sorted_wrt R ys"
proof -
  obtain zs where "mset xs = mset (ys @ zs)"
    using assms(2) by (metis ex_mset mset_append mset_subset_eq_exists_conv)
  then have "sorted_wrt R (ys @ zs)"
    using assms sorted_wrt_sym_cong by blast
  then show ?thesis by (simp add: sorted_wrt_append)
qed

text \<open>
  The interface of an array that holds items in no particular order and gives one up by
  index: the JIT queue and the receive array of the HAL provide it, each with its own way to
  close the gap.
\<close>

locale slot_store =
  fixes inv :: "'q \<Rightarrow> bool"
    and items :: "'q \<Rightarrow> 'n list"
    and drop_at :: "'q \<Rightarrow> nat \<Rightarrow> 'q"
  assumes drop_inv: "inv q \<Longrightarrow> i < length (items q) \<Longrightarrow> inv (drop_at q i)"
    and drop_items: "inv q \<Longrightarrow> i < length (items q) \<Longrightarrow>
      mset (items (drop_at q i)) = mset (items q) - {#items q ! i#}"
begin

lemma drop_subset: "inv q \<Longrightarrow> i < length (items q) \<Longrightarrow> mset (items (drop_at q i)) \<subseteq># mset (items q)"
  by (simp add: drop_items)

lemma drop_set: "inv q \<Longrightarrow> i < length (items q) \<Longrightarrow> set (items (drop_at q i)) \<subseteq> set (items q)"
  by (metis drop_subset set_mset_mono set_mset_mset)

lemma drop_length:
  assumes "inv q" and "i < length (items q)"
  shows "length (items (drop_at q i)) = length (items q) - 1"
proof -
  have "size (mset (items (drop_at q i))) = size (mset (items q)) - 1"
    unfolding drop_items [OF assms] by (rule size_Diff_singleton) (use assms in simp)
  then show ?thesis by simp
qed

lemma drop_pairwise:
  "symp R \<Longrightarrow> inv q \<Longrightarrow> i < length (items q) \<Longrightarrow> sorted_wrt R (items q) \<Longrightarrow>
     sorted_wrt R (items (drop_at q i))"
  by (rule sorted_wrt_sym_subset [OF _ drop_subset])

lemma drop_keeps:
  assumes "inv q" and "i < length (items q)" and "x \<in> set (items q)" and "x \<noteq> items q ! i"
  shows "x \<in> set (items (drop_at q i))"
proof -
  have "x \<in># mset (items q) - {#items q ! i#}"
    using assms by (simp add: in_diff_count)
  then show ?thesis
    using drop_items [OF assms(1,2)] by (metis set_mset_mset)
qed

end

text \<open>A ring of slots: the \<open>n\<close> entries from slot \<open>t\<close> on.\<close>

definition ring_read :: "'a list \<Rightarrow> nat \<Rightarrow> nat \<Rightarrow> 'a list" where
  "ring_read xs t n = map (\<lambda>i. xs ! ((t + i) mod length xs)) [0..<n]"

lemma length_ring_read [simp]: "length (ring_read xs t n) = n"
  by (simp add: ring_read_def)

lemma ring_read_0 [simp]: "ring_read xs t 0 = []"
  by (simp add: ring_read_def)

lemma ring_read_Suc: "ring_read xs t (Suc n) = ring_read xs t n @ [xs ! ((t + n) mod length xs)]"
  by (simp add: ring_read_def)

lemma set_ring_read: "set (ring_read xs t n) = (\<lambda>i. xs ! ((t + i) mod length xs)) ` {..<n}"
  by (auto simp: ring_read_def)

lemma ring_index_le:
  assumes "(t + i) mod N = (t + j) mod (N :: nat)" and "i \<le> j" and "j < N"
  shows "i = j"
proof -
  have "N dvd (t + j) - (t + i)"
    using assms(1,2) by (metis add_le_cancel_left mod_eq_dvd_iff_nat)
  then show ?thesis
    using assms(2,3) by (auto dest: dvd_imp_le)
qed

lemma ring_index_inj:
  assumes "(t + i) mod N = (t + j) mod (N :: nat)" and "i < N" and "j < N"
  shows "i = j"
  using ring_index_le [of t i N j] ring_index_le [of t j N i] assms by (metis linear)

lemma ring_read_write:
  assumes "n < length xs"
  shows "ring_read (xs[(t + n) mod length xs := v]) t n = ring_read xs t n"
    and "ring_read (xs[(t + n) mod length xs := v]) t (Suc n) = ring_read xs t n @ [v]"
proof -
  have "(t + n) mod length xs \<noteq> (t + i) mod length xs" if "i < n" for i
    using that assms ring_index_inj [of t i "length xs" n] by auto
  then show 1: "ring_read (xs[(t + n) mod length xs := v]) t n = ring_read xs t n"
    by (auto simp: ring_read_def)
  have lt: "(t + n) mod length xs < length xs"
    using assms by (intro mod_less_divisor) linarith
  have "ring_read (xs[(t + n) mod length xs := v]) t (Suc n) = ring_read (xs[(t + n) mod length xs := v]) t n @ [v]"
    using nth_list_update_eq [OF lt] by (simp add: ring_read_def)
  then show "ring_read (xs[(t + n) mod length xs := v]) t (Suc n) = ring_read xs t n @ [v]"
    by (simp only: 1)
qed

lemma ring_read_pop:
  assumes "t < length xs" and "n < length xs"
  shows "ring_read xs t (Suc n) = xs ! t # ring_read xs ((t + 1) mod length xs) n"
    and "ring_read (xs[t := v]) ((t + 1) mod length xs) n = ring_read xs ((t + 1) mod length xs) n"
proof -
  have shift: "(Suc t mod length xs + i) mod length xs = Suc (t + i) mod length xs" for i
    by (simp add: mod_add_left_eq)
  show "ring_read xs t (Suc n) = xs ! t # ring_read xs ((t + 1) mod length xs) n"
    using assms(1) by (simp add: ring_read_def shift map_upt_Suc del: upt_Suc)
  have "t \<noteq> Suc (t + i) mod length xs" if "i < n" for i
    using ring_index_inj [of t "Suc i" "length xs" 0] that assms by (metis Suc_lessI add.right_neutral add_Suc_right
        length_greater_0_conv less_nat_zero_code less_trans list.size(3) mod_less nat.distinct(1) not_less_eq)
  then show "ring_read (xs[t := v]) ((t + 1) mod length xs) n = ring_read xs ((t + 1) mod length xs) n"
    by (auto simp: ring_read_def shift)
qed

text \<open>
  The interface of a bounded log that forgets its oldest entry when it is full, for entries that
  satisfy \<open>ok\<close>, with what a sequence of insertions leaves; and of a queue, which also gives its
  entries up in the order of insertion.
\<close>

locale bounded_log =
  fixes inv :: "'q \<Rightarrow> bool"
    and contents :: "'q \<Rightarrow> 'm list"
    and cap :: nat
    and ok :: "'m \<Rightarrow> bool"
    and put :: "'q \<Rightarrow> 'm \<Rightarrow> 'q"
  assumes put_inv: "inv q \<Longrightarrow> ok m \<Longrightarrow> inv (put q m)"
    and put_contents: "inv q \<Longrightarrow> ok m \<Longrightarrow>
      contents (put q m) = drop (length (contents q) + 1 - cap) (contents q @ [m])"
    and capacity: "inv q \<Longrightarrow> length (contents q) \<le> cap"
begin

lemma put_all:
  assumes "inv q" and "\<forall>m\<in>set ms. ok m"
  shows "inv (foldl put q ms) \<and>
    contents (foldl put q ms) = drop (length (contents q) + length ms - cap) (contents q @ ms)"
  using assms(2)
proof (induction ms rule: rev_induct)
  case Nil
  then show ?case using assms(1) capacity by simp
next
  case (snoc m ms)
  then have IH: "inv (foldl put q ms)"
      "contents (foldl put q ms) = drop (length (contents q) + length ms - cap) (contents q @ ms)" and m: "ok m"
    by simp_all
  define xs where "xs = contents q @ ms"
  have len: "length (contents q) + length ms = length xs" by (simp add: xs_def)
  have snoc_drop: "drop (length xs - cap) xs @ [m] = drop (length xs - cap) (xs @ [m])"
    by simp
  have "contents (put (foldl put q ms) m) = drop (length xs + 1 - cap) (xs @ [m])"
    unfolding put_contents [OF IH(1) m] IH(2) len xs_def [symmetric] snoc_drop drop_drop
    by (rule arg_cong [where f = "\<lambda>k. drop k (xs @ [m])"]) auto
  then have "contents (put (foldl put q ms) m) = drop (length (contents q) + length (ms @ [m]) - cap) (contents q @ ms @ [m])"
    by (simp add: xs_def)
  then show ?case using put_inv [OF IH(1) m] by simp
qed

end

locale drop_oldest_fifo = bounded_log +
  fixes get :: "'a \<Rightarrow> 'b \<times> 'a"
  assumes get_inv: "inv q \<Longrightarrow> contents q \<noteq> [] \<Longrightarrow> inv (snd (get q))"
    and get_contents: "inv q \<Longrightarrow> contents q \<noteq> [] \<Longrightarrow> contents q = fst (get q) # contents (snd (get q))"
begin

text \<open>What goes in comes out first when the queue was empty.\<close>

lemma put_all_get:
  assumes "inv q" and "contents q = []" and "\<forall>m\<in>set ms. ok m" and "ms \<noteq> []" and "length ms \<le> cap"
  shows "fst (get (foldl put q ms)) = hd ms \<and> contents (snd (get (foldl put q ms))) = tl ms"
proof -
  have p: "inv (foldl put q ms)" "contents (foldl put q ms) = ms"
    using put_all [OF assms(1,3)] assms(2,5) by simp_all
  then show ?thesis
    using get_contents [OF p(1)] assms(4) by (metis list.sel(1,3))
qed

end

subsection \<open>Words\<close>

lemma sint_of_int_u32: "- (2 ^ 31) \<le> k \<Longrightarrow> k < 2 ^ 31 \<Longrightarrow> sint (word_of_int k :: u32) = k"
  by (simp add: sint_sbintrunc' signed_take_bit_int_eq_self)

text \<open>Counters less than half the range after a common origin compare in time order.\<close>

lemma sint_diff_window:
  fixes x y t :: u32
  assumes "unat (x - t) < 2 ^ 31" and "unat (y - t) < 2 ^ 31"
  shows "sint (x - y) \<le> 0 \<longleftrightarrow> unat (x - t) \<le> unat (y - t)"
proof -
  define m n where "m = unat (x - t)" and "n = unat (y - t)"
  have "x - y = (x - t) - (y - t)"
    by simp
  also have "\<dots> = of_nat m - of_nat n"
    by (simp add: m_def n_def)
  also have "\<dots> = word_of_int (int m - int n)"
    by simp
  finally have "sint (x - y) = sint (word_of_int (int m - int n) :: u32)"
    by (rule arg_cong)
  also have "\<dots> = int m - int n"
    using assms unfolding m_def [symmetric] n_def [symmetric] by (intro sint_of_int_u32) simp_all
  finally have "sint (x - y) = int m - int n" .
  then show ?thesis
    unfolding m_def [symmetric] n_def [symmetric] by simp
qed

text \<open>The difference of two readings of a running counter is the time between them.\<close>

lemma unat_of_nat_diff:
  assumes "T1 \<le> T2" and "T2 - T1 < 2 ^ 32"
  shows "unat ((of_nat T2 :: u32) - of_nat T1) = T2 - T1"
proof -
  have "(of_nat T2 :: u32) - of_nat T1 = of_nat (T2 - T1)"
    using assms(1) by simp
  also have "unat \<dots> = T2 - T1"
    using assms(2) by (simp add: unat_of_nat)
  finally show ?thesis .
qed

end
