(* ===== verification/HalTypes.thy ===== *)
theory HalTypes
  imports Prelude
begin

text \<open>
  The constants and packet structures of \<^verbatim>\<open>libloragw/inc/loragw_hal.h\<close> that more than one
  component uses. The \<^verbatim>\<open>#define\<close>s are abbreviations, as the preprocessor has them. C allows
  two structures to share a field name; here the fields of \<open>lgw_pkt_tx_s\<close> carry the prefix
  \<open>tx_\<close> and those of \<open>lgw_pkt_rx_s\<close> the prefix \<open>p_\<close>.
\<close>

abbreviation (input) MOD_UNDEFINED :: u8 where "MOD_UNDEFINED \<equiv> 0"
abbreviation (input) MOD_CW :: u8 where "MOD_CW \<equiv> 0x08"
abbreviation (input) MOD_LORA :: u8 where "MOD_LORA \<equiv> 0x10"
abbreviation (input) MOD_FSK :: u8 where "MOD_FSK \<equiv> 0x20"

abbreviation (input) BW_UNDEFINED :: u8 where "BW_UNDEFINED \<equiv> 0"
abbreviation (input) BW_500KHZ :: u8 where "BW_500KHZ \<equiv> 0x06"
abbreviation (input) BW_250KHZ :: u8 where "BW_250KHZ \<equiv> 0x05"
abbreviation (input) BW_125KHZ :: u8 where "BW_125KHZ \<equiv> 0x04"

abbreviation (input) DR_UNDEFINED :: u32 where "DR_UNDEFINED \<equiv> 0"
abbreviation (input) DR_LORA_SF7 :: u32 where "DR_LORA_SF7 \<equiv> 7"
abbreviation (input) DR_LORA_SF8 :: u32 where "DR_LORA_SF8 \<equiv> 8"
abbreviation (input) DR_LORA_SF9 :: u32 where "DR_LORA_SF9 \<equiv> 9"
abbreviation (input) DR_LORA_SF10 :: u32 where "DR_LORA_SF10 \<equiv> 10"
abbreviation (input) DR_LORA_SF12 :: u32 where "DR_LORA_SF12 \<equiv> 12"
abbreviation (input) DR_FSK_MIN :: u32 where "DR_FSK_MIN \<equiv> 500"
abbreviation (input) DR_FSK_MAX :: u32 where "DR_FSK_MAX \<equiv> 250000"

abbreviation (input) CR_LORA_4_5 :: u8 where "CR_LORA_4_5 \<equiv> 0x01"
abbreviation (input) CR_LORA_4_6 :: u8 where "CR_LORA_4_6 \<equiv> 0x02"
abbreviation (input) CR_LORA_4_7 :: u8 where "CR_LORA_4_7 \<equiv> 0x03"
abbreviation (input) CR_LORA_4_8 :: u8 where "CR_LORA_4_8 \<equiv> 0x04"

abbreviation (input) STAT_UNDEFINED :: u8 where "STAT_UNDEFINED \<equiv> 0x00"
abbreviation (input) STAT_NO_CRC :: u8 where "STAT_NO_CRC \<equiv> 0x01"
abbreviation (input) STAT_CRC_BAD :: u8 where "STAT_CRC_BAD \<equiv> 0x11"
abbreviation (input) STAT_CRC_OK :: u8 where "STAT_CRC_OK \<equiv> 0x10"

abbreviation (input) IMMEDIATE :: u8 where "IMMEDIATE \<equiv> 0"
abbreviation (input) TIMESTAMPED :: u8 where "TIMESTAMPED \<equiv> 1"
abbreviation (input) ON_GPS :: u8 where "ON_GPS \<equiv> 2"

abbreviation (input) LGW_HAL_SUCCESS :: int where "LGW_HAL_SUCCESS \<equiv> 0"
abbreviation (input) LGW_HAL_ERROR :: int where "LGW_HAL_ERROR \<equiv> -1"
abbreviation (input) LGW_LBT_NOT_ALLOWED :: int where "LGW_LBT_NOT_ALLOWED \<equiv> 1"
abbreviation (input) LGW_RF_CHAIN_NB :: nat where "LGW_RF_CHAIN_NB \<equiv> 2"
abbreviation (input) LGW_IF_CHAIN_NB :: nat where "LGW_IF_CHAIN_NB \<equiv> 10"
abbreviation (input) TX_GAIN_LUT_SIZE_MAX :: nat where "TX_GAIN_LUT_SIZE_MAX \<equiv> 16"

text \<open>The range macros; they are used on operands of different widths.\<close>

definition IS_LORA_BW :: "u8 \<Rightarrow> bool" where
  "IS_LORA_BW bw \<longleftrightarrow> bw = BW_125KHZ \<or> bw = BW_250KHZ \<or> bw = BW_500KHZ"

definition IS_LORA_DR :: "'w::len word \<Rightarrow> bool" where
  "IS_LORA_DR dr \<longleftrightarrow> dr = 5 \<or> dr = 6 \<or> dr = 7 \<or> dr = 8 \<or> dr = 9 \<or> dr = 10 \<or> dr = 11 \<or> dr = 12"

definition IS_LORA_CR :: "u8 \<Rightarrow> bool" where
  "IS_LORA_CR cr \<longleftrightarrow> cr = CR_LORA_4_5 \<or> cr = CR_LORA_4_6 \<or> cr = CR_LORA_4_7 \<or> cr = CR_LORA_4_8"

definition IS_FSK_BW :: "u8 \<Rightarrow> bool" where
  "IS_FSK_BW bw \<longleftrightarrow> 1 \<le> bw \<and> bw \<le> 7"

definition IS_FSK_DR :: "u32 \<Rightarrow> bool" where
  "IS_FSK_DR dr \<longleftrightarrow> DR_FSK_MIN \<le> dr \<and> dr \<le> DR_FSK_MAX"

definition IS_TX_MODE :: "u8 \<Rightarrow> bool" where
  "IS_TX_MODE mode \<longleftrightarrow> mode = IMMEDIATE \<or> mode = TIMESTAMPED \<or> mode = ON_GPS"

text \<open>
  A packet to send. \<open>tx_rf_power\<close> and \<open>tx_freq_offset\<close> are \<^verbatim>\<open>int8_t\<close>: read them with \<open>sint\<close>.
  \<open>tx_payload\<close> has 256 elements.
\<close>

record lgw_pkt_tx_s =
  tx_freq_hz :: u32
  tx_mode :: u8
  tx_count_us :: u32
  tx_rf_chain :: u8
  tx_rf_power :: u8
  tx_modulation :: u8
  tx_freq_offset :: u8
  tx_bandwidth :: u8
  tx_datarate :: u32
  tx_coderate :: u8
  tx_invert_pol :: bool
  tx_f_dev :: u8
  tx_preamble :: u16
  tx_no_crc :: bool
  tx_no_header :: bool
  tx_size :: u16
  tx_payload :: "u8 list"

text \<open>A packet structure cleared by \<^verbatim>\<open>memset(&pkt, 0, sizeof pkt)\<close>.\<close>

definition tx_pkt_zero :: lgw_pkt_tx_s where
  "tx_pkt_zero =
     \<lparr>tx_freq_hz = 0, tx_mode = 0, tx_count_us = 0, tx_rf_chain = 0, tx_rf_power = 0,
      tx_modulation = 0, tx_freq_offset = 0, tx_bandwidth = 0, tx_datarate = 0, tx_coderate = 0,
      tx_invert_pol = False, tx_f_dev = 0, tx_preamble = 0, tx_no_crc = False,
      tx_no_header = False, tx_size = 0, tx_payload = replicate 256 0\<rparr>"

end
