(* ===== verification/CDouble.thy ===== *)
theory CDouble
  imports Complex_Main "HOL-Library.Log_Nat"
begin

text \<open>
  The C type \<^verbatim>\<open>double\<close> as the rational numbers it stands for: \<open>dbl\<close> rounds an exact rational
  to the nearest IEEE 754 binary64 value, ties to even, so \<open>dbl (x / y)\<close> is what the C
  expression \<^verbatim>\<open>x / y\<close> yields. Exponents are unbounded: the sources stay far from overflow
  and from subnormal numbers. The lemmas say when a rounded division still has the exact
  quotient's floor or ceiling, which is what the sources convert to an integer.
\<close>

definition round_half_even :: "rat \<Rightarrow> int" where
  "round_half_even y =
     (let f = \<lfloor>y\<rfloor>; d = y - of_int f
      in if d < 1 / 2 then f else if 1 / 2 < d then f + 1 else if even f then f else f + 1)"

definition dbl_exponent :: "rat \<Rightarrow> int" where
  "dbl_exponent x =
     (let (n, d) = quotient_of x; e = bitlen n - bitlen d
      in if 2 powi e \<le> x then e else e - 1)"

definition dbl_nonneg :: "rat \<Rightarrow> rat" where
  "dbl_nonneg x =
     (if x = 0 then 0
      else let u = 2 powi (dbl_exponent x - 52) in of_int (round_half_even (x / u)) * u)"

definition dbl :: "rat \<Rightarrow> rat" where
  "dbl x = (if x < 0 then - dbl_nonneg (- x) else dbl_nonneg x)"

text \<open>The same for \<^verbatim>\<open>float\<close>, with a significand of 24 bits.\<close>

definition flt_nonneg :: "rat \<Rightarrow> rat" where
  "flt_nonneg x =
     (if x = 0 then 0
      else let u = 2 powi (dbl_exponent x - 23) in of_int (round_half_even (x / u)) * u)"

definition flt :: "rat \<Rightarrow> rat" where
  "flt x = (if x < 0 then - flt_nonneg (- x) else flt_nonneg x)"

text \<open>Conversion of a floating-point value to an integer discards the fraction.\<close>

definition c_trunc :: "rat \<Rightarrow> int" where
  "c_trunc x = (if x < 0 then - \<lfloor>- x\<rfloor> else \<lfloor>x\<rfloor>)"

lemma round_half_even_err: "\<bar>of_int (round_half_even y) - y\<bar> \<le> 1 / 2"
proof -
  have "of_int \<lfloor>y\<rfloor> \<le> y" and "y < of_int \<lfloor>y\<rfloor> + 1"
    by linarith+
  then show ?thesis
    unfolding round_half_even_def Let_def by (auto simp: abs_le_iff)
qed

lemma round_half_even_int [simp]: "round_half_even (of_int n) = n"
  by (simp add: round_half_even_def)

lemma round_half_even_mono:
  assumes "x \<le> y"
  shows "round_half_even x \<le> round_half_even y"
proof (cases "\<lfloor>x\<rfloor> = \<lfloor>y\<rfloor>")
  case True
  with assms show ?thesis by (auto simp: round_half_even_def Let_def)
next
  case False
  then have lt: "\<lfloor>x\<rfloor> + 1 \<le> \<lfloor>y\<rfloor>"
    using assms floor_mono [of x y] by linarith
  have "round_half_even x \<le> \<lfloor>x\<rfloor> + 1" and "\<lfloor>y\<rfloor> \<le> round_half_even y"
    by (auto simp: round_half_even_def Let_def)
  with lt show ?thesis by linarith
qed

lemma powi_two_pos [simp]: "0 < (2 :: rat) powi e"
  by simp

lemma dbl_exponent_bounds:
  assumes "0 < x"
  shows "2 powi dbl_exponent x \<le> x" and "x < 2 powi (dbl_exponent x + 1)"
proof -
  obtain n d where q: "quotient_of x = (n, d)"
    by (cases "quotient_of x")
  then have x: "x = of_int n / of_int d" and d: "0 < d"
    using quotient_of_div quotient_of_denom_pos by auto
  have n: "0 < n"
    using assms x d by (simp add: zero_less_divide_iff)
  define a b where "a = bitlen n" and "b = bitlen d"
  have a1: "1 \<le> a" and b1: "1 \<le> b"
    using n d bitlen_eq_zero_iff [of n] bitlen_eq_zero_iff [of d] bitlen_nonneg [of n] bitlen_nonneg [of d]
    unfolding a_def b_def by linarith+
  have pw: "(of_int (2 ^ nat k) :: rat) = 2 powi k" if "0 \<le> k" for k
    using that by (simp add: power_int_def)
  have "of_int (2 ^ nat (a - 1)) \<le> (of_int n :: rat)" "(of_int n :: rat) < of_int (2 ^ nat a)"
    using bitlen_bounds [OF n] unfolding a_def by (simp_all only: of_int_le_iff of_int_less_iff)
  then have nb: "2 powi (a - 1) \<le> (of_int n :: rat)" "(of_int n :: rat) < 2 powi a"
    using a1 by (simp_all only: pw)
  have "of_int (2 ^ nat (b - 1)) \<le> (of_int d :: rat)" "(of_int d :: rat) < of_int (2 ^ nat b)"
    using bitlen_bounds [OF d] unfolding b_def by (simp_all only: of_int_le_iff of_int_less_iff)
  then have db: "2 powi (b - 1) \<le> (of_int d :: rat)" "(of_int d :: rat) < 2 powi b"
    using b1 by (simp_all only: pw)
  have "x < 2 powi a / 2 powi (b - 1)"
    unfolding x using nb db n by (intro frac_less) auto
  also have "\<dots> = 2 powi (a - b + 1)"
    by (simp add: power_int_diff [symmetric] algebra_simps)
  finally have up: "x < 2 powi (a - b + 1)" .
  have "(2 :: rat) powi (a - 1) / 2 powi b < x"
    unfolding x using nb db d by (intro frac_less2) auto
  then have low: "2 powi (a - b - 1) \<le> x"
    by (simp add: power_int_diff [symmetric] diff_diff_eq diff_right_commute less_imp_le add.commute)
  have e: "dbl_exponent x = (if 2 powi (a - b) \<le> x then a - b else a - b - 1)"
    by (simp add: dbl_exponent_def q a_def b_def)
  show "2 powi dbl_exponent x \<le> x"
    using low by (simp add: e)
  show "x < 2 powi (dbl_exponent x + 1)"
    using up by (simp add: e)
qed

lemma dbl_pos:
  "0 < x \<Longrightarrow> dbl x = of_int (round_half_even (x / 2 powi (dbl_exponent x - 52))) * 2 powi (dbl_exponent x - 52)"
  by (simp add: dbl_def dbl_nonneg_def Let_def)

lemma dbl_0 [simp]: "dbl 0 = 0"
  by (simp add: dbl_def dbl_nonneg_def)

text \<open>Relative error of one rounding: at most \<open>2 ^ - 53\<close> for \<^verbatim>\<open>double\<close> and \<open>2 ^ - 24\<close> for \<^verbatim>\<open>float\<close>.\<close>

lemma rounding_err:
  fixes x :: rat
  assumes x: "0 < x" and u_def: "u = (2 :: rat) powi (dbl_exponent x - int k)"
  shows "\<bar>of_int (round_half_even (x / u)) * u - x\<bar> \<le> x / 2 ^ Suc k"
proof -
  have u: "0 < u" by (simp add: u_def)
  have "of_int (round_half_even (x / u)) * u - x = (of_int (round_half_even (x / u)) - x / u) * u"
    using u by (simp add: left_diff_distrib)
  then have "\<bar>of_int (round_half_even (x / u)) * u - x\<bar> = \<bar>of_int (round_half_even (x / u)) - x / u\<bar> * u"
    using u by (simp add: abs_mult)
  also have "\<dots> \<le> 1 / 2 * u"
    using round_half_even_err u by (intro mult_right_mono) auto
  also have "1 / 2 * u = (2 :: rat) powi dbl_exponent x / 2 ^ Suc k"
    by (simp add: u_def power_int_diff)
  also have "\<dots> \<le> x / 2 ^ Suc k"
    using dbl_exponent_bounds(1) [OF x] by (intro divide_right_mono) auto
  finally show ?thesis .
qed

lemma dbl_err:
  assumes "0 \<le> x"
  shows "\<bar>dbl x - x\<bar> \<le> x / 2 ^ 53"
  using assms rounding_err [of x _ 52] by (cases "x = 0") (simp_all add: dbl_pos)

lemma flt_err:
  assumes "0 \<le> x"
  shows "\<bar>flt x - x\<bar> \<le> x / 2 ^ 24"
  using assms rounding_err [of x _ 23] by (cases "x = 0") (simp_all add: flt_def flt_nonneg_def Let_def)

lemma dbl_minus: "dbl (- x) = - dbl x"
  by (cases "x = 0") (auto simp: dbl_def dbl_nonneg_def)

lemma dbl_ge_0: "0 \<le> x \<Longrightarrow> 0 \<le> dbl x"
proof -
  assume x: "0 \<le> x"
  then have "x / 2 ^ 53 \<le> x" by (simp add: divide_le_eq)
  with dbl_err [OF x] show ?thesis by linarith
qed

lemma dbl_fixpoint:
  assumes "0 < x" and "x / 2 powi (dbl_exponent x - 52) = of_int k"
  shows "dbl x = x"
proof -
  have "dbl x = x / 2 powi (dbl_exponent x - 52) * 2 powi (dbl_exponent x - 52)"
    by (simp only: dbl_pos [OF assms(1)] assms(2) round_half_even_int)
  then show ?thesis by simp
qed

text \<open>Integers below \<open>2 ^ 53\<close> are representable.\<close>

lemma dbl_of_nat:
  assumes "n < 2 ^ 53"
  shows "dbl (of_nat n) = of_nat n"
proof (cases "n = 0")
  case True
  then show ?thesis by simp
next
  case False
  then have x: "0 < (of_nat n :: rat)" by simp
  define e where "e = dbl_exponent (of_nat n)"
  have "(of_nat n :: rat) < 2 powi 53"
    using less_imp_of_nat_less [OF assms, where 'a = rat] by simp
  then have "(2 :: rat) powi e < 2 powi 53"
    using dbl_exponent_bounds(1) [OF x] unfolding e_def by linarith
  then have "\<not> 53 \<le> e"
    using power_int_increasing [of 53 e "2 :: rat"] by fastforce
  then have "(2 :: rat) powi (e - 52) = inverse (2 ^ nat (52 - e))"
    by (cases "e = 52") (simp_all add: power_int_def power_one_over inverse_eq_divide)
  then have "of_nat n / 2 powi (e - 52) = (of_int (int n * 2 ^ nat (52 - e)) :: rat)"
    by (simp add: divide_inverse)
  then show ?thesis
    unfolding e_def by (rule dbl_fixpoint [OF x])
qed

text \<open>So are halves of them.\<close>

lemma dbl_half:
  assumes "m < 2 ^ 52"
  shows "dbl (of_nat m / 2) = of_nat m / 2"
proof (cases "m = 0")
  case True
  then show ?thesis by simp
next
  case False
  then have x: "0 < (of_nat m / 2 :: rat)" by simp
  define e where "e = dbl_exponent (of_nat m / 2)"
  have "(of_nat m / 2 :: rat) < 2 powi 51"
    using less_imp_of_nat_less [OF assms, where 'a = rat] by simp
  then have "(2 :: rat) powi e < 2 powi 51"
    using dbl_exponent_bounds(1) [OF x] unfolding e_def by linarith
  then have lt: "e < 51"
    using power_int_increasing [of 51 e "2 :: rat"] by fastforce
  then have "nat (52 - e) = Suc (nat (51 - e))"
    by linarith
  moreover have "(2 :: rat) powi (e - 52) = inverse (2 ^ nat (52 - e))"
    using lt by (simp add: power_int_def power_one_over inverse_eq_divide)
  ultimately have pe: "(2 :: rat) powi (e - 52) = inverse (2 * 2 ^ nat (51 - e))"
    by (simp only: power_Suc)
  have "of_nat m / 2 / 2 powi (e - 52) = (of_int (int m * 2 ^ nat (51 - e)) :: rat)"
    unfolding pe by simp (simp only: divide_inverse inverse_inverse_eq)
  then show ?thesis
    unfolding e_def by (rule dbl_fixpoint [OF x])
qed

lemma dbl_mono_nonneg:
  assumes "0 \<le> x" and "x \<le> y"
  shows "dbl x \<le> dbl y"
proof (cases "x = 0")
  case True
  then show ?thesis
    using dbl_ge_0 assms by simp
next
  case False
  then have x: "0 < x" and y: "0 < y" using assms by auto
  define ex ey where "ex = dbl_exponent x" and "ey = dbl_exponent y"
  have dx: "dbl x = of_int (round_half_even (x / 2 powi (ex - 52))) * 2 powi (ex - 52)"
    and dy: "dbl y = of_int (round_half_even (y / 2 powi (ey - 52))) * 2 powi (ey - 52)"
    using x y by (simp_all add: dbl_pos ex_def ey_def)
  have "(2 :: rat) powi ex < 2 powi (ey + 1)"
    using dbl_exponent_bounds(1) [OF x] dbl_exponent_bounds(2) [OF y] assms unfolding ex_def ey_def by linarith
  then have "ex \<le> ey"
    using power_int_increasing [of "ey + 1" ex "2 :: rat"] by fastforce
  then consider "ex = ey" | "ex + 1 \<le> ey" by linarith
  then show ?thesis
  proof cases
    case 1
    have "round_half_even (x / 2 powi (ey - 52)) \<le> round_half_even (y / 2 powi (ey - 52))"
      using assms by (intro round_half_even_mono divide_right_mono) auto
    then show ?thesis
      unfolding dx dy 1 by (intro mult_right_mono) auto
  next
    case 2
    have "x / 2 powi (ex - 52) \<le> 2 powi (ex + 1) / 2 powi (ex - 52)"
      using dbl_exponent_bounds(2) [OF x] unfolding ex_def by (intro divide_right_mono) auto
    also have "\<dots> = of_int (2 ^ 53)"
      by (simp flip: power_int_diff)
    finally have "round_half_even (x / 2 powi (ex - 52)) \<le> 2 ^ 53"
      using round_half_even_mono round_half_even_int by metis
    then have "dbl x \<le> of_int (2 ^ 53) * 2 powi (ex - 52)"
      unfolding dx by (intro mult_right_mono) (simp_all only: of_int_le_iff, simp)
    also have "\<dots> = 2 powi (ex + 1)"
      by (simp add: power_int_add power_int_diff)
    also have "\<dots> \<le> 2 powi ey"
      using 2 by (intro power_int_increasing) auto
    also have "\<dots> = of_int (2 ^ 52) * 2 powi (ey - 52)"
      by (simp add: power_int_diff)
    also have "\<dots> \<le> dbl y"
    proof -
      have "of_int (2 ^ 52) = (2 powi ey / 2 powi (ey - 52) :: rat)"
        by (simp flip: power_int_diff)
      also have "\<dots> \<le> y / 2 powi (ey - 52)"
        using dbl_exponent_bounds(1) [OF y] unfolding ey_def by (intro divide_right_mono) auto
      finally have "2 ^ 52 \<le> round_half_even (y / 2 powi (ey - 52))"
        using round_half_even_mono round_half_even_int by metis
      then show ?thesis
        unfolding dy by (intro mult_right_mono) (simp_all only: of_int_le_iff, simp)
    qed
    finally show ?thesis .
  qed
qed

text \<open>A rounded division of integers has the floor and the ceiling of the exact one.\<close>

lemma floor_dbl_div:
  assumes "a < 2 ^ 53" and "0 < b"
  shows "\<lfloor>dbl (of_nat a / of_nat b)\<rfloor> = int (a div b)"
proof (rule floor_unique)
  define q where "q = (of_nat a / of_nat b :: rat)"
  have q: "0 \<le> q" by (simp add: q_def)
  have "of_nat (a div b) \<le> q"
    using div_times_less_eq_dividend [of a b] assms(2)
    unfolding q_def by (simp add: pos_le_divide_eq of_nat_mult [symmetric] del: of_nat_mult)
  moreover have "a div b < 2 ^ 53"
    using assms(1) div_le_dividend [of a b] by linarith
  ultimately show "of_int (int (a div b)) \<le> dbl (of_nat a / of_nat b)"
    using dbl_mono_nonneg [of "of_nat (a div b)" q] by (simp add: dbl_of_nat q_def)
  have "a + 1 \<le> (a div b + 1) * b"
    using dividend_less_div_times [OF assms(2), of a] by simp
  then have "(of_nat (a + 1) :: rat) \<le> of_nat ((a div b + 1) * b)"
    by (simp only: of_nat_le_iff)
  then have "(of_nat (a + 1) :: rat) / of_nat b \<le> of_nat ((a div b + 1) * b) / of_nat b"
    by (rule divide_right_mono) simp
  then have "q + 1 / of_nat b \<le> of_nat (a div b) + 1"
    using assms(2) unfolding q_def by (simp add: add_divide_distrib)
  moreover have "q / 2 ^ 53 < 1 / of_nat b"
    using less_imp_of_nat_less [OF assms(1), where 'a = rat] assms(2) unfolding q_def
    by (simp add: field_simps)
  moreover have "dbl q \<le> q + q / 2 ^ 53"
    using dbl_err [OF q] by linarith
  ultimately show "dbl (of_nat a / of_nat b) < of_int (int (a div b)) + 1"
    unfolding q_def by simp
qed

lemma ceiling_dbl_div:
  assumes "a < 2 ^ 53" and "0 < b"
  shows "\<lceil>dbl (of_nat a / of_nat b)\<rceil> = int ((a + b - 1) div b)"
proof (rule ceiling_unique)
  define q c where "q = (of_nat a / of_nat b :: rat)" and "c = (a + b - 1) div b"
  have q: "0 \<le> q" by (simp add: q_def)
  have ac: "a \<le> c * b"
    using assms(2) dividend_less_div_times [of b "a + b - 1"] unfolding c_def by linarith
  have ca: "c * b \<le> a + b - 1"
    unfolding c_def by (rule div_times_less_eq_dividend)
  have "q \<le> of_nat c"
    using ac assms(2) unfolding q_def by (simp add: pos_divide_le_eq of_nat_mult [symmetric] del: of_nat_mult)
  moreover have "c < 2 ^ 53"
  proof (cases "a = 0")
    case True
    then show ?thesis using assms(2) by (simp add: c_def)
  next
    case False
    then obtain m where "a = Suc m" by (cases a) auto
    then have "c * b \<le> m * 1 + b" using ca by simp
    also have "\<dots> \<le> m * b + b" using assms(2) by (intro add_mono mult_left_mono) auto
    finally have "c * b \<le> a * b" using \<open>a = Suc m\<close> by simp
    then show ?thesis using assms by simp
  qed
  ultimately show "dbl (of_nat a / of_nat b) \<le> of_int (int ((a + b - 1) div b))"
    using dbl_mono_nonneg [OF q, of "of_nat c"] by (simp add: dbl_of_nat q_def c_def)
  have "(of_nat (c * b) :: rat) < of_nat (a + b)"
    using ca assms(2) by (simp only: of_nat_less_iff)
  then have "of_nat (c * b) + 1 \<le> (of_nat (a + b) :: rat)"
    by (metis Suc_leI of_nat_Suc of_nat_le_iff of_nat_less_iff add.commute)
  then have "(of_nat (c * b) + 1) / of_nat b \<le> (of_nat (a + b) / of_nat b :: rat)"
    by (rule divide_right_mono) simp
  then have "of_nat c - 1 + 1 / of_nat b \<le> q"
    using assms(2) unfolding q_def by (simp add: add_divide_distrib)
  moreover have "q / 2 ^ 53 < 1 / of_nat b"
    using less_imp_of_nat_less [OF assms(1), where 'a = rat] assms(2) unfolding q_def
    by (simp add: field_simps)
  moreover have "q - q / 2 ^ 53 \<le> dbl q"
    using dbl_err [OF q] by linarith
  ultimately show "of_int (int ((a + b - 1) div b)) - 1 < dbl (of_nat a / of_nat b)"
    unfolding q_def c_def by simp
qed

end
