(* ===== verification/JitQueue.thy ===== *)
theory JitQueue
  imports TimeOnAir
begin

text \<open>
  The Just-In-Time downlink queue, \<^verbatim>\<open>clusterduck/src/jitqueue.c\<close> and \<^verbatim>\<open>clusterduck/inc/jitqueue.h\<close>:
  the array of scheduled packets with their reserved time around the departure time, the
  collision test on the wrapping microsecond counter, and the four operations. Each operation
  runs under the queue's mutex, so it is one step of the model. The debug counter the
  comparator increments and the trace output are left out.
\<close>

datatype jit_pkt_type_e =
    JIT_PKT_TYPE_DOWNLINK_CLASS_A
  | JIT_PKT_TYPE_DOWNLINK_CLASS_B
  | JIT_PKT_TYPE_DOWNLINK_CLASS_C
  | JIT_PKT_TYPE_BEACON

datatype jit_error_e =
    JIT_ERROR_OK
  | JIT_ERROR_TOO_LATE
  | JIT_ERROR_TOO_EARLY
  | JIT_ERROR_FULL
  | JIT_ERROR_EMPTY
  | JIT_ERROR_COLLISION_PACKET
  | JIT_ERROR_COLLISION_BEACON
  | JIT_ERROR_TX_FREQ
  | JIT_ERROR_TX_POWER
  | JIT_ERROR_GPS_UNLOCKED
  | JIT_ERROR_INVALID

record jit_node_s =
  pkt :: lgw_pkt_tx_s
  pkt_type :: jit_pkt_type_e
  pre_delay :: u32
  post_delay :: u32

record jit_queue_s =
  num_pkt :: u8
  num_beacon :: u8
  nodes :: "jit_node_s list"

abbreviation (input) JIT_QUEUE_MAX :: nat where "JIT_QUEUE_MAX \<equiv> 32"
abbreviation (input) JIT_NUM_BEACON_IN_QUEUE :: u8 where "JIT_NUM_BEACON_IN_QUEUE \<equiv> 3"
abbreviation (input) TX_START_DELAY :: u32 where "TX_START_DELAY \<equiv> 1500"
abbreviation (input) TX_MARGIN_DELAY :: u32 where "TX_MARGIN_DELAY \<equiv> 1000"
abbreviation (input) TX_JIT_DELAY :: u32 where "TX_JIT_DELAY \<equiv> 40000"
abbreviation (input) TX_MAX_ADVANCE_DELAY :: u32 where "TX_MAX_ADVANCE_DELAY \<equiv> 512000000"
abbreviation (input) BEACON_GUARD :: u32 where "BEACON_GUARD \<equiv> 3000000"
abbreviation (input) BEACON_RESERVED :: u32 where "BEACON_RESERVED \<equiv> 2120000"

text \<open>A node cleared by \<^verbatim>\<open>memset\<close>: the packet type with value 0 is class A.\<close>

definition jit_node_zero :: jit_node_s where
  "jit_node_zero =
     \<lparr>pkt = tx_pkt_zero, pkt_type = JIT_PKT_TYPE_DOWNLINK_CLASS_A, pre_delay = 0, post_delay = 0\<rparr>"

definition jit_queue_is_full :: "jit_queue_s \<Rightarrow> bool" where
  "jit_queue_is_full q \<longleftrightarrow> num_pkt q = 32"

definition jit_queue_is_empty :: "jit_queue_s \<Rightarrow> bool" where
  "jit_queue_is_empty q \<longleftrightarrow> num_pkt q = 0"

definition jit_queue_init :: jit_queue_s where
  "jit_queue_init = \<lparr>num_pkt = 0, num_beacon = 0, nodes = replicate JIT_QUEUE_MAX jit_node_zero\<rparr>"

text \<open>
  The comparator reads both counters as \<^verbatim>\<open>int\<close> and returns their difference; the subtraction
  wraps (two's complement).
\<close>

definition compare_jit :: "jit_node_s \<Rightarrow> jit_node_s \<Rightarrow> int" where
  "compare_jit p q = sint (tx_count_us (pkt p) - tx_count_us (pkt q))"

definition jit_sort_queue :: "jit_queue_s \<Rightarrow> jit_queue_s" where
  "jit_sort_queue q =
     (if num_pkt q = 0 then q
      else q\<lparr>nodes := qsort_r compare_jit (take (unat (num_pkt q)) (nodes q)) @
                      drop (unat (num_pkt q)) (nodes q)\<rparr>)"

definition jit_collision_test :: "u32 \<Rightarrow> u32 \<Rightarrow> u32 \<Rightarrow> u32 \<Rightarrow> u32 \<Rightarrow> u32 \<Rightarrow> bool" where
  "jit_collision_test p1_count_us p1_pre_delay p1_post_delay p2_count_us p2_pre_delay p2_post_delay \<longleftrightarrow>
     p1_count_us - p2_count_us \<le> p1_pre_delay + p2_post_delay + TX_MARGIN_DELAY \<or>
     p2_count_us - p1_count_us \<le> p2_pre_delay + p1_post_delay + TX_MARGIN_DELAY"

text \<open>The \<^verbatim>\<open>switch (pkt_type)\<close> of \<^verbatim>\<open>jit_enqueue\<close>: the time reserved before and after a packet.\<close>

definition jit_pkt_pre_delay :: "jit_pkt_type_e \<Rightarrow> u32" where
  "jit_pkt_pre_delay ty =
     (case ty of JIT_PKT_TYPE_BEACON \<Rightarrow> TX_START_DELAY + BEACON_GUARD + TX_JIT_DELAY
      | _ \<Rightarrow> TX_START_DELAY + TX_JIT_DELAY)"

definition jit_pkt_post_delay :: "u8 \<Rightarrow> lgw_pkt_tx_s \<Rightarrow> jit_pkt_type_e \<Rightarrow> u32" where
  "jit_pkt_post_delay sws packet ty =
     (case ty of JIT_PKT_TYPE_BEACON \<Rightarrow> BEACON_RESERVED
      | _ \<Rightarrow> lgw_time_on_air sws (Some packet) * 1000)"

text \<open>
  The search for the first free slot of an immediate (class C) downlink. The first loop asks
  whether the packet collides anywhere at the earliest time; the second one walks the queue
  and tries the slot right after each packet, checking it against the next packet only.
\<close>

definition jit_asap_after :: "u32 \<Rightarrow> jit_node_s \<Rightarrow> u32" where
  "jit_asap_after packet_pre_delay n =
     tx_count_us (pkt n) + post_delay n + packet_pre_delay + TX_JIT_DELAY + TX_MARGIN_DELAY"

fun jit_best_slot :: "u32 \<Rightarrow> u32 \<Rightarrow> u32 \<Rightarrow> jit_node_s list \<Rightarrow> u32" where
  "jit_best_slot pre post asap [] = asap"
| "jit_best_slot pre post asap [n] = jit_asap_after pre n"
| "jit_best_slot pre post asap (n # m # ns) =
     (if jit_collision_test (jit_asap_after pre n) pre post
           (tx_count_us (pkt m)) (pre_delay m) (post_delay m)
      then jit_best_slot pre post (jit_asap_after pre n) (m # ns)
      else jit_asap_after pre n)"

definition jit_asap_count :: "u32 \<Rightarrow> u32 \<Rightarrow> u32 \<Rightarrow> jit_node_s list \<Rightarrow> u32" where
  "jit_asap_count time_us pre post act =
     (let asap = time_us + 2 * TX_JIT_DELAY
      in if act = [] then asap
         else if \<not> list_ex (\<lambda>n. jit_collision_test asap pre post
                               (tx_count_us (pkt n)) (pre_delay n) (post_delay n)) act
         then asap
         else jit_best_slot pre post asap act)"

text \<open>Criterion 3: the first queued packet the new one overlaps, and the error it gives.\<close>

definition jit_target_pre_delay :: "jit_pkt_type_e \<Rightarrow> jit_node_s \<Rightarrow> u32" where
  "jit_target_pre_delay ty n =
     (if (ty = JIT_PKT_TYPE_DOWNLINK_CLASS_A \<or> ty = JIT_PKT_TYPE_DOWNLINK_CLASS_C) \<and>
         pkt_type n = JIT_PKT_TYPE_BEACON
      then TX_START_DELAY else pre_delay n)"

definition jit_collides :: "u32 \<Rightarrow> u32 \<Rightarrow> u32 \<Rightarrow> jit_pkt_type_e \<Rightarrow> jit_node_s \<Rightarrow> bool" where
  "jit_collides cnt pre post ty n \<longleftrightarrow>
     jit_collision_test cnt pre post (tx_count_us (pkt n)) (jit_target_pre_delay ty n) (post_delay n)"

fun jit_find_collision :: "u32 \<Rightarrow> u32 \<Rightarrow> u32 \<Rightarrow> jit_pkt_type_e \<Rightarrow> jit_node_s list \<Rightarrow> jit_error_e option" where
  "jit_find_collision cnt pre post ty [] = None"
| "jit_find_collision cnt pre post ty (n # ns) =
     (if jit_collides cnt pre post ty n
      then Some (case pkt_type n of JIT_PKT_TYPE_BEACON \<Rightarrow> JIT_ERROR_COLLISION_BEACON
                 | _ \<Rightarrow> JIT_ERROR_COLLISION_PACKET)
      else jit_find_collision cnt pre post ty ns)"

text \<open>The slots in use, \<^verbatim>\<open>nodes[0]\<close> to \<^verbatim>\<open>nodes[num_pkt - 1]\<close>: what the loops of the source range over.\<close>

definition jit_active :: "jit_queue_s \<Rightarrow> jit_node_s list" where
  "jit_active q = take (unat (num_pkt q)) (nodes q)"

text \<open>
  \<^verbatim>\<open>jit_enqueue\<close> returns the error code, the queue, and the packet it was given, whose
  \<^verbatim>\<open>tx_mode\<close> and \<^verbatim>\<open>count_us\<close> it overwrites for an immediate downlink.
\<close>

definition jit_enqueue ::
    "u8 \<Rightarrow> jit_queue_s \<Rightarrow> u32 \<Rightarrow> lgw_pkt_tx_s option \<Rightarrow> jit_pkt_type_e \<Rightarrow>
     jit_error_e \<times> jit_queue_s \<times> lgw_pkt_tx_s option" where
  "jit_enqueue sws q time_us packet ty =
     (case packet of
        None \<Rightarrow> (JIT_ERROR_INVALID, q, None)
      | Some p0 \<Rightarrow>
          if jit_queue_is_full q then (JIT_ERROR_FULL, q, Some p0)
          else
            let pre = jit_pkt_pre_delay ty;
                post = jit_pkt_post_delay sws p0 ty;
                p = (if ty = JIT_PKT_TYPE_DOWNLINK_CLASS_C
                     then p0\<lparr>tx_mode := TIMESTAMPED,
                             tx_count_us := jit_asap_count time_us pre post (jit_active q)\<rparr>
                     else p0)
            in if tx_count_us p - time_us \<le> TX_START_DELAY + TX_MARGIN_DELAY + TX_JIT_DELAY
               then (JIT_ERROR_TOO_LATE, q, Some p)
               else if (ty = JIT_PKT_TYPE_DOWNLINK_CLASS_A \<or> ty = JIT_PKT_TYPE_DOWNLINK_CLASS_B) \<and>
                       tx_count_us p - time_us > TX_MAX_ADVANCE_DELAY
               then (JIT_ERROR_TOO_EARLY, q, Some p)
               else case jit_find_collision (tx_count_us p) pre post ty (jit_active q) of
                 Some err \<Rightarrow> (err, q, Some p)
               | None \<Rightarrow>
                   let node = \<lparr>pkt = p, pkt_type = ty, pre_delay = pre, post_delay = post\<rparr>;
                       q1 = q\<lparr>nodes := (nodes q)[unat (num_pkt q) := node],
                              num_beacon := (if ty = JIT_PKT_TYPE_BEACON then num_beacon q + 1 else num_beacon q),
                              num_pkt := num_pkt q + 1\<rparr>
                   in (JIT_ERROR_OK, jit_sort_queue q1, Some p))"

text \<open>
  Taking the node at an index out of the array, as \<^verbatim>\<open>jit_dequeue\<close> and the purge of \<^verbatim>\<open>jit_peek\<close>
  both do: the last packet is copied over it, the last slot is cleared, the queue sorted.
\<close>

definition jit_remove_at :: "jit_queue_s \<Rightarrow> nat \<Rightarrow> jit_queue_s" where
  "jit_remove_at q i =
     (let n' = num_pkt q - 1;
          nb = (if pkt_type (nodes q ! i) = JIT_PKT_TYPE_BEACON then num_beacon q - 1 else num_beacon q)
      in jit_sort_queue
           (q\<lparr>num_pkt := n', num_beacon := nb,
              nodes := (nodes q)[i := nodes q ! unat n', unat n' := jit_node_zero]\<rparr>))"

text \<open>
  \<^verbatim>\<open>jit_dequeue\<close>: \<open>has_packet\<close> says that the out-pointer for the packet is not NULL. On success
  the packet and its type are returned.
\<close>

definition jit_dequeue ::
    "jit_queue_s \<Rightarrow> int \<Rightarrow> bool \<Rightarrow> jit_error_e \<times> jit_queue_s \<times> (lgw_pkt_tx_s \<times> jit_pkt_type_e) option" where
  "jit_dequeue q index has_packet =
     (if \<not> has_packet then (JIT_ERROR_INVALID, q, None)
      else if index < 0 \<or> int JIT_QUEUE_MAX \<le> index then (JIT_ERROR_INVALID, q, None)
      else if jit_queue_is_empty q then (JIT_ERROR_EMPTY, q, None)
      else let n = nodes q ! nat index
           in (JIT_ERROR_OK, jit_remove_at q (nat index), Some (pkt n, pkt_type n)))"

text \<open>
  The loop of \<^verbatim>\<open>jit_peek\<close>. A packet too far in advance was missed and is dropped; the source then
  sets \<^verbatim>\<open>i = 0\<close> and continues, so the loop increment makes the next index examined 1. The
  second component is \<^verbatim>\<open>idx_highest_priority\<close>, which is not reset by the purge.
\<close>

lemma unat_pred_less: "(i :: nat) < unat (w :: u8) \<Longrightarrow> unat (w - 1) < unat w"
  by (metis bot_nat_0.not_eq_extremum less_nat_zero_code measure_unat unat_0)

lemma num_pkt_jit_sort_queue [simp]: "num_pkt (jit_sort_queue q) = num_pkt q"
  by (simp add: jit_sort_queue_def)

lemma num_pkt_jit_remove_at [simp]: "num_pkt (jit_remove_at q i) = num_pkt q - 1"
  by (simp add: jit_remove_at_def Let_def)

function jit_peek_loop :: "u32 \<Rightarrow> jit_queue_s \<Rightarrow> nat \<Rightarrow> int \<Rightarrow> jit_queue_s \<times> int" where
  "jit_peek_loop time_us q i idx =
     (if i < unat (num_pkt q) then
        (if tx_count_us (pkt (nodes q ! i)) - time_us \<ge> TX_MAX_ADVANCE_DELAY
         then jit_peek_loop time_us (jit_remove_at q i) 1 idx
         else if idx = -1 \<or> tx_count_us (pkt (nodes q ! i)) - time_us
                            < tx_count_us (pkt (nodes q ! nat idx)) - time_us
         then jit_peek_loop time_us q (Suc i) (int i)
         else jit_peek_loop time_us q (Suc i) idx)
      else (q, idx))"
  by pat_completeness auto
termination
  by (relation "measures [\<lambda>(t, q, i, idx). unat (num_pkt q), \<lambda>(t, q, i, idx). unat (num_pkt q) - i]")
    (auto simp: unat_pred_less)

declare jit_peek_loop.simps [simp del]

text \<open>
  \<^verbatim>\<open>jit_peek\<close>. When every packet was dropped the index is still \<open>- 1\<close> and the source reads
  \<^verbatim>\<open>nodes[-1]\<close>: the fault. \<open>has_idx\<close> says that the out-pointer is not NULL.
\<close>

definition jit_peek ::
    "jit_queue_s \<Rightarrow> u32 \<Rightarrow> bool \<Rightarrow> c_fault + (jit_error_e \<times> jit_queue_s \<times> int option)" where
  "jit_peek q time_us has_idx =
     (if \<not> has_idx then Inr (JIT_ERROR_INVALID, q, None)
      else if jit_queue_is_empty q then Inr (JIT_ERROR_EMPTY, q, None)
      else let (q', idx) = jit_peek_loop time_us q 0 (-1)
           in if idx = -1 then Inl OutOfBounds
              else if tx_count_us (pkt (nodes q' ! nat idx)) - time_us < TX_JIT_DELAY
              then Inr (JIT_ERROR_OK, q', Some idx)
              else Inr (JIT_ERROR_OK, q', Some (-1)))"

end
