(* ===== verification/JitQueueLemmas.thy ===== *)
theory JitQueueLemmas
  imports JitQueue
begin

text \<open>
  The invariant of the Just-In-Time queue and the facts on its operations: the queue seen as
  the multiset of its active nodes, what each operation adds or removes, and the order of the
  wrapping counter. The interface \<open>slot_store\<close> is interpreted on the queue.
\<close>

definition jit_is_beacon :: "jit_node_s \<Rightarrow> bool" where
  "jit_is_beacon n \<longleftrightarrow> pkt_type n = JIT_PKT_TYPE_BEACON"

text \<open>
  Well-formed: the array has its 32 slots, the packet count fits, the beacon count is the
  number of active beacons, and the slots past the active ones are cleared.
\<close>

definition jit_wf :: "jit_queue_s \<Rightarrow> bool" where
  "jit_wf q \<longleftrightarrow> length (nodes q) = JIT_QUEUE_MAX \<and> unat (num_pkt q) \<le> JIT_QUEUE_MAX \<and>
     unat (num_beacon q) = length (filter jit_is_beacon (jit_active q)) \<and>
     drop (unat (num_pkt q)) (nodes q) = replicate (JIT_QUEUE_MAX - unat (num_pkt q)) jit_node_zero"

text \<open>Two queued packets can both be sent: one of them was admissible when the other was there.\<close>

definition jit_compat :: "jit_node_s \<Rightarrow> jit_node_s \<Rightarrow> bool" where
  "jit_compat a b \<longleftrightarrow>
     \<not> jit_collides (tx_count_us (pkt a)) (pre_delay a) (post_delay a) (pkt_type a) b \<or>
     \<not> jit_collides (tx_count_us (pkt b)) (pre_delay b) (post_delay b) (pkt_type b) a"

definition jit_separated :: "jit_queue_s \<Rightarrow> bool" where
  "jit_separated q \<longleftrightarrow> sorted_wrt jit_compat (jit_active q)"

text \<open>A packet the purge of \<^verbatim>\<open>jit_peek\<close> drops.\<close>

definition jit_outdated :: "u32 \<Rightarrow> jit_node_s \<Rightarrow> bool" where
  "jit_outdated time_us n \<longleftrightarrow> TX_MAX_ADVANCE_DELAY \<le> tx_count_us (pkt n) - time_us"

lemma symp_jit_compat: "symp jit_compat"
  by (auto simp: symp_def jit_compat_def)

lemma jit_wf_lengths:
  assumes "jit_wf q"
  shows "length (nodes q) = 32" and "unat (num_pkt q) \<le> 32" and "length (jit_active q) = unat (num_pkt q)"
  using assms by (auto simp: jit_wf_def jit_active_def)

lemma jit_active_nth: "jit_wf q \<Longrightarrow> i < unat (num_pkt q) \<Longrightarrow> jit_active q ! i = nodes q ! i"
  by (simp add: jit_active_def)

lemma jit_active_mem: "jit_wf q \<Longrightarrow> i < unat (num_pkt q) \<Longrightarrow> nodes q ! i \<in> set (jit_active q)"
  by (metis jit_active_nth jit_wf_lengths(3) nth_mem)

lemma jit_wf_init: "jit_wf jit_queue_init"
  by (simp add: jit_wf_def jit_queue_init_def jit_active_def)

lemma jit_is_full_iff: "jit_queue_is_full q \<longleftrightarrow> unat (num_pkt q) = 32"
  unfolding jit_queue_is_full_def by (auto simp: word_unat_eq_iff)

lemma jit_is_empty_iff: "jit_queue_is_empty q \<longleftrightarrow> unat (num_pkt q) = 0"
  by (simp add: jit_queue_is_empty_def unat_eq_0)

subsection \<open>Sorting the active part\<close>

lemma jit_sort_queue_fields [simp]:
  "num_beacon (jit_sort_queue q) = num_beacon q"
  "length (nodes (jit_sort_queue q)) = length (nodes q)"
  by (auto simp: jit_sort_queue_def)

lemma jit_active_sort:
  "unat (num_pkt q) \<le> length (nodes q) \<Longrightarrow>
     jit_active (jit_sort_queue q) = qsort_r compare_jit (jit_active q)"
  by (auto simp: jit_sort_queue_def jit_active_def)

lemma jit_drop_sort:
  "unat (num_pkt q) \<le> length (nodes q) \<Longrightarrow>
     drop (unat (num_pkt q)) (nodes (jit_sort_queue q)) = drop (unat (num_pkt q)) (nodes q)"
  by (simp add: jit_sort_queue_def)

lemma jit_wf_sort: "jit_wf q \<Longrightarrow> jit_wf (jit_sort_queue q)"
  by (auto simp: jit_wf_def jit_active_sort jit_drop_sort qs.srt_filter)

lemma jit_mset_sort:
  "unat (num_pkt q) \<le> length (nodes q) \<Longrightarrow> mset (jit_active (jit_sort_queue q)) = mset (jit_active q)"
  by (simp add: jit_active_sort)

subsection \<open>Removing a node\<close>

lemma unat_pred: "0 < unat (w :: u8) \<Longrightarrow> unat (w - 1) = unat w - 1"
  by (metis One_nat_def bot_nat_0.not_eq_extremum unat_eq_zero unat_minus_one)

lemma jit_remove_at_active:
  assumes "jit_wf q" and "i < unat (num_pkt q)"
  shows "mset (jit_active (jit_remove_at q i)) = mset (jit_active q) - {#nodes q ! i#}"
proof -
  define m where "m = unat (num_pkt q) - 1"
  have m: "unat (num_pkt q - 1) = m"
    using assms unfolding m_def by (simp add: unat_pred)
  have len: "length (nodes q) = 32" "unat (num_pkt q) \<le> 32"
    using assms jit_wf_lengths by auto
  have "mset (jit_active (jit_remove_at q i)) = mset (take m ((nodes q)[i := nodes q ! m]))"
    using len assms(2) by (simp add: jit_remove_at_def Let_def jit_mset_sort m m_def) (simp add: jit_active_def m m_def)
  also have "\<dots> = mset (jit_active q) - {#nodes q ! i#}"
    unfolding m_def jit_active_def using assms(2) len by (intro mset_swap_remove) auto
  finally show ?thesis .
qed

lemma jit_remove_at_wf:
  assumes "jit_wf q" and i: "i < unat (num_pkt q)"
  shows "jit_wf (jit_remove_at q i)"
proof -
  define m where "m = unat (num_pkt q) - 1"
  have m: "unat (num_pkt q - 1) = m"
    using i unfolding m_def by (simp add: unat_pred)
  have len: "length (nodes q) = 32" "unat (num_pkt q) \<le> 32"
    using assms jit_wf_lengths by auto
  have im: "i \<le> m" and mn: "unat (num_pkt q) = Suc m" using i by (auto simp: m_def)
  have fnum: "length (filter jit_is_beacon (jit_active (jit_remove_at q i))) =
      length (filter jit_is_beacon (jit_active q)) - (if jit_is_beacon (nodes q ! i) then 1 else 0)"
  proof -
    have "size (filter_mset jit_is_beacon (mset (jit_active (jit_remove_at q i)))) =
        size (filter_mset jit_is_beacon (mset (jit_active q)) -
              (if jit_is_beacon (nodes q ! i) then {#nodes q ! i#} else {#}))"
      unfolding jit_remove_at_active [OF assms] by (simp add: filter_diff_mset)
    moreover have "nodes q ! i \<in># mset (jit_active q)"
      using assms jit_active_mem by simp
    ultimately show ?thesis
      by (auto simp: size_Diff_singleton simp flip: mset_filter size_mset)
  qed
  have bpos: "0 < unat (num_beacon q)" if "jit_is_beacon (nodes q ! i)"
  proof -
    have "nodes q ! i \<in> set (filter jit_is_beacon (jit_active q))"
      using that assms jit_active_mem by simp
    then have "0 < length (filter jit_is_beacon (jit_active q))"
      by (rule length_pos_if_in_set)
    then show ?thesis using assms(1) by (simp only: jit_wf_def)
  qed
  have nb: "unat (num_beacon (jit_remove_at q i)) = length (filter jit_is_beacon (jit_active (jit_remove_at q i)))"
    unfolding fnum using assms(1) bpos
    by (auto simp: jit_remove_at_def Let_def jit_wf_def unat_pred jit_is_beacon_def)
  have "drop m (nodes (jit_remove_at q i)) = drop m ((nodes q)[i := nodes q ! m, m := jit_node_zero])"
    using len mn by (auto simp: jit_remove_at_def Let_def m jit_sort_queue_def)
  also have "\<dots> = jit_node_zero # drop (Suc m) (nodes q)"
    using im len mn by (cases "i = m") (simp_all add: drop_update_swap drop_update_cancel Cons_nth_drop_Suc [symmetric])
  also have "drop (Suc m) (nodes q) = replicate (32 - Suc m) jit_node_zero"
    using assms(1) mn by (simp add: jit_wf_def)
  finally have tail: "drop m (nodes (jit_remove_at q i)) = replicate (32 - m) jit_node_zero"
    using mn len by (simp add: Suc_diff_Suc flip: replicate_Suc)
  show ?thesis
    using nb tail m mn len by (simp add: jit_wf_def) (simp add: jit_remove_at_def Let_def)
qed

interpretation jit_slots: slot_store jit_wf jit_active jit_remove_at
  by unfold_locales (auto simp: jit_remove_at_wf jit_remove_at_active jit_wf_lengths jit_active_nth)

subsection \<open>Enqueuing\<close>

text \<open>The node \<^verbatim>\<open>jit_enqueue\<close> would insert, with the departure time of an immediate downlink filled in.\<close>

definition jit_new_node :: "u8 \<Rightarrow> jit_queue_s \<Rightarrow> u32 \<Rightarrow> lgw_pkt_tx_s \<Rightarrow> jit_pkt_type_e \<Rightarrow> jit_node_s" where
  "jit_new_node sws q time_us p ty =
     (let pre = jit_pkt_pre_delay ty; post = jit_pkt_post_delay sws p ty
      in \<lparr>pkt = (if ty = JIT_PKT_TYPE_DOWNLINK_CLASS_C
                 then p\<lparr>tx_mode := TIMESTAMPED, tx_count_us := jit_asap_count time_us pre post (jit_active q)\<rparr>
                 else p),
          pkt_type = ty, pre_delay = pre, post_delay = post\<rparr>)"

definition jit_too_late :: "u32 \<Rightarrow> jit_node_s \<Rightarrow> bool" where
  "jit_too_late time_us n \<longleftrightarrow> tx_count_us (pkt n) - time_us \<le> TX_START_DELAY + TX_MARGIN_DELAY + TX_JIT_DELAY"

definition jit_too_early :: "u32 \<Rightarrow> jit_node_s \<Rightarrow> bool" where
  "jit_too_early time_us n \<longleftrightarrow>
     (pkt_type n = JIT_PKT_TYPE_DOWNLINK_CLASS_A \<or> pkt_type n = JIT_PKT_TYPE_DOWNLINK_CLASS_B) \<and>
     TX_MAX_ADVANCE_DELAY < tx_count_us (pkt n) - time_us"

definition jit_node_collides :: "jit_node_s \<Rightarrow> jit_node_s \<Rightarrow> bool" where
  "jit_node_collides new n \<longleftrightarrow>
     jit_collides (tx_count_us (pkt new)) (pre_delay new) (post_delay new) (pkt_type new) n"

definition jit_append :: "jit_queue_s \<Rightarrow> jit_node_s \<Rightarrow> jit_queue_s" where
  "jit_append q n =
     jit_sort_queue (q\<lparr>nodes := (nodes q)[unat (num_pkt q) := n],
                      num_beacon := (if pkt_type n = JIT_PKT_TYPE_BEACON then num_beacon q + 1 else num_beacon q),
                      num_pkt := num_pkt q + 1\<rparr>)"

lemma jit_find_collision_None:
  "jit_find_collision cnt pre post ty ns = None \<longleftrightarrow> (\<forall>n\<in>set ns. \<not> jit_collides cnt pre post ty n)"
  by (induction ns) auto

lemma jit_find_collision_Some:
  "jit_find_collision cnt pre post ty ns = Some err \<Longrightarrow>
     (\<exists>n\<in>set ns. jit_collides cnt pre post ty n \<and>
        err = (if jit_is_beacon n then JIT_ERROR_COLLISION_BEACON else JIT_ERROR_COLLISION_PACKET))"
  by (induction ns) (auto simp: jit_is_beacon_def split: if_splits jit_pkt_type_e.splits)

text \<open>\<^verbatim>\<open>jit_enqueue\<close> as a decision over the new node.\<close>

lemma jit_enqueue_Some:
  "jit_enqueue sws q time_us (Some p) ty =
     (let n = jit_new_node sws q time_us p ty
      in if jit_queue_is_full q then (JIT_ERROR_FULL, q, Some p)
         else if jit_too_late time_us n then (JIT_ERROR_TOO_LATE, q, Some (pkt n))
         else if jit_too_early time_us n then (JIT_ERROR_TOO_EARLY, q, Some (pkt n))
         else case jit_find_collision (tx_count_us (pkt n)) (pre_delay n) (post_delay n) ty (jit_active q) of
           Some err \<Rightarrow> (err, q, Some (pkt n))
         | None \<Rightarrow> (JIT_ERROR_OK, jit_append q n, Some (pkt n)))"
  by (simp add: jit_enqueue_def jit_new_node_def jit_too_late_def jit_too_early_def jit_append_def Let_def
      split: option.split)

lemma jit_enqueue_OK:
  "jit_enqueue sws q time_us (Some p) ty = (JIT_ERROR_OK, q', p') \<longleftrightarrow>
     (let n = jit_new_node sws q time_us p ty
      in \<not> jit_queue_is_full q \<and> \<not> jit_too_late time_us n \<and> \<not> jit_too_early time_us n \<and>
         (\<forall>m\<in>set (jit_active q). \<not> jit_node_collides n m) \<and> q' = jit_append q n \<and> p' = Some (pkt n))"
proof -
  have ty: "pkt_type (jit_new_node sws q time_us p ty) = ty"
    by (simp add: jit_new_node_def Let_def)
  have "Some err = jit_find_collision c a b ty ns \<Longrightarrow> err \<noteq> JIT_ERROR_OK" for err c a b ns
    by (auto dest!: jit_find_collision_Some [OF sym] split: if_splits)
  then show ?thesis
    by (auto simp: jit_enqueue_Some Let_def ty jit_node_collides_def jit_find_collision_None [symmetric] eq_commute
        split: option.split)
qed

lemma jit_append_active:
  assumes "jit_wf q" and "\<not> jit_queue_is_full q"
  shows "mset (jit_active (jit_append q n)) = add_mset n (mset (jit_active q))"
proof -
  have len: "length (nodes q) = 32" "unat (num_pkt q) < 32"
    using assms jit_wf_lengths [OF assms(1)] by (auto simp: jit_is_full_iff)
  then have s: "unat (num_pkt q + 1) = Suc (unat (num_pkt q))"
    by (simp add: unat_word_ariths)
  then show ?thesis
    using len by (simp add: jit_append_def jit_mset_sort) (simp add: jit_active_def s take_Suc_conv_app_nth)
qed

lemma jit_append_wf:
  assumes "jit_wf q" and "\<not> jit_queue_is_full q"
  shows "jit_wf (jit_append q n)"
proof -
  have len: "length (nodes q) = 32" "unat (num_pkt q) < 32"
    using assms jit_wf_lengths [OF assms(1)] by (auto simp: jit_is_full_iff)
  have s: "unat (num_pkt q + 1) = Suc (unat (num_pkt q))"
    using len by (simp add: unat_word_ariths)
  have "length (filter jit_is_beacon (jit_active q)) \<le> length (jit_active q)"
    by (rule length_filter_le)
  then have "unat (num_beacon q) < 32"
    using assms(1) len jit_wf_lengths(3) [OF assms(1)] by (simp add: jit_wf_def)
  then have b: "unat (num_beacon q + 1) = Suc (unat (num_beacon q))"
    by (simp add: unat_word_ariths)
  have "drop (Suc (unat (num_pkt q))) (nodes q) = tl (drop (unat (num_pkt q)) (nodes q))"
    by (simp add: drop_Suc tl_drop)
  then have "drop (Suc (unat (num_pkt q))) (nodes q) = replicate (31 - unat (num_pkt q)) jit_node_zero"
    using assms(1) len by (simp add: jit_wf_def tl_replicate)
  then show ?thesis
    unfolding jit_append_def using assms(1) len s b
    by (intro jit_wf_sort)
      (auto simp: jit_wf_def jit_active_def jit_is_beacon_def take_Suc_conv_app_nth)
qed

end
