(* ===== verification/JitQueueProps.thy ===== *)
theory JitQueueProps
  imports JitQueueLemmas
begin

text \<open>
  Properties of the Just-In-Time queue: the invariant of every queue the operations can
  reach, what an accepted or refused request means, which packet a peek selects, what it may
  drop, and the meaning of the collision test and of the sort on the wrapping counter.
\<close>

text \<open>
  An index inside the array but past the packets of a queue that is not empty: \<^verbatim>\<open>jit_dequeue\<close>
  compares the index with the size of the array only and takes a cleared slot for a packet.
\<close>

definition jit_idle_index :: "jit_queue_s \<Rightarrow> int \<Rightarrow> bool" where
  "jit_idle_index q i \<longleftrightarrow> num_pkt q \<noteq> 0 \<and> 0 \<le> i \<and> unat (num_pkt q) \<le> nat i \<and> i < int JIT_QUEUE_MAX"

text \<open>
  The queues that can arise: from the cleared queue by enqueuing anything at any time, by peeking at
  any time, and by dequeuing with any argument except an idle index. The daemon only passes an index
  that \<^verbatim>\<open>jit_peek\<close> has just given, which is none.
\<close>

inductive jit_reachable :: "u8 \<Rightarrow> jit_queue_s \<Rightarrow> bool" for sws :: u8 where
  init: "jit_reachable sws jit_queue_init"
| enqueue: "jit_reachable sws q \<Longrightarrow> jit_enqueue sws q t p ty = (r, q', p') \<Longrightarrow> jit_reachable sws q'"
| dequeue: "jit_reachable sws q \<Longrightarrow> \<not> jit_idle_index q i \<Longrightarrow> jit_dequeue q i b = (r, q', o') \<Longrightarrow>
    jit_reachable sws q'"
| peek: "jit_reachable sws q \<Longrightarrow> jit_peek q t b = Inr (r, q', o') \<Longrightarrow> jit_reachable sws q'"

subsection \<open>Facts on the peek loop\<close>

text \<open>A peek removes packets only, and only outdated ones.\<close>

lemma jit_peek_loop_drops:
  assumes "jit_wf q" and "jit_peek_loop t q i idx = (q', idx')"
  shows "jit_wf q' \<and> mset (jit_active q') \<subseteq># mset (jit_active q) \<and>
    (\<forall>n\<in>#mset (jit_active q) - mset (jit_active q'). jit_outdated t n)"
  using assms
proof (induction t q i idx rule: jit_peek_loop.induct)
  case (1 t q i idx)
  note simps = jit_peek_loop.simps [of t q i idx]
  show ?case
  proof (cases "i < unat (num_pkt q) \<and> jit_outdated t (nodes q ! i)")
    case False
    then show ?thesis
      using "1.IH"(2,3) "1.prems" by (auto simp: simps jit_outdated_def split: if_splits)
  next
    case True
    define q1 where "q1 = jit_remove_at q i"
    have wf: "jit_wf q1" and m: "mset (jit_active q1) = mset (jit_active q) - {#nodes q ! i#}"
      using True "1.prems"(1) unfolding q1_def by (auto simp: jit_remove_at_wf jit_remove_at_active)
    have "jit_peek_loop t q1 1 idx = (q', idx')"
      using True "1.prems"(2) by (simp add: simps jit_outdated_def q1_def)
    then have IH: "jit_wf q' \<and> mset (jit_active q') \<subseteq># mset (jit_active q1) \<and>
        (\<forall>n\<in>#mset (jit_active q1) - mset (jit_active q'). jit_outdated t n)"
      using "1.IH"(1) True wf by (simp add: jit_outdated_def q1_def)
    have "nodes q ! i \<in># mset (jit_active q)"
      using True "1.prems"(1) jit_active_mem by simp
    then have "mset (jit_active q) - mset (jit_active q') =
        add_mset (nodes q ! i) (mset (jit_active q1) - mset (jit_active q'))"
      using IH m multiset_diff_union_assoc [of "mset (jit_active q')" "mset (jit_active q1)" "{#nodes q ! i#}"]
      by (simp add: insert_DiffM)
    moreover have "mset (jit_active q') \<subseteq># mset (jit_active q)"
      using IH m by (metis diff_subset_eq_self subset_mset.order_trans)
    ultimately show ?thesis using IH True by auto
  qed
qed

text \<open>Without outdated packets the loop keeps the queue and finds the earliest departure.\<close>

lemma jit_peek_loop_earliest:
  assumes "jit_wf q" and "\<forall>n\<in>set (jit_active q). \<not> jit_outdated t n" and "i \<le> unat (num_pkt q)"
    and "idx = -1 \<longleftrightarrow> i = 0" and "0 < i \<Longrightarrow> 0 \<le> idx \<and> nat idx < i"
    and "\<And>j. j < i \<Longrightarrow> tx_count_us (pkt (nodes q ! nat idx)) - t \<le> tx_count_us (pkt (nodes q ! j)) - t"
  shows "\<exists>k. jit_peek_loop t q i idx = (q, k) \<and> (unat (num_pkt q) = 0 \<longrightarrow> k = -1) \<and>
    (0 < unat (num_pkt q) \<longrightarrow> 0 \<le> k \<and> nat k < unat (num_pkt q) \<and>
      (\<forall>j<unat (num_pkt q). tx_count_us (pkt (nodes q ! nat k)) - t \<le> tx_count_us (pkt (nodes q ! j)) - t))"
  using assms
proof (induction t q i idx rule: jit_peek_loop.induct)
  case (1 t q i idx)
  note simps = jit_peek_loop.simps [of t q i idx]
  show ?case
  proof (cases "i < unat (num_pkt q)")
    case False
    then have "jit_peek_loop t q i idx = (q, idx)" and "i = unat (num_pkt q)"
      using "1.prems"(3) by (simp_all only: simps if_False)
    with "1.prems"(4-6) show ?thesis by (cases "i = 0") auto
  next
    case True
    then have fresh: "\<not> jit_outdated t (nodes q ! i)"
      using "1.prems"(1,2) jit_active_mem by blast
    show ?thesis
    proof (cases "idx = -1 \<or> tx_count_us (pkt (nodes q ! i)) - t < tx_count_us (pkt (nodes q ! nat idx)) - t")
      case upd: True
      have "tx_count_us (pkt (nodes q ! i)) - t \<le> tx_count_us (pkt (nodes q ! j)) - t" if "j < Suc i" for j
        using that upd "1.prems"(4,6) by (cases "j = i") (auto simp: less_Suc_eq intro: order_trans [OF less_imp_le])
      then show ?thesis
        using "1.IH"(2) True fresh upd "1.prems"(1-3) by (simp add: simps jit_outdated_def Suc_le_eq)
    next
      case keep: False
      then have "tx_count_us (pkt (nodes q ! nat idx)) - t \<le> tx_count_us (pkt (nodes q ! j)) - t" if "j < Suc i" for j
        using that "1.prems"(6) by (cases "j = i") (auto simp: less_Suc_eq not_less)
      moreover have "0 < i" using keep "1.prems"(4) by auto
      ultimately show ?thesis
        using "1.IH"(3) True fresh keep "1.prems"(1-5) by (simp add: simps jit_outdated_def Suc_le_eq)
    qed
  qed
qed

text \<open>Dropping the first of one or two packets ends the loop without an index.\<close>

lemma jit_peek_loop_purge_first:
  assumes "num_pkt q = 1 \<or> num_pkt q = 2" and "jit_outdated t (nodes q ! 0)"
  shows "jit_peek_loop t q 0 (-1) = (jit_remove_at q 0, -1)"
proof -
  have "jit_peek_loop t q 0 (-1) = jit_peek_loop t (jit_remove_at q 0) 1 (-1)"
    using assms by (subst jit_peek_loop.simps) (auto simp: jit_outdated_def)
  also have "\<dots> = (jit_remove_at q 0, -1)"
    using assms(1) by (subst jit_peek_loop.simps) auto
  finally show ?thesis .
qed

subsection \<open>Steps keep the invariant\<close>

lemma jit_enqueue_result:
  assumes "jit_enqueue sws q t p ty = (r, q', p')"
  shows "q' = q \<or> (\<exists>p0. p = Some p0 \<and> \<not> jit_queue_is_full q \<and>
      (\<forall>m\<in>set (jit_active q). \<not> jit_node_collides (jit_new_node sws q t p0 ty) m) \<and>
      q' = jit_append q (jit_new_node sws q t p0 ty))"
proof (cases p)
  case None
  with assms show ?thesis by (simp add: jit_enqueue_def)
next
  case (Some p0)
  have ty: "pkt_type (jit_new_node sws q t p0 ty) = ty"
    by (simp add: jit_new_node_def Let_def)
  from assms Some show ?thesis
    by (auto simp: jit_enqueue_Some Let_def ty jit_node_collides_def jit_find_collision_None
        split: if_splits option.splits)
qed

lemma jit_node_collides_compat: "\<not> jit_node_collides a b \<Longrightarrow> jit_compat a b"
  by (simp add: jit_node_collides_def jit_compat_def)

lemma jit_append_separated:
  assumes "jit_wf q" and "\<not> jit_queue_is_full q" and "jit_separated q"
    and "\<forall>m\<in>set (jit_active q). \<not> jit_node_collides n m"
  shows "jit_separated (jit_append q n)"
proof -
  have "sorted_wrt jit_compat (n # jit_active q)"
    using assms(3,4) by (simp add: jit_separated_def jit_node_collides_compat)
  moreover have "mset (n # jit_active q) = mset (jit_active (jit_append q n))"
    using assms(1,2) by (simp add: jit_append_active)
  ultimately show ?thesis
    unfolding jit_separated_def using sorted_wrt_sym_cong [OF symp_jit_compat] by blast
qed

lemma jit_dequeue_inv:
  assumes "jit_wf q" and "nat i < unat (num_pkt q)" and "jit_dequeue q i b = (r, q', o')"
  shows "q' = q \<or> (nat i < length (jit_active q) \<and> q' = jit_remove_at q (nat i))"
  using assms by (auto simp: jit_dequeue_def Let_def jit_wf_lengths split: if_splits)

lemma jit_dequeue_used:
  assumes "jit_wf q" and "\<not> jit_idle_index q i" and "jit_dequeue q i b = (r, q', o')"
  shows "q' = q \<or> (nat i < length (jit_active q) \<and> q' = jit_remove_at q (nat i))"
proof (cases "0 \<le> i \<and> i < 32 \<and> num_pkt q \<noteq> 0")
  case True
  then have "nat i < unat (num_pkt q)"
    using assms(2) by (auto simp: jit_idle_index_def)
  then show ?thesis using jit_dequeue_inv [OF assms(1) _ assms(3)] by blast
next
  case False
  then show ?thesis
    using assms(3) by (auto simp: jit_dequeue_def jit_queue_is_empty_def split: if_splits)
qed

lemma jit_peek_cases:
  assumes "jit_peek q t b = Inr (r, q', o')"
  obtains "q' = q" "o' = None"
  | idx where "jit_peek_loop t q 0 (-1) = (q', idx)" "r = JIT_ERROR_OK"
      "o' = Some (if tx_count_us (pkt (nodes q' ! nat idx)) - t < TX_JIT_DELAY then idx else -1)"
  using assms by (auto simp: jit_peek_def Let_def split: if_splits prod.splits)

lemma jit_peek_subset:
  assumes "jit_wf q" and "jit_peek q t b = Inr (r, q', o')"
  shows "jit_wf q' \<and> mset (jit_active q') \<subseteq># mset (jit_active q)"
  using assms(2) by (rule jit_peek_cases) (use assms(1) jit_peek_loop_drops in auto)

lemma jit_reachable_inv: "jit_reachable sws q \<Longrightarrow> jit_wf q \<and> jit_separated q"
proof (induction rule: jit_reachable.induct)
  case init
  show ?case
    using jit_wf_init by (simp add: jit_separated_def jit_active_def) (simp add: jit_queue_init_def)
next
  case (enqueue q t p ty r q' p')
  then show ?case
    using jit_enqueue_result jit_append_wf jit_append_separated by metis
next
  case (dequeue q i b r q' o')
  then have wf: "jit_wf q" and sep: "sorted_wrt jit_compat (jit_active q)"
    by (simp_all add: jit_separated_def)
  consider "q' = q" | "nat i < length (jit_active q)" "q' = jit_remove_at q (nat i)"
    using jit_dequeue_used [OF wf dequeue.hyps(2,3)] by blast
  then show ?case
  proof cases
    case 1
    with dequeue.IH show ?thesis by simp
  next
    case 2
    then show ?thesis
      using jit_slots.drop_inv [OF wf] jit_slots.drop_pairwise [OF symp_jit_compat wf _ sep]
      by (simp add: jit_separated_def)
  qed
next
  case (peek q t b r q' o')
  then show ?case
    using jit_peek_subset sorted_wrt_sym_subset [OF symp_jit_compat] unfolding jit_separated_def by blast
qed

subsection \<open>The wrapping counter\<close>

lemma compare_jit_window:
  "unat (tx_count_us (pkt a) - t) < 2 ^ 31 \<Longrightarrow> unat (tx_count_us (pkt b) - t) < 2 ^ 31 \<Longrightarrow>
     compare_jit a b \<le> 0 \<longleftrightarrow> unat (tx_count_us (pkt a) - t) \<le> unat (tx_count_us (pkt b) - t)"
  unfolding compare_jit_def by (rule sint_diff_window)

lemma jit_sort_window:
  assumes "unat (num_pkt q) \<le> length (nodes q)"
    and "\<And>n. n \<in> set (jit_active q) \<Longrightarrow> unat (tx_count_us (pkt n) - t) < 2 ^ 31"
  shows "sorted (map (\<lambda>n. unat (tx_count_us (pkt n) - t)) (jit_active (jit_sort_queue q)))"
  unfolding jit_active_sort [OF assms(1)]
  by (rule qs.srt_by_key) (rule compare_jit_window [OF assms(2) assms(2)])

lemma unat_add3:
  fixes a b :: u32
  assumes "unat a < 2 ^ 30" and "unat b < 2 ^ 30"
  shows "unat (a + b + 1000) = unat a + unat b + 1000"
  using assms by (simp add: unat_word_ariths)

subsection \<open>The reserved time of queued packets\<close>

text \<open>The lead time of every queued packet is the one of its type.\<close>

definition jit_lead_ok :: "jit_queue_s \<Rightarrow> bool" where
  "jit_lead_ok q \<longleftrightarrow> (\<forall>n\<in>set (jit_active q). pre_delay n = jit_pkt_pre_delay (pkt_type n))"

lemma jit_lead_ok_subset: "mset (jit_active q') \<subseteq># mset (jit_active q) \<Longrightarrow> jit_lead_ok q \<Longrightarrow> jit_lead_ok q'"
  unfolding jit_lead_ok_def by (metis mset_subset_eqD set_mset_mset)

lemma jit_append_lead:
  assumes "jit_wf q" and "\<not> jit_queue_is_full q" and "jit_lead_ok q"
  shows "jit_lead_ok (jit_append q (jit_new_node sws q t p ty))"
proof -
  have "set (jit_active (jit_append q (jit_new_node sws q t p ty))) =
      insert (jit_new_node sws q t p ty) (set (jit_active q))"
    using jit_append_active [OF assms(1,2)] by (metis set_mset_add_mset_insert set_mset_mset)
  then show ?thesis
    using assms(3) by (simp add: jit_lead_ok_def jit_new_node_def Let_def)
qed

lemma jit_reachable_lead: "jit_reachable sws q \<Longrightarrow> jit_lead_ok q"
proof (induction rule: jit_reachable.induct)
  case init
  show ?case by (simp add: jit_lead_ok_def jit_active_def jit_queue_init_def)
next
  case (enqueue q t p ty r q' p')
  then show ?case
    using jit_enqueue_result jit_append_lead jit_reachable_inv by metis
next
  case (dequeue q i b r q' o')
  then have wf: "jit_wf q" using jit_reachable_inv by blast
  consider "q' = q" | "nat i < length (jit_active q)" "q' = jit_remove_at q (nat i)"
    using jit_dequeue_used [OF wf dequeue.hyps(2,3)] by blast
  then show ?case
    using dequeue.IH jit_lead_ok_subset [OF jit_slots.drop_subset [OF wf]] by cases auto
next
  case (peek q t b r q' o')
  then show ?case
    using jit_peek_subset jit_lead_ok_subset jit_reachable_inv by metis
qed

text \<open>Shortening a lead time only makes a collision less likely, as long as the sums do not wrap.\<close>

lemma jit_collision_test_mono:
  assumes "\<not> jit_collision_test c pre post c2 pre2 post2" and "pre2' \<le> pre2"
    and "unat pre2 < 2 ^ 30" and "unat post < 2 ^ 30"
  shows "\<not> jit_collision_test c pre post c2 pre2' post2"
proof -
  have "unat pre2' < 2 ^ 30"
    using assms(2,3) unfolding word_le_nat_alt by simp
  then have "pre2' + post + 1000 \<le> pre2 + post + 1000"
    unfolding word_le_nat_alt using assms(2-4) by (simp add: unat_add3 word_le_nat_alt)
  then show ?thesis
    using assms(1) unfolding jit_collision_test_def by (meson order_trans)
qed

lemma jit_target_pre_delay_le:
  "pre_delay n = jit_pkt_pre_delay (pkt_type n) \<Longrightarrow> jit_target_pre_delay ty n \<le> pre_delay n"
  by (auto simp: jit_target_pre_delay_def jit_pkt_pre_delay_def)

lemma jit_pkt_pre_delay_bound: "unat (jit_pkt_pre_delay ty) < 2 ^ 30"
  by (cases ty) (simp_all add: jit_pkt_pre_delay_def)

subsection \<open>A concrete queue\<close>

text \<open>A queue with a single class A packet that leaves at \<open>c\<close>, for the concrete instances below.\<close>

definition jit_one_packet :: "u32 \<Rightarrow> jit_queue_s" where
  "jit_one_packet c = jit_queue_init\<lparr>num_pkt := 1,
     nodes := (nodes jit_queue_init)[0 := jit_node_zero\<lparr>pkt := tx_pkt_zero\<lparr>tx_count_us := c\<rparr>\<rparr>]\<rparr>"

lemma jit_one_packet_simps:
  "num_pkt (jit_one_packet c) = 1" "num_beacon (jit_one_packet c) = 0"
  "nodes (jit_one_packet c) = jit_node_zero\<lparr>pkt := tx_pkt_zero\<lparr>tx_count_us := c\<rparr>\<rparr> # replicate 31 jit_node_zero"
  "jit_active (jit_one_packet c) = [jit_node_zero\<lparr>pkt := tx_pkt_zero\<lparr>tx_count_us := c\<rparr>\<rparr>]"
  by (simp_all add: jit_one_packet_def jit_queue_init_def jit_active_def numeral_eq_Suc)

lemma jit_one_packet_wf: "jit_wf (jit_one_packet c)"
  by (simp add: jit_wf_def jit_one_packet_simps jit_is_beacon_def) (simp add: jit_node_zero_def)

subsection \<open>Properties\<close>

text \<open>
  C1. Every queue that arises from the cleared one by \<^verbatim>\<open>jit_enqueue\<close> and \<^verbatim>\<open>jit_peek\<close> with any packets and at
  any times, and by \<^verbatim>\<open>jit_dequeue\<close> at any index except one in the array past the queued packets, is well formed
  (32 slots, counters in range and exact, free slots cleared) and its scheduled packets are
  pairwise free of collisions. The excluded calls are not refused and break the queue: see
  \<open>jit_dequeue_idle_breaks\<close>.
\<close>

theorem jit_reachable_safe:
  assumes "jit_reachable sws q"
  shows "jit_wf q \<and> jit_separated q"
  using assms by (rule jit_reachable_inv)

text \<open>A beacon is queued, a second one at the same time is refused, an invalid index is refused, and the first one is taken out.\<close>

theorem jit_reachable_safe_witness:
  "let q1 = fst (snd (jit_enqueue 3 jit_queue_init 0 (Some (tx_pkt_zero\<lparr>tx_count_us := 5000000\<rparr>)) JIT_PKT_TYPE_BEACON));
       q2 = fst (snd (jit_enqueue 3 q1 9 (Some (tx_pkt_zero\<lparr>tx_count_us := 5000000\<rparr>)) JIT_PKT_TYPE_BEACON));
       q3 = fst (snd (jit_dequeue q2 99 True));
       q4 = fst (snd (jit_dequeue q3 0 True))
   in num_pkt q3 = 1 \<and> jit_wf q3 \<and> jit_separated q3 \<and> num_pkt q4 = 0 \<and> jit_wf q4 \<and> jit_separated q4"
proof -
  let ?p = "Some (tx_pkt_zero\<lparr>tx_count_us := 5000000\<rparr>)"
  define q1 where "q1 = fst (snd (jit_enqueue 3 jit_queue_init 0 ?p JIT_PKT_TYPE_BEACON))"
  define q2 where "q2 = fst (snd (jit_enqueue 3 q1 9 ?p JIT_PKT_TYPE_BEACON))"
  define q3 where "q3 = fst (snd (jit_dequeue q2 99 True))"
  define q4 where "q4 = fst (snd (jit_dequeue q3 0 True))"
  have n3: "num_pkt q3 = 1" unfolding q3_def q2_def q1_def by code_simp
  have n4: "num_pkt q4 = 0" unfolding q4_def q3_def q2_def q1_def by code_simp
  have r1: "jit_reachable 3 q1"
    unfolding q1_def by (rule jit_reachable.enqueue [OF jit_reachable.init, of 3 0 ?p JIT_PKT_TYPE_BEACON]) (simp add: prod_eq_iff)
  have r2: "jit_reachable 3 q2"
    unfolding q2_def by (rule jit_reachable.enqueue [OF r1, of 9 ?p JIT_PKT_TYPE_BEACON]) (simp add: prod_eq_iff)
  have r3: "jit_reachable 3 q3"
    unfolding q3_def by (rule jit_reachable.dequeue [OF r2, of 99]) (simp_all add: jit_idle_index_def prod_eq_iff)
  have r4: "jit_reachable 3 q4"
    unfolding q4_def by (rule jit_reachable.dequeue [OF r3, of 0]) (simp_all add: jit_idle_index_def n3 prod_eq_iff)
  show ?thesis
    using jit_reachable_safe [OF r3] jit_reachable_safe [OF r4] n3 n4
    unfolding Let_def q1_def [symmetric] q2_def [symmetric] q3_def [symmetric] q4_def [symmetric] by simp
qed

text \<open>
  A dequeue at an idle index is answered with success and with the cleared slot as the packet, and
  the last scheduled packet leaves the queue without being handed out: it stays behind in a slot
  the queue takes for free, so the queue is no longer well formed.
\<close>

theorem jit_dequeue_idle_breaks:
  assumes "jit_wf q" and "jit_idle_index q i" and "last (jit_active q) \<noteq> jit_node_zero"
  shows "\<exists>q'. jit_dequeue q i True = (JIT_ERROR_OK, q', Some (tx_pkt_zero, JIT_PKT_TYPE_DOWNLINK_CLASS_A)) \<and>
    unat (num_pkt q') = unat (num_pkt q) - 1 \<and> mset (jit_active q') = mset (butlast (jit_active q)) \<and> \<not> jit_wf q'"
proof -
  define n where "n = unat (num_pkt q)"
  define k where "k = nat i"
  have pos: "0 < n" using assms(2) by (simp add: jit_idle_index_def n_def unat_gt_0)
  have k: "n \<le> k" "k < 32" "\<not> i < 0" "\<not> 32 \<le> i" using assms(2) by (auto simp: jit_idle_index_def n_def k_def)
  have len: "length (nodes q) = 32" using assms(1) by (simp add: jit_wf_def)
  have m: "unat (num_pkt q - 1) = n - 1" using pos by (simp add: n_def unat_pred)
  have "drop n (nodes q) ! (k - n) = jit_node_zero"
    using assms(1) k by (simp add: jit_wf_def n_def)
  then have z: "nodes q ! k = jit_node_zero" using k len by simp
  have l: "last (jit_active q) = nodes q ! (n - 1)"
    using pos k len by (subst last_conv_nth) (auto simp: jit_active_def min_def simp flip: n_def)
  have one: "num_pkt q = 1 \<Longrightarrow> n = 1" by (simp add: n_def)
  define q' where "q' = jit_remove_at q k"
  have d: "jit_dequeue q i True = (JIT_ERROR_OK, q', Some (tx_pkt_zero, JIT_PKT_TYPE_DOWNLINK_CLASS_A))"
    using k(3,4) assms(2) z by (simp add: jit_dequeue_def q'_def k_def jit_idle_index_def jit_queue_is_empty_def Let_def)
      (simp add: jit_node_zero_def)
  have num: "unat (num_pkt q') = n - 1" by (simp add: q'_def m)
  have u: "jit_active q' = qsort_r compare_jit (take (n - 1) ((nodes q)[k := nodes q ! (n - 1), n - 1 := jit_node_zero]))"
    using k len by (simp add: q'_def jit_remove_at_def Let_def jit_active_sort m) (simp add: jit_active_def m)
  also have "take (n - 1) ((nodes q)[k := nodes q ! (n - 1), n - 1 := jit_node_zero]) = take (n - 1) (nodes q)"
    using k pos by simp
  also have "take (n - 1) (nodes q) = butlast (jit_active q)"
    using k len pos by (simp add: jit_active_def n_def [symmetric] butlast_take)
  finally have ms: "mset (jit_active q') = mset (butlast (jit_active q))" by simp
  have "drop (n - 1) (nodes q') ! (k - (n - 1)) = nodes q ! (n - 1)"
    using k pos len one by (auto simp: q'_def jit_remove_at_def Let_def jit_sort_queue_def m nth_append)
  moreover have "jit_wf q' \<Longrightarrow> drop (n - 1) (nodes q') ! (k - (n - 1)) = jit_node_zero"
    using k pos by (simp add: jit_wf_def num)
  ultimately have "\<not> jit_wf q'" using assms(3) l by auto
  then show ?thesis using d num ms by (simp add: n_def)
qed

theorem jit_dequeue_idle_breaks_witness:
  "\<exists>q'. jit_dequeue (jit_one_packet 5000) 5 True = (JIT_ERROR_OK, q', Some (tx_pkt_zero, JIT_PKT_TYPE_DOWNLINK_CLASS_A)) \<and>
     num_pkt q' = 0 \<and> \<not> jit_wf q'"
proof -
  have "jit_idle_index (jit_one_packet 5000) 5" "last (jit_active (jit_one_packet 5000)) \<noteq> jit_node_zero"
    by (simp_all add: jit_idle_index_def jit_one_packet_simps) (simp add: jit_node_zero_def tx_pkt_zero_def)
  from jit_dequeue_idle_breaks [OF jit_one_packet_wf this] show ?thesis
    by (auto simp: jit_one_packet_simps unat_eq_0)
qed

text \<open>
  C9. A request is accepted exactly when the queue has room, the departure time is more than
  42.5 ms away, a class A or B packet is at most 512 s ahead, and no scheduled packet's
  reserved time overlaps the new one's; then the queue holds exactly one more node, the new
  one.
\<close>

theorem jit_enqueue_accepts:
  assumes "jit_wf q"
  shows "(fst (jit_enqueue sws q t (Some p) ty) = JIT_ERROR_OK \<longleftrightarrow>
      unat (num_pkt q) < JIT_QUEUE_MAX \<and>
      \<not> jit_too_late t (jit_new_node sws q t p ty) \<and> \<not> jit_too_early t (jit_new_node sws q t p ty) \<and>
      (\<forall>m\<in>set (jit_active q). \<not> jit_node_collides (jit_new_node sws q t p ty) m)) \<and>
    (fst (jit_enqueue sws q t (Some p) ty) = JIT_ERROR_OK \<longrightarrow>
      mset (jit_active (fst (snd (jit_enqueue sws q t (Some p) ty)))) =
      add_mset (jit_new_node sws q t p ty) (mset (jit_active q)))"
proof -
  define n where "n = jit_new_node sws q t p ty"
  obtain r q' p' where e: "jit_enqueue sws q t (Some p) ty = (r, q', p')"
    by (metis prod_cases3)
  have full: "unat (num_pkt q) < JIT_QUEUE_MAX \<longleftrightarrow> \<not> jit_queue_is_full q"
    using jit_wf_lengths(2) [OF assms] by (auto simp: jit_is_full_iff)
  have "r = JIT_ERROR_OK \<Longrightarrow> \<not> jit_queue_is_full q \<and> \<not> jit_too_late t n \<and> \<not> jit_too_early t n \<and>
      (\<forall>m\<in>set (jit_active q). \<not> jit_node_collides n m) \<and> q' = jit_append q n"
    using jit_enqueue_OK [of sws q t p ty q' p'] e unfolding n_def Let_def by auto
  moreover have "\<not> jit_queue_is_full q \<Longrightarrow> \<not> jit_too_late t n \<Longrightarrow> \<not> jit_too_early t n \<Longrightarrow>
      \<forall>m\<in>set (jit_active q). \<not> jit_node_collides n m \<Longrightarrow> r = JIT_ERROR_OK"
    using jit_enqueue_OK [of sws q t p ty "jit_append q n" "Some (pkt n)"] e unfolding n_def Let_def by auto
  ultimately show ?thesis
    unfolding n_def [symmetric] e full using jit_append_active [OF assms] by auto
qed

theorem jit_enqueue_accepts_witness:
  "fst (jit_enqueue 3 jit_queue_init 0 (Some (tx_pkt_zero\<lparr>tx_count_us := 5000000\<rparr>)) JIT_PKT_TYPE_BEACON) = JIT_ERROR_OK"
proof -
  have n: "jit_new_node 3 jit_queue_init 0 (tx_pkt_zero\<lparr>tx_count_us := 5000000\<rparr>) JIT_PKT_TYPE_BEACON =
      \<lparr>pkt = tx_pkt_zero\<lparr>tx_count_us := 5000000\<rparr>, pkt_type = JIT_PKT_TYPE_BEACON,
       pre_delay = 3041500, post_delay = 2120000\<rparr>"
    by (simp add: jit_new_node_def jit_pkt_pre_delay_def jit_pkt_post_delay_def)
  have "jit_active jit_queue_init = []" "num_pkt jit_queue_init = 0"
    by (simp_all add: jit_active_def jit_queue_init_def)
  then show ?thesis
    using jit_enqueue_accepts [OF jit_wf_init, of 3 0 "tx_pkt_zero\<lparr>tx_count_us := 5000000\<rparr>" JIT_PKT_TYPE_BEACON]
    by (simp add: n jit_too_late_def jit_too_early_def)
qed

text \<open>
  A refused request leaves the queue as it was, and the error code says why: a NULL
  packet, a full queue, a departure time already too close, one implausibly far ahead, or an
  overlap with a scheduled packet or beacon.
\<close>

theorem jit_enqueue_refuses:
  assumes "jit_enqueue sws q t p ty = (r, q', p')" and "r \<noteq> JIT_ERROR_OK"
  shows "q' = q \<and>
    (r = JIT_ERROR_INVALID \<and> p = None \<or>
     r = JIT_ERROR_FULL \<and> num_pkt q = 32 \<or>
     r = JIT_ERROR_TOO_LATE \<and> jit_too_late t (jit_new_node sws q t (the p) ty) \<or>
     r = JIT_ERROR_TOO_EARLY \<and> jit_too_early t (jit_new_node sws q t (the p) ty) \<or>
     (\<exists>m\<in>set (jit_active q). jit_node_collides (jit_new_node sws q t (the p) ty) m \<and>
        r = (if pkt_type m = JIT_PKT_TYPE_BEACON then JIT_ERROR_COLLISION_BEACON else JIT_ERROR_COLLISION_PACKET)))"
proof (cases p)
  case None
  with assms show ?thesis by (simp add: jit_enqueue_def)
next
  case (Some p0)
  have ty: "pkt_type (jit_new_node sws q t p0 ty) = ty"
    by (simp add: jit_new_node_def Let_def)
  from assms Some show ?thesis
    by (auto simp: jit_enqueue_Some Let_def jit_queue_is_full_def jit_node_collides_def ty jit_is_beacon_def
        dest!: jit_find_collision_Some split: if_splits option.splits)
qed

theorem jit_enqueue_refuses_witness:
  "fst (snd (jit_enqueue 3 (jit_queue_init\<lparr>num_pkt := 32\<rparr>) 7 (Some tx_pkt_zero) JIT_PKT_TYPE_BEACON)) =
     jit_queue_init\<lparr>num_pkt := 32\<rparr>"
proof -
  have e: "jit_enqueue 3 (jit_queue_init\<lparr>num_pkt := 32\<rparr>) 7 (Some tx_pkt_zero) JIT_PKT_TYPE_BEACON =
      (JIT_ERROR_FULL, jit_queue_init\<lparr>num_pkt := 32\<rparr>, Some tx_pkt_zero)"
    by (simp add: jit_enqueue_def jit_queue_is_full_def)
  from jit_enqueue_refuses [OF e] show ?thesis by (simp add: e)
qed

text \<open>
  C20. Without outdated packets, a peek changes nothing and answers with the index of a packet
  with the earliest departure if that is less than 40 ms ahead, and with -1 otherwise; then
  \<^verbatim>\<open>jit_dequeue\<close> at that index hands out this packet and removes it and nothing else.
\<close>

theorem jit_peek_dequeue_earliest:
  assumes "jit_wf q" and "0 < unat (num_pkt q)" and "\<forall>n\<in>set (jit_active q). \<not> jit_outdated t n"
  shows "\<exists>n\<in>set (jit_active q).
    (\<forall>m\<in>set (jit_active q). tx_count_us (pkt n) - t \<le> tx_count_us (pkt m) - t) \<and>
    (if tx_count_us (pkt n) - t < TX_JIT_DELAY
     then \<exists>i q'. jit_peek q t True = Inr (JIT_ERROR_OK, q, Some i) \<and>
            jit_dequeue q i True = (JIT_ERROR_OK, q', Some (pkt n, pkt_type n)) \<and>
            mset (jit_active q') = mset (jit_active q) - {#n#}
     else jit_peek q t True = Inr (JIT_ERROR_OK, q, Some (-1)))"
proof -
  obtain k where k: "jit_peek_loop t q 0 (-1) = (q, k)" "0 \<le> k" "nat k < unat (num_pkt q)"
    and low: "\<forall>j<unat (num_pkt q). tx_count_us (pkt (nodes q ! nat k)) - t \<le> tx_count_us (pkt (nodes q ! j)) - t"
    using jit_peek_loop_earliest [OF assms(1,3), of 0 "-1"] assms(2) by auto
  define n where "n = nodes q ! nat k"
  have mem: "n \<in> set (jit_active q)"
    using k jit_active_mem [OF assms(1)] by (simp add: n_def)
  have "\<forall>m\<in>set (jit_active q). tx_count_us (pkt n) - t \<le> tx_count_us (pkt m) - t"
    using low jit_wf_lengths(3) [OF assms(1)] jit_active_nth [OF assms(1)] unfolding n_def
    by (metis in_set_conv_nth)
  moreover have ne: "\<not> jit_queue_is_empty q" and k32: "k < 32" and kn: "k \<noteq> -1"
    using assms(2) k jit_wf_lengths(2) [OF assms(1)] by (auto simp: jit_is_empty_iff)
  moreover have "jit_peek q t True =
      Inr (JIT_ERROR_OK, q, Some (if tx_count_us (pkt n) - t < TX_JIT_DELAY then k else -1))"
    using ne k kn by (simp add: jit_peek_def n_def)
  moreover have "jit_dequeue q k True = (JIT_ERROR_OK, jit_remove_at q (nat k), Some (pkt n, pkt_type n))"
    using ne k k32 by (simp add: jit_dequeue_def n_def Let_def)
  moreover have "mset (jit_active (jit_remove_at q (nat k))) = mset (jit_active q) - {#n#}"
    using k assms(1) by (simp add: jit_remove_at_active n_def)
  ultimately show ?thesis using mem by (intro bexI [of _ n]) auto
qed

theorem jit_peek_dequeue_earliest_witness:
  "\<exists>n\<in>set (jit_active (jit_one_packet 5000)).
    (\<forall>m\<in>set (jit_active (jit_one_packet 5000)). tx_count_us (pkt n) - 100 \<le> tx_count_us (pkt m) - 100) \<and>
    (\<exists>i q'. jit_peek (jit_one_packet 5000) 100 True = Inr (JIT_ERROR_OK, jit_one_packet 5000, Some i) \<and>
            jit_dequeue (jit_one_packet 5000) i True = (JIT_ERROR_OK, q', Some (pkt n, pkt_type n)) \<and>
            mset (jit_active q') = mset (jit_active (jit_one_packet 5000)) - {#n#})"
proof -
  have "0 < unat (num_pkt (jit_one_packet 5000))" "\<forall>n\<in>set (jit_active (jit_one_packet 5000)). \<not> jit_outdated 100 n"
    by (simp_all add: jit_one_packet_simps jit_outdated_def)
  from jit_peek_dequeue_earliest [OF jit_one_packet_wf this] show ?thesis
    by (simp add: jit_one_packet_simps)
qed

text \<open>
  The collision test is exact on the running microsecond clock, across any number of roll-overs
  of the 32-bit counter: for departures at most \<open>2^31\<close> us apart and delays below \<open>2^29\<close> us, it
  holds exactly when the second packet would leave before the first one's reserved time, its own
  lead time and the margin of 1 ms have passed.
\<close>

theorem jit_collision_test_exact:
  assumes "T1 \<le> T2" and "T2 - T1 < 2 ^ 31"
    and "unat pre1 < 2 ^ 29" and "unat post1 < 2 ^ 29" and "unat pre2 < 2 ^ 29" and "unat post2 < 2 ^ 29"
  shows "(jit_collision_test (of_nat T1) pre1 post1 (of_nat T2) pre2 post2 \<longleftrightarrow>
      T2 \<le> T1 + unat post1 + unat pre2 + 1000) \<and>
    (jit_collision_test (of_nat T2) pre2 post2 (of_nat T1) pre1 post1 \<longleftrightarrow>
      T2 \<le> T1 + unat post1 + unat pre2 + 1000)"
proof -
  define d :: u32 where "d = of_nat T2 - of_nat T1"
  have d: "unat d = T2 - T1"
    unfolding d_def using assms(1,2) by (intro unat_of_nat_diff) simp_all
  have fwd: "d \<le> pre2 + post1 + 1000 \<longleftrightarrow> T2 \<le> T1 + unat post1 + unat pre2 + 1000"
    unfolding word_le_nat_alt d using assms by (auto simp: unat_add3)
  have bwd: "- d \<le> pre1 + post2 + 1000 \<Longrightarrow> d = 0"
  proof (rule ccontr)
    assume le: "- d \<le> pre1 + post2 + 1000" and nz: "d \<noteq> 0"
    have "- d = of_nat (2 ^ 32 - unat d)"
      using unsigned_less [of d, where 'a = nat] by (simp add: of_nat_diff)
    moreover have "0 < unat d"
      using nz by (simp add: unat_gt_0)
    ultimately have "unat (- d) = 2 ^ 32 - unat d"
      by (simp add: unat_of_nat)
    then have "unat (- d) > 2 ^ 31"
      using d assms(2) by simp
    moreover have "unat (- d) \<le> unat pre1 + unat post2 + 1000"
      using le assms unfolding word_le_nat_alt by (simp add: unat_add3)
    ultimately show False using assms by simp
  qed
  have diffs: "of_nat T1 - of_nat T2 = - d" "of_nat T2 - of_nat T1 = d"
    by (simp_all add: d_def)
  have "d = 0 \<Longrightarrow> T2 \<le> T1 + unat post1 + unat pre2 + 1000"
    using d assms(1) by simp
  then show ?thesis
    unfolding jit_collision_test_def diffs using fwd bwd by auto
qed

theorem jit_collision_test_exact_witness:
  "jit_collision_test (of_nat (2 ^ 32 - 10)) 0 5000 (of_nat (2 ^ 32 + 100)) 1500 0 \<and>
   \<not> jit_collision_test (of_nat (2 ^ 32 - 10)) 0 5000 (of_nat (2 ^ 32 + 9000)) 1500 0"
  using jit_collision_test_exact [of "2 ^ 32 - 10" "2 ^ 32 + 100" 0 5000 1500 0]
    jit_collision_test_exact [of "2 ^ 32 - 10" "2 ^ 32 + 9000" 0 5000 1500 0]
  by simp

text \<open>
  After an accepted request the active packets stand in order of departure, measured from any
  origin after which they all leave within half the counter's range.
\<close>

theorem jit_enqueue_sorted:
  assumes "jit_wf q" and "jit_enqueue sws q t (Some p) ty = (JIT_ERROR_OK, q', p')"
    and "\<forall>n\<in>set (jit_active q'). unat (tx_count_us (pkt n) - t0) < 2 ^ 31"
  shows "sorted (map (\<lambda>n. unat (tx_count_us (pkt n) - t0)) (jit_active q'))"
proof -
  define n where "n = jit_new_node sws q t p ty"
  define q1 where "q1 = q\<lparr>nodes := (nodes q)[unat (num_pkt q) := n],
      num_beacon := (if pkt_type n = JIT_PKT_TYPE_BEACON then num_beacon q + 1 else num_beacon q),
      num_pkt := num_pkt q + 1\<rparr>"
  have nf: "\<not> jit_queue_is_full q" and q': "q' = jit_sort_queue q1"
    using assms(2) unfolding jit_enqueue_OK Let_def n_def [symmetric] jit_append_def q1_def by auto
  then have len: "unat (num_pkt q1) \<le> length (nodes q1)"
    using jit_wf_lengths [OF assms(1)] by (simp add: q1_def jit_is_full_iff unat_word_ariths)
  have "set (jit_active q') = set (jit_active q1)"
    unfolding q' using jit_mset_sort [OF len] by (metis set_mset_mset)
  then show ?thesis
    unfolding q' using assms(3) q' by (intro jit_sort_window [OF len]) simp
qed

theorem jit_enqueue_sorted_witness:
  "sorted (map (\<lambda>n. unat (tx_count_us (pkt n) - 0))
     (jit_active (fst (snd (jit_enqueue 3 jit_queue_init 0 (Some (tx_pkt_zero\<lparr>tx_count_us := 5000000\<rparr>)) JIT_PKT_TYPE_BEACON)))))"
proof -
  define n where "n = \<lparr>pkt = tx_pkt_zero\<lparr>tx_count_us := 5000000\<rparr>, pkt_type = JIT_PKT_TYPE_BEACON,
       pre_delay = 3041500, post_delay = 2120000\<rparr>"
  have nn: "jit_new_node 3 jit_queue_init 0 (tx_pkt_zero\<lparr>tx_count_us := 5000000\<rparr>) JIT_PKT_TYPE_BEACON = n"
    by (simp add: n_def jit_new_node_def jit_pkt_pre_delay_def jit_pkt_post_delay_def)
  have act: "jit_active jit_queue_init = []" and nf: "\<not> jit_queue_is_full jit_queue_init"
    by (simp_all add: jit_active_def jit_queue_init_def jit_queue_is_full_def)
  have e: "jit_enqueue 3 jit_queue_init 0 (Some (tx_pkt_zero\<lparr>tx_count_us := 5000000\<rparr>)) JIT_PKT_TYPE_BEACON =
      (JIT_ERROR_OK, jit_append jit_queue_init n, Some (pkt n))"
    using nf act by (simp add: jit_enqueue_OK nn Let_def) (simp add: n_def jit_too_late_def jit_too_early_def)
  have "set (jit_active (jit_append jit_queue_init n)) = {n}"
    using jit_append_active [OF jit_wf_init nf] act by (metis mset.simps(1) set_mset_add_mset_insert set_mset_empty set_mset_mset)
  then show ?thesis
    using jit_enqueue_sorted [OF jit_wf_init e, of 0] by (simp add: e n_def)
qed

text \<open>
  A peek that returns keeps the queue well formed, adds nothing to it, and drops only packets
  that were missed: those whose departure is 512 s or more ahead on the wrapping counter.
\<close>

theorem jit_peek_drops_outdated:
  assumes "jit_wf q" and "jit_peek q t b = Inr (r, q', i)"
  shows "jit_wf q' \<and> mset (jit_active q') \<subseteq># mset (jit_active q) \<and>
    (\<forall>n\<in>#mset (jit_active q) - mset (jit_active q'). jit_outdated t n)"
  using assms(2) by (rule jit_peek_cases) (use assms(1) jit_peek_loop_drops in auto)

theorem jit_peek_drops_outdated_witness:
  "jit_wf (jit_one_packet 100000) \<and>
   mset (jit_active (jit_one_packet 100000)) \<subseteq># mset (jit_active (jit_one_packet 100000))"
proof -
  have "jit_peek_loop 100 (jit_one_packet 100000) 0 (-1) = (jit_one_packet 100000, 0)"
    by (simp add: jit_peek_loop.simps jit_one_packet_simps)
  then have "jit_peek (jit_one_packet 100000) 100 True = Inr (JIT_ERROR_OK, jit_one_packet 100000, Some (-1))"
    by (simp add: jit_peek_def jit_one_packet_simps jit_queue_is_empty_def)
  from jit_peek_drops_outdated [OF jit_one_packet_wf this] show ?thesis by blast
qed

text \<open>
  An immediate (class C) downlink whose first possible departure, 80 ms ahead, is free of every
  scheduled packet is accepted with exactly this departure time, in any reachable queue with room.
\<close>

theorem jit_class_c_asap:
  assumes "jit_reachable sws q" and "unat (num_pkt q) < JIT_QUEUE_MAX"
    and "unat (lgw_time_on_air sws (Some p) * 1000) < 2 ^ 30"
    and "\<forall>n\<in>set (jit_active q). \<not> jit_collision_test (t + 80000) 41500 (lgw_time_on_air sws (Some p) * 1000)
        (tx_count_us (pkt n)) (pre_delay n) (post_delay n)"
  shows "\<exists>q'. jit_enqueue sws q t (Some p) JIT_PKT_TYPE_DOWNLINK_CLASS_C =
    (JIT_ERROR_OK, q', Some (p\<lparr>tx_mode := TIMESTAMPED, tx_count_us := t + 80000\<rparr>))"
proof -
  define post where "post = lgw_time_on_air sws (Some p) * 1000"
  define n where "n = \<lparr>pkt = p\<lparr>tx_mode := TIMESTAMPED, tx_count_us := t + 80000\<rparr>,
      pkt_type = JIT_PKT_TYPE_DOWNLINK_CLASS_C, pre_delay = 41500, post_delay = post\<rparr>"
  have "jit_asap_count t 41500 post (jit_active q) = t + 80000"
    using assms(4) unfolding post_def [symmetric] by (auto simp: jit_asap_count_def list_ex_iff Let_def)
  then have nn: "jit_new_node sws q t p JIT_PKT_TYPE_DOWNLINK_CLASS_C = n"
    by (simp add: jit_new_node_def jit_pkt_pre_delay_def jit_pkt_post_delay_def n_def post_def)
  have "\<not> jit_node_collides n m" if m: "m \<in> set (jit_active q)" for m
  proof -
    have lead: "pre_delay m = jit_pkt_pre_delay (pkt_type m)"
      using jit_reachable_lead [OF assms(1)] m by (simp add: jit_lead_ok_def)
    have "unat (pre_delay m) < 2 ^ 30"
      unfolding lead by (rule jit_pkt_pre_delay_bound)
    then show ?thesis
      unfolding jit_node_collides_def jit_collides_def n_def
      using jit_collision_test_mono [OF _ jit_target_pre_delay_le [OF lead]] assms(3,4) m
      by (simp add: post_def)
  qed
  moreover have "\<not> jit_queue_is_full q" "\<not> jit_too_late t n" "\<not> jit_too_early t n"
    using assms(2) by (simp_all add: jit_is_full_iff jit_too_late_def jit_too_early_def n_def)
  ultimately have "jit_enqueue sws q t (Some p) JIT_PKT_TYPE_DOWNLINK_CLASS_C = (JIT_ERROR_OK, jit_append q n, Some (pkt n))"
    unfolding jit_enqueue_OK Let_def nn by simp
  then show ?thesis by (simp add: n_def)
qed

theorem jit_class_c_asap_witness:
  "\<exists>q'. jit_enqueue 3 jit_queue_init 4294967290 (Some tx_pkt_zero) JIT_PKT_TYPE_DOWNLINK_CLASS_C =
    (JIT_ERROR_OK, q', Some (tx_pkt_zero\<lparr>tx_mode := TIMESTAMPED, tx_count_us := 79994\<rparr>))"
proof -
  have "unat (lgw_time_on_air 3 (Some tx_pkt_zero) * 1000) < 2 ^ 30"
    by (simp add: lgw_time_on_air_def tx_pkt_zero_def)
  moreover have "unat (num_pkt jit_queue_init) < JIT_QUEUE_MAX" "jit_active jit_queue_init = []"
    by (simp_all add: jit_queue_init_def jit_active_def)
  moreover have wrap: "(4294967290 :: u32) + 80000 = 79994"
    by simp
  ultimately show ?thesis
    using jit_class_c_asap [OF jit_reachable.init, of 3 tx_pkt_zero 4294967290] unfolding wrap by simp
qed

text \<open>
  The purge of \<^verbatim>\<open>jit_peek\<close> can read \<^verbatim>\<open>nodes[-1]\<close>: when the first of one or two queued packets was missed,
  dropping it restarts the scan at index 1, no index is ever selected, and the comparison after
  the loop indexes the array with -1.
\<close>

theorem jit_peek_purge_fault:
  assumes "num_pkt q = 1 \<or> num_pkt q = 2" and "jit_outdated t (nodes q ! 0)"
  shows "jit_peek q t True = Inl OutOfBounds"
  using assms(1) jit_peek_loop_purge_first [OF assms] by (auto simp: jit_peek_def jit_queue_is_empty_def)

theorem jit_peek_purge_fault_witness:
  "jit_peek (jit_one_packet 100) 50000 True = Inl OutOfBounds"
  using jit_peek_purge_fault [of "jit_one_packet 100" 50000]
  by (simp add: jit_one_packet_simps jit_outdated_def)

end
