(* ===== verification/TimeOnAirProps.thy ===== *)
theory TimeOnAirProps
  imports TimeOnAir
begin

text \<open>
  The air time in integers: the double arithmetic of \<^verbatim>\<open>lora_packet_time_on_air\<close> and
  \<^verbatim>\<open>lgw_time_on_air\<close> gives exactly the value of the formula of the data sheet, no cast
  overflows, and the time reserved in the downlink queue stays far below half the range of the
  microsecond counter.
\<close>

text \<open>Payload symbols and air time in microseconds by the formula, on natural numbers.\<close>

definition toa_symbols_spec :: "nat \<Rightarrow> nat \<Rightarrow> bool \<Rightarrow> bool \<Rightarrow> nat \<Rightarrow> nat" where
  "toa_symbols_spec sf cr no_header no_crc size_p =
     (let bits = 8 * size_p + (if no_crc then 0 else 16) + (if 7 \<le> sf then 8 else 0) +
                 (if no_header then 0 else 20) - 4 * sf;
          per = 4 * (if 11 \<le> sf then sf - 2 else sf)
      in (bits + per - 1) div per * (cr + 4))"

definition toa_us_spec :: "nat \<Rightarrow> nat \<Rightarrow> nat \<Rightarrow> nat \<Rightarrow> bool \<Rightarrow> bool \<Rightarrow> nat \<Rightarrow> nat" where
  "toa_us_spec bw_pow sf cr preamble no_header no_crc size_p =
     (4 * preamble + (if 7 \<le> sf then 17 else 25) + 32 + 4 * toa_symbols_spec sf cr no_header no_crc size_p) *
     (2 ^ sf * 8 div bw_pow) div 4"

lemma IS_LORA_DR_bounds: "IS_LORA_DR (sf :: u8) \<Longrightarrow> 5 \<le> unat sf \<and> unat sf \<le> 12"
  by (auto simp: IS_LORA_DR_def)

lemma IS_LORA_CR_bounds: "IS_LORA_CR cr \<Longrightarrow> 1 \<le> unat cr \<and> unat cr \<le> 4"
  by (auto simp: IS_LORA_CR_def)

lemma bw_pow_of_cases: "bw_pow_of bw = Some d \<Longrightarrow> d = 1 \<or> d = 2 \<or> d = 4"
  by (auto simp: bw_pow_of_def split: if_splits)

lemma bw_pow_of_valid: "bw_pow_of bw = Some d \<Longrightarrow> IS_LORA_BW bw"
  by (auto simp: bw_pow_of_def IS_LORA_BW_def split: if_splits)

lemma bw_pow_of_None: "bw_pow_of bw = None \<longleftrightarrow> \<not> IS_LORA_BW bw"
  by (auto simp: bw_pow_of_def IS_LORA_BW_def split: if_splits)

lemma le_unat_numeral: "(numeral k :: u8) \<le> w \<longleftrightarrow> unat (numeral k :: u8) \<le> unat w"
  by (simp add: word_le_nat_alt)

lemma toa_payload_bits_nat:
  "nat (max (toa_payload_bits sf no_header no_crc size_p) 0) =
     8 * unat size_p + (if no_crc then 0 else 16) + (if 7 \<le> unat sf then 8 else 0) +
     (if no_header then 0 else 20) - 4 * unat sf"
proof -
  define a b where "a = unat size_p" and "b = unat sf"
  have "uint size_p = int a" "uint sf = int b"
    by (simp_all add: a_def b_def)
  then show ?thesis
    unfolding toa_payload_bits_def Let_def le_unat_numeral a_def [symmetric] b_def [symmetric] by auto
qed

lemma toa_symbols_spec_bound:
  assumes "5 \<le> sf" and "sf \<le> 12" and "cr \<le> 4" and "size_p \<le> 255"
  shows "toa_symbols_spec sf cr no_header no_crc size_p \<le> 840"
proof -
  define bits per where "bits = 8 * size_p + (if no_crc then 0 else 16) + (if 7 \<le> sf then 8 else 0) +
                 (if no_header then 0 else 20) - 4 * sf"
    and "per = 4 * (if 11 \<le> sf then sf - 2 else sf)"
  have b: "bits \<le> 2064" using assms by (auto simp: bits_def)
  have p: "20 \<le> per" using assms by (auto simp: per_def)
  have "(bits + per - 1) div per \<le> bits div per + 1"
    using p by (metis Nat.add_diff_assoc add.commute add_le_cancel_left div_add_self2 div_le_mono diff_le_self le_add1
        less_eq_nat.simps(1) nat_le_iff_add not_numeral_le_zero)
  also have "bits div per \<le> 2064 div 20"
    using b p by (meson div_le_mono div_le_mono2 order_trans zero_less_numeral)
  finally have "(bits + per - 1) div per \<le> 104" by simp
  then have "(bits + per - 1) div per * (cr + 4) \<le> 104 * 8"
    using assms(3) by (intro mult_le_mono) auto
  then show ?thesis
    by (simp add: toa_symbols_spec_def Let_def flip: bits_def per_def)
qed

lemma toa_payload_ceiling:
  assumes "5 \<le> unat sf" and "unat sf \<le> 12"
  shows "\<lceil>dbl (max (of_int (toa_payload_bits sf no_header no_crc size_p)) 0 /
             of_int (4 * (uint sf - 2 * (if 11 \<le> sf then 1 else 0))))\<rceil> * (uint cr + 4) =
    int (toa_symbols_spec (unat sf) (unat cr) no_header no_crc (unat size_p))"
proof -
  define bits where "bits = nat (max (toa_payload_bits sf no_header no_crc size_p) 0)"
  define per where "per = 4 * (if 11 \<le> unat sf then unat sf - 2 else unat sf)"
  have "max (of_int (toa_payload_bits sf no_header no_crc size_p)) 0 = (of_nat bits :: rat)"
    by (simp add: bits_def of_nat_nat max_def)
  moreover have "4 * (uint sf - 2 * (if 11 \<le> sf then 1 else 0)) = int per"
    using assms by (auto simp: per_def le_unat_numeral)
  then have "of_int (4 * (uint sf - 2 * (if 11 \<le> sf then 1 else 0))) = (of_nat per :: rat)"
    by (metis of_int_of_nat_eq)
  moreover have "bits < 2 ^ 53" "0 < per"
    using assms unsigned_less [of size_p, where 'a = nat]
    by (auto simp: bits_def toa_payload_bits_nat per_def)
  then have "\<lceil>dbl (of_nat bits / of_nat per)\<rceil> = int ((bits + per - 1) div per)"
    by (rule ceiling_dbl_div)
  ultimately have c: "\<lceil>dbl (max (of_int (toa_payload_bits sf no_header no_crc size_p)) 0 /
             of_int (4 * (uint sf - 2 * (if 11 \<le> sf then 1 else 0))))\<rceil> = int ((bits + per - 1) div per)"
    by simp
  show ?thesis
    unfolding c toa_symbols_spec_def Let_def bits_def toa_payload_bits_nat per_def by simp
qed

lemma toa_symbol_time:
  assumes "sf \<le> 12" and "d = 1 \<or> d = 2 \<or> d = 4"
  shows "unat (of_nat (2 ^ sf * 8 div d) :: u16) = 2 ^ sf * 8 div d" and "2 ^ sf * 8 div d \<le> (32768 :: nat)"
proof -
  have "(2 :: nat) ^ sf \<le> 2 ^ 12"
    using assms(1) by (intro power_increasing) auto
  then have "2 ^ sf * 8 div d \<le> 2 ^ sf * (8 :: nat)" "2 ^ sf * (8 :: nat) \<le> 32768"
    by auto
  then show *: "2 ^ sf * 8 div d \<le> (32768 :: nat)"
    by (rule order_trans)
  then show "unat (of_nat (2 ^ sf * 8 div d) :: u16) = 2 ^ sf * 8 div d"
    by (simp add: unat_of_nat)
qed

lemma toa_us_spec_bound:
  assumes "5 \<le> sf" and "sf \<le> 12" and "cr \<le> 4" and "size_p \<le> 255" and "d = 1 \<or> d = 2 \<or> d = 4"
  shows "toa_us_spec d sf cr preamble no_header no_crc size_p \<le> (preamble + 855) * 32768"
proof -
  have "toa_us_spec d sf cr preamble no_header no_crc size_p \<le> (4 * (preamble + 855) * 32768) div 4"
    unfolding toa_us_spec_def
    using toa_symbols_spec_bound [OF assms(1-4), of no_header no_crc] toa_symbol_time(2) [OF assms(2,5)]
    by (intro div_le_mono mult_le_mono) auto
  then show ?thesis by simp
qed

text \<open>Rounding to the nearest millisecond with two roundings of the double type is exact.\<close>

lemma dbl_half_up:
  assumes "a < 2 ^ 32"
  shows "\<lfloor>dbl (dbl (of_nat a / 1000) + 1 / 2)\<rfloor> = int ((a + 500) div 1000)"
proof -
  define q :: rat where "q = of_nat a / 1000"
  define k where "k = (a + 500) div 1000"
  have q0: "0 \<le> q" and qs: "q \<le> 2 ^ 23" using assms by (simp_all add: q_def)
  define x where "x = dbl q + 1 / 2"
  have e1: "\<bar>dbl q - q\<bar> \<le> q / 2 ^ 53" using q0 by (rule dbl_err)
  have "\<bar>dbl q - q\<bar> \<le> 1 / 2 ^ 30" using e1 qs by simp
  then have e1': "dbl q \<le> q + 1 / 2 ^ 30" "q - 1 / 2 ^ 30 \<le> dbl q" unfolding abs_le_iff by linarith+
  have x0: "0 \<le> x" using dbl_ge_0 [OF q0] by (simp add: x_def)
  have xs: "x \<le> 2 ^ 24" using e1' qs by (simp add: x_def)
  have "\<bar>dbl x - x\<bar> \<le> 1 / 2 ^ 29" using dbl_err [OF x0] xs by simp
  then have e2: "dbl x \<le> x + 1 / 2 ^ 29" "x - 1 / 2 ^ 29 \<le> dbl x" unfolding abs_le_iff by linarith+
  have k: "1000 * k \<le> a + 500" "a + 500 \<le> 1000 * k + 999"
    unfolding k_def by simp_all
  have qk: "of_nat (a + 500) = 1000 * (q + 1 / 2 :: rat)" by (simp add: q_def)
  have up: "q + 1 / 2 \<le> of_nat k + 999 / 1000"
  proof -
    have "(of_nat (a + 500) :: rat) \<le> of_nat (1000 * k + 999)" using k(2) by (simp only: of_nat_le_iff)
    then show ?thesis unfolding qk by simp
  qed
  have "dbl x < of_nat k + 1"
    using up e1' e2 by (simp add: x_def)
  moreover have "of_nat k \<le> dbl x"
  proof (cases "1000 * k = a + 500")
    case False
    then have "1000 * k + 1 \<le> a + 500" using k(1) by simp
    then have "(of_nat (1000 * k + 1) :: rat) \<le> of_nat (a + 500)" by (simp only: of_nat_le_iff)
    then have "of_nat k + 1 / 1000 \<le> q + 1 / 2" unfolding qk by simp
    then show ?thesis using e1' e2 by (simp add: x_def)
  next
    case True
    show ?thesis
    proof (cases k)
      case 0
      then show ?thesis using dbl_ge_0 [OF x0] by simp
    next
      case (Suc j)
      have "(2 * a :: nat) = 1000 * (2 * j + 1)" using True Suc by simp
      then have "2 * of_nat a = (of_nat (1000 * (2 * j + 1)) :: rat)" by (metis of_nat_mult of_nat_numeral)
      then have "q = of_nat (2 * j + 1) / 2" by (simp add: q_def)
      moreover have "2 * j + 1 < 2 ^ 52" using True Suc assms by simp
      ultimately have "dbl q = q" using dbl_half [of "2 * j + 1"] by (simp only:)
      then have "x = of_nat k" using True by (simp add: x_def q_def flip: of_nat_add)
      moreover have "k < 2 ^ 53" using True assms by simp
      ultimately show ?thesis using dbl_of_nat by simp
    qed
  qed
  ultimately show ?thesis
    unfolding q_def [symmetric] x_def [symmetric] k_def [symmetric] by (simp add: floor_eq_iff)
qed

lemma lora_toa_exact_nat:
  assumes "IS_LORA_DR sf" and "IS_LORA_CR cr" and "bw_pow_of bw = Some d"
  shows "unat (fst (lora_packet_time_on_air bw sf cr preamble no_header no_crc size_p)) =
    toa_us_spec d (unat sf) (unat cr) (unat preamble) no_header no_crc (unat size_p)"
proof -
  have sf: "5 \<le> unat sf" "unat sf \<le> 12" and cr: "unat cr \<le> 4" and d: "d = 1 \<or> d = 2 \<or> d = 4"
    using IS_LORA_DR_bounds [OF assms(1)] IS_LORA_CR_bounds [OF assms(2)] bw_pow_of_cases [OF assms(3)] by auto
  have sz: "unat size_p \<le> 255" and pre: "unat preamble \<le> 65535"
    using unsigned_less [of size_p, where 'a = nat] unsigned_less [of preamble, where 'a = nat] by simp_all
  define n where "n = toa_symbols_spec (unat sf) (unat cr) no_header no_crc (unat size_p)"
  define t where "t = 2 ^ unat sf * 8 div d"
  define h :: nat where "h = (if 7 \<le> unat sf then 17 else 25)"
  define X where "X = (4 * unat preamble + h + 32 + 4 * n) * t"
  have n: "unat (of_nat n :: u32) = n"
    using toa_symbols_spec_bound [OF sf cr sz, of no_header no_crc] by (simp add: n_def unat_of_nat)
  have t: "unat (of_nat t :: u16) = t"
    unfolding t_def by (rule toa_symbol_time(1) [OF sf(2) d])
  have spec: "toa_us_spec d (unat sf) (unat cr) (unat preamble) no_header no_crc (unat size_p) = X div 4"
    by (simp add: toa_us_spec_def X_def h_def n_def t_def)
  have "X div 4 < 2 ^ 32"
    using toa_us_spec_bound [OF sf cr sz d, of "unat preamble" no_header no_crc] pre unfolding spec by simp
  then have small: "unat (of_int (int (X div 4)) :: u32) = X div 4"
    by (simp add: unat_of_nat)
  have "(of_nat (unat preamble) + of_nat h / 4 + 8 + of_nat n) * of_nat t = (of_nat X / of_nat 4 :: rat)"
    by (simp add: X_def field_simps)
  then have "\<lfloor>(of_nat (unat preamble) + of_nat h / 4 + 8 + of_nat n) * of_nat t :: rat\<rfloor> = int (X div 4)"
    by (simp only: floor_divide_of_nat_eq)
  moreover have "(if 7 \<le> sf then 17 / 4 else 25 / 4 :: rat) = of_nat h / 4"
    by (simp add: h_def le_unat_numeral)
  ultimately have "fst (lora_packet_time_on_air bw sf cr preamble no_header no_crc size_p) = of_int (int (X div 4))"
    unfolding lora_packet_time_on_air_def Let_def
    by (simp only: assms bw_pow_of_valid [OF assms(3)] not_True_eq_False if_False option.case fst_conv
        toa_payload_ceiling [OF sf] t of_int_of_nat_eq n n_def [symmetric] t_def [symmetric])
  then show ?thesis
    unfolding spec using small by simp
qed

subsection \<open>Properties\<close>

text \<open>
  C37. For every valid bandwidth, spreading factor and coding rate the air time the code computes
  with doubles is the exact value of the integer formula, in microseconds: no rounding of the
  division, the ceiling or the product is visible and no cast to an unsigned type wraps.
\<close>

theorem lora_toa_exact:
  assumes "IS_LORA_DR sf" and "IS_LORA_CR cr" and "bw_pow_of bw = Some d"
  shows "unat (fst (lora_packet_time_on_air bw sf cr preamble no_header no_crc size_p)) =
    toa_us_spec d (unat sf) (unat cr) (unat preamble) no_header no_crc (unat size_p)"
  using assms by (rule lora_toa_exact_nat)

theorem lora_toa_exact_witness:
  "unat (fst (lora_packet_time_on_air BW_125KHZ 7 CR_LORA_4_5 8 False False 20)) = 56576"
proof -
  have "toa_us_spec 1 7 1 8 False False 20 = 56576"
    by (simp add: toa_us_spec_def toa_symbols_spec_def)
  then show ?thesis
    using lora_toa_exact [of 7 CR_LORA_4_5 BW_125KHZ 1 8 False False 20]
    by (simp add: IS_LORA_DR_def IS_LORA_CR_def bw_pow_of_def)
qed

text \<open>
  The air time in milliseconds of a LoRa packet with valid parameters is the exact one rounded
  to the nearest millisecond, halves upwards.
\<close>

theorem lgw_time_on_air_lora:
  assumes "tx_modulation p = MOD_LORA" and "IS_LORA_DR (ucast (tx_datarate p) :: u8)"
    and "IS_LORA_CR (tx_coderate p)" and "bw_pow_of (tx_bandwidth p) = Some d"
  shows "unat (lgw_time_on_air sws (Some p)) =
    (toa_us_spec d (unat (ucast (tx_datarate p) :: u8)) (unat (tx_coderate p)) (unat (tx_preamble p))
       (tx_no_header p) (tx_no_crc p) (unat (ucast (tx_size p) :: u8)) + 500) div 1000"
proof -
  define us where "us = fst (lora_packet_time_on_air (tx_bandwidth p) (ucast (tx_datarate p))
      (tx_coderate p) (tx_preamble p) (tx_no_header p) (tx_no_crc p) (ucast (tx_size p)))"
  have lt: "unat us < 2 ^ 32"
    using unsigned_less [of us, where 'a = nat] by simp
  then have "(unat us + 500) div 1000 < 2 ^ 32"
    by simp
  then have "unat (of_int (int ((unat us + 500) div 1000)) :: u32) = (unat us + 500) div 1000"
    by (simp add: unat_of_nat)
  moreover have "lgw_time_on_air sws (Some p) = of_int (int ((unat us + 500) div 1000))"
    unfolding lgw_time_on_air_def Let_def us_def [symmetric] dbl_half_up [OF lt, symmetric]
    using assms(1) by (simp add: us_def)
  moreover have "unat us = toa_us_spec d (unat (ucast (tx_datarate p) :: u8)) (unat (tx_coderate p)) (unat (tx_preamble p))
       (tx_no_header p) (tx_no_crc p) (unat (ucast (tx_size p) :: u8))"
    unfolding us_def using assms(2-4) by (rule lora_toa_exact_nat)
  ultimately show ?thesis
    by simp
qed

theorem lgw_time_on_air_lora_witness:
  "unat (lgw_time_on_air 3 (Some (tx_pkt_zero\<lparr>tx_modulation := MOD_LORA, tx_datarate := 7, tx_coderate := 1,
     tx_bandwidth := BW_125KHZ, tx_preamble := 8, tx_size := 20\<rparr>))) = 57"
proof -
  have "toa_us_spec 1 7 1 8 False False 20 = 56576"
    by (simp add: toa_us_spec_def toa_symbols_spec_def)
  then show ?thesis
    using lgw_time_on_air_lora [of "tx_pkt_zero\<lparr>tx_modulation := MOD_LORA, tx_datarate := 7, tx_coderate := 1,
       tx_bandwidth := BW_125KHZ, tx_preamble := 8, tx_size := 20\<rparr>" 1 3]
    by (simp add: IS_LORA_DR_def IS_LORA_CR_def bw_pow_of_def tx_pkt_zero_def)
qed

end
