(* ===== verification/Base64.thy ===== *)
theory Base64
  imports Prelude
begin

text \<open>
  The two Base64 codecs: \<^verbatim>\<open>libtools/src/base64.c\<close>, which leaves the process on a character it
  does not know, and \<^verbatim>\<open>clusterduck/src/utils/safe_base64.cpp\<close>, which the daemon uses on commands
  from the network. A character is a byte; a pointer with its length is a list, or \<open>None\<close> for
  NULL; an output pointer with its capacity is a buffer of that length, returned as it is
  after the call. Lengths are not negative.
\<close>

subsection \<open>libtools/src/base64.c\<close>

abbreviation (input) code_62 :: u8 where "code_62 \<equiv> 43"
abbreviation (input) code_63 :: u8 where "code_63 \<equiv> 47"
abbreviation (input) code_pad :: u8 where "code_pad \<equiv> 61"

definition code_to_char :: "u8 \<Rightarrow> c_fault + u8" where
  "code_to_char x =
     (if x \<le> 25 then Inr (65 + x)
      else if 26 \<le> x \<and> x \<le> 51 then Inr (97 + (x - 26))
      else if 52 \<le> x \<and> x \<le> 61 then Inr (48 + (x - 52))
      else if x = 62 then Inr code_62
      else if x = 63 then Inr code_63
      else Inl ExitFailure)"

definition char_to_code :: "u8 \<Rightarrow> c_fault + u8" where
  "char_to_code x =
     (if 65 \<le> x \<and> x \<le> 90 then Inr (x - 65)
      else if 97 \<le> x \<and> x \<le> 122 then Inr (x - 97 + 26)
      else if 48 \<le> x \<and> x \<le> 57 then Inr (x - 48 + 52)
      else if x = code_62 then Inr 62
      else if x = code_63 then Inr 63
      else Inl ExitFailure)"

text \<open>The 24-bit groups: three bytes in, four 6-bit codes in, a code out, a byte out.\<close>

definition b64_pack3 :: "u8 \<Rightarrow> u8 \<Rightarrow> u8 \<Rightarrow> u32" where
  "b64_pack3 x y z = push_bit 16 (0xFF AND ucast x) OR push_bit 8 (0xFF AND ucast y) OR (0xFF AND ucast z)"

definition b64_sextet :: "u32 \<Rightarrow> nat \<Rightarrow> u8" where
  "b64_sextet b s = ucast (drop_bit s b AND 0x3F)"

definition b64_pack4 :: "u8 \<Rightarrow> u8 \<Rightarrow> u8 \<Rightarrow> u8 \<Rightarrow> u32" where
  "b64_pack4 a b c d =
     push_bit 18 (ucast (0x3F AND a)) OR push_bit 12 (ucast (0x3F AND b)) OR
     push_bit 6 (ucast (0x3F AND c)) OR ucast (0x3F AND d)"

definition b64_byte :: "u32 \<Rightarrow> nat \<Rightarrow> u8" where
  "b64_byte b s = ucast (drop_bit s b AND 0xFF)"

text \<open>
  The characters written for the input, without the terminator: the loop over the full
  blocks, then the partial block, whose missing bytes are not part of \<^verbatim>\<open>b\<close>.
\<close>

fun b64_enc_blocks :: "u8 list \<Rightarrow> c_fault + u8 list" where
  "b64_enc_blocks (x # y # z # xs) =
     res_bind (res_map (\<lambda>s. code_to_char (b64_sextet (b64_pack3 x y z) s)) [18, 12, 6, 0])
       (\<lambda>cs. res_bind (b64_enc_blocks xs) (\<lambda>ds. Inr (cs @ ds)))"
| "b64_enc_blocks [x, y] = res_map (\<lambda>s. code_to_char (b64_sextet (b64_pack3 x y 0) s)) [18, 12, 6]"
| "b64_enc_blocks [x] = res_map (\<lambda>s. code_to_char (b64_sextet (b64_pack3 x 0 0) s)) [18, 12]"
| "b64_enc_blocks [] = Inr []"

definition b64_nopad_len :: "nat \<Rightarrow> nat" where
  "b64_nopad_len n = 4 * (n div 3) + (case n mod 3 of 0 \<Rightarrow> 0 | Suc 0 \<Rightarrow> 2 | _ \<Rightarrow> 3)"

definition bin_to_b64_nopad :: "u8 list option \<Rightarrow> u8 list option \<Rightarrow> c_fault + (int \<times> u8 list option)" where
  "bin_to_b64_nopad inp out =
     (case (inp, out) of
        (Some bs, Some buf) \<Rightarrow>
          if bs = [] then (if buf = [] then Inl OutOfBounds else Inr (0, Some (mem_write buf [0])))
          else let result_len = b64_nopad_len (length bs)
               in if length buf < result_len + 1 then Inr (-1, Some buf)
                  else res_bind (b64_enc_blocks bs)
                         (\<lambda>cs. Inr (int result_len, Some (mem_write buf (cs @ [0]))))
      | _ \<Rightarrow> Inr (-1, out))"

text \<open>The bytes decoded, block by block; a lone last character was refused before.\<close>

fun b64_dec_blocks :: "u8 list \<Rightarrow> c_fault + u8 list" where
  "b64_dec_blocks (a # b # c # d # xs) =
     res_bind (res_map char_to_code [a, b, c, d])
       (\<lambda>cs. let v = b64_pack4 (cs ! 0) (cs ! 1) (cs ! 2) (cs ! 3)
             in res_bind (b64_dec_blocks xs) (\<lambda>ds. Inr ([b64_byte v 16, b64_byte v 8, b64_byte v 0] @ ds)))"
| "b64_dec_blocks [a, b, c] =
     res_bind (res_map char_to_code [a, b, c])
       (\<lambda>cs. let v = b64_pack4 (cs ! 0) (cs ! 1) (cs ! 2) 0 in Inr [b64_byte v 16, b64_byte v 8])"
| "b64_dec_blocks [a, b] =
     res_bind (res_map char_to_code [a, b])
       (\<lambda>cs. let v = b64_pack4 (cs ! 0) (cs ! 1) 0 0 in Inr [b64_byte v 16])"
| "b64_dec_blocks _ = Inr []"

definition b64_bin_len :: "nat \<Rightarrow> nat" where
  "b64_bin_len n = 3 * (n div 4) + (n mod 4 - 1)"

definition b64_to_bin_nopad :: "u8 list option \<Rightarrow> u8 list option \<Rightarrow> c_fault + (int \<times> u8 list option)" where
  "b64_to_bin_nopad inp out =
     (case (inp, out) of
        (Some cs, Some buf) \<Rightarrow>
          if cs = [] then Inr (0, Some buf)
          else if length cs mod 4 = 1 then Inr (-1, Some buf)
          else let result_len = b64_bin_len (length cs)
               in if length buf < result_len then Inr (-1, Some buf)
                  else res_bind (b64_dec_blocks cs) (\<lambda>bs. Inr (int result_len, Some (mem_write buf bs)))
      | _ \<Rightarrow> Inr (-1, out))"

text \<open>With padding: \<open>ret\<close> is never -1 together with a NULL output here.\<close>

definition bin_to_b64 :: "u8 list option \<Rightarrow> u8 list option \<Rightarrow> c_fault + (int \<times> u8 list option)" where
  "bin_to_b64 inp out =
     res_bind (bin_to_b64_nopad inp out)
       (\<lambda>(ret, out'). case out' of
          None \<Rightarrow> Inr (-1, None)
        | Some buf \<Rightarrow>
            if ret = -1 then Inr (-1, Some buf)
            else let r = nat ret
                 in if r mod 4 = 0 then Inr (ret, Some buf)
                    else if r mod 4 = 1 then Inr (-1, Some buf)
                    else if r mod 4 = 2
                    then (if r + 3 \<le> length buf
                          then Inr (ret + 2, Some (buf[r := code_pad, r + 1 := code_pad, r + 2 := 0]))
                          else Inr (-1, Some buf))
                    else (if r + 2 \<le> length buf
                          then Inr (ret + 1, Some (buf[r := code_pad, r + 1 := 0]))
                          else Inr (-1, Some buf)))"

definition b64_to_bin :: "u8 list option \<Rightarrow> u8 list option \<Rightarrow> c_fault + (int \<times> u8 list option)" where
  "b64_to_bin inp out =
     (case inp of
        None \<Rightarrow> Inr (-1, out)
      | Some cs \<Rightarrow>
          let size = length cs
          in if size mod 4 = 0 \<and> 4 \<le> size
             then (if cs ! (size - 2) = code_pad then b64_to_bin_nopad (Some (take (size - 2) cs)) out
                   else if cs ! (size - 1) = code_pad then b64_to_bin_nopad (Some (take (size - 1) cs)) out
                   else b64_to_bin_nopad (Some cs) out)
             else b64_to_bin_nopad (Some cs) out)"

subsection \<open>clusterduck/src/utils/safe_base64.cpp\<close>

definition B64_CHARS :: "u8 list" where
  "B64_CHARS = map of_nat ([65..<91] @ [97..<123] @ [48..<58] @ [43, 47])"

definition safe_b64_encoded_len :: "nat \<Rightarrow> nat" where
  "safe_b64_encoded_len in_len = (in_len + 2) div 3 * 4"

definition b64_table :: "u32 \<Rightarrow> nat \<Rightarrow> u8" where
  "b64_table v s = B64_CHARS ! unat (drop_bit s v AND 0x3F)"

definition safe_pack3 :: "u8 \<Rightarrow> u8 \<Rightarrow> u8 \<Rightarrow> u32" where
  "safe_pack3 x y z = push_bit 16 (ucast x) OR push_bit 8 (ucast y) OR ucast z"

fun safe_enc_blocks :: "u8 list \<Rightarrow> u8 list" where
  "safe_enc_blocks (x # y # z # xs) =
     (let v = safe_pack3 x y z in [b64_table v 18, b64_table v 12, b64_table v 6, b64_table v 0] @ safe_enc_blocks xs)"
| "safe_enc_blocks [x, y] =
     (let v = safe_pack3 x y 0 in [b64_table v 18, b64_table v 12, b64_table v 6, code_pad])"
| "safe_enc_blocks [x] = (let v = safe_pack3 x 0 0 in [b64_table v 18, b64_table v 12, code_pad, code_pad])"
| "safe_enc_blocks [] = []"

text \<open>A NULL input with length 0 is the empty list; NULL with a length is \<open>None\<close>.\<close>

definition safe_b64_encode :: "u8 list option \<Rightarrow> u8 list option \<Rightarrow> int \<times> u8 list option" where
  "safe_b64_encode inp out =
     (case (inp, out) of
        (Some bs, Some buf) \<Rightarrow>
          if length buf < safe_b64_encoded_len (length bs) + 1 then (-1, Some buf)
          else let cs = safe_enc_blocks bs in (int (length cs), Some (mem_write buf (cs @ [0])))
      | _ \<Rightarrow> (-1, out))"

definition b64_char_value :: "u8 \<Rightarrow> int" where
  "b64_char_value c =
     (if 65 \<le> c \<and> c \<le> 90 then uint c - 65
      else if 97 \<le> c \<and> c \<le> 122 then uint c - 97 + 26
      else if 48 \<le> c \<and> c \<le> 57 then uint c - 48 + 52
      else if c = 43 then 62 else if c = 47 then 63 else -1)"

text \<open>The value of a character with the pad marked: -2 for the pad, -1 for anything invalid.\<close>

definition b64_pad_value :: "u8 \<Rightarrow> int" where
  "b64_pad_value c = (if c = code_pad then -2 else b64_char_value c)"

text \<open>
  One block: the bytes it gives, or \<open>None\<close> when it is refused. \<open>pad\<close> counts the pad characters
  at the end of the input.
\<close>

definition safe_dec_block :: "nat \<Rightarrow> bool \<Rightarrow> u8 \<Rightarrow> u8 \<Rightarrow> u8 \<Rightarrow> u8 \<Rightarrow> u8 list option" where
  "safe_dec_block pad is_last a b c d =
     (let c0 = b64_pad_value a; c1 = b64_pad_value b; c2 = b64_pad_value c; c3 = b64_pad_value d
      in if c0 < 0 \<or> c1 < 0 then None
         else if \<not> is_last \<and> (c2 < 0 \<or> c3 < 0) then None
         else if is_last \<and> pad = 0 \<and> (c2 < 0 \<or> c3 < 0) then None
         else if is_last \<and> pad = 1 \<and> (c2 < 0 \<or> c3 \<noteq> -2) then None
         else if is_last \<and> pad = 2 \<and> (c2 \<noteq> -2 \<or> c3 \<noteq> -2) then None
         else let v = (push_bit 18 (of_int c0) OR push_bit 12 (of_int c1) OR
                       push_bit 6 (of_int (if c2 < 0 then 0 else c2)) OR of_int (if c3 < 0 then 0 else c3) :: u32)
              in Some ([b64_byte v 16] @ (if 0 \<le> c2 then [b64_byte v 8] else []) @
                       (if 0 \<le> c3 then [b64_byte v 0] else [])))"

text \<open>The block loop: whether it was refused, and the bytes written until then.\<close>

fun safe_dec_blocks :: "nat \<Rightarrow> u8 list \<Rightarrow> bool \<times> u8 list" where
  "safe_dec_blocks pad (a # b # c # d # xs) =
     (case safe_dec_block pad (xs = []) a b c d of
        None \<Rightarrow> (False, [])
      | Some bs \<Rightarrow> let (ok, ds) = safe_dec_blocks pad xs in (ok, bs @ ds))"
| "safe_dec_blocks pad _ = (True, [])"

definition safe_b64_trim :: "u8 list \<Rightarrow> u8 list" where
  "safe_b64_trim cs = rev (dropWhile (\<lambda>c. c = 10 \<or> c = 13) (rev cs))"

definition safe_b64_pad :: "u8 list \<Rightarrow> nat" where
  "safe_b64_pad cs =
     (if cs ! (length cs - 1) = code_pad
      then (if 2 \<le> length cs \<and> cs ! (length cs - 2) = code_pad then 2 else 1) else 0)"

definition safe_b64_decode :: "u8 list option \<Rightarrow> u8 list option \<Rightarrow> int \<times> u8 list option" where
  "safe_b64_decode inp out =
     (case (inp, out) of
        (Some cs0, Some buf) \<Rightarrow>
          let cs = safe_b64_trim cs0
          in if cs = [] then (0, Some buf)
             else if length cs mod 4 \<noteq> 0 then (-1, Some buf)
             else let pad = safe_b64_pad cs
                  in if length buf < length cs div 4 * 3 - pad then (-1, Some buf)
                     else let (ok, bs) = safe_dec_blocks pad cs
                          in (if ok then int (length bs) else -1, Some (mem_write buf bs))
      | _ \<Rightarrow> (-1, out))"

definition is_safe_json_text :: "u8 list option \<Rightarrow> bool" where
  "is_safe_json_text data =
     (case data of
        None \<Rightarrow> True
      | Some bs \<Rightarrow> list_all (\<lambda>c. (c = 9 \<or> c = 10 \<or> c = 13) \<or> \<not> (c < 0x20 \<or> c = 0x7F \<or> 0x80 \<le> c)) bs)"

end
