(* ===== verification/Base64Props.thy ===== *)
theory Base64Props
  imports Base64
begin

text \<open>
  Properties of the Base64 codecs: bit packing is inverse to unpacking, encoding and decoding
  round-trip in both codecs, the two encoders agree, which inputs each decoder refuses and how,
  and no write passes the end of the output buffer.
\<close>

subsection \<open>Bits\<close>

lemma masks: "(0x3F :: 'a::len word) = mask 6" "(0xFF :: 'a::len word) = mask 8"
  by (simp_all add: mask_eq_exp_minus_1)

lemma pack4_sextets:
  "b64_pack4 (b64_sextet v 18) (b64_sextet v 12) (b64_sextet v 6) (b64_sextet v 0) = v AND mask 24"
proof (rule bit_word_eqI)
  fix n assume "n < LENGTH(32)"
  then have n: "n < 32" by simp
  consider "n < 6" | "6 \<le> n" "n < 12" | "12 \<le> n" "n < 18" | "18 \<le> n" "n < 24" | "24 \<le> n" by linarith
  then show "bit (b64_pack4 (b64_sextet v 18) (b64_sextet v 12) (b64_sextet v 6) (b64_sextet v 0)) n = bit (v AND mask 24) n"
    unfolding b64_pack4_def b64_sextet_def masks using n
    by cases (simp_all add: bit_simps, auto)
qed

lemma pack3_mask: "b64_pack3 x y z AND mask 24 = b64_pack3 x y z"
  unfolding b64_pack3_def masks by (rule bit_word_eqI) (auto simp: bit_simps)

lemma pack3_bytes:
  "b64_byte (b64_pack3 x y z) 16 = x" "b64_byte (b64_pack3 x y z) 8 = y" "b64_byte (b64_pack3 x y z) 0 = z"
  unfolding b64_byte_def b64_pack3_def masks
    by (rule bit_word_eqI, auto simp: bit_simps)+

lemma pack3_low_sextet: "b64_sextet (b64_pack3 x y 0) 0 = 0" "b64_sextet (b64_pack3 x 0 0) 6 = 0"
  unfolding b64_sextet_def b64_pack3_def masks
    by (rule bit_word_eqI, auto simp: bit_simps)+

lemma sextet_less: "b64_sextet v s < 64"
proof -
  have "b64_sextet v s = take_bit 6 (ucast (drop_bit s v))"
    unfolding b64_sextet_def masks by (rule bit_word_eqI) (auto simp: bit_simps)
  then show ?thesis using take_bit_int_less_exp [of 6] by (simp add: word_less_alt unsigned_take_bit_eq)
qed

subsection \<open>Characters\<close>

definition b64_ch :: "u8 \<Rightarrow> u8" where
  "b64_ch x = B64_CHARS ! unat x"

definition b64_code_ok :: "u8 \<Rightarrow> u8 \<Rightarrow> bool" where
  "b64_code_ok x c \<longleftrightarrow>
     code_to_char x = Inr c \<and> char_to_code c = Inr x \<and> c \<noteq> code_pad \<and> c \<noteq> 10 \<and> c \<noteq> 13 \<and> b64_char_value c = uint x"

lemma code_ok_all: "list_all2 b64_code_ok (map of_nat [0..<64]) B64_CHARS"
  by code_simp

lemma code_ok:
  assumes "x < 64"
  shows "b64_code_ok x (b64_ch x)"
proof -
  have x: "unat x < 64" using assms by (simp add: word_less_nat_alt)
  then have "b64_code_ok (map of_nat [0..<64] ! unat x) (B64_CHARS ! unat x)"
    by (intro list_all2_nthD [OF code_ok_all]) (simp only: length_map length_upt)
  moreover have "map of_nat [0..<64] ! unat x = x"
    using x by (subst nth_map) (simp_all del: upt_rec_numeral)
  ultimately show ?thesis by (simp add: b64_ch_def)
qed

lemma b64_ch_facts [simp]:
  assumes "x < 64"
  shows "code_to_char x = Inr (b64_ch x)" "char_to_code (b64_ch x) = Inr x" "b64_ch x \<noteq> code_pad"
    "b64_ch x \<noteq> 10" "b64_ch x \<noteq> 13" "b64_pad_value (b64_ch x) = uint x"
  using code_ok [OF assms] by (auto simp: b64_code_ok_def b64_pad_value_def)

lemma b64_table_ch: "b64_table v s = b64_ch (b64_sextet v s)"
proof -
  have "unat (b64_sextet v s) = unat (drop_bit s v AND 0x3F)"
    unfolding b64_sextet_def masks
    by (simp add: unsigned_ucast_eq take_bit_eq_mask [symmetric] unsigned_take_bit_eq)
  then show ?thesis by (simp add: b64_table_def b64_ch_def)
qed

lemma safe_pack3_eq: "safe_pack3 x y z = b64_pack3 x y z"
proof -
  have "(mask 8 :: u32) AND ucast w = ucast w" for w :: u8
    by (rule bit_word_eqI) (auto simp: bit_simps dest: bit_imp_le_length)
  then show ?thesis by (simp add: safe_pack3_def b64_pack3_def masks)
qed

subsection \<open>Blocks\<close>

lemma b64_nopad_len_simps [simp]:
  "b64_nopad_len 0 = 0" "b64_nopad_len (Suc 0) = 2" "b64_nopad_len (Suc (Suc 0)) = 3"
  "b64_nopad_len (Suc (Suc (Suc n))) = 4 + b64_nopad_len n"
proof -
  have "Suc (Suc (Suc n)) = n + 3" by simp
  moreover have "(n + 3) div 3 = n div 3 + 1" by presburger
  ultimately show "b64_nopad_len (Suc (Suc (Suc n))) = 4 + b64_nopad_len n"
    by (simp only: b64_nopad_len_def) simp
qed (simp_all add: b64_nopad_len_def)

lemma enc_dec_blocks:
  "\<exists>cs. b64_enc_blocks bs = Inr cs \<and> length cs = b64_nopad_len (length bs) \<and> b64_dec_blocks cs = Inr bs \<and>
     (\<forall>c\<in>set cs. c \<noteq> code_pad \<and> c \<noteq> 10 \<and> c \<noteq> 13)"
proof (induction bs rule: b64_enc_blocks.induct)
  case (1 x y z xs)
  then obtain ds where ds: "b64_enc_blocks xs = Inr ds" "length ds = b64_nopad_len (length xs)"
    "b64_dec_blocks ds = Inr xs" "\<forall>c\<in>set ds. c \<noteq> code_pad \<and> c \<noteq> 10 \<and> c \<noteq> 13"
    by blast
  then show ?case
    by (simp add: sextet_less pack4_sextets pack3_mask pack3_bytes Let_def)
next
  case (2 x y)
  have "b64_pack4 (b64_sextet (b64_pack3 x y 0) 18) (b64_sextet (b64_pack3 x y 0) 12) (b64_sextet (b64_pack3 x y 0) 6) 0 = b64_pack3 x y 0"
    using pack4_sextets [of "b64_pack3 x y 0"] by (simp add: pack3_low_sextet pack3_mask)
  then show ?case
    by (simp add: sextet_less pack3_bytes Let_def)
next
  case (3 x)
  have "b64_pack4 (b64_sextet (b64_pack3 x 0 0) 18) (b64_sextet (b64_pack3 x 0 0) 12) 0 0 = b64_pack3 x 0 0"
    using pack4_sextets [of "b64_pack3 x 0 0"] by (simp add: pack3_low_sextet pack3_mask)
  then show ?case
    by (simp add: sextet_less pack3_bytes Let_def)
next
  case 4
  show ?case by simp
qed

definition b64_pads :: "nat \<Rightarrow> u8 list" where
  "b64_pads n = (case n mod 3 of 0 \<Rightarrow> [] | Suc 0 \<Rightarrow> [code_pad, code_pad] | _ \<Rightarrow> [code_pad])"

lemma b64_pads_simps [simp]:
  "b64_pads 0 = []" "b64_pads (Suc 0) = [code_pad, code_pad]" "b64_pads (Suc (Suc 0)) = [code_pad]"
  "b64_pads (Suc (Suc (Suc n))) = b64_pads n"
proof -
  have "Suc (Suc (Suc n)) = n + 3" by simp
  then show "b64_pads (Suc (Suc (Suc n))) = b64_pads n"
    by (simp only: b64_pads_def) simp
qed (simp_all add: b64_pads_def)

lemma b64_mod_simps [simp]:
  "Suc (Suc (3 * k)) mod 3 = 2" "Suc (Suc (3 * k)) div 3 = k"
  "Suc (Suc (4 * k)) mod 4 = 2" "Suc (Suc (4 * k)) div 4 = k"
  "(4 * k + 3) mod 4 = 3" "(4 * k + 3) div 4 = (k :: nat)"
  by presburger+

lemma b64_length_cases:
  obtains k where "n = 3 * k" "b64_nopad_len n = 4 * k" "b64_pads n = []"
  | k where "n = 3 * k + 1" "b64_nopad_len n = 4 * k + 2" "b64_pads n = [code_pad, code_pad]"
  | k where "n = 3 * k + 2" "b64_nopad_len n = 4 * k + 3" "b64_pads n = [code_pad]"
proof -
  define k where "k = n div 3"
  consider "n = 3 * k" | "n = 3 * k + 1" | "n = 3 * k + 2"
    unfolding k_def by linarith
  then show thesis
  proof cases
    case 1
    then show ?thesis by (intro that(1) [of k]) (simp_all add: b64_nopad_len_def b64_pads_def)
  next
    case 2
    then have "n div 3 = k" "n mod 3 = 1" by simp_all
    with 2 show ?thesis by (intro that(2) [of k]) (simp_all only: b64_nopad_len_def b64_pads_def, simp_all)
  next
    case 3
    then have "n div 3 = k" "n mod 3 = 2" by simp_all
    with 3 show ?thesis by (intro that(3) [of k]) (simp_all only: b64_nopad_len_def b64_pads_def, simp_all)
  qed
qed

lemma b64_padded_length: "b64_nopad_len n + length (b64_pads n) = safe_b64_encoded_len n"
  by (cases rule: b64_length_cases [of n]) (simp_all add: safe_b64_encoded_len_def)

lemma safe_b64_encoded_len_mod [simp]: "safe_b64_encoded_len n mod 4 = 0"
  by (simp add: safe_b64_encoded_len_def)

text \<open>The table encoder writes the characters of the other one and the padding.\<close>

lemma safe_enc_blocks_eq:
  "b64_enc_blocks bs = Inr cs \<Longrightarrow> safe_enc_blocks bs = cs @ b64_pads (length bs)"
proof (induction bs arbitrary: cs rule: b64_enc_blocks.induct)
  case (1 x y z xs)
  then obtain ds where "b64_enc_blocks xs = Inr ds"
    using enc_dec_blocks by blast
  with 1 show ?case
    by (simp add: sextet_less b64_table_ch safe_pack3_eq Let_def)
qed (auto simp: sextet_less b64_table_ch safe_pack3_eq Let_def)

subsection \<open>Whole strings\<close>

lemma drop_two:
  assumes "Suc (Suc n) \<le> length xs"
  shows "drop n xs = xs ! n # xs ! Suc n # drop (Suc (Suc n)) xs"
  using assms by (simp add: Cons_nth_drop_Suc)

lemma mem_write_pad1:
  assumes "length cs + 2 \<le> length buf"
  shows "(mem_write buf (cs @ [0]))[length cs := a, Suc (length cs) := 0] = mem_write buf (cs @ [a, 0])"
proof -
  have "drop (Suc (length cs)) buf = buf ! Suc (length cs) # drop (Suc (Suc (length cs))) buf"
    using assms by (simp add: Cons_nth_drop_Suc)
  then show ?thesis by (simp add: mem_write_def list_update_append)
qed

lemma mem_write_pad2:
  assumes "length cs + 3 \<le> length buf"
  shows "(mem_write buf (cs @ [0]))[length cs := a, Suc (length cs) := b, Suc (Suc (length cs)) := 0] =
    mem_write buf (cs @ [a, b, 0])"
proof -
  have "drop (Suc (length cs)) buf =
      buf ! Suc (length cs) # buf ! Suc (Suc (length cs)) # drop (Suc (Suc (Suc (length cs)))) buf"
    using assms by (intro drop_two) simp
  then show ?thesis by (simp add: mem_write_def list_update_append)
qed

lemma bin_to_b64_room:
  assumes cs: "b64_enc_blocks bs = Inr cs" and len: "length cs = b64_nopad_len (length bs)"
    and room: "safe_b64_encoded_len (length bs) < length buf"
  shows "bin_to_b64 (Some bs) (Some buf) =
    Inr (int (safe_b64_encoded_len (length bs)), Some (mem_write buf (cs @ b64_pads (length bs) @ [0])))"
proof (cases "bs = []")
  case True
  then show ?thesis
    using cs room by (auto simp: bin_to_b64_def bin_to_b64_nopad_def safe_b64_encoded_len_def)
next
  case False
  note pl = b64_padded_length [of "length bs"]
  have l: "length (mem_write buf (cs @ [0])) = length buf"
    using room pl len by (intro length_mem_write) simp
  have e: "bin_to_b64_nopad (Some bs) (Some buf) = Inr (int (length cs), Some (mem_write buf (cs @ [0])))"
    using False cs room pl by (simp add: bin_to_b64_nopad_def len Let_def)
  show ?thesis
  proof (cases rule: b64_length_cases [of "length bs"])
    case (1 k)
    then have "length cs mod 4 = 0" using len by simp
    then show ?thesis
      using pl 1 len by (simp add: bin_to_b64_def e Let_def)
  next
    case 2
    then have "length cs mod 4 = 2" "length cs + 3 \<le> length buf" "safe_b64_encoded_len (length bs) = length cs + 2"
      using len pl room by simp_all
    then show ?thesis
      using 2(3) l mem_write_pad2 [of cs buf code_pad code_pad] by (simp add: bin_to_b64_def e Let_def)
  next
    case 3
    then have "length cs mod 4 = 3" "length cs + 2 \<le> length buf" "safe_b64_encoded_len (length bs) = length cs + 1"
      using len pl room by simp_all
    then show ?thesis
      using 3(3) l mem_write_pad1 [of cs buf code_pad] by (simp add: bin_to_b64_def e Let_def)
  qed
qed

lemma b64_bin_len_nopad: "b64_bin_len (b64_nopad_len n) = n" and b64_nopad_len_mod: "b64_nopad_len n mod 4 \<noteq> 1"
proof -
  show "b64_bin_len (b64_nopad_len n) = n"
    by (cases rule: b64_length_cases [of n]) (simp_all add: b64_bin_len_def)
  show "b64_nopad_len n mod 4 \<noteq> 1"
    by (cases rule: b64_length_cases [of n]) simp_all
qed

lemma b64_to_bin_nopad_enc:
  assumes "length cs = b64_nopad_len (length bs)" and "b64_dec_blocks cs = Inr bs" and "length bs \<le> length buf"
  shows "b64_to_bin_nopad (Some cs) (Some buf) = Inr (int (length bs), Some (mem_write buf bs))"
proof (cases "cs = []")
  case True
  then show ?thesis using assms(2) by (simp add: b64_to_bin_nopad_def mem_write_def)
next
  case False
  then show ?thesis
    using assms b64_nopad_len_mod [of "length bs"] by (simp add: b64_to_bin_nopad_def b64_bin_len_nopad Let_def)
qed

lemma b64_to_bin_padded:
  assumes "length cs = b64_nopad_len (length bs)" and "b64_dec_blocks cs = Inr bs" and "length bs \<le> length buf"
    and np: "\<forall>c\<in>set cs. c \<noteq> code_pad"
  shows "b64_to_bin (Some (cs @ b64_pads (length bs))) (Some buf) = Inr (int (length bs), Some (mem_write buf bs))"
proof (cases rule: b64_length_cases [of "length bs"])
  case 1
  have "cs ! (length cs - 2) \<noteq> code_pad \<and> cs ! (length cs - 1) \<noteq> code_pad" if "4 \<le> length cs"
    using np that by simp
  then show ?thesis
    using 1 b64_to_bin_nopad_enc [OF assms(1-3)] by (auto simp: b64_to_bin_def Let_def)
next
  case 2
  then show ?thesis
    using assms(1) b64_to_bin_nopad_enc [OF assms(1-3)] by (simp add: b64_to_bin_def Let_def nth_append)
next
  case 3
  have "cs ! (length cs - 1) \<noteq> code_pad"
    using np 3 assms(1) by simp
  then show ?thesis
    using 3 assms(1) b64_to_bin_nopad_enc [OF assms(1-3)] by (simp add: b64_to_bin_def Let_def nth_append)
qed

subsection \<open>The safe decoder\<close>

lemma pack4_ints:
  assumes "a < 64" "b < 64" "c < 64" "d < 64"
  shows "push_bit 18 (of_int (uint a)) OR push_bit 12 (of_int (uint b)) OR push_bit 6 (of_int (uint c)) OR
    (of_int (uint d) :: u32) = b64_pack4 a b c d"
proof -
  have m: "(mask 6 :: u8) AND w = w" if "w < 64" for w :: u8
  proof -
    have "uint (take_bit 6 w) = uint w"
      using that by (simp add: unsigned_take_bit_eq take_bit_int_eq_self word_less_alt)
    then have "take_bit 6 w = w" by (simp only: word_uint_eq_iff)
    then show ?thesis by (simp add: take_bit_eq_mask and.commute)
  qed
  show ?thesis
    unfolding b64_pack4_def masks by (simp only: m [OF assms(1)] m [OF assms(2)] m [OF assms(3)] m [OF assms(4)] ucast_eq)
qed

lemma safe_dec_block_codes:
  assumes "a < 64" "b < 64" "c < 64" "d < 64" and "\<not> (lst \<and> 0 < pad)"
  shows "safe_dec_block pad lst (b64_ch a) (b64_ch b) (b64_ch c) (b64_ch d) =
    (let v = b64_pack4 a b c d in Some [b64_byte v 16, b64_byte v 8, b64_byte v 0])"
  using assms pack4_ints [OF assms(1-4)] by (auto simp: safe_dec_block_def Let_def)

lemma b64_pad_value_pad [simp]: "b64_pad_value code_pad = -2"
  by (simp add: b64_pad_value_def)

lemma safe_dec_block_pads:
  assumes "a < 64" "b < 64" "c < 64"
  shows "safe_dec_block (Suc 0) True (b64_ch a) (b64_ch b) (b64_ch c) code_pad =
      (let v = b64_pack4 a b c 0 in Some [b64_byte v 16, b64_byte v 8])"
    and "safe_dec_block (Suc (Suc 0)) True (b64_ch a) (b64_ch b) code_pad code_pad =
      (let v = b64_pack4 a b 0 0 in Some [b64_byte v 16])"
  using assms pack4_ints [OF assms, of 0] pack4_ints [OF assms(1,2), of 0 0] by (auto simp: safe_dec_block_def Let_def)

lemma safe_dec_enc:
  "b64_enc_blocks bs = Inr cs \<Longrightarrow>
     safe_dec_blocks (length (b64_pads (length bs))) (cs @ b64_pads (length bs)) = (True, bs)"
proof (induction bs arbitrary: cs rule: b64_enc_blocks.induct)
  case (1 x y z xs)
  then obtain ds where ds: "b64_enc_blocks xs = Inr ds" "length ds = b64_nopad_len (length xs)"
    using enc_dec_blocks by blast
  then show ?case
    using 1
    by (auto simp: sextet_less safe_dec_block_codes pack4_sextets pack3_mask pack3_bytes Let_def)
next
  case (2 x y)
  have "b64_pack4 (b64_sextet (b64_pack3 x y 0) 18) (b64_sextet (b64_pack3 x y 0) 12) (b64_sextet (b64_pack3 x y 0) 6) 0 = b64_pack3 x y 0"
    using pack4_sextets [of "b64_pack3 x y 0"] by (simp add: pack3_low_sextet pack3_mask)
  with 2 show ?case
    by (auto simp: sextet_less safe_dec_block_pads(1) pack3_bytes Let_def)
next
  case (3 x)
  have "b64_pack4 (b64_sextet (b64_pack3 x 0 0) 18) (b64_sextet (b64_pack3 x 0 0) 12) 0 0 = b64_pack3 x 0 0"
    using pack4_sextets [of "b64_pack3 x 0 0"] by (simp add: pack3_low_sextet pack3_mask)
  with 3 show ?case
    by (auto simp: sextet_less safe_dec_block_pads(2) [of _ _ 0] pack3_bytes Let_def)
next
  case 4
  then show ?case by auto
qed

lemma safe_b64_trim_id: "cs = [] \<or> (last cs \<noteq> 10 \<and> last cs \<noteq> 13) \<Longrightarrow> safe_b64_trim cs = cs"
  by (cases cs rule: rev_cases) (auto simp: safe_b64_trim_def)

lemma safe_b64_decode_enc:
  assumes cs: "b64_enc_blocks bs = Inr cs" and len: "length cs = b64_nopad_len (length bs)"
    and np: "\<forall>c\<in>set cs. c \<noteq> code_pad \<and> c \<noteq> 10 \<and> c \<noteq> 13" and room: "length bs \<le> length buf"
  shows "safe_b64_decode (Some (cs @ b64_pads (length bs))) (Some buf) = (int (length bs), Some (mem_write buf bs))"
proof (cases "bs = []")
  case True
  then show ?thesis using cs by (simp add: safe_b64_decode_def safe_b64_trim_def mem_write_def)
next
  case False
  define t where "t = cs @ b64_pads (length bs)"
  have lt: "length t = safe_b64_encoded_len (length bs)"
    using len b64_padded_length [of "length bs"] by (simp add: t_def)
  have len_pos: "0 < length bs" using False by simp
  have "safe_b64_trim t = t \<and> t \<noteq> [] \<and> safe_b64_pad t = length (b64_pads (length bs)) \<and>
      length t div 4 * 3 - length (b64_pads (length bs)) = length bs"
  proof (cases rule: b64_length_cases [of "length bs"])
    case (1 k)
    then have ne: "cs \<noteq> []" using len len_pos by auto
    then have "last cs \<noteq> code_pad \<and> last cs \<noteq> 10 \<and> last cs \<noteq> 13" "cs ! (length cs - Suc 0) = last cs"
      using np by (simp_all add: last_conv_nth)
    with 1 ne len show ?thesis
      by (simp add: t_def safe_b64_pad_def safe_b64_trim_id)
  next
    case (2 k)
    with len show ?thesis
      by (auto simp: t_def safe_b64_pad_def nth_append intro!: safe_b64_trim_id)
  next
    case (3 k)
    then have "cs \<noteq> []" using len by auto
    then have "cs ! (length cs - Suc 0) \<noteq> code_pad" using np by (metis last_conv_nth last_in_set One_nat_def)
    with 3 len show ?thesis
      by (auto simp: t_def safe_b64_pad_def nth_append intro!: safe_b64_trim_id)
  qed
  then show ?thesis
    using room lt safe_dec_enc [OF cs] unfolding t_def [symmetric] by (simp add: safe_b64_decode_def Let_def)
qed

lemma safe_dec_block_length:
  "safe_dec_block pad lst a b c d = Some bs \<Longrightarrow> pad \<le> 2 \<Longrightarrow> length bs = (if lst then 3 - pad else 3)"
  by (cases "pad = 0 \<or> pad = 1 \<or> pad = 2") (auto simp: safe_dec_block_def Let_def split: if_splits)

lemma safe_dec_blocks_length:
  assumes "pad \<le> 2" and "length cs mod 4 = 0" and "cs \<noteq> []" and "safe_dec_blocks pad cs = (ok, bs)"
  shows "if ok then length bs + pad = length cs div 4 * 3 else length bs + 3 \<le> length cs div 4 * 3"
  using assms
proof (induction pad cs arbitrary: ok bs rule: safe_dec_blocks.induct)
  case (1 pad a b c d xs)
  show ?case
  proof (cases "safe_dec_block pad (xs = []) a b c d")
    case None
    with 1 show ?thesis by auto
  next
    case (Some b1)
    obtain ok2 b2 where r: "safe_dec_blocks pad xs = (ok2, b2)" by fastforce
    have l1: "length b1 = (if xs = [] then 3 - pad else 3)"
      using safe_dec_block_length [OF Some] "1.prems"(1) by simp
    have e: "ok = ok2" "bs = b1 @ b2" using "1.prems"(4) Some r by auto
    show ?thesis
    proof (cases "xs = []")
      case True
      then show ?thesis using r e l1 "1.prems"(1) by auto
    next
      case False
      have "length xs mod 4 = 0" using "1.prems"(2) by simp
      with False have "if ok2 then length b2 + pad = length xs div 4 * 3 else length b2 + 3 \<le> length xs div 4 * 3"
        using "1.IH" Some "1.prems"(1) r by simp
      moreover have "(4 + length xs) div 4 = length xs div 4 + 1" by presburger
      ultimately show ?thesis using False e l1 by (auto split: if_splits)
    qed
  qed
qed auto

lemma safe_dec_blocks_refuse:
  "length bs mod 3 = 0 \<Longrightarrow> safe_dec_blocks 0 (safe_enc_blocks bs @ [63, 63, 63, 63]) = (False, bs)"
proof (induction bs rule: safe_enc_blocks.induct)
  case (1 x y z xs)
  have "length xs mod 3 = 0" using 1(2) by simp
  with 1 show ?case
    by (simp add: b64_table_ch safe_pack3_eq safe_dec_block_codes sextet_less pack4_sextets pack3_mask pack3_bytes Let_def)
qed (simp_all add: safe_dec_block_def b64_pad_value_def b64_char_value_def)

lemma char_to_code_Inl: "char_to_code c = Inl e \<Longrightarrow> e = ExitFailure"
  by (simp add: char_to_code_def split: if_splits)

lemma res_map_char_to_code:
  "(\<exists>e. res_map char_to_code cs = Inl e) \<longleftrightarrow> (\<exists>c\<in>set cs. char_to_code c = Inl ExitFailure)"
  "res_map char_to_code cs = Inl e \<Longrightarrow> e = ExitFailure"
proof -
  show "res_map char_to_code cs = Inl e \<Longrightarrow> e = ExitFailure"
    by (induction cs) (auto simp: res_bind_Inl_iff dest: char_to_code_Inl)
  show "(\<exists>e. res_map char_to_code cs = Inl e) \<longleftrightarrow> (\<exists>c\<in>set cs. char_to_code c = Inl ExitFailure)"
  proof (induction cs)
    case Nil
    show ?case by simp
  next
    case (Cons c cs)
    then show ?case
      by (cases "char_to_code c"; cases "res_map char_to_code cs") (auto dest: char_to_code_Inl)
  qed
qed

lemma b64_dec_blocks_exit:
  "length cs mod 4 \<noteq> 1 \<Longrightarrow>
     (if \<exists>c\<in>set cs. char_to_code c = Inl ExitFailure then b64_dec_blocks cs = Inl ExitFailure
      else \<exists>bs. b64_dec_blocks cs = Inr bs)"
proof (induction cs rule: b64_dec_blocks.induct)
  case (1 a b c d xs)
  have "length xs mod 4 \<noteq> 1" using 1(2) by simp
  with 1(1) have IH: "if \<exists>c\<in>set xs. char_to_code c = Inl ExitFailure then b64_dec_blocks xs = Inl ExitFailure
      else \<exists>bs. b64_dec_blocks xs = Inr bs"
    by (cases "res_map char_to_code [a, b, c, d]") auto
  show ?case
  proof (cases "res_map char_to_code [a, b, c, d]")
    case (Inl e)
    then show ?thesis using res_map_char_to_code [of "[a, b, c, d]"] by auto
  next
    case (Inr v)
    then have "\<not> (\<exists>c\<in>set [a, b, c, d]. char_to_code c = Inl ExitFailure)"
      using res_map_char_to_code(1) [of "[a, b, c, d]"] by simp
    with IH Inr show ?thesis by (auto simp: Let_def split: if_splits)
  qed
next
  case (2 a b c)
  show ?case using res_map_char_to_code [of "[a, b, c]"] by (cases "res_map char_to_code [a, b, c]") (auto simp: Let_def)
next
  case (3 a b)
  show ?case using res_map_char_to_code [of "[a, b]"] by (cases "res_map char_to_code [a, b]") (auto simp: Let_def)
qed simp_all

subsection \<open>Properties\<close>

text \<open>
  C14. Both codecs round-trip: with room for the padded string and its terminator, encoding any
  bytes gives \<open>4 * ceil(n / 3)\<close> characters, and both decoders give back exactly these bytes,
  touching nothing of the output buffer past them.
\<close>

theorem b64_roundtrip:
  assumes "safe_b64_encoded_len (length bs) < length buf" and "length bs \<le> length dst"
  shows "\<exists>cs. length cs = safe_b64_encoded_len (length bs) \<and>
    bin_to_b64 (Some bs) (Some buf) = Inr (int (length cs), Some (mem_write buf (cs @ [0]))) \<and>
    b64_to_bin (Some cs) (Some dst) = Inr (int (length bs), Some (mem_write dst bs)) \<and>
    safe_b64_decode (Some cs) (Some dst) = (int (length bs), Some (mem_write dst bs))"
proof -
  obtain cs where cs: "b64_enc_blocks bs = Inr cs" "length cs = b64_nopad_len (length bs)" "b64_dec_blocks cs = Inr bs"
    "\<forall>c\<in>set cs. c \<noteq> code_pad \<and> c \<noteq> 10 \<and> c \<noteq> 13"
    using enc_dec_blocks by blast
  then show ?thesis
    using assms b64_padded_length [of "length bs"] bin_to_b64_room [OF cs(1,2) assms(1)]
      b64_to_bin_padded [OF cs(2,3) assms(2)] safe_b64_decode_enc [OF cs(1,2,4) assms(2)]
    by (intro exI [of _ "cs @ b64_pads (length bs)"]) auto
qed

theorem b64_roundtrip_witness:
  "\<exists>cs. length cs = 4 \<and> b64_to_bin (Some cs) (Some [0, 0, 9]) = Inr (2, Some [255, 1, 9])"
  using b64_roundtrip [of "[255, 1]" "[0, 0, 0, 0, 0]" "[0, 0, 9]"]
  by (auto simp: safe_b64_encoded_len_def mem_write_def)

text \<open>
  The daemon's encoder is equivalent to the library's: whenever there is room for the padded
  string, both return the same length and leave the same buffer.
\<close>

theorem b64_encoders_agree:
  assumes "safe_b64_encoded_len (length bs) < length buf"
  shows "bin_to_b64 (Some bs) (Some buf) = Inr (safe_b64_encode (Some bs) (Some buf))"
proof -
  obtain cs where cs: "b64_enc_blocks bs = Inr cs" "length cs = b64_nopad_len (length bs)"
    using enc_dec_blocks by blast
  then show ?thesis
    using assms b64_padded_length [of "length bs"] bin_to_b64_room [OF cs assms] safe_enc_blocks_eq [OF cs(1)]
    by (simp add: safe_b64_encode_def Let_def)
qed

theorem b64_encoders_agree_witness:
  "bin_to_b64 (Some [77, 97]) (Some [1, 1, 1, 1, 1]) = Inr (safe_b64_encode (Some [77, 97]) (Some [1, 1, 1, 1, 1]))"
  using b64_encoders_agree [of "[77, 97]" "[1, 1, 1, 1, 1]"] by (simp add: safe_b64_encoded_len_def)

text \<open>
  The library decoder terminates the process exactly on the inputs that pass its length checks
  and hold a character outside the alphabet; on every other input it returns.
\<close>

theorem b64_to_bin_nopad_exits:
  "b64_to_bin_nopad (Some cs) (Some buf) = Inl ExitFailure \<longleftrightarrow>
     length cs mod 4 \<noteq> 1 \<and> b64_bin_len (length cs) \<le> length buf \<and> (\<exists>c\<in>set cs. char_to_code c = Inl ExitFailure)"
proof (cases "cs = [] \<or> length cs mod 4 = 1 \<or> length buf < b64_bin_len (length cs)")
  case True
  then show ?thesis by (auto simp: b64_to_bin_nopad_def Let_def)
next
  case False
  then show ?thesis
    using b64_dec_blocks_exit [of cs] by (auto simp: b64_to_bin_nopad_def Let_def split: if_splits)
qed

text \<open>
  The safe decoder always returns and never writes past its buffer: the buffer keeps its size,
  and the result is -1 or the number of bytes decoded, which fits the capacity; a positive result
  means the trimmed input is a multiple of 4 characters with that many bytes in it.
\<close>

theorem safe_b64_decode_bounds:
  assumes "safe_b64_decode (Some cs) (Some buf) = (r, out)"
  shows "\<exists>buf'. out = Some buf' \<and> length buf' = length buf \<and> -1 \<le> r \<and> r \<le> int (length buf) \<and>
    (0 < r \<longrightarrow> length (safe_b64_trim cs) mod 4 = 0 \<and>
       int (length (safe_b64_trim cs) div 4 * 3) = r + int (safe_b64_pad (safe_b64_trim cs)))"
proof -
  define t where "t = safe_b64_trim cs"
  show ?thesis
  proof (cases "t = [] \<or> length t mod 4 \<noteq> 0 \<or> length buf < length t div 4 * 3 - safe_b64_pad t")
    case True
    then have "r \<le> 0 \<and> -1 \<le> r \<and> out = Some buf"
      using assms by (auto simp: safe_b64_decode_def Let_def t_def split: if_splits)
    then show ?thesis by simp
  next
    case False
    obtain ok bs where d: "safe_dec_blocks (safe_b64_pad t) t = (ok, bs)" by fastforce
    have pad: "safe_b64_pad t \<le> 2" by (simp add: safe_b64_pad_def)
    have l: "if ok then length bs + safe_b64_pad t = length t div 4 * 3 else length bs + 3 \<le> length t div 4 * 3"
      using safe_dec_blocks_length [OF pad _ _ d] False by simp
    then have "length bs \<le> length buf"
      using False pad by (auto split: if_splits)
    then show ?thesis
      using assms False d l by (auto simp: safe_b64_decode_def Let_def length_mem_write split: if_splits simp flip: t_def)
  qed
qed

theorem safe_b64_decode_bounds_witness:
  "safe_b64_decode (Some [81, 85, 74, 68, 10]) (Some [0, 0, 0, 0]) = (3, Some [65, 66, 67, 0])"
proof -
  have e: "safe_b64_decode (Some [81, 85, 74, 68, 10]) (Some [0, 0, 0, 0]) = (3, Some [65, 66, 67, 0])"
    by code_simp
  from safe_b64_decode_bounds [OF e] e show ?thesis by simp
qed

text \<open>
  The safe decoder writes the blocks it has decoded before it looks at the next one: an input
  whose last block is invalid is refused with the output buffer already overwritten by the
  bytes before that block, although the interface says that the whole input is validated before
  any byte is written.
\<close>

theorem safe_b64_decode_partial_write:
  assumes "length bs mod 3 = 0" and "length bs + 3 \<le> length buf"
  shows "safe_b64_decode (Some (safe_enc_blocks bs @ [63, 63, 63, 63])) (Some buf) = (-1, Some (mem_write buf bs))"
proof -
  define t where "t = safe_enc_blocks bs @ [63, 63, 63, 63 :: u8]"
  obtain cs where cs: "b64_enc_blocks bs = Inr cs" "length cs = b64_nopad_len (length bs)"
    using enc_dec_blocks by blast
  have "length (safe_enc_blocks bs) = safe_b64_encoded_len (length bs)"
    using safe_enc_blocks_eq [OF cs(1)] cs(2) b64_padded_length [of "length bs"] by simp
  also have "\<dots> = 4 * (length bs div 3)"
    using assms(1) by (simp add: safe_b64_encoded_len_def) presburger
  finally have len: "length t = 4 * (length bs div 3) + 4" by (simp add: t_def)
  have "length bs div 3 * 3 = length bs" using assms(1) by presburger
  then have room: "\<not> length buf < length t div 4 * 3" "length t mod 4 = 0"
    using assms(2) unfolding len by simp_all
  have "safe_b64_trim t = t" "safe_b64_pad t = 0" "t \<noteq> []"
    by (auto simp: t_def safe_b64_pad_def nth_append intro!: safe_b64_trim_id)
  then show ?thesis
    using room safe_dec_blocks_refuse [OF assms(1)] unfolding t_def [symmetric]
    by (simp add: safe_b64_decode_def Let_def)
qed

theorem safe_b64_decode_partial_write_witness:
  "safe_b64_decode (Some (safe_enc_blocks [1, 2, 3] @ [63, 63, 63, 63])) (Some [0, 0, 0, 0, 0, 0]) =
     (-1, Some [1, 2, 3, 0, 0, 0])"
  using safe_b64_decode_partial_write [of "[1, 2, 3]" "[0, 0, 0, 0, 0, 0]"] by (simp add: mem_write_def)

end
