(* ===== verification/Mqtt.thy ===== *)
theory Mqtt
  imports Base64 Complex_Main
begin

text \<open>
  The MQTT side of the daemon, \<^verbatim>\<open>clusterduck/src/clusterduckd.c\<close>: the ring buffer of messages
  waiting for a connection, publishing, connecting with exponential backoff, the handler of
  incoming commands and the periodic health check of \<^verbatim>\<open>thread_duck\<close>.

  The Paho client library, the allocator, the clock, the JSON parser and the ClusterDuck stack
  behind \<^verbatim>\<open>hub_send_data\<close> are the fields of \<open>mqtt_env\<close>, functions on an arbitrary world; every
  theorem holds for all of them or names what it needs. The queue mutex makes each queue access
  one step; the reconnect mutex makes publishing and reconnecting exclude each other.
\<close>

subsection \<open>State\<close>

record mqtt_queued_message_t =
  mq_topic :: cstring
  mq_message :: "cstring option"
  mq_length :: nat

record mqtt_queue =
  mqtt_message_queue :: "mqtt_queued_message_t list"
  mqtt_queue_head :: nat
  mqtt_queue_tail :: nat
  mqtt_queue_count :: nat

record mqtt_state =
  mq :: mqtt_queue
  mqtt_client :: bool
  mqtt_needs_reconnect :: bool
  mqtt_last_reconnect_attempt :: int
  mqtt_reconnect_delay :: int
  mqtt_reconnect_attempts :: int

record mqtt_config =
  mqtt_enabled :: bool
  mqtt_server :: cstring
  mqtt_port :: int
  mqtt_client_id :: cstring
  mqtt_username :: cstring
  mqtt_password :: cstring
  mqtt_pub_topic :: cstring
  mqtt_sub_topic :: cstring
  mqtt_response_topic :: cstring
  mqtt_keepalive :: int

record mqtt_connect_options =
  opt_keepAliveInterval :: int
  opt_cleansession :: int
  opt_connectTimeout :: int
  opt_login :: "(cstring \<times> cstring) option"

text \<open>What the parsed command offers; a missing number reads as 0.\<close>

record json_command =
  json_target :: "cstring option"
  json_topic :: rat
  json_message :: "cstring option"
  json_encoding :: "cstring option"

record 'w mqtt_env =
  MQTTClient_isConnected :: "'w \<Rightarrow> bool"
  MQTTClient_disconnect :: "'w \<Rightarrow> 'w"
  MQTTClient_destroy :: "'w \<Rightarrow> 'w"
  MQTTClient_create :: "cstring \<Rightarrow> cstring \<Rightarrow> 'w \<Rightarrow> int \<times> bool \<times> 'w"
  MQTTClient_connect :: "mqtt_connect_options \<Rightarrow> 'w \<Rightarrow> int \<times> 'w"
  MQTTClient_subscribe :: "cstring \<Rightarrow> 'w \<Rightarrow> int \<times> 'w"
  MQTTClient_publishMessage :: "cstring \<Rightarrow> cstring \<Rightarrow> 'w \<Rightarrow> int \<times> nat \<times> 'w"
  MQTTClient_waitForCompletion :: "nat \<Rightarrow> 'w \<Rightarrow> int \<times> 'w"
  env_malloc :: "nat \<Rightarrow> 'w \<Rightarrow> bool \<times> 'w"
  env_time :: "'w \<Rightarrow> int \<times> 'w"
  json_parse :: "cstring \<Rightarrow> json_command option"
  hub_send_data :: "u8 \<Rightarrow> cstring \<Rightarrow> u8 list \<Rightarrow> 'w \<Rightarrow> int \<times> 'w"

abbreviation (input) MQTT_QUEUE_SIZE :: nat where "MQTT_QUEUE_SIZE \<equiv> 100"
abbreviation (input) mqtt_max_reconnect_delay :: int where "mqtt_max_reconnect_delay \<equiv> 300"
abbreviation (input) MQTTCLIENT_SUCCESS :: int where "MQTTCLIENT_SUCCESS \<equiv> 0"

definition mqtt_queue_init :: mqtt_queue where
  "mqtt_queue_init =
     \<lparr>mqtt_message_queue = replicate MQTT_QUEUE_SIZE \<lparr>mq_topic = [], mq_message = None, mq_length = 0\<rparr>,
      mqtt_queue_head = 0, mqtt_queue_tail = 0, mqtt_queue_count = 0\<rparr>"

definition mqtt_state_init :: mqtt_state where
  "mqtt_state_init =
     \<lparr>mq = mqtt_queue_init, mqtt_client = False, mqtt_needs_reconnect = False,
      mqtt_last_reconnect_attempt = 0, mqtt_reconnect_delay = 5, mqtt_reconnect_attempts = 0\<rparr>"

subsection \<open>The queue\<close>

text \<open>Making room: with a full queue the oldest message is freed and forgotten.\<close>

definition mqtt_queue_make_room :: "mqtt_queue \<Rightarrow> mqtt_queue" where
  "mqtt_queue_make_room q =
     (if MQTT_QUEUE_SIZE \<le> mqtt_queue_count q
      then q\<lparr>mqtt_message_queue := (mqtt_message_queue q)[mqtt_queue_tail q :=
                (mqtt_message_queue q ! mqtt_queue_tail q)\<lparr>mq_message := None\<rparr>],
             mqtt_queue_tail := (mqtt_queue_tail q + 1) mod MQTT_QUEUE_SIZE,
             mqtt_queue_count := mqtt_queue_count q - 1\<rparr>
      else q)"

text \<open>
  \<^verbatim>\<open>mqtt_queue_message\<close>; \<open>mem_ok\<close> is whether \<^verbatim>\<open>malloc\<close> succeeds. The topic is cut to 127 characters.
  When the allocation fails the slot at the head keeps the new topic and a NULL message, and the
  head does not move.
\<close>

definition mqtt_queue_message :: "bool \<Rightarrow> mqtt_queue \<Rightarrow> cstring \<Rightarrow> cstring \<Rightarrow> int \<times> mqtt_queue" where
  "mqtt_queue_message mem_ok q0 topic message =
     (let q = mqtt_queue_make_room q0;
          slot = mqtt_message_queue q ! mqtt_queue_head q;
          named = slot\<lparr>mq_topic := take 127 topic, mq_message := None\<rparr>
      in if \<not> mem_ok
         then (-1, q\<lparr>mqtt_message_queue := (mqtt_message_queue q)[mqtt_queue_head q := named]\<rparr>)
         else (0, q\<lparr>mqtt_message_queue := (mqtt_message_queue q)[mqtt_queue_head q :=
                      named\<lparr>mq_message := Some message, mq_length := length message\<rparr>],
                    mqtt_queue_head := (mqtt_queue_head q + 1) mod MQTT_QUEUE_SIZE,
                    mqtt_queue_count := mqtt_queue_count q + 1\<rparr>))"

text \<open>The locked part of the publishing loop: the oldest message leaves the queue.\<close>

definition mqtt_dequeue :: "mqtt_queue \<Rightarrow> mqtt_queued_message_t \<times> mqtt_queue" where
  "mqtt_dequeue q =
     (let msg = mqtt_message_queue q ! mqtt_queue_tail q
      in (msg, q\<lparr>mqtt_message_queue := (mqtt_message_queue q)[mqtt_queue_tail q := msg\<lparr>mq_message := None\<rparr>],
                 mqtt_queue_tail := (mqtt_queue_tail q + 1) mod MQTT_QUEUE_SIZE,
                 mqtt_queue_count := mqtt_queue_count q - 1\<rparr>))"

text \<open>
  \<^verbatim>\<open>mqtt_publish_queued_messages\<close>: the number published, the queue and the world. The payload copied
  is the first \<^verbatim>\<open>length\<close> bytes of the message; a failed allocation loses the message silently,
  a failed publication loses it and ends the loop.
\<close>

lemma mqtt_dequeue_count [simp]: "mqtt_queue_count (snd (mqtt_dequeue q)) = mqtt_queue_count q - 1"
  by (simp add: mqtt_dequeue_def Let_def)

function mqtt_publish_queued_messages :: "'w mqtt_env \<Rightarrow> mqtt_queue \<Rightarrow> 'w \<Rightarrow> nat \<times> mqtt_queue \<times> 'w" where
  "mqtt_publish_queued_messages env q w =
     (if mqtt_queue_count q = 0 then (0, q, w)
      else
        let msg = fst (mqtt_dequeue q);
            (topic_ok, w1) = env_malloc env (length (mq_topic msg) + 1) w;
            (payload_ok, w2) = env_malloc env (mq_length msg) w1
        in if \<not> payload_ok \<or> \<not> topic_ok then mqtt_publish_queued_messages env (snd (mqtt_dequeue q)) w2
           else
             let payload = take (mq_length msg) (case mq_message msg of None \<Rightarrow> [] | Some m \<Rightarrow> m);
                 (rc, token, w3) = MQTTClient_publishMessage env (mq_topic msg) payload w2
             in if rc \<noteq> MQTTCLIENT_SUCCESS then (0, snd (mqtt_dequeue q), w3)
                else let (n, q', w') = mqtt_publish_queued_messages env (snd (mqtt_dequeue q)) w3
                     in (Suc n, q', w'))"
  by pat_completeness auto
termination
  by (relation "measure (\<lambda>(env, q, w). mqtt_queue_count q)") auto

declare mqtt_publish_queued_messages.simps [simp del]

subsection \<open>Connecting\<close>

definition mqtt_broker_address :: "mqtt_config \<Rightarrow> cstring" where
  "mqtt_broker_address cfg = take 255 (cstr ''tcp://'' @ mqtt_server cfg @ cstr '':'' @ dec_int (mqtt_port cfg))"

definition mqtt_conn_opts :: "mqtt_config \<Rightarrow> mqtt_connect_options" where
  "mqtt_conn_opts cfg =
     \<lparr>opt_keepAliveInterval = mqtt_keepalive cfg, opt_cleansession = 1, opt_connectTimeout = 5,
      opt_login = (if mqtt_username cfg \<noteq> [] then Some (mqtt_username cfg, mqtt_password cfg) else None)\<rparr>"

text \<open>The clean-up of an existing client.\<close>

definition mqtt_drop_client :: "'w mqtt_env \<Rightarrow> mqtt_state \<Rightarrow> 'w \<Rightarrow> mqtt_state \<times> 'w" where
  "mqtt_drop_client env st w =
     (if mqtt_client st
      then (st\<lparr>mqtt_needs_reconnect := True, mqtt_client := False\<rparr>,
            MQTTClient_destroy env (if MQTTClient_isConnected env w then MQTTClient_disconnect env w else w))
      else (st, w))"

text \<open>Publishing what is queued, when there is anything.\<close>

definition mqtt_flush :: "'w mqtt_env \<Rightarrow> mqtt_state \<Rightarrow> 'w \<Rightarrow> mqtt_state \<times> 'w" where
  "mqtt_flush env st w =
     (if 0 < mqtt_queue_count (mq st)
      then let (n, q, w') = mqtt_publish_queued_messages env (mq st) w in (st\<lparr>mq := q\<rparr>, w')
      else (st, w))"

definition mqtt_init_and_connect :: "mqtt_config \<Rightarrow> 'w mqtt_env \<Rightarrow> mqtt_state \<Rightarrow> 'w \<Rightarrow> int \<times> mqtt_state \<times> 'w" where
  "mqtt_init_and_connect cfg env st w =
     (if \<not> mqtt_enabled cfg then (0, st, w)
      else
        let (st1, w1) = mqtt_drop_client env st w;
            (rc, handle, w2) = MQTTClient_create env (mqtt_broker_address cfg) (mqtt_client_id cfg) w1
        in if rc \<noteq> MQTTCLIENT_SUCCESS
           then (-1, st1\<lparr>mqtt_client := handle, mqtt_reconnect_attempts := mqtt_reconnect_attempts st1 + 1\<rparr>, w2)
           else
             let (rc, w3) = MQTTClient_connect env (mqtt_conn_opts cfg) w2
             in if rc \<noteq> MQTTCLIENT_SUCCESS
                then (-1, st1\<lparr>mqtt_client := False, mqtt_reconnect_attempts := mqtt_reconnect_attempts st1 + 1\<rparr>,
                      MQTTClient_destroy env w3)
                else
                  let st2 = st1\<lparr>mqtt_client := True, mqtt_reconnect_attempts := 0, mqtt_reconnect_delay := 5\<rparr>;
                      w4 = (if mqtt_sub_topic cfg \<noteq> []
                            then snd (MQTTClient_subscribe env (mqtt_sub_topic cfg) w3) else w3);
                      (st3, w5) = mqtt_flush env st2 w4
                  in (0, st3, w5))"

definition mqtt_reconnect_with_backoff :: "mqtt_config \<Rightarrow> 'w mqtt_env \<Rightarrow> mqtt_state \<Rightarrow> 'w \<Rightarrow> int \<times> mqtt_state \<times> 'w" where
  "mqtt_reconnect_with_backoff cfg env st w0 =
     (let (now, w) = env_time env w0
      in if now - mqtt_last_reconnect_attempt st < mqtt_reconnect_delay st then (-1, st, w)
         else
           let (result, st1, w1) = mqtt_init_and_connect cfg env (st\<lparr>mqtt_last_reconnect_attempt := now\<rparr>) w
           in if result \<noteq> 0
              then (result, st1\<lparr>mqtt_reconnect_delay :=
                       min (mqtt_reconnect_delay st1 * 2) mqtt_max_reconnect_delay\<rparr>, w1)
              else let (st2, w2) = mqtt_flush env (st1\<lparr>mqtt_needs_reconnect := False\<rparr>) w1
                   in (0, st2, w2))"

subsection \<open>Publishing\<close>

definition mqtt_queue_in :: "'w mqtt_env \<Rightarrow> mqtt_state \<Rightarrow> cstring \<Rightarrow> cstring \<Rightarrow> 'w \<Rightarrow> mqtt_state \<times> 'w" where
  "mqtt_queue_in env st topic message w =
     (let (mem_ok, w') = env_malloc env (length message + 1) w
      in (st\<lparr>mq := snd (mqtt_queue_message mem_ok (mq st) topic message)\<rparr>, w'))"

definition mqtt_publish_message ::
    "mqtt_config \<Rightarrow> 'w mqtt_env \<Rightarrow> mqtt_state \<Rightarrow> cstring option \<Rightarrow> cstring \<Rightarrow> 'w \<Rightarrow> mqtt_state \<times> 'w" where
  "mqtt_publish_message cfg env st topic message w =
     (if \<not> mqtt_enabled cfg then (st, w)
      else
        let pub_topic = (case topic of Some t \<Rightarrow> if t \<noteq> [] then t else mqtt_pub_topic cfg | None \<Rightarrow> mqtt_pub_topic cfg)
        in if \<not> mqtt_client st \<or> mqtt_needs_reconnect st \<or> \<not> MQTTClient_isConnected env w
           then let (st1, w1) = mqtt_queue_in env st pub_topic message w
                in snd (mqtt_reconnect_with_backoff cfg env st1 w1)
           else
             let (rc, token, w1) = MQTTClient_publishMessage env pub_topic message w
             in if rc \<noteq> MQTTCLIENT_SUCCESS
                then let (st1, w2) = mqtt_queue_in env st pub_topic message w1
                     in (st1\<lparr>mqtt_needs_reconnect := True\<rparr>, w2)
                else
                  let (rc, w2) = MQTTClient_waitForCompletion env token w1
                  in if rc \<noteq> MQTTCLIENT_SUCCESS
                     then let (st1, w3) = mqtt_queue_in env st pub_topic message w2
                          in (st1\<lparr>mqtt_needs_reconnect := True\<rparr>, w3)
                     else (st, w2))"

definition mqtt_publish_response :: "mqtt_config \<Rightarrow> 'w mqtt_env \<Rightarrow> mqtt_state \<Rightarrow> cstring \<Rightarrow> 'w \<Rightarrow> mqtt_state \<times> 'w" where
  "mqtt_publish_response cfg env st message w = mqtt_publish_message cfg env st (Some (mqtt_response_topic cfg)) message w"

subsection \<open>Incoming commands\<close>

text \<open>Conversion of a double to \<^verbatim>\<open>uint8_t\<close>: undefined unless the truncated value fits.\<close>

definition double_to_u8 :: "rat \<Rightarrow> u8 option" where
  "double_to_u8 x = (if -1 < x \<and> x < 256 then Some (of_int (if x < 0 then 0 else \<lfloor>x\<rfloor>)) else None)"

definition ascii_lower :: "u8 \<Rightarrow> u8" where
  "ascii_lower c = (if 65 \<le> c \<and> c \<le> 90 then c + 32 else c)"

definition strcaseeq :: "cstring \<Rightarrow> cstring \<Rightarrow> bool" where
  "strcaseeq a b \<longleftrightarrow> map ascii_lower a = map ascii_lower b"

text \<open>The eight bytes of the target device.\<close>

definition mqtt_target_device :: "cstring \<Rightarrow> u8 list" where
  "mqtt_target_device target =
     (if strcaseeq target (cstr ''BROADCAST'') \<or> strcaseeq target (cstr ''ALL'') then replicate 8 0xFF
      else take 8 target @ replicate (8 - length target) 0x20)"

text \<open>The response text before \<^verbatim>\<open>snprintf\<close> cuts it to 511 characters.\<close>

definition mqtt_response_text :: "int \<Rightarrow> u8 list \<Rightarrow> u8 \<Rightarrow> cstring \<Rightarrow> cstring" where
  "mqtt_response_text result target topic message =
     (let tail = cstr ''\"target\":\"'' @ takeWhile (\<lambda>c. c \<noteq> 0) (take 8 target) @ cstr ''\",\"topic\":'' @
                 dec_int (uint topic) @ cstr '',\"message\":\"'' @ message @ cstr ''\"}''
      in if result = 0 then cstr ''{\"status\":\"success\",'' @ tail
         else cstr ''{\"status\":\"error\",\"code\":'' @ dec_int result @ cstr '','' @ tail)"

text \<open>The payload to send: the message itself or its decoding; \<open>None\<close> refuses the command.\<close>

definition mqtt_command_payload :: "cstring option \<Rightarrow> cstring \<Rightarrow> cstring option" where
  "mqtt_command_payload encoding message =
     (if (case encoding of None \<Rightarrow> False | Some e \<Rightarrow> strcaseeq e (cstr ''base64''))
      then let (n, out) = safe_b64_decode (Some message) (Some (replicate 512 0))
           in if n < 0 then None else Some (take (nat n) (the out))
      else Some message)"

text \<open>
  \<^verbatim>\<open>mqtt_message_arrived\<close>. The result is the return value with the state and the world; the fault
  is the conversion of a topic number that \<^verbatim>\<open>uint8_t\<close> cannot hold. A command payload is a C string
  after the copy, so a zero byte ends it: the parser sees the part before it.
\<close>

definition mqtt_message_arrived ::
    "mqtt_config \<Rightarrow> 'w mqtt_env \<Rightarrow> mqtt_state \<Rightarrow> cstring option \<Rightarrow> 'w \<Rightarrow> c_fault + (int \<times> mqtt_state \<times> 'w)" where
  "mqtt_message_arrived cfg env st payload w =
     (case payload of
        None \<Rightarrow> Inr (1, st, w)
      | Some [] \<Rightarrow> Inr (1, st, w)
      | Some bytes \<Rightarrow>
          let (mem_ok, w1) = env_malloc env (length bytes + 1) w
          in if \<not> mem_ok then Inr (1, st, w1)
             else case json_parse env (takeWhile (\<lambda>c. c \<noteq> 0) bytes) of
               None \<Rightarrow> Inr (1, st, w1)
             | Some cmd \<Rightarrow>
                 if \<not> 20 \<le> json_topic cmd \<and> double_to_u8 (json_topic cmd) = None then Inl UndefinedConversion
                 else if json_target cmd = None \<or>
                         \<not> (20 \<le> json_topic cmd \<or> double_to_u8 (json_topic cmd) = Some 8) \<or>
                         json_message cmd = None
                 then Inr (1, st, w1)
                 else
                   let target = the (json_target cmd); message = the (json_message cmd)
                   in case mqtt_command_payload (json_encoding cmd) message of
                        None \<Rightarrow> Inr (1, st, w1)
                      | Some send_message \<Rightarrow>
                          (case double_to_u8 (json_topic cmd) of
                             None \<Rightarrow> Inl UndefinedConversion
                           | Some topic \<Rightarrow>
                               let device = mqtt_target_device target;
                                   (result, w2) = hub_send_data env topic send_message device w1;
                                   response = mqtt_response_text result device topic message
                               in if length response < 512
                                  then let (st', w3) = mqtt_queue_in env st (mqtt_response_topic cfg) response w2
                                       in Inr (1, st', w3)
                                  else Inr (1, st, w2)))"

subsection \<open>Health check\<close>

text \<open>
  One turn of the loop of \<^verbatim>\<open>thread_duck\<close> after \<^verbatim>\<open>hub_run_loop\<close>: the counter, the state and the world.
\<close>

definition thread_duck_turn :: "mqtt_config \<Rightarrow> 'w mqtt_env \<Rightarrow> int \<Rightarrow> mqtt_state \<Rightarrow> 'w \<Rightarrow> int \<times> mqtt_state \<times> 'w" where
  "thread_duck_turn cfg env counter st w =
     (if \<not> mqtt_enabled cfg then (counter, st, w)
      else
        let c = counter + 1; check_interval = (if 0 < mqtt_queue_count (mq st) then 5 else 300)
        in if c < check_interval then (c, st, w)
           else if mqtt_needs_reconnect st \<or> (mqtt_client st \<and> \<not> MQTTClient_isConnected env w)
           then let (r, st', w') = mqtt_reconnect_with_backoff cfg env st w in (0, st', w')
           else if 0 < mqtt_queue_count (mq st) \<and> mqtt_client st \<and> MQTTClient_isConnected env w
           then let (st', w') = mqtt_flush env st w in (0, st', w')
           else (0, st, w))"

end
