(* ===== verification/MqttProps.thy ===== *)
theory MqttProps
  imports Mqtt
begin

text \<open>
  Properties of the MQTT side: the ring buffer implements a bounded queue that forgets its oldest
  message, publishing sends in order and what a failure costs, the bounds of the backoff, the
  commands that reach the mesh network, and the invariants of every reachable state.
\<close>

subsection \<open>The ring buffer as a list\<close>

definition mq_entry :: "mqtt_queued_message_t \<Rightarrow> cstring \<times> cstring" where
  "mq_entry s = (mq_topic s, the (mq_message s))"

definition mq_contents :: "mqtt_queue \<Rightarrow> (cstring \<times> cstring) list" where
  "mq_contents q = map mq_entry (ring_read (mqtt_message_queue q) (mqtt_queue_tail q) (mqtt_queue_count q))"

definition mq_slot_ok :: "mqtt_queued_message_t \<Rightarrow> bool" where
  "mq_slot_ok s \<longleftrightarrow> length (mq_topic s) \<le> 127 \<and> (\<exists>m. mq_message s = Some m \<and> mq_length s = length m)"

text \<open>
  Well-formed: indices in range, the head follows the last message, every message in use is
  allocated with its length.
\<close>

definition mq_wf :: "mqtt_queue \<Rightarrow> bool" where
  "mq_wf q \<longleftrightarrow> length (mqtt_message_queue q) = MQTT_QUEUE_SIZE \<and> mqtt_queue_tail q < MQTT_QUEUE_SIZE \<and>
     mqtt_queue_count q \<le> MQTT_QUEUE_SIZE \<and>
     mqtt_queue_head q = (mqtt_queue_tail q + mqtt_queue_count q) mod MQTT_QUEUE_SIZE \<and>
     list_all mq_slot_ok (ring_read (mqtt_message_queue q) (mqtt_queue_tail q) (mqtt_queue_count q))"

definition mq_put :: "mqtt_queue \<Rightarrow> cstring \<times> cstring \<Rightarrow> mqtt_queue" where
  "mq_put q m = snd (mqtt_queue_message True q (fst m) (snd m))"

definition mq_get :: "mqtt_queue \<Rightarrow> (cstring \<times> cstring) \<times> mqtt_queue" where
  "mq_get q = (mq_entry (fst (mqtt_dequeue q)), snd (mqtt_dequeue q))"

lemma length_mq_contents [simp]: "length (mq_contents q) = mqtt_queue_count q"
  by (simp add: mq_contents_def)

lemma mq_wf_init: "mq_wf mqtt_queue_init"
  by (simp add: mq_wf_def mqtt_queue_init_def)

lemma mq_dequeue:
  assumes "mq_wf q" and "0 < mqtt_queue_count q"
  shows "mq_wf (snd (mqtt_dequeue q)) \<and> mq_slot_ok (fst (mqtt_dequeue q)) \<and>
    mq_contents q = mq_entry (fst (mqtt_dequeue q)) # mq_contents (snd (mqtt_dequeue q))"
proof -
  obtain n where n: "mqtt_queue_count q = Suc n"
    using assms(2) by (cases "mqtt_queue_count q") auto
  have len: "length (mqtt_message_queue q) = 100" "mqtt_queue_tail q < 100" "n < 100"
    using assms(1) n by (simp_all add: mq_wf_def)
  have pop: "ring_read (mqtt_message_queue q) (mqtt_queue_tail q) (Suc n) = mqtt_message_queue q ! mqtt_queue_tail q #
      ring_read (mqtt_message_queue q) ((mqtt_queue_tail q + 1) mod 100) n"
    and upd: "\<And>v. ring_read ((mqtt_message_queue q)[mqtt_queue_tail q := v]) ((mqtt_queue_tail q + 1) mod 100) n =
      ring_read (mqtt_message_queue q) ((mqtt_queue_tail q + 1) mod 100) n"
    using ring_read_pop [of "mqtt_queue_tail q" "mqtt_message_queue q" n] len by simp_all
  have head: "mqtt_queue_head q = ((mqtt_queue_tail q + 1) mod 100 + n) mod 100"
    using assms(1) n by (simp add: mq_wf_def mod_add_left_eq)
  show ?thesis
    using assms(1) n pop upd head len by (simp add: mqtt_dequeue_def Let_def mq_wf_def mq_contents_def)
qed

lemma mq_make_room:
  assumes "mq_wf q"
  shows "mq_wf (mqtt_queue_make_room q) \<and> mqtt_queue_count (mqtt_queue_make_room q) < MQTT_QUEUE_SIZE \<and>
    mq_contents (mqtt_queue_make_room q) = drop (mqtt_queue_count q + 1 - MQTT_QUEUE_SIZE) (mq_contents q)"
proof (cases "mqtt_queue_count q < MQTT_QUEUE_SIZE")
  case True
  then show ?thesis using assms by (simp add: mqtt_queue_make_room_def)
next
  case False
  then have c: "mqtt_queue_count q = 100" using assms by (simp add: mq_wf_def)
  have "mqtt_queue_make_room q = snd (mqtt_dequeue q)"
    using c by (simp add: mqtt_queue_make_room_def mqtt_dequeue_def Let_def)
  then show ?thesis
    using mq_dequeue [OF assms] c by simp
qed

lemma mq_message_wf:
  assumes "mq_wf q"
  shows "mq_wf (snd (mqtt_queue_message mem_ok q topic message)) \<and>
    mq_contents (snd (mqtt_queue_message mem_ok q topic message)) =
      drop (mqtt_queue_count q + 1 - MQTT_QUEUE_SIZE) (mq_contents q) @
      (if mem_ok then [(take 127 topic, message)] else [])"
proof -
  define r where "r = mqtt_queue_make_room q"
  define n where "n = mqtt_queue_count r"
  have wf: "mq_wf r" and n: "n < 100"
    and c: "mq_contents r = drop (mqtt_queue_count q + 1 - 100) (mq_contents q)"
    using mq_make_room [OF assms] by (simp_all add: r_def n_def)
  have len: "length (mqtt_message_queue r) = 100" and head: "mqtt_queue_head r = (mqtt_queue_tail r + n) mod 100"
    using wf by (simp_all add: mq_wf_def n_def)
  have keep: "\<And>v. ring_read ((mqtt_message_queue r)[mqtt_queue_head r := v]) (mqtt_queue_tail r) n =
      ring_read (mqtt_message_queue r) (mqtt_queue_tail r) n"
    and add: "\<And>v. ring_read ((mqtt_message_queue r)[mqtt_queue_head r := v]) (mqtt_queue_tail r) (Suc n) =
      ring_read (mqtt_message_queue r) (mqtt_queue_tail r) n @ [v]"
    using ring_read_write [of n "mqtt_message_queue r" "mqtt_queue_tail r"] n len head by simp_all
  have hd: "(mqtt_queue_head r + 1) mod 100 = (mqtt_queue_tail r + Suc n) mod 100"
    unfolding head by (simp add: mod_Suc_eq)
  have c': "map mq_entry (ring_read (mqtt_message_queue r) (mqtt_queue_tail r) n) = drop (mqtt_queue_count q + 1 - 100) (mq_contents q)"
    using c by (simp add: mq_contents_def n_def)
  let ?q' = "snd (mqtt_queue_message mem_ok q topic message)"
  have "mq_wf ?q'"
    using wf n keep add hd head len
    by (simp add: mqtt_queue_message_def Let_def mq_wf_def mq_slot_ok_def flip: r_def n_def)
  moreover have "mq_contents ?q' = map mq_entry (ring_read (mqtt_message_queue r) (mqtt_queue_tail r) n) @
      (if mem_ok then [(take 127 topic, message)] else [])"
    using keep add
    by (simp add: mqtt_queue_message_def Let_def mq_contents_def mq_entry_def flip: r_def n_def)
  ultimately show ?thesis by (simp only: c')
qed

interpretation mqf: drop_oldest_fifo mq_wf mq_contents MQTT_QUEUE_SIZE "\<lambda>m. length (fst m) \<le> 127" mq_put mq_get
proof
  fix q :: mqtt_queue and m :: "cstring \<times> cstring"
  assume wf: "mq_wf q"
  show "length (mq_contents q) \<le> 100" using wf by (simp add: mq_wf_def)
  assume m: "length (fst m) \<le> 127"
  show "mq_wf (mq_put q m)" using mq_message_wf [OF wf] by (simp add: mq_put_def)
  have "mq_contents (mq_put q m) = drop (mqtt_queue_count q + 1 - 100) (mq_contents q) @ [m]"
    using mq_message_wf [OF wf, of True "fst m" "snd m"] m by (simp add: mq_put_def)
  then show "mq_contents (mq_put q m) = drop (length (mq_contents q) + 1 - 100) (mq_contents q @ [m])"
    using wf by (simp add: mq_wf_def)
next
  fix q :: mqtt_queue
  assume wf: "mq_wf q" and "mq_contents q \<noteq> []"
  then have "0 < mqtt_queue_count q" by (metis length_mq_contents length_greater_0_conv)
  from mq_dequeue [OF wf this]
  show "mq_wf (snd (mq_get q))" "mq_contents q = fst (mq_get q) # mq_contents (snd (mq_get q))"
    by (simp_all add: mq_get_def)
qed

subsection \<open>Publishing the queue\<close>

lemma mq_slot_payload:
  "mq_slot_ok s \<Longrightarrow> (mq_topic s, take (mq_length s) (case mq_message s of None \<Rightarrow> [] | Some m \<Rightarrow> m)) = mq_entry s"
  by (auto simp: mq_slot_ok_def mq_entry_def)

text \<open>
  One turn of the loop: either the copies could not be allocated and the message is skipped, or
  its topic and payload are handed to the client library, which accepts or refuses it.
\<close>

lemma mq_publish_turn:
  assumes "mq_wf q" and "0 < mqtt_queue_count q"
  obtains (skip) w2 n1 n2 where "w2 = snd (env_malloc env n2 (snd (env_malloc env n1 w)))"
      "\<not> (fst (env_malloc env n1 w) \<and> fst (env_malloc env n2 (snd (env_malloc env n1 w))))"
      "mqtt_publish_queued_messages env q w = mqtt_publish_queued_messages env (snd (mqtt_dequeue q)) w2"
  | (refused) w2 n1 n2 rc tok w3 where "w2 = snd (env_malloc env n2 (snd (env_malloc env n1 w)))"
      "case_prod (MQTTClient_publishMessage env) (hd (mq_contents q)) w2 = (rc, tok, w3)" "rc \<noteq> MQTTCLIENT_SUCCESS"
      "mqtt_publish_queued_messages env q w = (0, snd (mqtt_dequeue q), w3)"
  | (sent) w2 n1 n2 tok w3 where "w2 = snd (env_malloc env n2 (snd (env_malloc env n1 w)))"
      "case_prod (MQTTClient_publishMessage env) (hd (mq_contents q)) w2 = (MQTTCLIENT_SUCCESS, tok, w3)"
      "mqtt_publish_queued_messages env q w = map_prod Suc id (mqtt_publish_queued_messages env (snd (mqtt_dequeue q)) w3)"
proof -
  define msg where "msg = fst (mqtt_dequeue q)"
  define n1 where "n1 = length (mq_topic msg) + 1"
  define w1 where "w1 = snd (env_malloc env n1 w)"
  define w2 where "w2 = snd (env_malloc env (mq_length msg) w1)"
  define pl where "pl = take (mq_length msg) (case mq_message msg of None \<Rightarrow> [] | Some m \<Rightarrow> m)"
  obtain rc tok w3 where p: "MQTTClient_publishMessage env (mq_topic msg) pl w2 = (rc, tok, w3)"
    using prod_cases3 by blast
  have d: "mq_slot_ok msg" "mq_contents q = mq_entry msg # mq_contents (snd (mqtt_dequeue q))"
    using mq_dequeue [OF assms] by (simp_all add: msg_def)
  have hd: "hd (mq_contents q) = (mq_topic msg, pl)"
    using d mq_slot_payload [OF d(1)] by (simp add: pl_def)
  have e: "mqtt_publish_queued_messages env q w =
      (if \<not> fst (env_malloc env (mq_length msg) w1) \<or> \<not> fst (env_malloc env n1 w)
       then mqtt_publish_queued_messages env (snd (mqtt_dequeue q)) w2
       else if rc \<noteq> 0 then (0, snd (mqtt_dequeue q), w3)
       else map_prod Suc id (mqtt_publish_queued_messages env (snd (mqtt_dequeue q)) w3))"
    using assms(2) p unfolding w2_def w1_def n1_def pl_def msg_def
    by (subst mqtt_publish_queued_messages.simps) (auto simp: Let_def split: prod.splits)
  show thesis
  proof (cases "\<not> fst (env_malloc env (mq_length msg) w1) \<or> \<not> fst (env_malloc env n1 w)")
    case True
    then show ?thesis using e by (intro skip) (auto simp: w1_def w2_def)
  next
    case False
    then show ?thesis
      using e p hd refused [of w2 "mq_length msg" n1 rc tok w3] sent [of w2 "mq_length msg" n1 tok w3]
      by (cases "rc = 0") (auto simp: w1_def w2_def)
  qed
qed

lemma mq_publish_wf: "mq_wf q \<Longrightarrow> mq_wf (fst (snd (mqtt_publish_queued_messages env q w)))"
proof (induction "mqtt_queue_count q" arbitrary: q w)
  case 0
  then show ?case by (subst mqtt_publish_queued_messages.simps) simp
next
  case (Suc c)
  then have pos: "0 < mqtt_queue_count q" by simp
  have wf: "mq_wf (snd (mqtt_dequeue q))" using mq_dequeue [OF Suc(3) pos] by simp
  have IH: "mq_wf (fst (snd (mqtt_publish_queued_messages env (snd (mqtt_dequeue q)) v)))" for v
    using Suc(1) [OF _ wf] Suc(2) by simp
  show ?case
    using Suc(3) pos by (cases rule: mq_publish_turn [of q env w]) (auto simp: wf IH)
qed

text \<open>
  What is needed of the client library to speak of what it was given and how it answered: a log to which each publication adds its topic and payload
  with the return code, and which the allocator leaves alone. Allocations succeed.
\<close>

definition broker_logs :: "'w mqtt_env \<Rightarrow> ('w \<Rightarrow> ((cstring \<times> cstring) \<times> int) list) \<Rightarrow> bool" where
  "broker_logs env answers \<longleftrightarrow>
     (\<forall>t p w rc tok w'. MQTTClient_publishMessage env t p w = (rc, tok, w') \<longrightarrow> answers w' = answers w @ [((t, p), rc)]) \<and>
     (\<forall>n w. fst (env_malloc env n w) \<and> answers (snd (env_malloc env n w)) = answers w)"

text \<open>The answers of a run that sends \<open>sent\<close>, and stops at a refused message or with an empty queue.\<close>

definition publish_answers :: "(cstring \<times> cstring) list \<Rightarrow> (cstring \<times> cstring) list \<Rightarrow> ((cstring \<times> cstring) \<times> int) list \<Rightarrow> (cstring \<times> cstring) list \<Rightarrow> bool" where
  "publish_answers ms sent answers rest \<longleftrightarrow>
     (ms = sent \<and> answers = map (\<lambda>m. (m, MQTTCLIENT_SUCCESS)) sent \<and> rest = [] \<or>
      (\<exists>m rc. ms = sent @ m # rest \<and> rc \<noteq> MQTTCLIENT_SUCCESS \<and> answers = map (\<lambda>m. (m, MQTTCLIENT_SUCCESS)) sent @ [(m, rc)]))"

lemma publish_answers_sent:
  "publish_answers ms sent answers rest \<Longrightarrow> publish_answers (m # ms) (m # sent) ((m, MQTTCLIENT_SUCCESS) # answers) rest"
  unfolding publish_answers_def by auto

lemma mq_publish_log:
  assumes "broker_logs env answers" and "mq_wf q" and "mqtt_publish_queued_messages env q w = (n, q', w')"
  shows "\<exists>sent as. length sent = n \<and> answers w' = answers w @ as \<and> publish_answers (mq_contents q) sent as (mq_contents q')"
  using assms(2,3)
proof (induction "mqtt_queue_count q" arbitrary: q w n)
  case 0
  then have "mqtt_publish_queued_messages env q w = (0, q, w)"
    by (subst mqtt_publish_queued_messages.simps) simp
  moreover have "mq_contents q = []"
    using 0(1) by (simp add: mq_contents_def flip: 0(1))
  ultimately show ?case using 0 by (intro exI [of _ "[]"]) (simp add: publish_answers_def)
next
  case (Suc c)
  then have pos: "0 < mqtt_queue_count q" by simp
  define q1 where "q1 = snd (mqtt_dequeue q)"
  obtain m where d: "mq_wf q1" "mq_contents q = m # mq_contents q1" "c = mqtt_queue_count q1"
    using mq_dequeue [OF Suc(3) pos] Suc(2) by (auto simp: q1_def)
  note IH = Suc(1) [OF d(3,1)]
  have logs: "answers (snd (env_malloc env n1 v)) = answers v" "fst (env_malloc env n1 v)"
    "MQTTClient_publishMessage env t p v = (rc, tok, v') \<Longrightarrow> answers v' = answers v @ [((t, p), rc)]" for n1 v t p rc tok v'
    using assms(1) by (auto simp: broker_logs_def)
  from Suc(3) pos show ?case
  proof (cases rule: mq_publish_turn [of q env w])
    case skip
    then show ?thesis using logs by auto
  next
    case (refused w2 n1 n2 rc tok w3)
    then have "answers w' = answers w @ [(m, rc)]"
      using Suc(4) logs d(2) by (auto simp: split: prod.splits)
    then show ?thesis
      using refused(3,4) Suc(4) d by (intro exI [of _ "[]"] exI [of _ "[(m, rc)]"]) (auto simp: q1_def publish_answers_def)
  next
    case (sent w2 n1 n2 tok w3)
    have l: "answers w3 = answers w @ [(m, MQTTCLIENT_SUCCESS)]"
      using sent(1,2) logs d(2) by (auto split: prod.splits)
    obtain n0 where r: "mqtt_publish_queued_messages env q1 w3 = (n0, q', w')" "n = Suc n0"
      using sent(3) Suc(4) by (cases "mqtt_publish_queued_messages env q1 w3") (auto simp: q1_def)
    from IH [OF r(1)] obtain ms as where k: "length ms = n0" "answers w' = answers w3 @ as" "publish_answers (mq_contents q1) ms as (mq_contents q')"
      by blast
    then show ?thesis
      using l d(2) r(2) publish_answers_sent [OF k(3), of m] by (intro exI [of _ "m # ms"] exI [of _ "(m, MQTTCLIENT_SUCCESS) # as"]) simp
  qed
qed

subsection \<open>States\<close>

text \<open>
  The invariant of the connection state: the queue is well formed, the retry delay is between 5 s
  and 300 s, and a missing client is marked for reconnection.
\<close>

definition mqtt_inv :: "mqtt_state \<Rightarrow> bool" where
  "mqtt_inv st \<longleftrightarrow> mq_wf (mq st) \<and> 5 \<le> mqtt_reconnect_delay st \<and> mqtt_reconnect_delay st \<le> 300 \<and>
     0 \<le> mqtt_reconnect_attempts st"

definition mqtt_marked :: "mqtt_state \<Rightarrow> bool" where
  "mqtt_marked st \<longleftrightarrow> mqtt_client st \<or> mqtt_needs_reconnect st"

lemma mqtt_flush_fields [simp]:
  "mqtt_client (fst (mqtt_flush env st w)) = mqtt_client st"
  "mqtt_needs_reconnect (fst (mqtt_flush env st w)) = mqtt_needs_reconnect st"
  "mqtt_last_reconnect_attempt (fst (mqtt_flush env st w)) = mqtt_last_reconnect_attempt st"
  "mqtt_reconnect_delay (fst (mqtt_flush env st w)) = mqtt_reconnect_delay st"
  "mqtt_reconnect_attempts (fst (mqtt_flush env st w)) = mqtt_reconnect_attempts st"
  by (simp_all add: mqtt_flush_def split: prod.split)

lemma mqtt_flush_inv: "mqtt_inv st \<Longrightarrow> mqtt_inv (fst (mqtt_flush env st w))"
  using mq_publish_wf [of "mq st" env w] by (auto simp: mqtt_inv_def) (auto simp: mqtt_flush_def split: prod.split)

lemma mqtt_queue_in_fields [simp]:
  "mqtt_client (fst (mqtt_queue_in env st t m w)) = mqtt_client st"
  "mqtt_needs_reconnect (fst (mqtt_queue_in env st t m w)) = mqtt_needs_reconnect st"
  "mqtt_last_reconnect_attempt (fst (mqtt_queue_in env st t m w)) = mqtt_last_reconnect_attempt st"
  "mqtt_reconnect_delay (fst (mqtt_queue_in env st t m w)) = mqtt_reconnect_delay st"
  "mqtt_reconnect_attempts (fst (mqtt_queue_in env st t m w)) = mqtt_reconnect_attempts st"
  by (simp_all add: mqtt_queue_in_def split: prod.split)

lemma mqtt_queue_in_inv: "mqtt_inv st \<Longrightarrow> mqtt_inv (fst (mqtt_queue_in env st t m w))"
  using mq_message_wf [of "mq st"] by (auto simp: mqtt_inv_def) (auto simp: mqtt_queue_in_def split: prod.split)

lemma mqtt_drop_client_state:
  "fst (mqtt_drop_client env st w) = (if mqtt_client st then st\<lparr>mqtt_needs_reconnect := True, mqtt_client := False\<rparr> else st)"
  by (simp add: mqtt_drop_client_def)

text \<open>What a connection attempt leaves.\<close>

lemma mqtt_connect_cases:
  assumes "mqtt_init_and_connect cfg env st w = (r, st', w')" and "mqtt_enabled cfg"
  obtains (failed) h where "r = -1" "mqtt_needs_reconnect st' = (mqtt_needs_reconnect st \<or> mqtt_client st)"
      "st' = st\<lparr>mqtt_client := h, mqtt_needs_reconnect := mqtt_needs_reconnect st', mqtt_reconnect_attempts := mqtt_reconnect_attempts st + 1\<rparr>"
  | (connected) w1 where "r = 0" "st' = fst (mqtt_flush env (st\<lparr>mqtt_client := True, mqtt_needs_reconnect := mqtt_needs_reconnect st \<or> mqtt_client st,
        mqtt_reconnect_attempts := 0, mqtt_reconnect_delay := 5\<rparr>) w1)"
proof -
  obtain st1 w1 where d: "mqtt_drop_client env st w = (st1, w1)" by fastforce
  obtain rc h w2 where c: "MQTTClient_create env (mqtt_broker_address cfg) (mqtt_client_id cfg) w1 = (rc, h, w2)"
    using prod_cases3 by blast
  obtain rc' w3 where n: "MQTTClient_connect env (mqtt_conn_opts cfg) w2 = (rc', w3)" by fastforce
  define w4 where "w4 = (if mqtt_sub_topic cfg \<noteq> [] then snd (MQTTClient_subscribe env (mqtt_sub_topic cfg) w3) else w3)"
  define st2 where "st2 = st1\<lparr>mqtt_client := True, mqtt_reconnect_attempts := 0, mqtt_reconnect_delay := 5\<rparr>"
  have st1: "st1 = (if mqtt_client st then st\<lparr>mqtt_needs_reconnect := True, mqtt_client := False\<rparr> else st)"
    using mqtt_drop_client_state [of env st w] d by simp
  have e: "(r, st', w') = (if rc \<noteq> 0 then (-1, st1\<lparr>mqtt_client := h, mqtt_reconnect_attempts := mqtt_reconnect_attempts st1 + 1\<rparr>, w2)
      else if rc' \<noteq> 0 then (-1, st1\<lparr>mqtt_client := False, mqtt_reconnect_attempts := mqtt_reconnect_attempts st1 + 1\<rparr>, MQTTClient_destroy env w3)
      else (0, mqtt_flush env st2 w4))"
    unfolding assms(1) [symmetric] mqtt_init_and_connect_def Let_def d c n prod.case st2_def [symmetric] w4_def [symmetric]
    using assms(2) by (simp add: case_prod_unfold)
  consider "rc \<noteq> 0" | "rc = 0" "rc' \<noteq> 0" | "rc = 0" "rc' = 0" by blast
  then show thesis
  proof cases
    case 1
    then show ?thesis using e st1 by (intro failed [of h]) (auto split: if_splits)
  next
    case 2
    then show ?thesis using e st1 by (intro failed [of False]) (auto split: if_splits)
  next
    case 3
    then have r: "r = 0" "(st', w') = mqtt_flush env st2 w4" using e by simp_all
    have "st2 = st\<lparr>mqtt_client := True, mqtt_needs_reconnect := mqtt_needs_reconnect st \<or> mqtt_client st,
        mqtt_reconnect_attempts := 0, mqtt_reconnect_delay := 5\<rparr>"
      unfolding st2_def st1 by simp
    then show ?thesis using connected [of w4] r by (metis fst_conv)
  qed
qed

text \<open>What an attempt with backoff does, by its outcome.\<close>

lemma mqtt_backoff_cases:
  assumes "mqtt_reconnect_with_backoff cfg env st w = (r, st', w')" and "mqtt_enabled cfg"
  obtains (early) "r = -1" "st' = st" "fst (env_time env w) - mqtt_last_reconnect_attempt st < mqtt_reconnect_delay st"
  | (failed) h where "r = -1" "\<not> fst (env_time env w) - mqtt_last_reconnect_attempt st < mqtt_reconnect_delay st"
      "st' = st\<lparr>mqtt_client := h, mqtt_needs_reconnect := mqtt_needs_reconnect st \<or> mqtt_client st,
          mqtt_last_reconnect_attempt := fst (env_time env w),
          mqtt_reconnect_delay := min (mqtt_reconnect_delay st * 2) 300,
          mqtt_reconnect_attempts := mqtt_reconnect_attempts st + 1\<rparr>"
  | (connected) w1 w2 where "r = 0" "\<not> fst (env_time env w) - mqtt_last_reconnect_attempt st < mqtt_reconnect_delay st"
      "st' = fst (mqtt_flush env ((fst (mqtt_flush env (st\<lparr>mqtt_last_reconnect_attempt := fst (env_time env w), mqtt_client := True,
          mqtt_needs_reconnect := mqtt_needs_reconnect st \<or> mqtt_client st,
          mqtt_reconnect_attempts := 0, mqtt_reconnect_delay := 5\<rparr>) w1))\<lparr>mqtt_needs_reconnect := False\<rparr>) w2)"
proof -
  obtain now w0 where t: "env_time env w = (now, w0)" by fastforce
  obtain r1 st1 w1 where c: "mqtt_init_and_connect cfg env (st\<lparr>mqtt_last_reconnect_attempt := now\<rparr>) w0 = (r1, st1, w1)"
    using prod_cases3 by blast
  have e: "(r, st', w') = (if now - mqtt_last_reconnect_attempt st < mqtt_reconnect_delay st then (-1, st, w0)
      else if r1 \<noteq> 0 then (r1, st1\<lparr>mqtt_reconnect_delay := min (mqtt_reconnect_delay st1 * 2) 300\<rparr>, w1)
      else (0, mqtt_flush env (st1\<lparr>mqtt_needs_reconnect := False\<rparr>) w1))"
    unfolding assms(1) [symmetric] mqtt_reconnect_with_backoff_def Let_def t c prod.case by (simp add: case_prod_unfold)
  show thesis
  proof (cases "now - mqtt_last_reconnect_attempt st < mqtt_reconnect_delay st")
    case True
    then show ?thesis using e t by (intro early) simp_all
  next
    case late: False
    from c assms(2) show ?thesis
    proof (cases rule: mqtt_connect_cases)
      case (failed h)
      have "st1 = st\<lparr>mqtt_client := h, mqtt_needs_reconnect := mqtt_needs_reconnect st \<or> mqtt_client st,
          mqtt_last_reconnect_attempt := now, mqtt_reconnect_attempts := mqtt_reconnect_attempts st + 1\<rparr>"
        using failed(2,3) by simp
      then show ?thesis
        using e late failed(1) t by (intro that(2) [of h]) simp_all
    next
      case (connected v)
      have "st' = fst (mqtt_flush env (st1\<lparr>mqtt_needs_reconnect := False\<rparr>) w1)" and "r = 0"
        using e late connected(1) by (metis fst_conv snd_conv)+
      then show ?thesis
        using late t by (intro that(3) [of v w1]) (simp_all add: connected(2))
    qed
  qed
qed

lemma mqtt_inv_update [simp]:
  "mqtt_inv (st\<lparr>mqtt_client := c\<rparr>) = mqtt_inv st" "mqtt_inv (st\<lparr>mqtt_needs_reconnect := b\<rparr>) = mqtt_inv st"
  "mqtt_inv (st\<lparr>mqtt_last_reconnect_attempt := t\<rparr>) = mqtt_inv st"
  by (simp_all add: mqtt_inv_def)

lemma mqtt_backoff_inv:
  assumes "mqtt_reconnect_with_backoff cfg env st w = (r, st', w')" and "mqtt_enabled cfg"
    and "mqtt_inv st" and "mqtt_marked st"
  shows "mqtt_inv st' \<and> mqtt_marked st'"
  using assms(1,2)
proof (cases rule: mqtt_backoff_cases)
  case early
  then show ?thesis using assms by simp
next
  case (failed h)
  have "mqtt_inv st'" using assms(3) unfolding failed(3) by (simp add: mqtt_inv_def)
  moreover have "mqtt_marked st'" using assms(4) unfolding failed(3) by (auto simp: mqtt_marked_def)
  ultimately show ?thesis ..
next
  case (connected w1 w2)
  have "mqtt_inv (st\<lparr>mqtt_last_reconnect_attempt := fst (env_time env w), mqtt_client := True,
          mqtt_needs_reconnect := mqtt_needs_reconnect st \<or> mqtt_client st,
          mqtt_reconnect_attempts := 0, mqtt_reconnect_delay := 5\<rparr>)"
    using assms(3) by (simp add: mqtt_inv_def)
  then show ?thesis
    unfolding connected(3) by (auto intro!: mqtt_flush_inv simp: mqtt_marked_def)
qed

lemma mqtt_publish_inv:
  assumes "mqtt_enabled cfg" and "mqtt_inv st" and "mqtt_marked st"
    and "mqtt_publish_message cfg env st topic message w = (st', w')"
  shows "mqtt_inv st' \<and> mqtt_marked st'"
proof -
  define t where "t = (case topic of Some t \<Rightarrow> if t \<noteq> [] then t else mqtt_pub_topic cfg | None \<Rightarrow> mqtt_pub_topic cfg)"
  have q: "mqtt_inv (fst (mqtt_queue_in env st t message v))" "mqtt_marked (fst (mqtt_queue_in env st t message v))" for v
    using assms(2,3) by (simp_all add: mqtt_queue_in_inv mqtt_marked_def)
  have r: "mqtt_inv (fst (snd (mqtt_reconnect_with_backoff cfg env (fst (mqtt_queue_in env st t message v)) v')))"
    "mqtt_marked (fst (snd (mqtt_reconnect_with_backoff cfg env (fst (mqtt_queue_in env st t message v)) v')))" for v v'
    using mqtt_backoff_inv [OF _ assms(1) q] by (metis prod.collapse)+
  have "st' = fst (mqtt_publish_message cfg env st topic message w)"
    using assms(4) by simp
  then show ?thesis
    using q r assms(1-3)
    by (simp add: mqtt_publish_message_def case_prod_unfold mqtt_marked_def Let_def flip: t_def)
qed

text \<open>
  The states of the daemon after a first successful connection: messages are published, commands
  arrive, the health check turns, and the world changes at will in between.
\<close>

inductive mqtt_reachable :: "mqtt_config \<Rightarrow> 'w mqtt_env \<Rightarrow> mqtt_state \<Rightarrow> bool" for cfg env where
  start: "mqtt_init_and_connect cfg env mqtt_state_init w = (0, st, w') \<Longrightarrow> mqtt_reachable cfg env st"
| publish: "mqtt_reachable cfg env st \<Longrightarrow> mqtt_publish_message cfg env st topic message w = (st', w') \<Longrightarrow>
    mqtt_reachable cfg env st'"
| command: "mqtt_reachable cfg env st \<Longrightarrow> mqtt_message_arrived cfg env st payload w = Inr (r, st', w') \<Longrightarrow>
    mqtt_reachable cfg env st'"
| health: "mqtt_reachable cfg env st \<Longrightarrow> thread_duck_turn cfg env counter st w = (counter', st', w') \<Longrightarrow>
    mqtt_reachable cfg env st'"

text \<open>A command either leaves the state alone or queues one response.\<close>

lemma mqtt_command_state:
  assumes "mqtt_message_arrived cfg env st payload w = Inr (r, st', w')"
  shows "st' = st \<or> (\<exists>m v. st' = fst (mqtt_queue_in env st (mqtt_response_topic cfg) m v))"
  using assms unfolding mqtt_message_arrived_def Let_def
  by (auto split: option.splits list.splits if_splits prod.splits) (metis fst_conv)+

lemma mqtt_turn_state:
  assumes "thread_duck_turn cfg env counter st w = (counter', st', w')"
  shows "st' = st \<or> st' = fst (snd (mqtt_reconnect_with_backoff cfg env st w)) \<or> st' = fst (mqtt_flush env st w)"
  using assms by (auto simp: thread_duck_turn_def Let_def split: if_splits prod.splits)

lemma mqtt_reachable_inv:
  assumes "mqtt_enabled cfg" and "mqtt_reachable cfg env st"
  shows "mqtt_inv st \<and> mqtt_marked st"
  using assms(2)
proof (induction rule: mqtt_reachable.induct)
  case (start w st w')
  from start assms(1) show ?case
  proof (cases rule: mqtt_connect_cases)
    case (connected w1)
    have "mqtt_inv (mqtt_state_init\<lparr>mqtt_client := True, mqtt_needs_reconnect := b,
        mqtt_reconnect_attempts := 0, mqtt_reconnect_delay := 5\<rparr>)" for b
      by (simp add: mqtt_inv_def mqtt_state_init_def mq_wf_init)
    then show ?thesis
      unfolding connected(2) by (simp add: mqtt_flush_inv mqtt_marked_def)
  qed simp
next
  case (publish st topic message w st' w')
  then show ?case using mqtt_publish_inv [OF assms(1) _ _ publish(2)] by simp
next
  case (command st payload w r st' w')
  then show ?case using mqtt_command_state [OF command(2)] by (auto simp: mqtt_queue_in_inv mqtt_marked_def)
next
  case (health st counter w counter' st' w')
  obtain r s v where b: "mqtt_reconnect_with_backoff cfg env st w = (r, s, v)" using prod_cases3 by blast
  show ?case
    using mqtt_turn_state [OF health(2)] health(3) mqtt_backoff_inv [OF b assms(1)]
    by (auto simp: b mqtt_flush_inv) (simp_all add: mqtt_marked_def)
qed




text \<open>A concrete environment: everything succeeds, the world is the list of what was published.\<close>

definition mqtt_env_ok :: "json_command option \<Rightarrow> (cstring \<times> cstring) list mqtt_env" where
  "mqtt_env_ok cmd =
     \<lparr>MQTTClient_isConnected = \<lambda>w. True, MQTTClient_disconnect = \<lambda>w. w, MQTTClient_destroy = \<lambda>w. w,
      MQTTClient_create = \<lambda>a c w. (0, True, w), MQTTClient_connect = \<lambda>opts w. (0, w),
      MQTTClient_subscribe = \<lambda>t w. (0, w), MQTTClient_publishMessage = \<lambda>t p w. (0, 0, w @ [(t, p)]),
      MQTTClient_waitForCompletion = \<lambda>tok w. (0, w), env_malloc = \<lambda>n w. (True, w),
      env_time = \<lambda>w. (1000, w), json_parse = \<lambda>s. cmd, hub_send_data = \<lambda>t m d w. (0, w)\<rparr>"

definition mqtt_config_ok :: mqtt_config where
  "mqtt_config_ok =
     \<lparr>mqtt_enabled = True, mqtt_server = cstr ''broker'', mqtt_port = 1883, mqtt_client_id = cstr ''papa'',
      mqtt_username = [], mqtt_password = [], mqtt_pub_topic = cstr ''hub/event'',
      mqtt_sub_topic = cstr ''hub/command'', mqtt_response_topic = cstr ''hub/response'', mqtt_keepalive = 60\<rparr>"

subsection \<open>Properties\<close>

text \<open>
  C6. The ring buffer implements a bounded first-in first-out queue that drops its oldest entry:
  whatever sequence of messages is queued, the buffer holds exactly the last hundred of them in
  order, through any number of wrap-arounds of its indices.
\<close>

theorem mqtt_queue_keeps_last:
  assumes "\<forall>m\<in>set ms. length (fst m) \<le> 127"
  shows "mq_wf (foldl (\<lambda>q m. snd (mqtt_queue_message True q (fst m) (snd m))) mqtt_queue_init ms) \<and>
    mq_contents (foldl (\<lambda>q m. snd (mqtt_queue_message True q (fst m) (snd m))) mqtt_queue_init ms) =
      drop (length ms - MQTT_QUEUE_SIZE) ms"
proof -
  have "mq_contents mqtt_queue_init = []"
    by (simp add: mq_contents_def mqtt_queue_init_def)
  then show ?thesis
    using mqf.put_all [OF mq_wf_init assms] by (simp add: mq_put_def [abs_def])
qed

theorem mqtt_queue_keeps_last_witness:
  "mq_contents (foldl (\<lambda>q m. snd (mqtt_queue_message True q (fst m) (snd m))) mqtt_queue_init [([1], [2]), ([3], [4])]) =
     [([1], [2]), ([3], [4])]"
  using mqtt_queue_keeps_last [of "[([1], [2]), ([3], [4])]"] by simp

text \<open>
  C39. Publishing the queue terminates and hands the messages to the client library in the order they
  were queued, each once, and returns how many it accepted. Every message before the last one handed over was accepted; the run stops with an empty queue when all
  were accepted, and otherwise at the first message the library refuses: that one has left the queue as well, so it is lost, and exactly the ones behind it remain.
  Allocations succeed.
\<close>

theorem mqtt_publish_in_order:
  assumes "broker_logs env answers" and "mq_wf q" and "mqtt_publish_queued_messages env q w = (n, q', w')"
  shows "mq_wf q' \<and> (\<exists>sent as. length sent = n \<and> answers w' = answers w @ as \<and>
    (mq_contents q = sent \<and> as = map (\<lambda>m. (m, MQTTCLIENT_SUCCESS)) sent \<and> mq_contents q' = [] \<or>
     (\<exists>m rc. mq_contents q = sent @ m # mq_contents q' \<and> rc \<noteq> MQTTCLIENT_SUCCESS \<and>
        as = map (\<lambda>m. (m, MQTTCLIENT_SUCCESS)) sent @ [(m, rc)])))"
  using mq_publish_log [OF assms, unfolded publish_answers_def] mq_publish_wf [OF assms(2), of env w] assms(3) by simp

text \<open>A client library that refuses the payload 4.\<close>

definition mqtt_env_refusing :: "((cstring \<times> cstring) \<times> int) list mqtt_env" where
  "mqtt_env_refusing =
     \<lparr>MQTTClient_isConnected = (\<lambda>w. True), MQTTClient_disconnect = id, MQTTClient_destroy = id,
      MQTTClient_create = (\<lambda>a c w. (0, True, w)), MQTTClient_connect = (\<lambda>a w. (0, w)), MQTTClient_subscribe = (\<lambda>t w. (0, w)),
      MQTTClient_publishMessage = (\<lambda>t p w. let rc = (if p = [4] then -1 else 0) in (rc, 0, w @ [((t, p), rc)])),
      MQTTClient_waitForCompletion = (\<lambda>t w. (0, w)), env_malloc = (\<lambda>n w. (True, w)), env_time = (\<lambda>w. (0, w)),
      json_parse = (\<lambda>s. None), hub_send_data = (\<lambda>t p d w. (0, w))\<rparr>"

definition mqtt_queue_sample :: mqtt_queue where
  "mqtt_queue_sample = foldl (\<lambda>q m. snd (mqtt_queue_message True q (fst m) (snd m))) mqtt_queue_init [([1], [2]), ([1], [4]), ([1], [6])]"

lemma mqtt_queue_sample_facts: "mq_wf mqtt_queue_sample" "mq_contents mqtt_queue_sample = [([1], [2]), ([1], [4]), ([1], [6])]"
proof -
  have "mq_contents mqtt_queue_init = []" by (simp add: mq_contents_def mqtt_queue_init_def)
  then show "mq_wf mqtt_queue_sample" "mq_contents mqtt_queue_sample = [([1], [2]), ([1], [4]), ([1], [6])]"
    using mqf.put_all [OF mq_wf_init, of "[([1], [2]), ([1], [4]), ([1], [6])]"]
    by (simp_all add: mqtt_queue_sample_def mq_put_def)
qed

theorem mqtt_publish_in_order_witness:
  "\<exists>n q' w'. mqtt_publish_queued_messages mqtt_env_refusing mqtt_queue_sample [] = (n, q', w') \<and>
     n = 1 \<and> w' = [(([1], [2]), 0), (([1], [4]), -1)] \<and> mq_contents q' = [([1], [6])]"
proof -
  obtain n q' w' where e: "mqtt_publish_queued_messages mqtt_env_refusing mqtt_queue_sample [] = (n, q', w')"
    using prod_cases3 by blast
  have "snd (snd (mqtt_publish_queued_messages mqtt_env_refusing mqtt_queue_sample [])) = [(([1], [2]), 0), (([1], [4]), -1)]"
    by code_simp
  then have w: "w' = [(([1], [2]), 0), (([1], [4]), -1)]"
    by (simp add: e)
  have "broker_logs mqtt_env_refusing (\<lambda>w. w)"
    by (auto simp: broker_logs_def mqtt_env_refusing_def Let_def)
  from mqtt_publish_in_order [OF this mqtt_queue_sample_facts(1) e] show ?thesis
    unfolding e w mqtt_queue_sample_facts(2) by (auto simp: Cons_eq_append_conv Cons_eq_map_conv)
qed

text \<open>
  C21. In every state after the first connection the queue is well formed, the retry delay is between
  5 and 300 seconds, and a missing client is marked for reconnection, so that the health check
  never ends up in a state in which it does nothing about a lost connection.
\<close>

theorem mqtt_reachable_safe:
  assumes "mqtt_enabled cfg" and "mqtt_reachable cfg env st"
  shows "mq_wf (mq st) \<and> 5 \<le> mqtt_reconnect_delay st \<and> mqtt_reconnect_delay st \<le> 300 \<and>
    (\<not> mqtt_client st \<longrightarrow> mqtt_needs_reconnect st)"
  using mqtt_reachable_inv [OF assms] by (auto simp: mqtt_inv_def mqtt_marked_def)

theorem mqtt_reachable_safe_witness:
  "\<exists>st. mqtt_reachable mqtt_config_ok (mqtt_env_ok None) st \<and> mq_wf (mq st) \<and>
     (\<not> mqtt_client st \<longrightarrow> mqtt_needs_reconnect st)"
proof -
  obtain st w where "mqtt_init_and_connect mqtt_config_ok (mqtt_env_ok None) mqtt_state_init [] = (0, st, w)"
    by (simp add: mqtt_init_and_connect_def mqtt_config_ok_def mqtt_env_ok_def mqtt_drop_client_def mqtt_state_init_def
        mqtt_flush_def mqtt_queue_init_def)
  then have r: "mqtt_reachable mqtt_config_ok (mqtt_env_ok None) st"
    by (rule mqtt_reachable.start)
  have "mqtt_enabled mqtt_config_ok"
    by (simp add: mqtt_config_ok_def)
  from mqtt_reachable_safe [OF this r] r show ?thesis by blast
qed

text \<open>
  Reconnecting backs off exponentially: before the delay has passed since the last attempt nothing
  is tried and nothing changes; a failed attempt doubles the delay up to 300 s and counts; a
  successful one resets the delay to 5 s and clears the mark.
\<close>

theorem mqtt_backoff:
  assumes "mqtt_enabled cfg" and "mqtt_reconnect_with_backoff cfg env st w = (r, st', w')"
  shows "if fst (env_time env w) - mqtt_last_reconnect_attempt st < mqtt_reconnect_delay st then r = -1 \<and> st' = st
    else mqtt_last_reconnect_attempt st' = fst (env_time env w) \<and>
      (r = 0 \<and> mqtt_reconnect_delay st' = 5 \<and> mqtt_client st' \<and> \<not> mqtt_needs_reconnect st' \<and> mqtt_reconnect_attempts st' = 0 \<or>
       r = -1 \<and> mqtt_reconnect_delay st' = min (2 * mqtt_reconnect_delay st) 300 \<and> mq st' = mq st \<and>
         mqtt_reconnect_attempts st' = mqtt_reconnect_attempts st + 1)"
  using assms(2,1) by (cases rule: mqtt_backoff_cases) (simp_all add: mult.commute)

theorem mqtt_backoff_witness:
  "\<exists>st' w'. mqtt_reconnect_with_backoff mqtt_config_ok (mqtt_env_ok None) mqtt_state_init [] = (0, st', w') \<and>
     mqtt_reconnect_delay st' = 5 \<and> mqtt_client st'"
proof -
  obtain st w where e: "mqtt_reconnect_with_backoff mqtt_config_ok (mqtt_env_ok None) mqtt_state_init [] = (0, st, w)"
    by (simp add: mqtt_reconnect_with_backoff_def mqtt_init_and_connect_def mqtt_config_ok_def mqtt_env_ok_def
        mqtt_drop_client_def mqtt_state_init_def mqtt_flush_def mqtt_queue_init_def)
  have "mqtt_enabled mqtt_config_ok"
    by (simp add: mqtt_config_ok_def)
  from mqtt_backoff [OF this e] e show ?thesis
    by (simp add: mqtt_env_ok_def mqtt_state_init_def)
qed








text \<open>
  The guard on the topic number does not keep the conversion to \<^verbatim>\<open>uint8_t\<close> defined: a complete command
  with a topic of 256 or more passes it, and a topic of -1 or less is already converted by the guard
  itself; both convert a double that the type cannot represent.
\<close>

theorem mqtt_topic_conversion_undefined:
  assumes "bytes \<noteq> []" and "fst (env_malloc env (length bytes + 1) w)"
    and "json_parse env (takeWhile (\<lambda>c. c \<noteq> 0) bytes) = Some cmd"
    and "json_topic cmd \<le> -1 \<or>
      256 \<le> json_topic cmd \<and> json_target cmd = Some target \<and> json_message cmd = Some message \<and> json_encoding cmd = None"
  shows "mqtt_message_arrived cfg env st (Some bytes) w = Inl UndefinedConversion"
proof -
  obtain b bs where b: "bytes = b # bs" using assms(1) by (auto simp: neq_Nil_conv)
  have n: "double_to_u8 (json_topic cmd) = None" using assms(4) by (auto simp: double_to_u8_def)
  show ?thesis
    using assms(2-4) n unfolding b
    by (auto simp: mqtt_message_arrived_def mqtt_command_payload_def case_prod_unfold)
qed

theorem mqtt_topic_conversion_undefined_witness:
  "mqtt_message_arrived mqtt_config_ok (mqtt_env_ok (Some \<lparr>json_target = Some [65], json_topic = 261,
     json_message = Some [66], json_encoding = None\<rparr>)) mqtt_state_init (Some [123, 125]) [] = Inl UndefinedConversion"
  using mqtt_topic_conversion_undefined [of "[123, 125]" "mqtt_env_ok (Some \<lparr>json_target = Some [65], json_topic = 261,
     json_message = Some [66], json_encoding = None\<rparr>)" "[]" "\<lparr>json_target = Some [65], json_topic = 261,
     json_message = Some [66], json_encoding = None\<rparr>" "[65]" "[66]" mqtt_config_ok mqtt_state_init]
  by (simp add: mqtt_env_ok_def)

text \<open>
  Publishing through a live client loses nothing when memory can be allocated: either the library
  accepted the message and confirmed its delivery and the state is unchanged, or the message is the
  newest entry of the queue and the client is marked for reconnection.
\<close>

theorem mqtt_publish_keeps:
  assumes "mqtt_enabled cfg" and "mqtt_client st" and "\<not> mqtt_needs_reconnect st" and "MQTTClient_isConnected env w"
    and "mq_wf (mq st)" and "\<forall>n v. fst (env_malloc env n v)"
    and "topic \<noteq> []" and "mqtt_publish_message cfg env st (Some topic) message w = (st', w')"
  shows "(\<exists>tok w1. MQTTClient_publishMessage env topic message w = (MQTTCLIENT_SUCCESS, tok, w1) \<and>
        MQTTClient_waitForCompletion env tok w1 = (MQTTCLIENT_SUCCESS, w') \<and> st' = st) \<or>
    (mqtt_needs_reconnect st' \<and> mq_wf (mq st') \<and> mq_contents (mq st') \<noteq> [] \<and>
      last (mq_contents (mq st')) = (take 127 topic, message))"
proof -
  obtain rc tok w1 where p: "MQTTClient_publishMessage env topic message w = (rc, tok, w1)" using prod_cases3 by blast
  obtain rc2 w2 where c: "MQTTClient_waitForCompletion env tok w1 = (rc2, w2)" by fastforce
  have q: "mq_contents (mq (fst (mqtt_queue_in env st topic message v))) \<noteq> [] \<and>
      last (mq_contents (mq (fst (mqtt_queue_in env st topic message v)))) = (take 127 topic, message) \<and>
      mq_wf (mq (fst (mqtt_queue_in env st topic message v)))" for v
    using mq_message_wf [OF assms(5), of True topic message] assms(6)
    by (simp add: mqtt_queue_in_def case_prod_unfold)
  have "(st', w') = (if rc \<noteq> 0 then map_prod (\<lambda>s. s\<lparr>mqtt_needs_reconnect := True\<rparr>) id (mqtt_queue_in env st topic message w1)
      else if rc2 \<noteq> 0 then map_prod (\<lambda>s. s\<lparr>mqtt_needs_reconnect := True\<rparr>) id (mqtt_queue_in env st topic message w2)
      else (st, w2))"
    using assms(1-4,7,8) p c by (auto simp: mqtt_publish_message_def case_prod_unfold Let_def map_prod_def)
  then show ?thesis
    using q p c by (auto simp: map_prod_def case_prod_unfold split: if_splits)
qed

theorem mqtt_publish_keeps_witness:
  "\<exists>tok w1. MQTTClient_publishMessage (mqtt_env_ok None) [1] [2] [] = (MQTTCLIENT_SUCCESS, tok, w1)"
proof -
  define st where "st = mqtt_state_init\<lparr>mqtt_client := True\<rparr>"
  have s: "mqtt_client st" "\<not> mqtt_needs_reconnect st" "mq_wf (mq st)" "mq_contents (mq st) = []"
    by (simp_all add: st_def mqtt_state_init_def mq_wf_init) (simp add: mq_contents_def mqtt_queue_init_def)
  have e: "mqtt_publish_message mqtt_config_ok (mqtt_env_ok None) st (Some [1]) [2] [] = (st, [([1], [2])])"
    using s by (simp add: mqtt_publish_message_def mqtt_config_ok_def mqtt_env_ok_def)
  show ?thesis
    using mqtt_publish_keeps [OF _ s(1,2) _ s(3) _ _ e] s(4) by (simp add: mqtt_config_ok_def mqtt_env_ok_def)
qed

end
