(* ===== verification/RxBuffer.thy ===== *)
theory RxBuffer
  imports Prelude
begin

text \<open>
  The receive buffer, \<^verbatim>\<open>libloragw/src/loragw_sx1302_rx.c\<close>: fetching the bytes of the concentrator's
  FIFO, finding the first packet, counting packets, and parsing one packet with its metadata.
  What the concentrator answers (the two readings of the byte count and the FIFO contents) is an
  argument. A read outside the 4096 bytes of the buffer, or a write outside the arrays of the packet
  structure, is the fault \<open>OutOfBounds\<close>.
\<close>

record rx_packet_t =
  rxbytenb_modem :: u8
  rx_channel_in :: u8
  crc_en :: bool
  coding_rate :: u8
  rx_rate_sf :: u8
  modem_id :: u8
  frequency_offset_error :: int
  rx_payload :: "u8 list"
  payload_crc_error :: bool
  sync_error :: bool
  header_error :: bool
  timing_set :: bool
  snr_average :: int
  rssi_chan_avg :: u8
  rssi_signal_avg :: u8
  timestamp_cnt :: u32
  rx_crc16_value :: u16
  num_ts_metrics_stored :: u8
  timestamp_avg :: "int list"
  timestamp_stddev :: "int list"

record rx_buffer_t =
  rb_buffer :: "u8 list"
  buffer_size :: u16
  buffer_index :: int
  buffer_pkt_nb :: u8

abbreviation (input) SX1302_PKT_SYNCWORD_BYTE_0 :: u8 where "SX1302_PKT_SYNCWORD_BYTE_0 \<equiv> 0xA5"
abbreviation (input) SX1302_PKT_SYNCWORD_BYTE_1 :: u8 where "SX1302_PKT_SYNCWORD_BYTE_1 \<equiv> 0xC0"
abbreviation (input) SX1302_PKT_HEAD_METADATA :: nat where "SX1302_PKT_HEAD_METADATA \<equiv> 9"
abbreviation (input) SX1302_PKT_TAIL_METADATA :: nat where "SX1302_PKT_TAIL_METADATA \<equiv> 14"
abbreviation (input) SX1302_LORA_STD_MODEM_ID :: u8 where "SX1302_LORA_STD_MODEM_ID \<equiv> 16"
abbreviation (input) SX1302_FSK_MODEM_ID :: u8 where "SX1302_FSK_MODEM_ID \<equiv> 17"

subsection \<open>Metadata macros\<close>

definition SX1302_PKT_PAYLOAD_LENGTH :: "u8 list \<Rightarrow> nat \<Rightarrow> u8" where
  "SX1302_PKT_PAYLOAD_LENGTH buf i = TAKE_N_BITS_FROM (buf ! (i + 2)) 0 8"

definition SX1302_PKT_CHANNEL :: "u8 list \<Rightarrow> nat \<Rightarrow> u8" where
  "SX1302_PKT_CHANNEL buf i = TAKE_N_BITS_FROM (buf ! (i + 3)) 0 8"

definition SX1302_PKT_CRC_EN :: "u8 list \<Rightarrow> nat \<Rightarrow> u8" where
  "SX1302_PKT_CRC_EN buf i = TAKE_N_BITS_FROM (buf ! (i + 4)) 0 1"

definition SX1302_PKT_CODING_RATE :: "u8 list \<Rightarrow> nat \<Rightarrow> u8" where
  "SX1302_PKT_CODING_RATE buf i = TAKE_N_BITS_FROM (buf ! (i + 4)) 1 3"

definition SX1302_PKT_DATARATE :: "u8 list \<Rightarrow> nat \<Rightarrow> u8" where
  "SX1302_PKT_DATARATE buf i = TAKE_N_BITS_FROM (buf ! (i + 4)) 4 4"

definition SX1302_PKT_MODEM_ID :: "u8 list \<Rightarrow> nat \<Rightarrow> u8" where
  "SX1302_PKT_MODEM_ID buf i = TAKE_N_BITS_FROM (buf ! (i + 5)) 0 8"

definition SX1302_PKT_FREQ_OFFSET :: "u8 list \<Rightarrow> nat \<Rightarrow> int" where
  "SX1302_PKT_FREQ_OFFSET buf i =
     uint (push_bit 16 (ucast (TAKE_N_BITS_FROM (buf ! (i + 8)) 0 4)) OR
           push_bit 8 (ucast (TAKE_N_BITS_FROM (buf ! (i + 7)) 0 8)) OR
           (ucast (TAKE_N_BITS_FROM (buf ! (i + 6)) 0 8) :: u32))"

definition SX1302_PKT_CRC_ERROR :: "u8 list \<Rightarrow> nat \<Rightarrow> u8" where
  "SX1302_PKT_CRC_ERROR buf i = TAKE_N_BITS_FROM (buf ! (i + 9)) 0 1"

definition SX1302_PKT_SYNC_ERROR :: "u8 list \<Rightarrow> nat \<Rightarrow> u8" where
  "SX1302_PKT_SYNC_ERROR buf i = TAKE_N_BITS_FROM (buf ! (i + 9)) 2 1"

definition SX1302_PKT_HEADER_ERROR :: "u8 list \<Rightarrow> nat \<Rightarrow> u8" where
  "SX1302_PKT_HEADER_ERROR buf i = TAKE_N_BITS_FROM (buf ! (i + 9)) 3 1"

definition SX1302_PKT_TIMING_SET :: "u8 list \<Rightarrow> nat \<Rightarrow> u8" where
  "SX1302_PKT_TIMING_SET buf i = TAKE_N_BITS_FROM (buf ! (i + 9)) 4 1"

definition SX1302_PKT_SNR_AVG :: "u8 list \<Rightarrow> nat \<Rightarrow> u8" where
  "SX1302_PKT_SNR_AVG buf i = TAKE_N_BITS_FROM (buf ! (i + 10)) 0 8"

definition SX1302_PKT_RSSI_CHAN :: "u8 list \<Rightarrow> nat \<Rightarrow> u8" where
  "SX1302_PKT_RSSI_CHAN buf i = TAKE_N_BITS_FROM (buf ! (i + 11)) 0 8"

definition SX1302_PKT_RSSI_SIG :: "u8 list \<Rightarrow> nat \<Rightarrow> u8" where
  "SX1302_PKT_RSSI_SIG buf i = TAKE_N_BITS_FROM (buf ! (i + 12)) 0 8"

definition SX1302_PKT_TIMESTAMP :: "u8 list \<Rightarrow> nat \<Rightarrow> u32" where
  "SX1302_PKT_TIMESTAMP buf i =
     (ucast (TAKE_N_BITS_FROM (buf ! (i + 15)) 0 8) AND 0x000000FF) OR
     (push_bit 8 (ucast (TAKE_N_BITS_FROM (buf ! (i + 16)) 0 8)) AND 0x0000FF00) OR
     (push_bit 16 (ucast (TAKE_N_BITS_FROM (buf ! (i + 17)) 0 8)) AND 0x00FF0000) OR
     (push_bit 24 (ucast (TAKE_N_BITS_FROM (buf ! (i + 18)) 0 8)) AND 0xFF000000)"

definition SX1302_PKT_CRC_PAYLOAD :: "u8 list \<Rightarrow> nat \<Rightarrow> u16" where
  "SX1302_PKT_CRC_PAYLOAD buf i =
     (ucast (TAKE_N_BITS_FROM (buf ! (i + 19)) 0 8) AND 0x00FF) OR
     (push_bit 8 (ucast (TAKE_N_BITS_FROM (buf ! (i + 20)) 0 8)) AND 0xFF00)"

definition SX1302_PKT_NUM_TS_METRICS :: "u8 list \<Rightarrow> nat \<Rightarrow> u8" where
  "SX1302_PKT_NUM_TS_METRICS buf i = TAKE_N_BITS_FROM (buf ! (i + 21)) 0 8"

subsection \<open>The buffer\<close>

definition rx_buffer_new :: "rx_buffer_t option \<Rightarrow> int \<times> rx_buffer_t option" where
  "rx_buffer_new self =
     (case self of
        None \<Rightarrow> (LGW_REG_ERROR, None)
      | Some b \<Rightarrow> (LGW_REG_SUCCESS,
                   Some (b\<lparr>rb_buffer := replicate 4096 0, buffer_size := 0, buffer_index := 0, buffer_pkt_nb := 0\<rparr>)))"

definition rx_buffer_del :: "rx_buffer_t option \<Rightarrow> int \<times> rx_buffer_t option" where
  "rx_buffer_del self =
     (case self of
        None \<Rightarrow> (LGW_REG_ERROR, None)
      | Some b \<Rightarrow> (LGW_REG_SUCCESS, Some (b\<lparr>buffer_size := 0, buffer_index := 0, buffer_pkt_nb := 0\<rparr>)))"

definition rx_byte :: "u8 list \<Rightarrow> nat \<Rightarrow> c_fault + u8" where
  "rx_byte buf i = (if i < length buf then Inr (buf ! i) else Inl OutOfBounds)"

text \<open>Whether a sync word stands at an index; the second byte is read only after the first matched.\<close>

definition rx_sync_at :: "u8 list \<Rightarrow> nat \<Rightarrow> c_fault + bool" where
  "rx_sync_at buf i =
     res_bind (rx_byte buf i) (\<lambda>b0.
       if b0 \<noteq> SX1302_PKT_SYNCWORD_BYTE_0 then Inr False
       else res_bind (rx_byte buf (i + 1)) (\<lambda>b1. Inr (b1 = SX1302_PKT_SYNCWORD_BYTE_1)))"

text \<open>The search of the first sync word: the index where it stopped.\<close>

function rx_find_sync :: "u8 list \<Rightarrow> nat \<Rightarrow> nat \<Rightarrow> c_fault + nat" where
  "rx_find_sync buf sz idx =
     (if idx + 2 \<le> sz
      then res_bind (rx_sync_at buf idx) (\<lambda>found. if found then Inr idx else rx_find_sync buf sz (idx + 1))
      else Inr idx)"
  by pat_completeness auto
termination
  by (relation "measure (\<lambda>(buf, sz, idx). sz - idx)") auto

declare rx_find_sync.simps [simp del]

text \<open>Length of the packet whose header stands at an index, from its two length fields.\<close>

definition rx_pkt_len :: "u8 list \<Rightarrow> nat \<Rightarrow> c_fault + nat" where
  "rx_pkt_len buf idx =
     res_bind (rx_byte buf (idx + 2)) (\<lambda>_.
       let payload_len = unat (SX1302_PKT_PAYLOAD_LENGTH buf idx)
       in res_bind (rx_byte buf (idx + payload_len + 21)) (\<lambda>_.
            Inr (SX1302_PKT_HEAD_METADATA + payload_len + SX1302_PKT_TAIL_METADATA +
                 2 * unat (SX1302_PKT_NUM_TS_METRICS buf (idx + payload_len)))))"

text \<open>
  The counting loop: \<open>None\<close> when a packet does not start with the sync word, else the new packet
  count, which is an \<^verbatim>\<open>uint8_t\<close>.
\<close>

lemma rx_pkt_len_pos: "rx_pkt_len buf idx = Inr n \<Longrightarrow> 23 \<le> n"
  by (auto simp: rx_pkt_len_def res_bind_Inr_iff Let_def)

function rx_count_packets :: "u8 list \<Rightarrow> nat \<Rightarrow> nat \<Rightarrow> u8 \<Rightarrow> c_fault + u8 option" where
  "rx_count_packets buf sz idx nb =
     (if idx < sz
      then case rx_sync_at buf idx of
             Inl e \<Rightarrow> Inl e
           | Inr False \<Rightarrow> Inr None
           | Inr True \<Rightarrow> (case rx_pkt_len buf idx of
                            Inl e \<Rightarrow> Inl e
                          | Inr n \<Rightarrow> rx_count_packets buf sz (idx + n) (nb + 1))
      else Inr (Some nb))"
  by pat_completeness auto
termination
  by (relation "measure (\<lambda>(buf, sz, idx, nb). sz - idx)") (auto dest: rx_pkt_len_pos)

declare rx_count_packets.simps [simp del]

definition rx_nb_bytes :: "u8 \<times> u8 \<Rightarrow> u16" where
  "rx_nb_bytes r = push_bit 8 (ucast (fst r)) OR ucast (snd r)"

text \<open>
  \<^verbatim>\<open>rx_buffer_fetch\<close>; \<open>r1\<close> and \<open>r2\<close> are the two readings of the byte count, \<open>mem\<close> the status and the
  bytes of the FIFO read for a given length.
\<close>

definition rx_buffer_fetch ::
    "u8 \<times> u8 \<Rightarrow> u8 \<times> u8 \<Rightarrow> (nat \<Rightarrow> int \<times> u8 list) \<Rightarrow> rx_buffer_t option \<Rightarrow> c_fault + (int \<times> rx_buffer_t option)" where
  "rx_buffer_fetch r1 r2 mem self =
     (case self of
        None \<Rightarrow> Inr (LGW_REG_ERROR, None)
      | Some b0 \<Rightarrow>
          let nb1 = rx_nb_bytes r1; nb2 = rx_nb_bytes r2; size0 = (if nb2 > nb1 then nb2 else nb1);
              b1 = b0\<lparr>buffer_size := size0\<rparr>
          in if \<not> 0 < size0 then Inr (LGW_REG_SUCCESS, Some (b1\<lparr>buffer_index := 0\<rparr>))
             else if 4096 < unat size0 then Inl OutOfBounds
             else
               let (res, bytes) = mem (unat size0);
                   buf = mem_write (replicate 4096 0) (take (unat size0) bytes);
                   b2 = b1\<lparr>rb_buffer := buf\<rparr>
               in if res \<noteq> LGW_REG_SUCCESS then Inr (LGW_REG_ERROR, Some b2)
                  else if unat size0 < SX1302_PKT_HEAD_METADATA + SX1302_PKT_TAIL_METADATA
                  then Inr (rx_buffer_del (Some b2))
                  else
                    res_bind (rx_find_sync buf (unat size0) 0) (\<lambda>idx.
                      if unat size0 < idx + 2 then Inr (rx_buffer_del (Some b2))
                      else
                        let sz = unat size0 - idx;
                            buf' = mem_write buf (take sz (drop idx buf));
                            b3 = b2\<lparr>rb_buffer := buf', buffer_size := of_nat sz\<rparr>
                        in res_bind (rx_count_packets buf' sz 0 (buffer_pkt_nb b3)) (\<lambda>r.
                             case r of
                               None \<Rightarrow> Inr (rx_buffer_del (Some b3))
                             | Some nb \<Rightarrow> Inr (LGW_REG_SUCCESS, Some (b3\<lparr>buffer_pkt_nb := nb, buffer_index := 0\<rparr>)))))"

subsection \<open>Parsing one packet\<close>

definition rx_freq_offset :: "u8 list \<Rightarrow> nat \<Rightarrow> int" where
  "rx_freq_offset buf i =
     (let f = SX1302_PKT_FREQ_OFFSET buf i in if 2 ^ 19 \<le> f then f - 2 ^ 20 else f)"

text \<open>The metadata of the packet at \<open>i\<close> with \<open>n\<close> payload bytes; \<open>k\<close> metrics are two bytes each.\<close>

definition rx_parse_metadata :: "u8 list \<Rightarrow> nat \<Rightarrow> nat \<Rightarrow> nat \<Rightarrow> rx_packet_t \<Rightarrow> rx_packet_t" where
  "rx_parse_metadata buf i n k pkt =
     pkt\<lparr>modem_id := SX1302_PKT_MODEM_ID buf i,
         rx_channel_in := SX1302_PKT_CHANNEL buf i,
         crc_en := SX1302_PKT_CRC_EN buf i \<noteq> 0,
         payload_crc_error := SX1302_PKT_CRC_ERROR buf (i + n) \<noteq> 0,
         sync_error := SX1302_PKT_SYNC_ERROR buf (i + n) \<noteq> 0,
         header_error := SX1302_PKT_HEADER_ERROR buf (i + n) \<noteq> 0,
         timing_set := SX1302_PKT_TIMING_SET buf (i + n) \<noteq> 0,
         coding_rate := SX1302_PKT_CODING_RATE buf i,
         rx_rate_sf := SX1302_PKT_DATARATE buf i,
         rssi_chan_avg := SX1302_PKT_RSSI_CHAN buf (i + n),
         rssi_signal_avg := SX1302_PKT_RSSI_SIG buf (i + n),
         rx_crc16_value := SX1302_PKT_CRC_PAYLOAD buf (i + n),
         snr_average := sint (SX1302_PKT_SNR_AVG buf (i + n)),
         frequency_offset_error := rx_freq_offset buf i,
         timestamp_cnt := SX1302_PKT_TIMESTAMP buf (i + n),
         timestamp_avg := mem_write (timestamp_avg pkt)
           (map (\<lambda>j. sint (SX1302_PKT_NUM_TS_METRICS buf (i + n + 1 + j))) [0..<2 * k]),
         timestamp_stddev := mem_write (timestamp_stddev pkt) (replicate (2 * k) 0)\<rparr>"

definition rx_metadata_in_range :: "rx_packet_t \<Rightarrow> bool" where
  "rx_metadata_in_range pkt \<longleftrightarrow>
     modem_id pkt \<le> SX1302_FSK_MODEM_ID \<and>
     (modem_id pkt \<le> SX1302_LORA_STD_MODEM_ID \<longrightarrow>
        rx_channel_in pkt \<le> 9 \<and> \<not> (rx_rate_sf pkt < 5 \<or> 12 < rx_rate_sf pkt))"

text \<open>
  \<^verbatim>\<open>rx_buffer_pop\<close>: status, buffer, packet structure. The arrays of the structure hold 255 metrics; more
  than 127 pairs run past them.
\<close>

definition rx_buffer_pop ::
    "rx_buffer_t option \<Rightarrow> rx_packet_t option \<Rightarrow> c_fault + (int \<times> rx_buffer_t option \<times> rx_packet_t option)" where
  "rx_buffer_pop self pkt0 =
     (case (self, pkt0) of
        (Some b, Some p0) \<Rightarrow>
          if int (unat (buffer_size b)) \<le> buffer_index b then Inr (LGW_REG_ERROR, self, pkt0)
          else if buffer_index b < 0 then Inl OutOfBounds
          else
            let i = nat (buffer_index b); buf = rb_buffer b
            in res_bind (rx_sync_at buf i) (\<lambda>sync.
                 if \<not> sync then Inr (LGW_REG_ERROR, self, pkt0)
                 else
                   res_bind (rx_pkt_len buf i) (\<lambda>pkt_num_bytes.
                     let n = unat (SX1302_PKT_PAYLOAD_LENGTH buf i);
                         k = unat (SX1302_PKT_NUM_TS_METRICS buf (i + n));
                         p1 = p0\<lparr>rxbytenb_modem := SX1302_PKT_PAYLOAD_LENGTH buf i,
                                 num_ts_metrics_stored := SX1302_PKT_NUM_TS_METRICS buf (i + n)\<rparr>
                     in if unat (buffer_size b) < i + pkt_num_bytes then Inr (LGW_REG_WARNING, self, Some p1)
                        else if length buf < i + pkt_num_bytes then Inl OutOfBounds
                        else
                          let checksum_rcv = buf ! (i + pkt_num_bytes - 1);
                              checksum_calc = sum_list (take (pkt_num_bytes - 1) (drop i buf))
                          in if checksum_rcv \<noteq> checksum_calc then Inr (LGW_REG_WARNING, self, Some p1)
                             else if 255 < 2 * k then Inl OutOfBounds
                             else
                               let p2 = rx_parse_metadata buf i n k p1
                               in if \<not> rx_metadata_in_range p2 then Inr (LGW_REG_ERROR, self, Some p2)
                                  else Inr (LGW_REG_SUCCESS,
                                            Some (b\<lparr>buffer_index := buffer_index b + int pkt_num_bytes,
                                                    buffer_pkt_nb := buffer_pkt_nb b - 1\<rparr>),
                                            Some (p2\<lparr>rx_payload := mem_write (rx_payload p2)
                                                       (take n (drop (i + SX1302_PKT_HEAD_METADATA) buf))\<rparr>))))
      | _ \<Rightarrow> Inr (LGW_REG_ERROR, self, pkt0))"

end
