(* ===== verification/RxBufferProps.thy ===== *)
theory RxBufferProps
  imports RxBuffer
begin

text \<open>
  Properties of the receive buffer: parsing inverts the layout the concentrator uses, a FIFO that
  holds complete packets is counted and read back packet by packet, every successful parse moves the
  index forward inside the data, and the inputs on which the code reads or writes outside an array.
\<close>

subsection \<open>The layout of a packet\<close>

definition rx_flag :: "bool \<Rightarrow> nat \<Rightarrow> u8" where
  "rx_flag b n = (if b then push_bit n 1 else 0)"

definition rx_head :: "rx_packet_t \<Rightarrow> u8 list" where
  "rx_head m =
     (let f = word_of_int (frequency_offset_error m) :: u32
      in [0xA5, 0xC0, rxbytenb_modem m, rx_channel_in m,
          rx_flag (crc_en m) 0 OR push_bit 1 (coding_rate m) OR push_bit 4 (rx_rate_sf m), modem_id m,
          ucast f, ucast (drop_bit 8 f), ucast (drop_bit 16 f AND 0xF)])"

definition rx_tail :: "rx_packet_t \<Rightarrow> u8 list" where
  "rx_tail m =
     [rx_flag (payload_crc_error m) 0 OR rx_flag (sync_error m) 2 OR rx_flag (header_error m) 3 OR rx_flag (timing_set m) 4,
      word_of_int (snr_average m), rssi_chan_avg m, rssi_signal_avg m, 0, 0,
      ucast (timestamp_cnt m), ucast (drop_bit 8 (timestamp_cnt m)),
      ucast (drop_bit 16 (timestamp_cnt m)), ucast (drop_bit 24 (timestamp_cnt m)),
      ucast (rx_crc16_value m), ucast (drop_bit 8 (rx_crc16_value m)), num_ts_metrics_stored m] @
     map word_of_int (timestamp_avg m)"

definition rx_body :: "rx_packet_t \<Rightarrow> u8 list" where
  "rx_body m = rx_head m @ rx_payload m @ rx_tail m"

definition rx_encode :: "rx_packet_t \<Rightarrow> u8 list" where
  "rx_encode m = rx_body m @ [sum_list (rx_body m)]"

text \<open>Packets the concentrator may deliver: lengths agree and the fields are in range.\<close>

definition rx_valid :: "rx_packet_t \<Rightarrow> bool" where
  "rx_valid m \<longleftrightarrow> length (rx_payload m) = unat (rxbytenb_modem m) \<and>
     length (timestamp_avg m) = 2 * unat (num_ts_metrics_stored m) \<and> unat (num_ts_metrics_stored m) \<le> 127 \<and>
     coding_rate m < 8 \<and> rx_rate_sf m < 16 \<and>
     - (2 ^ 19) \<le> frequency_offset_error m \<and> frequency_offset_error m < 2 ^ 19 \<and>
     - 128 \<le> snr_average m \<and> snr_average m < 128 \<and>
     (\<forall>v\<in>set (timestamp_avg m). - 128 \<le> v \<and> v < 128) \<and> rx_metadata_in_range m"

text \<open>The parsed packet \<open>p\<close> carries what \<open>m\<close> says.\<close>

definition rx_same :: "rx_packet_t \<Rightarrow> rx_packet_t \<Rightarrow> bool" where
  "rx_same p m \<longleftrightarrow> rxbytenb_modem p = rxbytenb_modem m \<and> rx_channel_in p = rx_channel_in m \<and>
     crc_en p = crc_en m \<and> coding_rate p = coding_rate m \<and> rx_rate_sf p = rx_rate_sf m \<and>
     modem_id p = modem_id m \<and> frequency_offset_error p = frequency_offset_error m \<and>
     take (unat (rxbytenb_modem m)) (rx_payload p) = rx_payload m \<and>
     payload_crc_error p = payload_crc_error m \<and> sync_error p = sync_error m \<and>
     header_error p = header_error m \<and> timing_set p = timing_set m \<and> snr_average p = snr_average m \<and>
     rssi_chan_avg p = rssi_chan_avg m \<and> rssi_signal_avg p = rssi_signal_avg m \<and>
     timestamp_cnt p = timestamp_cnt m \<and> rx_crc16_value p = rx_crc16_value m \<and>
     num_ts_metrics_stored p = num_ts_metrics_stored m \<and>
     take (2 * unat (num_ts_metrics_stored m)) (timestamp_avg p) = timestamp_avg m"

subsection \<open>Bit fields\<close>

lemma take_8_bits [simp]: "TAKE_N_BITS_FROM b 0 8 = b"
  unfolding TAKE_N_BITS_FROM_def by (rule bit_word_eqI) (auto simp: bit_simps)

lemma take_bit_less:
  fixes w :: u8
  shows "w < 8 \<Longrightarrow> take_bit 3 w = w" and "w < 16 \<Longrightarrow> take_bit 4 w = w"
proof -
  have "uint w < 2 ^ n \<Longrightarrow> take_bit n w = w" for n
    by (metis take_bit_int_eq_self unsigned_greater_eq unsigned_take_bit_eq word_uint_eqI)
  from this [of 3] this [of 4] show "w < 8 \<Longrightarrow> take_bit 3 w = w" "w < 16 \<Longrightarrow> take_bit 4 w = w"
    by (simp_all add: word_less_alt)
qed

lemma rx_rate_byte:
  assumes "cr < 8" and "sf < 16"
  shows "TAKE_N_BITS_FROM (rx_flag c 0 OR push_bit 1 cr OR push_bit 4 sf) 0 1 \<noteq> 0 \<longleftrightarrow> c"
    and "TAKE_N_BITS_FROM (rx_flag c 0 OR push_bit 1 cr OR push_bit 4 sf) 1 3 = cr"
    and "TAKE_N_BITS_FROM (rx_flag c 0 OR push_bit 1 cr OR push_bit 4 sf) 4 4 = sf"
proof -
  have cr: "take_bit 3 cr = cr" and sf: "take_bit 4 sf = sf"
    using assms by (simp_all add: take_bit_less)
  have "TAKE_N_BITS_FROM (rx_flag c 0 OR push_bit 1 (take_bit 3 cr) OR push_bit 4 (take_bit 4 sf)) 0 1 = rx_flag c 0"
    unfolding TAKE_N_BITS_FROM_def rx_flag_def by (rule bit_word_eqI) (auto simp: bit_simps simp del: push_bit_Suc One_nat_def)
  then show "TAKE_N_BITS_FROM (rx_flag c 0 OR push_bit 1 cr OR push_bit 4 sf) 0 1 \<noteq> 0 \<longleftrightarrow> c"
    unfolding cr sf by (simp add: rx_flag_def)
  have "TAKE_N_BITS_FROM (rx_flag c 0 OR push_bit 1 (take_bit 3 cr) OR push_bit 4 (take_bit 4 sf)) 1 3 = take_bit 3 cr"
    unfolding TAKE_N_BITS_FROM_def rx_flag_def by (rule bit_word_eqI) (auto simp: bit_simps simp del: push_bit_Suc One_nat_def)
  then show "TAKE_N_BITS_FROM (rx_flag c 0 OR push_bit 1 cr OR push_bit 4 sf) 1 3 = cr"
    by (simp only: cr sf)
  have "TAKE_N_BITS_FROM (rx_flag c 0 OR push_bit 1 (take_bit 3 cr) OR push_bit 4 (take_bit 4 sf)) 4 4 = take_bit 4 sf"
    unfolding TAKE_N_BITS_FROM_def rx_flag_def by (rule bit_word_eqI) (auto simp: bit_simps simp del: push_bit_Suc One_nat_def)
  then show "TAKE_N_BITS_FROM (rx_flag c 0 OR push_bit 1 cr OR push_bit 4 sf) 4 4 = sf"
    by (simp only: cr sf)
qed

lemma rx_status_byte:
  "TAKE_N_BITS_FROM (rx_flag a 0 OR rx_flag b 2 OR rx_flag c 3 OR rx_flag d 4) 0 1 \<noteq> 0 \<longleftrightarrow> a"
  "TAKE_N_BITS_FROM (rx_flag a 0 OR rx_flag b 2 OR rx_flag c 3 OR rx_flag d 4) 2 1 \<noteq> 0 \<longleftrightarrow> b"
  "TAKE_N_BITS_FROM (rx_flag a 0 OR rx_flag b 2 OR rx_flag c 3 OR rx_flag d 4) 3 1 \<noteq> 0 \<longleftrightarrow> c"
  "TAKE_N_BITS_FROM (rx_flag a 0 OR rx_flag b 2 OR rx_flag c 3 OR rx_flag d 4) 4 1 \<noteq> 0 \<longleftrightarrow> d"
  by (cases a; cases b; cases c; cases d; simp add: TAKE_N_BITS_FROM_def rx_flag_def)+

lemma rx_timestamp_bytes:
  fixes t :: u32
  shows "(ucast (ucast t :: u8) AND 0x000000FF) OR (push_bit 8 (ucast (ucast (drop_bit 8 t) :: u8)) AND 0x0000FF00) OR
    (push_bit 16 (ucast (ucast (drop_bit 16 t) :: u8)) AND 0x00FF0000) OR
    (push_bit 24 (ucast (ucast (drop_bit 24 t) :: u8)) AND 0xFF000000) = t" (is "?l = t")
proof -
  have m: "(0x000000FF :: u32) = mask 8" "(0x0000FF00 :: u32) = push_bit 8 (mask 8)"
    "(0x00FF0000 :: u32) = push_bit 16 (mask 8)" "(0xFF000000 :: u32) = push_bit 24 (mask 8)"
    by (simp_all add: mask_eq_exp_minus_1)
  show ?thesis
  proof (rule bit_word_eqI)
    fix n assume "n < LENGTH(32)"
    then have n: "n < 32" by simp
    consider "n < 8" | "8 \<le> n" "n < 16" | "16 \<le> n" "n < 24" | "24 \<le> n" by linarith
    then show "bit ?l n = bit t n"
      unfolding m using n by cases (simp_all add: bit_simps, auto)
  qed
qed

lemma rx_crc_bytes:
  fixes c :: u16
  shows "(ucast (ucast c :: u8) AND 0x00FF) OR (push_bit 8 (ucast (ucast (drop_bit 8 c) :: u8)) AND 0xFF00) = c" (is "?l = c")
proof -
  have m: "(0x00FF :: u16) = mask 8" "(0xFF00 :: u16) = push_bit 8 (mask 8)"
    by (simp_all add: mask_eq_exp_minus_1)
  show ?thesis
  proof (rule bit_word_eqI)
    fix n assume "n < LENGTH(16)"
    then have n: "n < 16" by simp
    consider "n < 8" | "8 \<le> n" by linarith
    then show "bit ?l n = bit c n"
      unfolding m using n by cases (simp_all add: bit_simps, auto)
  qed
qed

lemma rx_freq_bytes:
  fixes f :: u32
  shows "push_bit 16 (ucast (TAKE_N_BITS_FROM (ucast (drop_bit 16 f AND 0xF)) 0 4)) OR push_bit 8 (ucast (ucast (drop_bit 8 f) :: u8)) OR
    ucast (ucast f :: u8) = take_bit 20 f" (is "?l = _")
proof -
  have m: "(0xF :: u32) = mask 4" by (simp add: mask_eq_exp_minus_1)
  show ?thesis
  proof (rule bit_word_eqI)
    fix n assume "n < LENGTH(32)"
    then have n: "n < 32" by simp
    consider "n < 8" | "8 \<le> n" "n < 16" | "16 \<le> n" "n < 20" | "20 \<le> n" by linarith
    then show "bit ?l n = bit (take_bit 20 f) n"
      unfolding m TAKE_N_BITS_FROM_def using n by cases (simp_all add: bit_simps, auto)
  qed
qed

lemma rx_freq_value:
  assumes "- (2 ^ 19) \<le> f" and "f < 2 ^ 19"
  shows "(let v = uint (take_bit 20 (word_of_int f :: u32)) in if 2 ^ 19 \<le> v then v - 2 ^ 20 else v) = f"
proof -
  have "uint (take_bit 20 (word_of_int f :: u32)) = f mod 2 ^ 20"
    by (simp add: unsigned_take_bit_eq unsigned_of_int) (simp add: take_bit_eq_mod)
  moreover have "f mod 2 ^ 20 = (if 0 \<le> f then f else f + 2 ^ 20)"
    using assms mod_pos_pos_trivial [of "f + 2 ^ 20" "2 ^ 20"] by (auto simp: mod_pos_pos_trivial)
  ultimately show ?thesis using assms by auto
qed

lemma sint_u8: "- 128 \<le> v \<Longrightarrow> v < 128 \<Longrightarrow> sint (word_of_int v :: u8) = v"
  by (simp add: sint_sbintrunc' signed_take_bit_int_eq_self)

subsection \<open>Parsing a packet in place\<close>

lemma length_rx_head [simp]: "length (rx_head m) = 9"
  by (simp add: rx_head_def Let_def)

lemma rx_encode_length:
  assumes "rx_valid m"
  shows "length (rx_encode m) = 23 + unat (rxbytenb_modem m) + 2 * unat (num_ts_metrics_stored m)"
  using assms by (simp add: rx_encode_def rx_body_def rx_tail_def rx_valid_def)

text \<open>Bytes of a packet inside a buffer: header, payload, trailer, checksum.\<close>

lemma rx_nth:
  assumes "buf = pre @ rx_encode m @ post"
  shows "j < 9 \<Longrightarrow> buf ! (length pre + j) = rx_head m ! j"
    and "j < length (rx_tail m) \<Longrightarrow> buf ! (length pre + length (rx_payload m) + (9 + j)) = rx_tail m ! j"
proof -
  have "buf = pre @ (rx_head m @ (rx_payload m @ rx_tail m @ [sum_list (rx_body m)] @ post))"
    by (simp add: assms rx_encode_def rx_body_def)
  then show "j < 9 \<Longrightarrow> buf ! (length pre + j) = rx_head m ! j"
    by (simp add: nth_append)
  have "buf = (pre @ rx_head m @ rx_payload m) @ rx_tail m @ ([sum_list (rx_body m)] @ post)"
    by (simp add: assms rx_encode_def rx_body_def)
  then have "buf ! (length (pre @ rx_head m @ rx_payload m) + j) = (rx_tail m @ [sum_list (rx_body m)] @ post) ! j"
    by (simp only: nth_append_length_plus)
  then show "j < length (rx_tail m) \<Longrightarrow> buf ! (length pre + length (rx_payload m) + (9 + j)) = rx_tail m ! j"
    by (simp add: nth_append algebra_simps)
qed

lemma rx_fields:
  assumes "buf = pre @ rx_encode m @ post" and "rx_valid m"
  shows "SX1302_PKT_PAYLOAD_LENGTH buf (length pre) = rxbytenb_modem m"
    and "SX1302_PKT_NUM_TS_METRICS buf (length pre + unat (rxbytenb_modem m)) = num_ts_metrics_stored m"
    and "length pre + length (rx_encode m) \<le> length buf"
    and "buf ! (length pre) = 0xA5" and "buf ! (length pre + 1) = 0xC0"
proof -
  have n: "length (rx_payload m) = unat (rxbytenb_modem m)" using assms(2) by (simp add: rx_valid_def)
  note h = rx_nth(1) [OF assms(1)] and t = rx_nth(2) [OF assms(1), unfolded n]
  show "SX1302_PKT_PAYLOAD_LENGTH buf (length pre) = rxbytenb_modem m"
    using h [of 2] by (simp add: SX1302_PKT_PAYLOAD_LENGTH_def rx_head_def Let_def)
  show "SX1302_PKT_NUM_TS_METRICS buf (length pre + unat (rxbytenb_modem m)) = num_ts_metrics_stored m"
    using t [of 12] by (simp add: SX1302_PKT_NUM_TS_METRICS_def rx_tail_def)
  show "length pre + length (rx_encode m) \<le> length buf" by (simp add: assms(1))
  show "buf ! (length pre) = 0xA5" "buf ! (length pre + 1) = 0xC0"
    using h [of 0] h [of 1] by (simp_all add: rx_head_def Let_def)
qed

lemma rx_sync_encode:
  assumes "buf = pre @ rx_encode m @ post" and "rx_valid m"
  shows "rx_sync_at buf (length pre) = Inr True"
    and "rx_pkt_len buf (length pre) = Inr (length (rx_encode m))"
  using rx_fields [OF assms] rx_encode_length [OF assms(2)]
  by (auto simp: rx_sync_at_def rx_byte_def rx_pkt_len_def Let_def)

lemma rx_metadata_encode:
  assumes "buf = pre @ rx_encode m @ post" and "rx_valid m"
    and "n = unat (rxbytenb_modem m)" and "k = unat (num_ts_metrics_stored m)"
  shows "rx_parse_metadata buf (length pre) n k p =
    p\<lparr>modem_id := modem_id m, rx_channel_in := rx_channel_in m, crc_en := crc_en m,
      payload_crc_error := payload_crc_error m, sync_error := sync_error m, header_error := header_error m,
      timing_set := timing_set m, coding_rate := coding_rate m, rx_rate_sf := rx_rate_sf m,
      rssi_chan_avg := rssi_chan_avg m, rssi_signal_avg := rssi_signal_avg m, rx_crc16_value := rx_crc16_value m,
      snr_average := snr_average m, frequency_offset_error := frequency_offset_error m, timestamp_cnt := timestamp_cnt m,
      timestamp_avg := mem_write (timestamp_avg p) (timestamp_avg m),
      timestamp_stddev := mem_write (timestamp_stddev p) (replicate (2 * k) 0)\<rparr>"
proof -
  note v = assms(2) [unfolded rx_valid_def]
  have n: "length (rx_payload m) = n" using v assms(3) by simp
  have lt: "length (rx_tail m) = 13 + 2 * k" using v assms(4) by (simp add: rx_tail_def)
  note h = rx_nth(1) [OF assms(1)] and t = rx_nth(2) [OF assms(1), unfolded n lt]
  have rate: "buf ! (length pre + 4) = rx_flag (crc_en m) 0 OR push_bit 1 (coding_rate m) OR push_bit 4 (rx_rate_sf m)"
    using h [of 4] by (simp add: rx_head_def Let_def)
  have status: "buf ! (length pre + n + 9) = rx_flag (payload_crc_error m) 0 OR rx_flag (sync_error m) 2 OR
      rx_flag (header_error m) 3 OR rx_flag (timing_set m) 4"
    using t [of 0] by (simp add: rx_tail_def)
  define f where "f = (word_of_int (frequency_offset_error m) :: u32)"
  have "SX1302_PKT_FREQ_OFFSET buf (length pre) = uint (take_bit 20 f)"
    using h [of 6] h [of 7] h [of 8] rx_freq_bytes [of f]
    by (simp add: SX1302_PKT_FREQ_OFFSET_def rx_head_def Let_def f_def)
  then have freq: "rx_freq_offset buf (length pre) = frequency_offset_error m"
    using rx_freq_value [of "frequency_offset_error m"] v by (simp add: rx_freq_offset_def f_def)
  have "sint (SX1302_PKT_NUM_TS_METRICS buf (length pre + n + 1 + j)) = timestamp_avg m ! j" if "j < 2 * k" for j
  proof -
    have "buf ! (length pre + n + (9 + (13 + j))) = word_of_int (timestamp_avg m ! j)"
      using t [of "13 + j"] that v assms(4) by (simp add: rx_tail_def)
    moreover have "timestamp_avg m ! j \<in> set (timestamp_avg m)"
      using that v assms(4) by simp
    ultimately show ?thesis
      using v by (simp add: SX1302_PKT_NUM_TS_METRICS_def sint_u8 algebra_simps)
  qed
  then have ts: "map (\<lambda>j. sint (SX1302_PKT_NUM_TS_METRICS buf (length pre + n + 1 + j))) [0..<2 * k] = timestamp_avg m"
    using v assms(4) by (intro nth_equalityI) auto
  have stamp: "SX1302_PKT_TIMESTAMP buf (length pre + n) = timestamp_cnt m"
    using t [of 6] t [of 7] t [of 8] t [of 9] rx_timestamp_bytes [of "timestamp_cnt m"]
    by (simp add: SX1302_PKT_TIMESTAMP_def rx_tail_def)
  have crc: "SX1302_PKT_CRC_PAYLOAD buf (length pre + n) = rx_crc16_value m"
    using t [of 10] t [of 11] rx_crc_bytes [of "rx_crc16_value m"]
    by (simp add: SX1302_PKT_CRC_PAYLOAD_def rx_tail_def)
  have bytes: "SX1302_PKT_MODEM_ID buf (length pre) = modem_id m" "SX1302_PKT_CHANNEL buf (length pre) = rx_channel_in m"
    "SX1302_PKT_RSSI_CHAN buf (length pre + n) = rssi_chan_avg m" "SX1302_PKT_RSSI_SIG buf (length pre + n) = rssi_signal_avg m"
    "sint (SX1302_PKT_SNR_AVG buf (length pre + n)) = snr_average m"
    using h [of 5] h [of 3] t [of 1] t [of 2] t [of 3] v
    by (simp_all add: SX1302_PKT_MODEM_ID_def SX1302_PKT_CHANNEL_def SX1302_PKT_RSSI_CHAN_def SX1302_PKT_RSSI_SIG_def
        SX1302_PKT_SNR_AVG_def rx_head_def rx_tail_def Let_def sint_u8)
  show ?thesis
    unfolding rx_parse_metadata_def ts stamp crc bytes freq SX1302_PKT_CRC_EN_def SX1302_PKT_CODING_RATE_def
      SX1302_PKT_DATARATE_def SX1302_PKT_CRC_ERROR_def SX1302_PKT_SYNC_ERROR_def SX1302_PKT_HEADER_ERROR_def
      SX1302_PKT_TIMING_SET_def rate status
    using v by (simp only: rx_rate_byte rx_status_byte)
qed

lemma rx_range_update [simp]:
  "rx_metadata_in_range (p\<lparr>timestamp_avg := a\<rparr>) = rx_metadata_in_range p"
  "rx_metadata_in_range (p\<lparr>timestamp_stddev := a\<rparr>) = rx_metadata_in_range p"
  "rx_metadata_in_range (p\<lparr>rx_payload := x\<rparr>) = rx_metadata_in_range p"
  by (simp_all add: rx_metadata_in_range_def)

lemma rx_pop_encode:
  assumes "rb_buffer b = pre @ rx_encode m @ post" and "rx_valid m" and "buffer_index b = int (length pre)"
    and "length pre + length (rx_encode m) \<le> unat (buffer_size b)"
  shows "\<exists>p'. rx_buffer_pop (Some b) (Some p) =
      Inr (LGW_REG_SUCCESS, Some (b\<lparr>buffer_index := int (length pre + length (rx_encode m)),
                                     buffer_pkt_nb := buffer_pkt_nb b - 1\<rparr>), Some p') \<and> rx_same p' m"
proof -
  define i n k where "i = length pre" and "n = unat (rxbytenb_modem m)" and "k = unat (num_ts_metrics_stored m)"
  define buf where "buf = rb_buffer b"
  have buf: "buf = pre @ rx_encode m @ post" by (simp add: buf_def assms(1))
  note v = assms(2) [unfolded rx_valid_def]
  note f = rx_fields [OF buf assms(2), folded i_def n_def] and sl = rx_sync_encode [OF buf assms(2), folded i_def]
  have len: "length (rx_encode m) = 23 + n + 2 * k"
    using rx_encode_length [OF assms(2)] by (simp add: n_def k_def)
  have body: "take (length (rx_encode m) - 1) (drop i buf) = rx_body m" "buf ! (i + length (rx_encode m) - 1) = sum_list (rx_body m)"
    by (simp_all add: buf i_def rx_encode_def nth_append)
  have pay: "take n (drop (i + 9) buf) = rx_payload m"
    using v by (simp add: buf i_def rx_encode_def rx_body_def n_def)
  define p2 where "p2 = rx_parse_metadata buf i n k (p\<lparr>rxbytenb_modem := rxbytenb_modem m, num_ts_metrics_stored := num_ts_metrics_stored m\<rparr>)"
  note meta = rx_metadata_encode [OF buf assms(2) n_def k_def, folded i_def]
  have range: "rx_metadata_in_range p2"
    using v unfolding p2_def meta by (simp add: rx_metadata_in_range_def)
  define p' where "p' = p2\<lparr>rx_payload := mem_write (rx_payload p2) (take n (drop (i + 9) buf))\<rparr>"
  have k: "\<not> 255 < 2 * k" using v by (simp add: k_def)
  have more: "\<not> int (unat (buffer_size b)) \<le> int i" using assms(4) len by (simp only: of_nat_le_iff i_def [symmetric])
  have "rx_buffer_pop (Some b) (Some p) = Inr (LGW_REG_SUCCESS, Some (b\<lparr>buffer_index := int i + int (length (rx_encode m)),
      buffer_pkt_nb := buffer_pkt_nb b - 1\<rparr>), Some p')"
    using assms(3,4) f sl len body range k more
    by (simp add: rx_buffer_pop_def Let_def p'_def flip: buf_def i_def n_def k_def p2_def)
  moreover have "rx_same p' m"
    using v pay unfolding p'_def p2_def meta rx_same_def by (simp add: k_def n_def mem_write_def)
  ultimately show ?thesis by (auto simp: i_def)
qed

text \<open>Reading \<open>n\<close> packets one after the other, as the receive loop does while parsing succeeds.\<close>

fun rx_pop_n :: "nat \<Rightarrow> rx_buffer_t \<Rightarrow> rx_packet_t \<Rightarrow> rx_packet_t list" where
  "rx_pop_n 0 b p = []"
| "rx_pop_n (Suc n) b p =
     (case rx_buffer_pop (Some b) (Some p) of
        Inr (r, Some b', Some p') \<Rightarrow> if r = LGW_REG_SUCCESS then p' # rx_pop_n n b' p else []
      | _ \<Rightarrow> [])"

lemma rx_pop_n_encode:
  assumes "\<forall>m\<in>set ms. rx_valid m" and "rb_buffer b = pre @ concat (map rx_encode ms) @ post"
    and "buffer_index b = int (length pre)" and "length pre + length (concat (map rx_encode ms)) \<le> unat (buffer_size b)"
  shows "list_all2 rx_same (rx_pop_n (length ms) b p) ms"
  using assms
proof (induction ms arbitrary: b pre)
  case Nil
  show ?case by simp
next
  case (Cons m ms)
  have b: "rb_buffer b = pre @ rx_encode m @ (concat (map rx_encode ms) @ post)" and m: "rx_valid m"
    using Cons.prems by simp_all
  have "length pre + length (rx_encode m) \<le> unat (buffer_size b)" using Cons.prems(4) by simp
  from rx_pop_encode [OF b m Cons.prems(3) this] obtain p' where
    pop: "rx_buffer_pop (Some b) (Some p) = Inr (LGW_REG_SUCCESS, Some (b\<lparr>buffer_index := int (length pre + length (rx_encode m)),
      buffer_pkt_nb := buffer_pkt_nb b - 1\<rparr>), Some p')" and same: "rx_same p' m" by blast
  let ?b = "b\<lparr>buffer_index := int (length pre + length (rx_encode m)), buffer_pkt_nb := buffer_pkt_nb b - 1\<rparr>"
  have "list_all2 rx_same (rx_pop_n (length ms) ?b p) ms"
    using Cons.prems by (intro Cons.IH [of ?b "pre @ rx_encode m"]) (simp_all add: b)
  then show ?case using pop same by simp
qed

lemma rx_count_encode:
  assumes "\<forall>m\<in>set ms. rx_valid m" and "buf = pre @ concat (map rx_encode ms) @ post"
    and "sz = length pre + length (concat (map rx_encode ms))"
  shows "rx_count_packets buf sz (length pre) nb = Inr (Some (nb + of_nat (length ms)))"
  using assms
proof (induction ms arbitrary: pre nb)
  case Nil
  then show ?case by (subst rx_count_packets.simps) simp
next
  case (Cons m ms)
  have b: "buf = pre @ rx_encode m @ (concat (map rx_encode ms) @ post)" and m: "rx_valid m"
    using Cons.prems by simp_all
  note sl = rx_sync_encode [OF b m]
  have "0 < length (rx_encode m)" by (simp add: rx_encode_def)
  then have "length pre < sz" using Cons.prems(3) by simp
  then have "rx_count_packets buf sz (length pre) nb = rx_count_packets buf sz (length (pre @ rx_encode m)) (nb + 1)"
    using sl by (subst rx_count_packets.simps) simp
  also have "\<dots> = Inr (Some (nb + 1 + of_nat (length ms)))"
    using Cons.prems by (intro Cons.IH) (simp_all add: b)
  finally show ?case by (simp add: algebra_simps)
qed

subsection \<open>Properties\<close>

text \<open>
  C7. A FIFO that holds complete packets is read back exactly: if the concentrator delivers the bytes
  of any sequence of valid packets that fits the 4096 bytes, the fetch succeeds and counts them, and
  parsing as many packets gives each one, in order, with every field and payload byte it was sent
  with.
\<close>

theorem rx_fetch_pop_roundtrip:
  assumes "\<forall>m\<in>set ms. rx_valid m" and "ms \<noteq> []" and "bytes = concat (map rx_encode ms)" and "length bytes \<le> 4096"
    and "unat (rx_nb_bytes r1) \<le> unat (rx_nb_bytes r2)" and "unat (rx_nb_bytes r2) = length bytes"
    and "mem (length bytes) = (LGW_REG_SUCCESS, bytes)" and "buffer_pkt_nb b = 0"
  shows "\<exists>b'. rx_buffer_fetch r1 r2 mem (Some b) = Inr (LGW_REG_SUCCESS, Some b') \<and>
    buffer_pkt_nb b' = of_nat (length ms) \<and> list_all2 rx_same (rx_pop_n (length ms) b' p) ms"
proof -
  define buf where "buf = mem_write (replicate 4096 0) bytes"
  define size0 where "size0 = (if rx_nb_bytes r1 < rx_nb_bytes r2 then rx_nb_bytes r2 else rx_nb_bytes r1)"
  have size0: "unat size0 = length bytes"
    using assms(5,6) by (auto simp: size0_def word_less_nat_alt)
  obtain m ms' where ms: "ms = m # ms'" using assms(2) by (cases ms) auto
  have m: "rx_valid m" using assms(1) ms by simp
  have buf: "buf = [] @ concat (map rx_encode ms) @ drop (length bytes) (replicate 4096 0)"
    by (simp add: buf_def mem_write_def assms(3))
  have "buf = [] @ rx_encode m @ (concat (map rx_encode ms') @ drop (length bytes) (replicate 4096 0))"
    using buf ms by simp
  note sl = rx_sync_encode [OF this m]
  have big: "23 \<le> length bytes" using rx_encode_length [OF m] by (simp add: assms(3) ms)
  have sync: "rx_find_sync buf (length bytes) 0 = Inr 0"
    using sl(1) big by (subst rx_find_sync.simps) simp
  have cnt: "rx_count_packets buf (length bytes) 0 0 = Inr (Some (of_nat (length ms)))"
    using rx_count_encode [OF assms(1) buf, of "length bytes" 0] by (simp add: assms(3))
  have keep: "mem_write buf (take (length bytes) buf) = buf"
    by (simp add: buf_def mem_write_def)
  define b' where "b' = b\<lparr>buffer_size := of_nat (length bytes), rb_buffer := buf,
      buffer_pkt_nb := of_nat (length ms), buffer_index := 0\<rparr>"
  have pos: "0 < size0" using size0 big by (auto simp: word_gt_0 simp flip: unat_gt_0)
  have "rx_buffer_fetch r1 r2 mem (Some b) = Inr (LGW_REG_SUCCESS, Some b')"
    using assms(4,7,8) big sync cnt keep pos size0
    by (simp add: rx_buffer_fetch_def Let_def b'_def flip: size0_def buf_def)
  moreover have "list_all2 rx_same (rx_pop_n (length ms) b' p) ms"
    using assms(1,4) buf by (intro rx_pop_n_encode [of ms b' "[]"]) (simp_all add: b'_def assms(3) unat_of_nat)
  ultimately show ?thesis by (auto simp: b'_def)
qed

definition rx_sample :: rx_packet_t where
  "rx_sample = \<lparr>rxbytenb_modem = 2, rx_channel_in = 3, crc_en = True, coding_rate = 1, rx_rate_sf = 7, modem_id = 0,
     frequency_offset_error = - 5, rx_payload = [10, 20], payload_crc_error = False, sync_error = False,
     header_error = False, timing_set = True, snr_average = - 7, rssi_chan_avg = 90, rssi_signal_avg = 80,
     timestamp_cnt = 0x12345678, rx_crc16_value = 0xBEEF, num_ts_metrics_stored = 0, timestamp_avg = [], timestamp_stddev = []\<rparr>"

lemma rx_sample_valid: "rx_valid rx_sample"
  by (simp add: rx_valid_def rx_sample_def rx_metadata_in_range_def)

theorem rx_fetch_pop_roundtrip_witness:
  "\<exists>b'. rx_buffer_fetch (0, 25) (0, 25) (\<lambda>n. (LGW_REG_SUCCESS, rx_encode rx_sample))
      (Some \<lparr>rb_buffer = [], buffer_size = 0, buffer_index = 0, buffer_pkt_nb = 0\<rparr>) = Inr (LGW_REG_SUCCESS, Some b') \<and>
    buffer_pkt_nb b' = 1 \<and> list_all2 rx_same (rx_pop_n 1 b' rx_sample) [rx_sample]"
proof -
  have l: "length (rx_encode rx_sample) = 25"
    using rx_encode_length [OF rx_sample_valid] by (simp add: rx_sample_def)
  have r: "rx_nb_bytes (0, 25) = 25" by (simp add: rx_nb_bytes_def)
  show ?thesis
    using rx_fetch_pop_roundtrip [of "[rx_sample]" "rx_encode rx_sample" "(0, 25)" "(0, 25)"
        "\<lambda>n. (LGW_REG_SUCCESS, rx_encode rx_sample)" "\<lparr>rb_buffer = [], buffer_size = 0, buffer_index = 0, buffer_pkt_nb = 0\<rparr>" rx_sample]
      rx_sample_valid l r by simp
qed

text \<open>
  Parsing always makes progress inside the data or leaves the buffer alone: a successful parse moves
  the index forward by the length of one packet, at least 23 bytes and not past the end of the data,
  and takes one off the packet count; any other return leaves the buffer unchanged, and the packet
  returned on success has passed the range checks of its metadata.
\<close>

theorem rx_pop_progress:
  assumes "rx_buffer_pop (Some b) (Some p) = Inr (r, b', p')"
  shows "if r = LGW_REG_SUCCESS
    then \<exists>n q. 23 \<le> n \<and> 0 \<le> buffer_index b \<and> buffer_index b + int n \<le> int (unat (buffer_size b)) \<and>
           b' = Some (b\<lparr>buffer_index := buffer_index b + int n, buffer_pkt_nb := buffer_pkt_nb b - 1\<rparr>) \<and>
           p' = Some q \<and> rx_metadata_in_range q
    else b' = Some b \<and> (r = LGW_REG_ERROR \<or> r = LGW_REG_WARNING)"
proof -
  define i where "i = nat (buffer_index b)"
  define buf where "buf = rb_buffer b"
  show ?thesis
  proof (cases "int (unat (buffer_size b)) \<le> buffer_index b \<or> buffer_index b < 0")
    case True
    then show ?thesis using assms by (auto simp: rx_buffer_pop_def split: if_splits)
  next
    case idx: False
    then obtain sync where s: "rx_sync_at buf i = Inr sync"
      using assms by (cases "rx_sync_at buf i") (simp_all add: rx_buffer_pop_def Let_def i_def buf_def)
    show ?thesis
    proof (cases sync)
      case False
      then show ?thesis using assms idx s by (simp add: rx_buffer_pop_def Let_def flip: i_def buf_def)
    next
      case True
      then obtain n where n: "rx_pkt_len buf i = Inr n"
        using assms idx s by (cases "rx_pkt_len buf i") (simp_all add: rx_buffer_pop_def Let_def flip: i_def buf_def)
      have bound: "\<not> unat (buffer_size b) < i + n \<Longrightarrow> buffer_index b + int n \<le> int (unat (buffer_size b))"
        using idx unfolding i_def by linarith
      show ?thesis
        using assms idx s True n bound rx_pkt_len_pos [OF n]
        by (simp add: rx_buffer_pop_def Let_def flip: i_def buf_def) (auto simp: Let_def split: if_splits)
    qed
  qed
qed

theorem rx_pop_progress_witness:
  "\<exists>r b' p'. rx_buffer_pop (Some \<lparr>rb_buffer = [], buffer_size = 0, buffer_index = 0, buffer_pkt_nb = 0\<rparr>) (Some rx_sample) =
     Inr (r, b', p') \<and> r = LGW_REG_ERROR \<and> b' = Some \<lparr>rb_buffer = [], buffer_size = 0, buffer_index = 0, buffer_pkt_nb = 0\<rparr>"
proof -
  have e: "rx_buffer_pop (Some \<lparr>rb_buffer = [], buffer_size = 0, buffer_index = 0, buffer_pkt_nb = 0\<rparr>) (Some rx_sample) =
      Inr (LGW_REG_ERROR, Some \<lparr>rb_buffer = [], buffer_size = 0, buffer_index = 0, buffer_pkt_nb = 0\<rparr>, Some rx_sample)"
    by (simp add: rx_buffer_pop_def)
  from rx_pop_progress [OF e] e show ?thesis by simp
qed

text \<open>
  The parser trusts the number of timestamp metrics: a complete packet with a correct checksum that
  announces 128 or more pairs makes the copy loop run past the 255 elements of \<^verbatim>\<open>timestamp_avg\<close> and
  \<^verbatim>\<open>timestamp_stddev\<close>.
\<close>

theorem rx_pop_metrics_overflow:
  assumes "0 \<le> buffer_index b" and "i = nat (buffer_index b)" and "rx_sync_at (rb_buffer b) i = Inr True"
    and "rx_pkt_len (rb_buffer b) i = Inr n" and "i + n \<le> unat (buffer_size b)" and "i + n \<le> length (rb_buffer b)"
    and "rb_buffer b ! (i + n - 1) = sum_list (take (n - 1) (drop i (rb_buffer b)))"
    and "128 \<le> unat (SX1302_PKT_NUM_TS_METRICS (rb_buffer b) (i + unat (SX1302_PKT_PAYLOAD_LENGTH (rb_buffer b) i)))"
  shows "rx_buffer_pop (Some b) (Some p) = Inl OutOfBounds"
proof -
  have "23 \<le> n" using rx_pkt_len_pos [OF assms(4)] .
  then have "\<not> int (unat (buffer_size b)) \<le> buffer_index b" using assms(1,2,5) by linarith
  then show ?thesis using assms by (simp add: rx_buffer_pop_def Let_def)
qed

definition rx_overflow_bytes :: "u8 list" where
  "rx_overflow_bytes = [0xA5, 0xC0] @ replicate 19 0 @ [128] @ replicate 257 0"

theorem rx_pop_metrics_overflow_witness:
  "rx_buffer_pop (Some \<lparr>rb_buffer = rx_overflow_bytes[278 := 0xE5], buffer_size = 279, buffer_index = 0, buffer_pkt_nb = 1\<rparr>)
     (Some rx_sample) = Inl OutOfBounds"
proof -
  define b where "b = \<lparr>rb_buffer = rx_overflow_bytes[278 := 0xE5], buffer_size = 279, buffer_index = 0, buffer_pkt_nb = 1\<rparr>"
  have u: "rb_buffer b = [0xA5, 0xC0] @ replicate 19 0 @ [128] @ replicate 256 0 @ [0xE5]"
    by (simp add: b_def rx_overflow_bytes_def list_update_append replicate_append_same [symmetric] numeral_eq_Suc)
  have n: "rb_buffer b ! 0 = 0xA5" "rb_buffer b ! 1 = 0xC0" "rb_buffer b ! 2 = 0" "rb_buffer b ! Suc (Suc 0) = 0" "rb_buffer b ! 21 = 128"
    "length (rb_buffer b) = 279" "rb_buffer b ! 278 = 0xE5" "sum_list (take 278 (rb_buffer b)) = 0xE5"
    unfolding u by (simp_all add: nth_append sum_list_replicate)
  have f: "buffer_index b = 0" "buffer_size b = 279" by (simp_all add: b_def)
  have "rx_buffer_pop (Some b) (Some rx_sample) = Inl OutOfBounds"
    using n f by (intro rx_pop_metrics_overflow [of b 0 279])
      (simp_all add: rx_sync_at_def rx_byte_def rx_pkt_len_def SX1302_PKT_PAYLOAD_LENGTH_def SX1302_PKT_NUM_TS_METRICS_def Let_def)
  then show ?thesis by (simp add: b_def)
qed

end
