(* ===== verification/Timestamp.thy ===== *)
theory Timestamp
  imports TimeOnAir
begin

text \<open>
  Concentrator time, \<^verbatim>\<open>libloragw/src/loragw_sx1302_timestamp.c\<close>: extending the 27-bit microsecond
  counters to 32 bits, the history of PPS counters, the correction of packet timestamps for the
  processing delays, and fine timestamps. What the concentrator's registers return is an argument.
\<close>

subsection \<open>State\<close>

record timestamp_info_s =
  counter_us_27bits_ref :: u32
  counter_us_27bits_wrap :: u8

record timestamp_counter_t =
  ts_inst :: timestamp_info_s
  ts_pps :: timestamp_info_s

record timestamp_pps_history_s =
  pps_history :: "u32 list"
  pps_idx :: u8
  pps_size :: u8

datatype sx1302_rx_dft_peak_mode_t =
  RX_DFT_PEAK_MODE_DISABLED | RX_DFT_PEAK_MODE_FULL | RX_DFT_PEAK_MODE_TRACK | RX_DFT_PEAK_MODE_AUTO

abbreviation (input) MAX_TIMESTAMP_PPS_HISTORY :: u8 where "MAX_TIMESTAMP_PPS_HISTORY \<equiv> 16"
abbreviation (input) PRECISION_TIMESTAMP_TS_METRICS_MAX :: int where "PRECISION_TIMESTAMP_TS_METRICS_MAX \<equiv> 32"
abbreviation (input) PRECISION_TIMESTAMP_NB_SYMBOLS :: int where "PRECISION_TIMESTAMP_NB_SYMBOLS \<equiv> 0"

definition pps_history_init :: timestamp_pps_history_s where
  "pps_history_init = \<lparr>pps_history = replicate 16 0, pps_idx = 0, pps_size = 0\<rparr>"

definition timestamp_counter_new :: "timestamp_counter_t" where
  "timestamp_counter_new =
     \<lparr>ts_inst = \<lparr>counter_us_27bits_ref = 0, counter_us_27bits_wrap = 0\<rparr>,
      ts_pps = \<lparr>counter_us_27bits_ref = 0, counter_us_27bits_wrap = 0\<rparr>\<rparr>"

definition timestamp_counter_delete :: "timestamp_counter_t" where
  "timestamp_counter_delete =
     \<lparr>ts_inst = \<lparr>counter_us_27bits_ref = 0, counter_us_27bits_wrap = 0\<rparr>,
      ts_pps = \<lparr>counter_us_27bits_ref = 0, counter_us_27bits_wrap = 0\<rparr>\<rparr>"

subsection \<open>Counters\<close>

definition timestamp_info_update :: "timestamp_info_s \<Rightarrow> u32 \<Rightarrow> timestamp_info_s" where
  "timestamp_info_update t now =
     t\<lparr>counter_us_27bits_wrap :=
         (if now < counter_us_27bits_ref t then (counter_us_27bits_wrap t + 1) mod 32 else counter_us_27bits_wrap t),
       counter_us_27bits_ref := now\<rparr>"

definition timestamp_counter_update :: "timestamp_counter_t \<Rightarrow> u32 \<Rightarrow> u32 \<Rightarrow> timestamp_counter_t" where
  "timestamp_counter_update self pps inst =
     self\<lparr>ts_pps := timestamp_info_update (ts_pps self) pps, ts_inst := timestamp_info_update (ts_inst self) inst\<rparr>"

text \<open>The shift of the promoted \<^verbatim>\<open>uint8_t\<close> by 27 bits.\<close>

definition timestamp_expand_with :: "u8 \<Rightarrow> u32 \<Rightarrow> u32" where
  "timestamp_expand_with wrap cnt_us = push_bit 27 (ucast wrap) OR cnt_us"

definition timestamp_counter_expand :: "timestamp_counter_t \<Rightarrow> bool \<Rightarrow> u32 \<Rightarrow> u32" where
  "timestamp_counter_expand self pps cnt_us =
     (let tinfo = (if pps then ts_pps self else ts_inst self)
      in timestamp_expand_with (counter_us_27bits_wrap tinfo) cnt_us)"

definition timestamp_pkt_expand :: "timestamp_counter_t \<Rightarrow> u32 \<Rightarrow> u32" where
  "timestamp_pkt_expand self pkt_cnt_us =
     (let tinfo = ts_inst self;
          wrap_status = counter_us_27bits_wrap tinfo - (if pkt_cnt_us \<le> counter_us_27bits_ref tinfo then 0 else 1)
      in timestamp_expand_with (wrap_status AND 0x1F) pkt_cnt_us)"

text \<open>
  The history of PPS counters: \<^verbatim>\<open>idx\<close> is the slot written last. The write happens only for a
  value that differs from that slot, or into an empty history.
\<close>

definition timestamp_pps_history_push :: "timestamp_pps_history_s \<Rightarrow> u32 \<Rightarrow> timestamp_pps_history_s" where
  "timestamp_pps_history_push h reg =
     (let idx1 = (if 0 < pps_size h then pps_idx h + 1 else pps_idx h);
          idx2 = (if idx1 = MAX_TIMESTAMP_PPS_HISTORY then 0 else idx1)
      in h\<lparr>pps_idx := idx2, pps_history := (pps_history h)[unat idx2 := reg],
           pps_size := (if pps_size h < MAX_TIMESTAMP_PPS_HISTORY then pps_size h + 1 else pps_size h)\<rparr>)"

definition timestamp_pps_history_save :: "timestamp_pps_history_s \<Rightarrow> u32 \<Rightarrow> timestamp_pps_history_s" where
  "timestamp_pps_history_save h reg =
     (if reg \<noteq> pps_history h ! unat (pps_idx h) \<or> pps_size h = 0 then timestamp_pps_history_push h reg else h)"

text \<open>The big-endian 32-bit value at an offset of the eight bytes read.\<close>

definition ts_be32 :: "u8 list \<Rightarrow> nat \<Rightarrow> u32" where
  "ts_be32 b i =
     push_bit 24 (ucast (b ! i)) OR push_bit 16 (ucast (b ! (i + 1))) OR
     push_bit 8 (ucast (b ! (i + 2))) OR ucast (b ! (i + 3))"

text \<open>
  \<^verbatim>\<open>timestamp_counter_get\<close>; \<open>r1\<close>, \<open>r2\<close> and \<open>r3\<close> are the status and the eight bytes of the register reads,
  the last one made only when a most significant byte changed between the first two. The counters are
  \<open>None\<close> when the function fails: the out-parameters are not written.
\<close>

definition timestamp_counter_get ::
    "int \<times> u8 list \<Rightarrow> int \<times> u8 list \<Rightarrow> int \<times> u8 list \<Rightarrow> timestamp_counter_t \<Rightarrow> timestamp_pps_history_s \<Rightarrow>
     int \<times> (u32 \<times> u32) option \<times> timestamp_counter_t \<times> timestamp_pps_history_s" where
  "timestamp_counter_get r1 r2 r3 self hist =
     (if fst r1 \<noteq> 0 then (-1, None, self, hist)
      else if fst r2 \<noteq> 0 then (-1, None, self, hist)
      else let changed = snd r1 ! 0 \<noteq> snd r2 ! 0 \<or> snd r1 ! 4 \<noteq> snd r2 ! 4
           in if changed \<and> fst r3 \<noteq> 0 then (-1, None, self, hist)
              else let buff = (if changed then snd r3 else snd r1);
                       pps_raw = ts_be32 buff 0;
                       inst_raw = ts_be32 buff 4;
                       hist' = timestamp_pps_history_save hist pps_raw;
                       pps = pps_raw div 32;
                       inst = inst_raw div 32;
                       self' = timestamp_counter_update self pps inst
                   in (0, Some (timestamp_counter_expand self' False inst, timestamp_counter_expand self' True pps),
                       self', hist'))"

text \<open>\<^verbatim>\<open>timestamp_counter_mode\<close>: the register writes and the or of their status values.\<close>

datatype ts_register =
    RX_BUFFER_LEGACY_TIMESTAMP
  | RX_BUFFER_TIMESTAMP_CFG_MAX_TS_METRICS
  | RX_TOP_TIMESTAMP_ENABLE
  | RX_TOP_TIMESTAMP_NB_SYMB

definition timestamp_counter_mode :: "bool \<Rightarrow> (ts_register \<times> int) list" where
  "timestamp_counter_mode ftime_enable =
     (if \<not> ftime_enable then [(RX_BUFFER_LEGACY_TIMESTAMP, 1)]
      else [(RX_BUFFER_LEGACY_TIMESTAMP, 0),
            (RX_BUFFER_TIMESTAMP_CFG_MAX_TS_METRICS, PRECISION_TIMESTAMP_TS_METRICS_MAX),
            (RX_TOP_TIMESTAMP_ENABLE, 1),
            (RX_TOP_TIMESTAMP_NB_SYMB, PRECISION_TIMESTAMP_NB_SYMBOLS)])"

subsection \<open>Corrections\<close>

definition SET_PPM_ON :: "u8 \<Rightarrow> u8 \<Rightarrow> bool" where
  "SET_PPM_ON bw dr \<longleftrightarrow> (bw = BW_125KHZ \<and> (dr = 11 \<or> dr = 12)) \<or> (bw = BW_250KHZ \<and> dr = 12)"

text \<open>Nibbles in the last interleaver block; the \<^verbatim>\<open>uint32_t\<close> subtraction may wrap.\<close>

definition legacy_nibbles_last :: "u8 \<Rightarrow> nat \<Rightarrow> bool \<Rightarrow> u8 \<Rightarrow> u32" where
  "legacy_nibbles_last sf ppm crc_en payload_length =
     (let nb_nibble = of_nat ((unat payload_length + (if crc_en then 2 else 0)) * 2 + 5) :: u32;
          nb_nibble_in_hdr = of_nat (if sf = 5 \<or> sf = 6 then unat sf else unat sf - 2) :: u32;
          per = of_nat (unat sf - 2 * ppm) :: u32;
          last_block = nb_nibble - nb_nibble_in_hdr - per * ((nb_nibble - nb_nibble_in_hdr) div per)
      in if last_block = 0 then per else last_block)"

definition legacy_fits_in_header :: "u8 \<Rightarrow> bool \<Rightarrow> u8 \<Rightarrow> bool" where
  "legacy_fits_in_header sf crc_en payload_length \<longleftrightarrow>
     2 * (int (unat payload_length) + (if crc_en then 2 else 0)) - (int (unat sf) - 7) \<le> 0 \<or>
     (payload_length = 0 \<and> \<not> crc_en)"

text \<open>
  The delays in picoseconds, as natural numbers: they stay below \<open>2 ^ 64\<close> (\<^verbatim>\<open>uint64_t\<close>). In
  the demapper delay \<^verbatim>\<open>ppm / 4\<close> is a division of integers, so the factor is always 1.
\<close>

definition legacy_total_delay :: "nat \<Rightarrow> u8 \<Rightarrow> u8 \<Rightarrow> bool \<Rightarrow> u8 \<Rightarrow> sx1302_rx_dft_peak_mode_t \<Rightarrow> nat \<Rightarrow> nat" where
  "legacy_total_delay bw_pow sf cr crc_en payload_length dft_peak_mode ppm =
     (let s = unat sf;
          clk_period = 250000 div bw_pow;
          fits = legacy_fits_in_header sf crc_en payload_length;
          dft_peak_en = \<not> fits \<and> dft_peak_mode \<noteq> RX_DFT_PEAK_MODE_DISABLED;
          cr_local = (if fits then 4 else unat cr);
          nb_last = (if fits then (if 6 < s then s - 2 else s)
                     else unat (legacy_nibbles_last sf ppm crc_en payload_length));
          nb_iter = (s + 1) div 2;
          filtering_delay = 16000000 div bw_pow + 2031250;
          demap_delay =
            (if fits then clk_period + 2 ^ s * clk_period * 3 div 4 + 3 * clk_period + (s - 2) * clk_period
             else clk_period + 2 ^ s * clk_period * (1 - ppm div 4) + 3 * clk_period + (s - 2 * ppm) * clk_period);
          fft_delay_state3 = clk_period * ((2 ^ s - 6) + 2 * (2 ^ s * (nb_iter - 1) + 6)) + 4 * clk_period;
          fft_delay =
            (if dft_peak_en then (5 - 2 * ppm) * (2 ^ s * clk_period + 7 * clk_period) + 2 * clk_period
             else 2 ^ s * 2 * clk_period + 3 * clk_period);
          decode_delay = 5 * clk_period + (9 * clk_period + clk_period * cr_local) * nb_last + 3 * clk_period
      in filtering_delay + fft_delay_state3 + fft_delay + demap_delay + decode_delay)"

definition legacy_timestamp_correction ::
    "u8 \<Rightarrow> u8 \<Rightarrow> u8 \<Rightarrow> bool \<Rightarrow> u8 \<Rightarrow> sx1302_rx_dft_peak_mode_t \<Rightarrow> c_fault + int" where
  "legacy_timestamp_correction bandwidth sf cr crc_en payload_length dft_peak_mode =
     (case bw_pow_of bandwidth of
        None \<Rightarrow> Inr 0
      | Some bw_pow \<Rightarrow>
          let ppm = (if SET_PPM_ON bandwidth sf then 1 else 0);
              sum = legacy_total_delay bw_pow sf cr crc_en payload_length dft_peak_mode ppm;
              total_delay = \<lfloor>dbl (of_nat (sum + 500000) / 1000000)\<rfloor>
          in if 2 ^ 31 - 1 < total_delay then Inl AssertFailed else Inr (- total_delay))"

text \<open>
  With precision timestamps: the filtering delays are exact in binary, the difference is converted to
  \<^verbatim>\<open>int32_t\<close> by discarding the fraction. The first factor is a \<^verbatim>\<open>uint32_t\<close> product.
\<close>

definition precision_timestamp_correction :: "u8 \<Rightarrow> u8 \<Rightarrow> u8 \<Rightarrow> bool \<Rightarrow> u8 \<Rightarrow> int" where
  "precision_timestamp_correction bandwidth datarate coderate crc_en payload_length =
     (case bw_pow_of bandwidth of
        None \<Rightarrow> 0
      | Some bw_pow \<Rightarrow>
          let filtering_delay = 16000000 div bw_pow + 2031250
          in case lora_packet_time_on_air bandwidth datarate coderate 0 False (\<not> crc_en) payload_length of
               (toa, None) \<Rightarrow> 0
             | (toa, Some d) \<Rightarrow>
                 if toa = 0 then 0
                 else let c = sint (nb_symbols_payload d * ucast (t_symbol_us d))
                      in c_trunc (of_int c - of_nat (filtering_delay + 500000) / 1000000))"

definition timestamp_counter_correction ::
    "bool \<Rightarrow> u8 \<Rightarrow> u8 \<Rightarrow> u8 \<Rightarrow> bool \<Rightarrow> u8 \<Rightarrow> sx1302_rx_dft_peak_mode_t \<Rightarrow> c_fault + int" where
  "timestamp_counter_correction ftime_enable bandwidth datarate coderate crc_en payload_length dft_peak_mode =
     (if \<not> IS_LORA_DR datarate then Inr 0
      else if \<not> IS_LORA_BW bandwidth then Inr 0
      else if \<not> IS_LORA_CR coderate then Inr 0
      else if \<not> ftime_enable
      then legacy_timestamp_correction bandwidth datarate coderate crc_en payload_length dft_peak_mode
      else Inr (precision_timestamp_correction bandwidth datarate coderate crc_en payload_length))"

subsection \<open>Fine timestamps\<close>

text \<open>\<^verbatim>\<open>pow\<close> is taken as correctly rounded.\<close>

definition sx1302_dc_notch_delay :: "rat \<Rightarrow> rat" where
  "sx1302_dc_notch_delay f =
     (if f < -75 \<or> 75 < f then 0
      else let a = dbl (dbl (17 / 10 ^ 7) * dbl (f ^ 4));
               b = dbl (dbl (24 / 10 ^ 7) * dbl (f ^ 3));
               c = dbl (dbl (101 / 10 ^ 4) * dbl (f ^ 2));
               d = dbl (dbl (1275 / 10 ^ 5) * f)
           in dbl (dbl (dbl (dbl (a + b) - c) - d) + dbl (102922 / 10 ^ 4)))"

definition double_to_u32 :: "rat \<Rightarrow> c_fault + u32" where
  "double_to_u32 x = (if -1 < x \<and> x < 2 ^ 32 then Inr (of_int (c_trunc x)) else Inl UndefinedConversion)"

definition ftime_offset_hdr :: "u8 \<Rightarrow> u32" where
  "ftime_offset_hdr sf =
     256 * push_bit (unat sf) 1 * (12 + (if sf = 5 \<or> sf = 6 then 2 else 0)) + 256 * (push_bit (unat sf) 1 div 4 - 1)"

definition ftime_metrics_clipped :: "u8 \<Rightarrow> u8 \<Rightarrow> u8" where
  "ftime_metrics_clipped sf n =
     (if sf = 12 then min 4 n else if sf = 11 then min 8 n else if sf = 10 then min 16 n else min 32 n)"

text \<open>Sum of the running sums of the first metrics.\<close>

fun ftime_running :: "int \<Rightarrow> int \<Rightarrow> int list \<Rightarrow> int" where
  "ftime_running prev tot [] = tot"
| "ftime_running prev tot (m # ms) = ftime_running (prev + m) (tot + (prev + m)) ms"

definition ftime_sum_of :: "int list \<Rightarrow> nat \<Rightarrow> int" where
  "ftime_sum_of ms n = ftime_running (ms ! 0) (ms ! 0) (take (n - 1) (drop 1 ms))"

text \<open>The first slot whose PPS counter is less than a second before the packet.\<close>

fun ftime_find_pps :: "u32 \<Rightarrow> u32 list \<Rightarrow> nat \<Rightarrow> nat \<Rightarrow> nat option" where
  "ftime_find_pps cnt [] n i = None"
| "ftime_find_pps cnt (h # hs) n i =
     (if i = n then None else if cnt - h < 32000000 then Some i else ftime_find_pps cnt hs n (Suc i))"

text \<open>
  \<^verbatim>\<open>precise_timestamp_calculate\<close>: the return value, the fine timestamp (\<open>None\<close> when the out-parameter is
  not written) and the history. \<open>reg\<close> is the status and the four bytes of the register read. A zero
  difference between PPS counters divides by zero: the infinite ratio fails the sanity check.
\<close>

definition precise_timestamp_calculate ::
    "int \<times> u8 list \<Rightarrow> u8 \<Rightarrow> int list \<Rightarrow> u32 \<Rightarrow> u8 \<Rightarrow> int \<Rightarrow> rat \<Rightarrow> timestamp_pps_history_s \<Rightarrow>
     c_fault + (int \<times> u32 option \<times> timestamp_pps_history_s)" where
  "precise_timestamp_calculate reg ts_metrics_nb ts_metrics timestamp_cnt0 sf if_freq_hz pkt_freq_error hist =
     (if pps_size hist < MAX_TIMESTAMP_PPS_HISTORY then Inr (-1, None, hist)
      else
        let off0 = ftime_offset_hdr sf; o0 = of_nat (unat off0)
        in res_bind (double_to_u32 (dbl (o0 + dbl (dbl (o0 * pkt_freq_error) + 1 / 2)))) (\<lambda>off.
             let timestamp_cnt = timestamp_cnt0 - off + 2138;
                 n = unat (ftime_metrics_clipped sf ts_metrics_nb)
             in if fst reg \<noteq> 0 then Inr (0, None, hist)
                else
                  let pps_reg = ts_be32 (snd reg) 0;
                      h = timestamp_pps_history_save hist pps_reg;
                      found =
                        (if timestamp_cnt - pps_reg > 32000000
                         then (case ftime_find_pps timestamp_cnt (pps_history h) (unat (pps_size h)) 0 of
                                 None \<Rightarrow> None
                               | Some i \<Rightarrow> let next = (if i = 15 then 0 else i + 1)
                                           in Some (pps_history h ! i, pps_history h ! next - pps_history h ! i))
                         else let i = unat (pps_idx h); prev = (if i = 0 then 15 else i - 1)
                              in Some (pps_reg, pps_history h ! i - pps_history h ! prev))
                  in case found of
                       None \<Rightarrow> Inr (-1, None, h)
                     | Some (pps, diff) \<Rightarrow>
                         let xtal = dbl (32000000 / of_nat (unat diff))
                         in if diff = 0 \<or> dbl (12 / 10) < xtal \<or> xtal < dbl (8 / 10) then Inr (-1, None, h)
                            else if n = 0 then Inl UndefinedConversion
                            else
                              let mean = flt (flt (of_int (ftime_sum_of ts_metrics (2 * n))) / of_nat (2 * n));
                                  t0 = dbl (of_nat (unat (timestamp_cnt - pps)) + mean);
                                  t1 = dbl (t0 + sx1302_dc_notch_delay (dbl (of_int if_freq_hz / 1000)));
                                  t2 = dbl (t1 * (125 / 4));
                                  t3 = dbl (t2 * xtal)
                              in res_bind (double_to_u32 t3) (\<lambda>r.
                                   Inr (if r > 1000000000 then -1 else 0, Some r, h))))"

end
