(* ===== verification/TimestampProps.thy ===== *)
theory TimestampProps
  imports Timestamp TimeOnAirProps
begin

text \<open>
  What the conversion of the 27-bit counters to 32 bits keeps: a time in microseconds since the start of the
  concentrator, as long as the counters are read at least once per roll-over. Then the history of PPS
  counters, and the bounds of the corrections.
\<close>

subsection \<open>Following the running counter\<close>

text \<open>The state of one counter after it was last read at the (unbounded) time \<open>T\<close> in microseconds.\<close>

definition ts_tracks :: "timestamp_info_s \<Rightarrow> nat \<Rightarrow> bool" where
  "ts_tracks t T \<longleftrightarrow> counter_us_27bits_ref t = of_nat (T mod 2 ^ 27) \<and>
     counter_us_27bits_wrap t = of_nat (T div 2 ^ 27 mod 32)"

lemma u32_of_nat_le_iff: "a < 2 ^ 32 \<Longrightarrow> b < 2 ^ 32 \<Longrightarrow> (of_nat a :: u32) \<le> of_nat b \<longleftrightarrow> a \<le> b"
  by (simp add: word_le_nat_alt unat_of_nat)



lemma div_mod_gap:
  fixes T T' :: nat
  assumes "T \<le> T'" and "T' - T < N"
  shows "T' div N = (if T' mod N < T mod N then Suc (T div N) else T div N)"
proof -
  have N: "0 < N" using assms(2) by auto
  have t: "T = N * (T div N) + T mod N" "T' = N * (T' div N) + T' mod N" by simp_all
  have m: "T mod N < N" "T' mod N < N" using N by simp_all
  have le: "T div N \<le> T' div N" by (rule div_le_mono) (rule assms(1))
  then obtain k where k: "T' div N = T div N + k" using le_Suc_ex by blast
  have e: "N * k + T' mod N = T mod N + (T' - T)"
  proof -
    have "N * (T' div N) = N * (T div N) + N * k" by (simp add: k algebra_simps)
    then show ?thesis using t assms(1) by linarith
  qed
  have "k < 2"
  proof (rule ccontr)
    assume "\<not> k < 2"
    then have "N * 2 \<le> N * k" by simp
    then show False using e m assms(2) by linarith
  qed
  then consider "k = 0" | "k = 1" by linarith
  then show ?thesis
  proof cases
    case 1
    then show ?thesis using e k by simp
  next
    case 2
    then show ?thesis using e k assms(2) by simp
  qed
qed


lemma expand_or_add:
  assumes "w < 32" and "c < 2 ^ 27"
  shows "timestamp_expand_with (of_nat w) (of_nat c) = of_nat (w * 2 ^ 27 + c)"
proof -
  have dis: "push_bit 27 (of_nat w :: u32) AND of_nat c = 0"
  proof (rule bit_word_eqI)
    fix n
    assume "n < LENGTH(32)"
    have "\<not> bit c n" if "27 \<le> n"
    proof -
      have "(2::nat) ^ 27 \<le> 2 ^ n" using that by (intro power_increasing) auto
      then have "c div 2 ^ n = 0" using assms(2) by (intro div_less) linarith
      then show ?thesis by (simp add: bit_iff_odd)
    qed
    then show "bit (push_bit 27 (of_nat w :: u32) AND of_nat c) n = bit 0 n"
      by (auto simp: bit_simps)
  qed
  have "(ucast (of_nat w :: u8) :: u32) = of_nat w"
    using assms(1) by (simp add: word_unat_eq_iff unsigned_ucast_eq unat_of_nat take_bit_nat_eq_self)
  then have "timestamp_expand_with (of_nat w) (of_nat c) = push_bit 27 (of_nat w :: u32) OR of_nat c"
    by (simp add: timestamp_expand_with_def)
  also have "\<dots> = push_bit 27 (of_nat w) + of_nat c"
    by (rule disjunctive_add_eq_or [OF dis, symmetric])
  also have "\<dots> = of_nat (w * 2 ^ 27 + c)"
    by (simp add: push_bit_eq_mult)
  finally show ?thesis .
qed

lemma of_nat_mod_u32: "(of_nat (n mod 2 ^ 32) :: u32) = of_nat n"
  by (simp add: word_unat_eq_iff unat_of_nat)

lemma expand_time: "timestamp_expand_with (of_nat (T div 2 ^ 27 mod 32)) (of_nat (T mod 2 ^ 27)) = of_nat T"
proof -
  have "T div 2 ^ 27 mod 32 * 2 ^ 27 + T mod 2 ^ 27 = T mod 2 ^ 32"
    using mod_mult2_eq [of T "2 ^ 27" 32] by simp
  moreover have "T mod 2 ^ 27 < 2 ^ 27" "T div 2 ^ 27 mod 32 < 32" by simp_all
  ultimately show ?thesis
    using expand_or_add [of "T div 2 ^ 27 mod 32" "T mod 2 ^ 27"] of_nat_mod_u32 [of T] by metis
qed

lemma ts_tracks_expand:
  "ts_tracks t T \<Longrightarrow> timestamp_expand_with (counter_us_27bits_wrap t) (counter_us_27bits_ref t) = of_nat T"
  by (simp only: ts_tracks_def expand_time)



















text \<open>The five bits of the wrap status, one step back or unchanged.\<close>

lemma wrap_back: "k < 32 \<Longrightarrow> (of_nat (Suc k mod 32) - 1 :: u8) AND 0x1F = of_nat k"
proof -
  have "list_all (\<lambda>k. (of_nat (Suc k mod 32) - 1 :: u8) AND 0x1F = of_nat k) [0..<32]" by code_simp
  then show "k < 32 \<Longrightarrow> ?thesis" by (simp add: list_all_iff)
qed

lemma wrap_stay: "k < 32 \<Longrightarrow> (of_nat k :: u8) AND 0x1F = of_nat k"
proof -
  have "list_all (\<lambda>k. (of_nat k :: u8) AND 0x1F = of_nat k) [0..<32]" by code_simp
  then show "k < 32 \<Longrightarrow> ?thesis" by (simp add: list_all_iff)
qed




text \<open>
  The timestamp of a packet is exact, too: a packet received at the time \<open>P\<close>, read from the receive buffer after
  the counter was last updated at \<open>T\<close>, less than a roll-over later, gets the 32-bit time \<open>P\<close>, whether or not the
  counter rolled over in between.
\<close>

theorem timestamp_pkt_expand_exact:
  assumes "ts_tracks (ts_inst self) T" and "P \<le> T" and "T - P < 2 ^ 27"
  shows "timestamp_pkt_expand self (of_nat (P mod 2 ^ 27)) = of_nat P"
proof -
  have lt: "x mod 2 ^ 27 < 2 ^ 32" for x :: nat
    using mod_less_divisor [of "2 ^ 27" x] by simp
  have wrap: "(of_nat (Suc n mod 32) - 1 :: u8) AND 0x1F = of_nat (n mod 32)" for n :: nat
    using wrap_back [of "n mod 32"] by (simp add: mod_Suc_eq)
  have same: "(of_nat (n mod 32) :: u8) AND 0x1F = of_nat (n mod 32)" for n :: nat
    using wrap_stay [of "n mod 32"] by simp
  have "(of_nat (P mod 2 ^ 27) :: u32) \<le> of_nat (T mod 2 ^ 27) \<longleftrightarrow> P mod 2 ^ 27 \<le> T mod 2 ^ 27"
    by (rule u32_of_nat_le_iff) (rule lt)+
  then show ?thesis
    using assms(1) expand_time [of P] div_mod_gap [OF assms(2,3)] unfolding ts_tracks_def timestamp_pkt_expand_def Let_def
    by (auto simp: wrap same not_less)
qed

theorem timestamp_pkt_expand_exact_witness:
  "timestamp_pkt_expand
     (timestamp_counter_new\<lparr>ts_inst := \<lparr>counter_us_27bits_ref = 1000, counter_us_27bits_wrap = 1\<rparr>\<rparr>) 134217628 = 134217628"
proof -
  have "ts_tracks (ts_inst (timestamp_counter_new\<lparr>ts_inst := \<lparr>counter_us_27bits_ref = 1000, counter_us_27bits_wrap = 1\<rparr>\<rparr>)) 134218728"
    by (simp add: ts_tracks_def)
  from timestamp_pkt_expand_exact [OF this, of 134217628] show ?thesis by simp
qed

subsection \<open>The history of PPS counters\<close>

text \<open>The entries, oldest first: \<^verbatim>\<open>idx\<close> is the slot of the newest one.\<close>

definition pps_start :: "timestamp_pps_history_s \<Rightarrow> nat" where
  "pps_start h = (unat (pps_idx h) + 17 - unat (pps_size h)) mod 16"

definition pps_contents :: "timestamp_pps_history_s \<Rightarrow> u32 list" where
  "pps_contents h = ring_read (pps_history h) (pps_start h) (unat (pps_size h))"

definition pps_wf :: "timestamp_pps_history_s \<Rightarrow> bool" where
  "pps_wf h \<longleftrightarrow> length (pps_history h) = 16 \<and> unat (pps_size h) \<le> 16 \<and> unat (pps_idx h) < 16 \<and>
     (unat (pps_size h) < 16 \<longrightarrow> unat (pps_idx h) = unat (pps_size h) - 1)"

text \<open>What a push does to the slot and the number of entries.\<close>

lemma pps_push_parts:
  assumes "pps_wf h"
  defines "i \<equiv> unat (pps_idx h)" and "n \<equiv> unat (pps_size h)"
  defines "j \<equiv> if n = 0 then i else if i = 15 then 0 else i + 1"
  shows "unat (pps_idx (timestamp_pps_history_push h r)) = j"
    and "unat (pps_size (timestamp_pps_history_push h r)) = (if n < 16 then n + 1 else 16)"
    and "pps_history (timestamp_pps_history_push h r) = (pps_history h)[j := r]"
proof -
  have b: "i < 16" "n \<le> 16" using assms(1) by (simp_all add: pps_wf_def i_def n_def)
  have s0: "0 < pps_size h \<longleftrightarrow> n \<noteq> 0" by (simp add: n_def word_less_nat_alt)
  have sM: "pps_size h < 16 \<longleftrightarrow> n < 16" by (simp add: n_def word_less_nat_alt)
  have i1: "unat (pps_idx h + 1) = i + 1" using b by (simp add: i_def unat_word_ariths)
  have n1: "unat (pps_size h + 1) = n + 1" using b by (simp add: n_def unat_word_ariths)
  have e16: "w = 16 \<longleftrightarrow> unat w = 16" for w :: u8 by (simp add: word_unat_eq_iff)
  have idx: "unat (if (if 0 < pps_size h then pps_idx h + 1 else pps_idx h) = 16 then 0
      else if 0 < pps_size h then pps_idx h + 1 else pps_idx h) = j"
    using b i1 unfolding s0 j_def e16 by (auto simp: i_def)
  then show "unat (pps_idx (timestamp_pps_history_push h r)) = j"
    and "pps_history (timestamp_pps_history_push h r) = (pps_history h)[j := r]"
    by (simp_all add: timestamp_pps_history_push_def Let_def)
  show "unat (pps_size (timestamp_pps_history_push h r)) = (if n < 16 then n + 1 else 16)"
    using b n1 sM by (simp add: timestamp_pps_history_push_def Let_def n_def)
qed

lemma pps_push_wf:
  assumes "pps_wf h"
  shows "pps_wf (timestamp_pps_history_push h r)"
  using assms pps_push_parts [OF assms, of r] by (auto simp: pps_wf_def)

lemma pps_push_contents:
  assumes wf: "pps_wf h"
  shows "pps_contents (timestamp_pps_history_push h r) =
    drop (length (pps_contents h) + 1 - 16) (pps_contents h @ [r])"
proof -
  define i n xs t where "i = unat (pps_idx h)" and "n = unat (pps_size h)" and "xs = pps_history h" and "t = pps_start h"
  note parts = pps_push_parts [OF wf, of r, folded i_def n_def xs_def]
  have b: "i < 16" "n \<le> 16" "length xs = 16" "n < 16 \<Longrightarrow> i = n - 1"
    using wf by (simp_all add: pps_wf_def i_def n_def xs_def)
  have c: "pps_contents h = ring_read xs t n" by (simp add: pps_contents_def t_def xs_def n_def)
  show ?thesis
  proof (cases "n < 16")
    case True
    then have t: "ring_read xs t n = ring_read xs 0 n"
      using b(4) by (cases "n = 0") (simp_all add: t_def pps_start_def flip: i_def n_def)
    have j: "(if n = 0 then i else if i = 15 then 0 else i + 1) = n" using True b(4) by auto
    have "pps_contents (timestamp_pps_history_push h r) = ring_read (xs[(0 + n) mod length xs := r]) 0 (Suc n)"
      using parts True b(3) unfolding j by (simp add: pps_contents_def pps_start_def)
    also have "\<dots> = ring_read xs 0 n @ [r]"
      using True b(3) by (intro ring_read_write) simp
    finally show ?thesis using True by (simp add: c t)
  next
    case False
    then have n: "n = 16" using b(2) by simp
    have t: "t = (if i = 15 then 0 else i + 1)"
      using b(1) n by (auto simp: t_def pps_start_def simp flip: i_def n_def)
    then have t16: "t < length xs" using b by auto
    have sz: "unat (pps_size (timestamp_pps_history_push h r)) = Suc 15" using parts(2) n by simp
    have st: "pps_start (timestamp_pps_history_push h r) = (t + 1) mod length xs"
      using parts(1) sz n t b(3) by (simp add: pps_start_def)
    have "pps_contents (timestamp_pps_history_push h r) = ring_read (xs[t := r]) ((t + 1) mod length xs) (Suc 15)"
      unfolding pps_contents_def sz st using parts(3) n t by simp
    also have "\<dots> = ring_read (xs[t := r]) ((t + 1) mod length xs) 15 @ [r]"
    proof -
      have "((t + 1) mod length xs + 15) mod length xs = (t + 1 + 15) mod length xs" by (rule mod_add_left_eq)
      also have "\<dots> = t" using t16 b(3) by simp
      finally have "((t + 1) mod length xs + 15) mod length xs = t" .
      then show ?thesis using t16 unfolding ring_read_Suc length_list_update by simp
    qed
    also have "ring_read (xs[t := r]) ((t + 1) mod length xs) 15 = drop 1 (ring_read xs t (Suc 15))"
      using ring_read_pop [OF t16, of 15] b(3) by simp
    finally show ?thesis using n by (simp add: c)
  qed
qed

interpretation ppsh: bounded_log pps_wf pps_contents 16 "\<lambda>_. True" timestamp_pps_history_push
  by unfold_locales (rule pps_push_wf, assumption | rule pps_push_contents, assumption | simp add: pps_contents_def pps_wf_def)+

lemma pps_newest:
  assumes "pps_wf h" and "pps_size h \<noteq> 0"
  shows "last (pps_contents h) = pps_history h ! unat (pps_idx h)"
proof -
  define i n where "i = unat (pps_idx h)" and "n = unat (pps_size h)"
  have b: "i < 16" "n \<le> 16" "length (pps_history h) = 16" "n < 16 \<Longrightarrow> i = n - 1" "n \<noteq> 0"
    using assms by (simp_all add: pps_wf_def i_def n_def unat_eq_0)
  have "(pps_start h + (n - 1)) mod 16 = i"
  proof -
    have "(pps_start h + (n - 1)) mod 16 = (i + 17 - n + (n - 1)) mod 16"
      by (simp add: pps_start_def mod_add_left_eq flip: i_def n_def)
    also have "i + 17 - n + (n - 1) = i + 16" using b by linarith
    finally show ?thesis using b by simp
  qed
  then show ?thesis
    using b by (simp add: pps_contents_def ring_read_def last_map flip: i_def n_def)
qed

lemma remdups_adj_snoc:
  "remdups_adj (xs @ [x]) = (if xs \<noteq> [] \<and> last xs = x then remdups_adj xs else remdups_adj xs @ [x])"
  by (induction xs rule: remdups_adj.induct) auto

lemma drop_last_nonempty: "xs \<noteq> [] \<Longrightarrow> drop (length xs - 16) xs \<noteq> []"
  by (cases xs) auto

lemma pps_saves_wf:
  "pps_wf (foldl timestamp_pps_history_save pps_history_init rs) \<and>
   pps_contents (foldl timestamp_pps_history_save pps_history_init rs) =
     drop (length (remdups_adj rs) - 16) (remdups_adj rs)"
proof (induction rs rule: rev_induct)
  case Nil
  show ?case by (simp add: pps_wf_def pps_history_init_def pps_contents_def)
next
  case (snoc r rs)
  define h where "h = foldl timestamp_pps_history_save pps_history_init rs"
  have wf: "pps_wf h" and c: "pps_contents h = drop (length (remdups_adj rs) - 16) (remdups_adj rs)"
    using snoc by (simp_all add: h_def)
  have len: "unat (pps_size h) = length (pps_contents h)" by (simp add: pps_contents_def)
  then have nonempty: "pps_size h \<noteq> 0 \<longleftrightarrow> rs \<noteq> []"
    by (metis c drop_last_nonempty drop_Nil length_0_conv list.size(3) remdups_adj_Nil_iff unat_eq_0)
  have newest: "pps_history h ! unat (pps_idx h) = last rs" if "rs \<noteq> []"
    using pps_newest [OF wf] nonempty that c by (simp add: last_drop)
  show ?case
  proof (cases "rs \<noteq> [] \<and> last rs = r")
    case True
    then have "timestamp_pps_history_save h r = h"
      using newest nonempty by (simp add: timestamp_pps_history_save_def)
    then show ?thesis using True wf c by (simp add: remdups_adj_snoc h_def [symmetric])
  next
    case False
    then have "timestamp_pps_history_save h r = timestamp_pps_history_push h r"
      using newest nonempty by (auto simp: timestamp_pps_history_save_def)
    moreover have "pps_contents (timestamp_pps_history_push h r) =
        drop (length (remdups_adj rs @ [r]) - 16) (remdups_adj rs @ [r])"
      unfolding ppsh.put_contents [OF wf TrueI] c
      by (simp, rule arg_cong [where f = "\<lambda>k. drop k (remdups_adj rs)"], arith)
    ultimately show ?thesis
      using False ppsh.put_inv [OF wf TrueI] by (auto simp: remdups_adj_snoc h_def [symmetric])
  qed
qed

text \<open>
  The history of PPS counters holds, whatever was read, the last sixteen different values in the order of the readings: a
  value read again before the next pulse is stored once, the oldest entry is forgotten when
  the history is full, and the slot \<^verbatim>\<open>idx\<close> always holds the newest value. No slot outside the array is written.
\<close>

theorem pps_history_last_16:
  "pps_contents (foldl timestamp_pps_history_save pps_history_init rs) =
     drop (length (remdups_adj rs) - 16) (remdups_adj rs) \<and>
   length (pps_history (foldl timestamp_pps_history_save pps_history_init rs)) = 16 \<and>
   unat (pps_idx (foldl timestamp_pps_history_save pps_history_init rs)) < 16 \<and>
   (rs = [] \<or> pps_history (foldl timestamp_pps_history_save pps_history_init rs) !
     unat (pps_idx (foldl timestamp_pps_history_save pps_history_init rs)) = last rs)"
proof -
  define h where "h = foldl timestamp_pps_history_save pps_history_init rs"
  have wf: "pps_wf h" and c: "pps_contents h = drop (length (remdups_adj rs) - 16) (remdups_adj rs)"
    using pps_saves_wf by (simp_all add: h_def)
  have "pps_history h ! unat (pps_idx h) = last rs" if "rs \<noteq> []"
  proof -
    have "pps_contents h \<noteq> []" using c that drop_last_nonempty [of "remdups_adj rs"] by simp
    then have "pps_size h \<noteq> 0" by (auto simp: pps_contents_def)
    then show ?thesis using pps_newest [OF wf] c that by (simp add: last_drop)
  qed
  then show ?thesis using wf c by (auto simp: pps_wf_def h_def [symmetric])
qed

subsection \<open>Corrections\<close>

lemma word_mod_by_div: "(x :: u32) - p * (x div p) = x mod p"
  by (simp add: minus_mult_div_eq_mod)

lemma legacy_nibbles_last_le:
  assumes "5 \<le> unat sf" and "unat sf \<le> 12" and "ppm \<le> 1"
  shows "unat (legacy_nibbles_last sf ppm crc_en len) \<le> 12"
proof -
  define per where "per = (of_nat (unat sf - 2 * ppm) :: u32)"
  have p: "unat per = unat sf - 2 * ppm" 
    unfolding per_def unat_of_nat by (rule mod_less) (use assms in simp)
  have "x mod per < per" for x
    using p assms by (intro word_mod_less_divisor) (simp add: word_less_nat_alt)
  then have "unat (x mod per) \<le> 12" for x
    using p assms by (simp add: word_less_nat_alt) (meson diff_le_self le_trans less_imp_le_nat)
  moreover have "unat per \<le> 12" using p assms by simp
  ultimately show ?thesis
    unfolding legacy_nibbles_last_def Let_def per_def [symmetric] word_mod_by_div
    by (simp only: if_distrib [of unat] split: if_split) blast
qed

lemma mult_le_of_le: "a \<le> A \<Longrightarrow> b \<le> B \<Longrightarrow> a * b \<le> A * (B :: nat)"
  by (rule mult_le_mono)

lemma legacy_total_delay_le:
  assumes "5 \<le> unat sf" and "unat sf \<le> 12" and "unat cr \<le> 4" and "d = 1 \<or> d = 2 \<or> d = 4" and "ppm \<le> 1"
  shows "legacy_total_delay d sf cr crc_en len mode ppm \<le> 19999000000"
proof -
  define s where "s = unat sf"
  have s: "s \<le> 12" "5 \<le> s" using assms by (simp_all add: s_def)
  have two: "(2 :: nat) ^ s \<le> 4096"
    using power_increasing [OF s(1), of "2 :: nat"] by simp
  define clk where "clk = 250000 div d"
  have clk: "clk \<le> 250000" "16000000 div d \<le> 16000000" using assms(4) by (auto simp: clk_def)
  have nb: "unat (legacy_nibbles_last sf ppm crc_en len) \<le> 12"
    by (rule legacy_nibbles_last_le) (use assms in simp_all)
  have p: "2 ^ s * clk \<le> 4096 * 250000" by (rule mult_le_of_le [OF two clk(1)])
  have it: "(s + 1) div 2 - 1 \<le> 5" using s by simp
  have a: "clk * (2 ^ s - 6 + 2 * (2 ^ s * ((s + 1) div 2 - 1) + 6)) \<le> 250000 * (4096 + 2 * (4096 * 5 + 6))"
    using clk two it by (intro mult_le_mono add_mono) (simp_all add: mult_le_mono)
  have c: "(9 * clk + clk * k) * m \<le> (9 * 250000 + 250000 * 4) * 12" if "k \<le> 4" "m \<le> 12" for k m
    using clk that by (intro mult_le_mono add_mono) auto
  have e: "(s - k) * clk \<le> 12 * 250000" for k
    using s clk by (intro mult_le_mono) auto
  have F: "16000000 div d + 2031250 \<le> 18031250" using clk by simp
  have S: "clk * (2 ^ s - 6 + 2 * (2 ^ s * ((s + 1) div 2 - 1) + 6)) + 4 * clk \<le> 250000 * (4096 + 2 * (4096 * 5 + 6)) + 4 * 250000"
    by (rule add_mono [OF a]) (use clk in simp)
  have "(5 - 2 * ppm) * (2 ^ s * clk + 7 * clk) \<le> 5 * (4096 * 250000 + 7 * 250000)"
    using p clk by (intro mult_le_mono) auto
  then have T: "(if q then (5 - 2 * ppm) * (2 ^ s * clk + 7 * clk) + 2 * clk else 2 ^ s * 2 * clk + 3 * clk) \<le> 5130000000" for q
    using p clk by auto
  have "clk + 2 ^ s * clk * 3 div 4 + 3 * clk + (s - 2) * clk \<le> 1030000000"
    using p clk e [of 2] div_le_mono [OF mult_le_mono1 [OF p, of 3], of 4] by linarith
  moreover have "clk + 2 ^ s * clk * (1 - ppm div 4) + 3 * clk + (s - 2 * ppm) * clk \<le> 1030000000"
    using p clk e [of "2 * ppm"] assms(5) by simp
  ultimately have D: "(if q then clk + 2 ^ s * clk * 3 div 4 + 3 * clk + (s - 2) * clk
      else clk + 2 ^ s * clk * (1 - ppm div 4) + 3 * clk + (s - 2 * ppm) * clk) \<le> 1030000000" for q
    by simp
  have E: "5 * clk + (9 * clk + clk * (if q then 4 else unat cr)) *
      (if q then if 6 < s then s - 2 else s else unat (legacy_nibbles_last sf ppm crc_en len)) + 3 * clk \<le> 50000000" for q
    by (rule order_trans, rule add_mono [OF add_mono [OF mult_le_mono2 [OF clk(1)] c] mult_le_mono2 [OF clk(1)]])
      (use assms(3) nb s in auto)
  show ?thesis
    unfolding legacy_total_delay_def Let_def s_def [symmetric] clk_def [symmetric]
    by (rule order_trans, rule add_mono [OF add_mono [OF add_mono [OF add_mono [OF F S] T] D] E]) simp
qed

lemma lora_toa_details:
  assumes "IS_LORA_DR sf" and "IS_LORA_CR cr" and "bw_pow_of bw = Some d"
  shows "\<exists>t n. lora_packet_time_on_air bw sf cr preamble no_header no_crc size_p =
    (t, Some \<lparr>nb_symbols = n, nb_symbols_payload = of_nat (toa_symbols_spec (unat sf) (unat cr) no_header no_crc (unat size_p)),
              t_symbol_us = of_nat (2 ^ unat sf * 8 div d)\<rparr>)"
proof -
  have sf: "5 \<le> unat sf" "unat sf \<le> 12"
    using IS_LORA_DR_bounds [OF assms(1)] by auto
  show ?thesis
    unfolding lora_packet_time_on_air_def Let_def
    by (simp only: assms bw_pow_of_valid [OF assms(3)] not_True_eq_False if_False option.case
        toa_payload_ceiling [OF sf] of_int_of_nat_eq) blast
qed

lemma legacy_correction_exact:
  fixes sf cr bw len :: u8 and crc_en :: bool and mode :: sx1302_rx_dft_peak_mode_t
  assumes "IS_LORA_DR sf" and "IS_LORA_CR cr" and "bw_pow_of bw = Some d"
  defines "delay \<equiv> legacy_total_delay d sf cr crc_en len mode (if SET_PPM_ON bw sf then 1 else 0)"
  shows "legacy_timestamp_correction bw sf cr crc_en len mode = Inr (- int ((delay + 500000) div 1000000))"
    and "(delay + 500000) div 1000000 \<le> 20000"
proof -
  have le: "delay \<le> 19999000000"
    unfolding delay_def using IS_LORA_DR_bounds [OF assms(1)] IS_LORA_CR_bounds [OF assms(2)] bw_pow_of_cases [OF assms(3)]
    by (intro legacy_total_delay_le) auto
  then show b: "(delay + 500000) div 1000000 \<le> 20000" by linarith
  have "\<lfloor>dbl (of_nat (delay + 500000) / of_nat 1000000)\<rfloor> = int ((delay + 500000) div 1000000)"
    by (rule floor_dbl_div) (use le in simp_all)
  then have fl: "\<lfloor>dbl (of_nat (delay + 500000) / 1000000)\<rfloor> = int ((delay + 500000) div 1000000)"
    by simp
  show "legacy_timestamp_correction bw sf cr crc_en len mode = Inr (- int ((delay + 500000) div 1000000))"
    unfolding legacy_timestamp_correction_def assms(3) option.case Let_def delay_def [symmetric] fl
    using b by (simp only: of_nat_div) simp
qed

lemma precision_correction_exact:
  fixes sf cr bw len :: u8 and crc_en :: bool
  assumes "IS_LORA_DR sf" and "IS_LORA_CR cr" and "bw_pow_of bw = Some d"
  defines "us \<equiv> toa_symbols_spec (unat sf) (unat cr) False (\<not> crc_en) (unat len) * (2 ^ unat sf * 8 div d)"
  shows "precision_timestamp_correction bw sf cr crc_en len =
      (if fst (lora_packet_time_on_air bw sf cr 0 False (\<not> crc_en) len) = 0 then 0
       else c_trunc (of_nat us - of_nat (16000000 div d + 2531250) / 1000000))"
    and "us \<le> 840 * 32768"
proof -
  have sf: "5 \<le> unat sf" "unat sf \<le> 12" and cr: "unat cr \<le> 4" and d: "d = 1 \<or> d = 2 \<or> d = 4"
    using IS_LORA_DR_bounds [OF assms(1)] IS_LORA_CR_bounds [OF assms(2)] bw_pow_of_cases [OF assms(3)] by auto
  have sz: "unat len \<le> 255"
    using unsigned_less [of len, where 'a = nat] by simp
  define n where "n = toa_symbols_spec (unat sf) (unat cr) False (\<not> crc_en) (unat len)"
  define t where "t = 2 ^ unat sf * 8 div d"
  have n: "n \<le> 840" unfolding n_def by (rule toa_symbols_spec_bound [OF sf cr sz])
  have t: "unat (of_nat t :: u16) = t" "t \<le> 32768"
    unfolding t_def by (rule toa_symbol_time [OF sf(2) d])+
  show us: "us \<le> 840 * 32768"
    unfolding us_def n_def [symmetric] t_def [symmetric] by (rule mult_le_mono [OF n t(2)])
  have "(ucast (of_nat t :: u16) :: u32) = of_nat t"
    using t by (simp add: word_unat_eq_iff unsigned_ucast_eq unat_of_nat take_bit_nat_eq_self)
  then have c: "sint ((of_nat n :: u32) * ucast (of_nat t :: u16)) = int us"
  proof -
    have "sint (of_int (int us) :: u32) = int us"
      by (rule sint_of_int_u32) (use us in simp_all)
    moreover have "(of_int (int us) :: u32) = of_nat n * of_nat t"
      by (simp add: us_def n_def [symmetric] t_def [symmetric])
    ultimately show ?thesis using \<open>ucast (of_nat t :: u16) = of_nat t\<close> by simp
  qed
  obtain toa k where l: "lora_packet_time_on_air bw sf cr 0 False (\<not> crc_en) len =
      (toa, Some \<lparr>nb_symbols = k, nb_symbols_payload = of_nat n, t_symbol_us = of_nat t\<rparr>)"
    using lora_toa_details [OF assms(1-3)] unfolding n_def t_def by blast
  have fd: "16000000 div d + 2031250 + 500000 = 16000000 div d + 2531250" by simp
  show "precision_timestamp_correction bw sf cr crc_en len =
      (if fst (lora_packet_time_on_air bw sf cr 0 False (\<not> crc_en) len) = 0 then 0
       else c_trunc (of_nat us - of_nat (16000000 div d + 2531250) / 1000000))"
    unfolding precision_timestamp_correction_def assms(3) option.case l prod.case Let_def toa_details.select_convs c fst_conv fd
      of_int_of_nat_eq by (rule refl)
qed

lemma c_trunc_bounds:
  assumes "of_int a \<le> x" and "x \<le> of_int b" and "a \<le> 0" and "0 \<le> b"
  shows "a \<le> c_trunc x" and "c_trunc x \<le> b"
  using assms by (auto simp: c_trunc_def le_floor_iff floor_le_iff; linarith)+

lemma timestamp_correction_ex:
  "\<exists>r. timestamp_counter_correction ftime_enable bw sf cr crc_en len mode = Inr r \<and>
     (if ftime_enable then -19 \<le> r \<and> r \<le> 27525120 else -20000 \<le> r \<and> r \<le> 0)"
proof (cases "IS_LORA_DR sf \<and> IS_LORA_BW bw \<and> IS_LORA_CR cr")
  case False
  then show ?thesis by (auto simp: timestamp_counter_correction_def)
next
  case True
  then obtain d where d: "bw_pow_of bw = Some d" using bw_pow_of_None [of bw] by auto
  show ?thesis
  proof (cases ftime_enable)
    case False
    then show ?thesis
      using True legacy_correction_exact [OF _ _ d, of sf cr crc_en len mode]
      by (simp add: timestamp_counter_correction_def)
  next
    case ft: True
    define us where "us = toa_symbols_spec (unat sf) (unat cr) False (\<not> crc_en) (unat len) * (2 ^ unat sf * 8 div d)"
    have us: "us \<le> 27525120"
      using True precision_correction_exact(2) [OF _ _ d, of sf cr crc_en len] unfolding us_def by simp
    define x :: rat where "x = of_nat us - of_nat (16000000 div d + 2531250) / 1000000"
    have fd: "of_nat (16000000 div d + 2531250) / 1000000 \<le> (19 :: rat)" "0 \<le> (of_nat (16000000 div d + 2531250) / 1000000 :: rat)"
      using bw_pow_of_cases [OF d] by auto
    have "(of_nat us :: rat) \<le> of_nat 27525120"
      using us by (simp only: of_nat_le_iff)
    then have "-19 \<le> x" "x \<le> 27525120"
      using fd of_nat_0_le_iff [of us, where 'a = rat] unfolding x_def of_nat_numeral by linarith+
    then have "of_int (-19) \<le> x" "x \<le> of_int 27525120"
      by simp_all
    then have "-19 \<le> c_trunc x" "c_trunc x \<le> 27525120"
      by (rule c_trunc_bounds; simp)+
    then show ?thesis
      using True ft precision_correction_exact(1) [OF _ _ d, of sf cr crc_en len]
      unfolding us_def [symmetric] x_def [symmetric] by (simp add: timestamp_counter_correction_def)
  qed
qed

text \<open>
  Correcting the timestamp of a received packet for the processing delays always succeeds: the
  check that ends in \<^verbatim>\<open>assert(0)\<close> cannot fail, whatever the arguments. In legacy mode the correction moves the
  timestamp back by at most 20 ms; with precision timestamps it moves it by at most the longest payload.
\<close>

theorem timestamp_correction_total:
  "\<exists>r. timestamp_counter_correction ftime_enable bw sf cr crc_en len mode = Inr r \<and>
     (if ftime_enable then -19 \<le> r \<and> r \<le> 27525120 else -20000 \<le> r \<and> r \<le> 0)"
  by (rule timestamp_correction_ex)

end
