(* ===== verification/HalConf.thy ===== *)
theory HalConf
  imports HalTypes Timestamp
begin

text \<open>
  The configuration context of the concentrator, \<^verbatim>\<open>lgw_context_t\<close> of \<^verbatim>\<open>libloragw/inc/loragw_hal.h\<close>, and the
  \<^verbatim>\<open>lgw_*_setconf\<close> functions of \<^verbatim>\<open>libloragw/src/loragw_hal.c\<close> that fill it. A \<^verbatim>\<open>float\<close> parameter is the
  rational number it stands for; an \<^verbatim>\<open>int32_t\<close> frequency is an \<open>int\<close> in the range of the type, and an addition
  that leaves the range is the fault \<open>SignedOverflow\<close>.
\<close>

subsection \<open>The context\<close>

datatype lgw_radio_type_t =
    LGW_RADIO_TYPE_NONE | LGW_RADIO_TYPE_SX1255 | LGW_RADIO_TYPE_SX1257
  | LGW_RADIO_TYPE_SX1272 | LGW_RADIO_TYPE_SX1276 | LGW_RADIO_TYPE_SX1250

datatype lgw_com_type_t = LGW_COM_SPI | LGW_COM_USB | LGW_COM_UNKNOWN

datatype lgw_ftime_mode_t = LGW_FTIME_MODE_HIGH_CAPACITY | LGW_FTIME_MODE_ALL_SF

record lgw_conf_board_s =
  bd_lorawan_public :: bool
  bd_clksrc :: u8
  bd_full_duplex :: bool
  bd_com_type :: lgw_com_type_t
  bd_com_path :: cstring

record lgw_rssi_tcomp_s =
  coeff_a :: rat
  coeff_b :: rat
  coeff_c :: rat
  coeff_d :: rat
  coeff_e :: rat

record lgw_conf_rxrf_s =
  rf_enable :: bool
  rf_freq_hz :: u32
  rf_rssi_offset :: rat
  rf_rssi_tcomp :: lgw_rssi_tcomp_s
  rf_type :: lgw_radio_type_t
  rf_tx_enable :: bool
  rf_single_input_mode :: bool

record lgw_conf_rxif_s =
  if_enable :: bool
  if_rf_chain :: u8
  if_freq_hz :: int
  if_bandwidth :: u8
  if_datarate :: u32
  if_sync_word_size :: u8
  if_sync_word :: u64
  if_implicit_hdr :: bool
  if_implicit_payload_length :: u8
  if_implicit_crc_en :: bool
  if_implicit_coderate :: u8

record lgw_tx_gain_s =
  lut_rf_power :: u8
  lut_dig_gain :: u8
  lut_pa_gain :: u8
  lut_dac_gain :: u8
  lut_mix_gain :: u8
  lut_offset_i :: u8
  lut_offset_q :: u8
  lut_pwr_idx :: u8

record lgw_tx_gain_lut_s =
  lut_entries :: "lgw_tx_gain_s list"
  lut_size :: u8

record lgw_conf_ftime_s =
  ftime_enable :: bool
  ftime_mode :: lgw_ftime_mode_t

record lgw_conf_chan_lbt_s =
  lbtc_freq_hz :: u32
  lbtc_bandwidth :: u8
  lbtc_scan_time_us :: int
  lbtc_transmit_time_ms :: u16

record lgw_conf_lbt_s =
  lbt_enable :: bool
  lbt_rssi_target :: u8
  lbt_nb_channel :: u8
  lbt_channels :: "lgw_conf_chan_lbt_s list"

record lgw_conf_sx1261_s =
  sx_enable :: bool
  sx_spi_path :: cstring
  sx_rssi_offset :: u8
  sx_lbt_conf :: lgw_conf_lbt_s

record conf_ref_payload_s =
  ref_id :: u32
  ref_payload_bytes :: "u8 list"
  ref_prev_cnt :: u32

record lgw_conf_debug_s =
  dbg_nb_ref_payload :: u8
  dbg_ref_payload :: "conf_ref_payload_s list"
  dbg_log_file_name :: cstring

record lgw_context_t =
  is_started :: bool
  board_cfg :: lgw_conf_board_s
  rf_chain_cfg :: "lgw_conf_rxrf_s list"
  if_chain_cfg :: "lgw_conf_rxif_s list"
  demod_multisf_datarate :: u8
  lora_service_cfg :: lgw_conf_rxif_s
  fsk_cfg :: lgw_conf_rxif_s
  tx_gain_lut :: "lgw_tx_gain_lut_s list"
  ftime_cfg :: lgw_conf_ftime_s
  sx1261_cfg :: lgw_conf_sx1261_s
  debug_cfg :: lgw_conf_debug_s

definition rxrf_zero :: lgw_conf_rxrf_s where
  "rxrf_zero = \<lparr>rf_enable = False, rf_freq_hz = 0, rf_rssi_offset = 0,
     rf_rssi_tcomp = \<lparr>coeff_a = 0, coeff_b = 0, coeff_c = 0, coeff_d = 0, coeff_e = 0\<rparr>,
     rf_type = LGW_RADIO_TYPE_NONE, rf_tx_enable = False, rf_single_input_mode = False\<rparr>"

definition rxif_zero :: lgw_conf_rxif_s where
  "rxif_zero = \<lparr>if_enable = False, if_rf_chain = 0, if_freq_hz = 0, if_bandwidth = 0, if_datarate = 0,
     if_sync_word_size = 0, if_sync_word = 0, if_implicit_hdr = False, if_implicit_payload_length = 0,
     if_implicit_crc_en = False, if_implicit_coderate = 0\<rparr>"

definition tx_gain_zero :: lgw_tx_gain_s where
  "tx_gain_zero = \<lparr>lut_rf_power = 0, lut_dig_gain = 0, lut_pa_gain = 0, lut_dac_gain = 0, lut_mix_gain = 0,
     lut_offset_i = 0, lut_offset_q = 0, lut_pwr_idx = 0\<rparr>"

definition tx_gain_default :: lgw_tx_gain_lut_s where
  "tx_gain_default = \<lparr>lut_entries =
       tx_gain_zero\<lparr>lut_rf_power := 14, lut_pa_gain := 2, lut_dac_gain := 3, lut_mix_gain := 10\<rparr> # replicate 15 tx_gain_zero,
     lut_size = 1\<rparr>"

definition chan_lbt_zero :: lgw_conf_chan_lbt_s where
  "chan_lbt_zero = \<lparr>lbtc_freq_hz = 0, lbtc_bandwidth = 0, lbtc_scan_time_us = 0, lbtc_transmit_time_ms = 0\<rparr>"

definition ref_payload_zero :: conf_ref_payload_s where
  "ref_payload_zero = \<lparr>ref_id = 0, ref_payload_bytes = replicate 255 0, ref_prev_cnt = 0\<rparr>"

text \<open>The initial value of the static variable \<^verbatim>\<open>lgw_context\<close>.\<close>

definition lgw_context_init :: lgw_context_t where
  "lgw_context_init =
     \<lparr>is_started = False,
      board_cfg = \<lparr>bd_lorawan_public = True, bd_clksrc = 0, bd_full_duplex = False, bd_com_type = LGW_COM_SPI,
                   bd_com_path = cstr ''/dev/spidev0.0''\<rparr>,
      rf_chain_cfg = replicate LGW_RF_CHAIN_NB rxrf_zero,
      if_chain_cfg = replicate LGW_IF_CHAIN_NB rxif_zero,
      demod_multisf_datarate = 0xFF,
      lora_service_cfg = rxif_zero\<lparr>if_bandwidth := BW_250KHZ, if_datarate := DR_LORA_SF7\<rparr>,
      fsk_cfg = rxif_zero\<lparr>if_bandwidth := BW_125KHZ, if_datarate := 50000, if_sync_word_size := 3, if_sync_word := 0xC194C1\<rparr>,
      tx_gain_lut = [tx_gain_default, tx_gain_default],
      ftime_cfg = \<lparr>ftime_enable = False, ftime_mode = LGW_FTIME_MODE_ALL_SF\<rparr>,
      sx1261_cfg = \<lparr>sx_enable = False, sx_spi_path = cstr ''/dev/spidev0.1'', sx_rssi_offset = 0,
                    sx_lbt_conf = \<lparr>lbt_enable = False, lbt_rssi_target = 0, lbt_nb_channel = 0,
                                   lbt_channels = replicate 16 chan_lbt_zero\<rparr>\<rparr>,
      debug_cfg = \<lparr>dbg_nb_ref_payload = 0, dbg_ref_payload = replicate 16 ref_payload_zero,
                   dbg_log_file_name = cstr ''loragw_hal.log''\<rparr>\<rparr>"

subsection \<open>Helpers\<close>

definition lgw_bw_getval :: "u8 \<Rightarrow> int" where
  "lgw_bw_getval x =
     (if x = BW_500KHZ then 500000 else if x = BW_250KHZ then 250000 else if x = BW_125KHZ then 125000 else -1)"

definition lgw_sf_getval :: "u32 \<Rightarrow> int" where
  "lgw_sf_getval x = (if IS_LORA_DR x then int (unat x) else -1)"

datatype if_modem = IF_UNDEFINED | IF_LORA_STD | IF_LORA_MULTI | IF_FSK_STD

definition ifmod_config :: "if_modem list" where
  "ifmod_config = replicate 8 IF_LORA_MULTI @ [IF_LORA_STD, IF_FSK_STD]"

definition sx1302_get_ifmod_config :: "u8 \<Rightarrow> c_fault + if_modem" where
  "sx1302_get_ifmod_config if_chain =
     (if unat if_chain < length ifmod_config then Inr (ifmod_config ! unat if_chain) else Inl OutOfBounds)"

definition i32_range :: "int \<Rightarrow> bool" where
  "i32_range x \<longleftrightarrow> - (2 ^ 31) \<le> x \<and> x < 2 ^ 31"

text \<open>\<^verbatim>\<open>strncpy\<close> into an array of the given size, followed by the explicit terminator.\<close>

definition strncpy_term :: "nat \<Rightarrow> cstring \<Rightarrow> cstring" where
  "strncpy_term n s = take (n - 1) s"

subsection \<open>Board and RF chains\<close>

definition lgw_board_setconf :: "lgw_conf_board_s option \<Rightarrow> lgw_context_t \<Rightarrow> int \<times> lgw_context_t" where
  "lgw_board_setconf conf ctx =
     (case conf of
        None \<Rightarrow> (LGW_HAL_ERROR, ctx)
      | Some c \<Rightarrow>
          if is_started ctx then (LGW_HAL_ERROR, ctx)
          else if bd_com_type c \<noteq> LGW_COM_SPI \<and> bd_com_type c \<noteq> LGW_COM_USB then (LGW_HAL_ERROR, ctx)
          else (LGW_HAL_SUCCESS,
                ctx\<lparr>board_cfg := \<lparr>bd_lorawan_public = bd_lorawan_public c, bd_clksrc = bd_clksrc c,
                                  bd_full_duplex = bd_full_duplex c, bd_com_type = bd_com_type c,
                                  bd_com_path = strncpy_term 64 (bd_com_path c)\<rparr>\<rparr>))"

definition lgw_rxrf_setconf :: "u8 \<Rightarrow> lgw_conf_rxrf_s option \<Rightarrow> lgw_context_t \<Rightarrow> int \<times> lgw_context_t" where
  "lgw_rxrf_setconf rf_chain conf ctx =
     (case conf of
        None \<Rightarrow> (LGW_HAL_ERROR, ctx)
      | Some c \<Rightarrow>
          if is_started ctx then (LGW_HAL_ERROR, ctx)
          else if \<not> rf_enable c then (LGW_HAL_SUCCESS, ctx)
          else if LGW_RF_CHAIN_NB \<le> unat rf_chain then (LGW_HAL_ERROR, ctx)
          else if rf_type c \<noteq> LGW_RADIO_TYPE_SX1255 \<and> rf_type c \<noteq> LGW_RADIO_TYPE_SX1257 \<and>
                  rf_type c \<noteq> LGW_RADIO_TYPE_SX1250 then (LGW_HAL_ERROR, ctx)
          else if rf_freq_hz c < 100000000 \<or> 1000000000 < rf_freq_hz c then (LGW_HAL_ERROR, ctx)
          else (LGW_HAL_SUCCESS, ctx\<lparr>rf_chain_cfg := (rf_chain_cfg ctx)[unat rf_chain := c]\<rparr>))"

subsection \<open>IF chains\<close>

text \<open>
  The check of the IF frequency: \<open>Inr True\<close> when it is refused. The half bandwidth is that of the channel as given, or
  of the reference bandwidth when it is not one of the LoRa bandwidths; the radio bandwidth is the same
  in the three cases of the source.
\<close>

definition rxif_freq_refused :: "lgw_conf_rxif_s \<Rightarrow> c_fault + bool" where
  "rxif_freq_refused c =
     (let bw_hz = lgw_bw_getval (if_bandwidth c);
          half = (if bw_hz = -1 then 125000 else bw_hz) div 2;
          rf_rx_bandwidth = 1600000
      in if \<not> i32_range (if_freq_hz c + half) then Inl SignedOverflow
         else if rf_rx_bandwidth div 2 < if_freq_hz c + half then Inr True
         else if \<not> i32_range (if_freq_hz c - half) then Inl SignedOverflow
         else Inr (if_freq_hz c - half < - (rf_rx_bandwidth div 2)))"

text \<open>Default bandwidth and datarate, written into the caller's structure.\<close>

definition rxif_defaults :: "u8 \<Rightarrow> u32 \<Rightarrow> lgw_conf_rxif_s \<Rightarrow> lgw_conf_rxif_s" where
  "rxif_defaults bw dr c =
     c\<lparr>if_bandwidth := (if if_bandwidth c = BW_UNDEFINED then bw else if_bandwidth c),
       if_datarate := (if if_datarate c = DR_UNDEFINED then dr else if_datarate c)\<rparr>"

definition rxif_commit_chain :: "nat \<Rightarrow> lgw_conf_rxif_s \<Rightarrow> lgw_context_t \<Rightarrow> lgw_context_t" where
  "rxif_commit_chain i c ctx =
     ctx\<lparr>if_chain_cfg := (if_chain_cfg ctx)[i := (if_chain_cfg ctx ! i)\<lparr>if_enable := if_enable c,
           if_rf_chain := if_rf_chain c, if_freq_hz := if_freq_hz c\<rparr>]\<rparr>"

definition rxif_lora_std :: "nat \<Rightarrow> lgw_conf_rxif_s \<Rightarrow> lgw_context_t \<Rightarrow> int \<times> lgw_conf_rxif_s \<times> lgw_context_t" where
  "rxif_lora_std i c0 ctx =
     (let c = rxif_defaults BW_250KHZ DR_LORA_SF7 c0
      in if \<not> IS_LORA_BW (if_bandwidth c) then (LGW_HAL_ERROR, c, ctx)
         else if \<not> IS_LORA_DR (if_datarate c) then (LGW_HAL_ERROR, c, ctx)
         else (LGW_HAL_SUCCESS, c,
               (rxif_commit_chain i c ctx)\<lparr>lora_service_cfg := (lora_service_cfg ctx)\<lparr>
                  if_bandwidth := if_bandwidth c, if_datarate := if_datarate c, if_implicit_hdr := if_implicit_hdr c,
                  if_implicit_payload_length := if_implicit_payload_length c,
                  if_implicit_crc_en := if_implicit_crc_en c, if_implicit_coderate := if_implicit_coderate c\<rparr>\<rparr>))"

definition rxif_lora_multi :: "nat \<Rightarrow> lgw_conf_rxif_s \<Rightarrow> lgw_context_t \<Rightarrow> int \<times> lgw_conf_rxif_s \<times> lgw_context_t" where
  "rxif_lora_multi i c0 ctx =
     (let c = rxif_defaults BW_125KHZ DR_LORA_SF7 c0
      in if if_bandwidth c \<noteq> BW_125KHZ then (LGW_HAL_ERROR, c, ctx)
         else if \<not> IS_LORA_DR (if_datarate c) then (LGW_HAL_ERROR, c, ctx)
         else (LGW_HAL_SUCCESS, c, rxif_commit_chain i c ctx))"

definition rxif_fsk_std :: "nat \<Rightarrow> lgw_conf_rxif_s \<Rightarrow> lgw_context_t \<Rightarrow> int \<times> lgw_conf_rxif_s \<times> lgw_context_t" where
  "rxif_fsk_std i c0 ctx =
     (let c = rxif_defaults BW_250KHZ 64000 c0
      in if \<not> IS_FSK_BW (if_bandwidth c) then (LGW_HAL_ERROR, c, ctx)
         else if \<not> IS_FSK_DR (if_datarate c) then (LGW_HAL_ERROR, c, ctx)
         else (LGW_HAL_SUCCESS, c,
               (rxif_commit_chain i c ctx)\<lparr>fsk_cfg := (fsk_cfg ctx)\<lparr>
                  if_bandwidth := if_bandwidth c, if_datarate := if_datarate c,
                  if_sync_word_size := (if 0 < if_sync_word c then if_sync_word_size c else if_sync_word_size (fsk_cfg ctx)),
                  if_sync_word := (if 0 < if_sync_word c then if_sync_word c else if_sync_word (fsk_cfg ctx))\<rparr>\<rparr>))"

definition lgw_rxif_setconf ::
    "u8 \<Rightarrow> lgw_conf_rxif_s option \<Rightarrow> lgw_context_t \<Rightarrow> c_fault + (int \<times> lgw_conf_rxif_s option \<times> lgw_context_t)" where
  "lgw_rxif_setconf if_chain conf ctx =
     (case conf of
        None \<Rightarrow> Inr (LGW_HAL_ERROR, None, ctx)
      | Some c \<Rightarrow>
          if is_started ctx then Inr (LGW_HAL_ERROR, conf, ctx)
          else if LGW_IF_CHAIN_NB \<le> unat if_chain then Inr (LGW_HAL_ERROR, conf, ctx)
          else if \<not> if_enable c
          then Inr (LGW_HAL_SUCCESS, conf,
                 ctx\<lparr>if_chain_cfg := (if_chain_cfg ctx)[unat if_chain :=
                       (if_chain_cfg ctx ! unat if_chain)\<lparr>if_enable := False, if_freq_hz := 0\<rparr>]\<rparr>)
          else if LGW_RF_CHAIN_NB \<le> unat (if_rf_chain c) then Inr (LGW_HAL_ERROR, conf, ctx)
          else res_bind (rxif_freq_refused c) (\<lambda>refused.
            if refused then Inr (LGW_HAL_ERROR, conf, ctx)
            else res_bind (sx1302_get_ifmod_config if_chain) (\<lambda>ifmod.
              let i = unat if_chain;
                  (ret, c', ctx') =
                    (case ifmod of
                       IF_LORA_STD \<Rightarrow> rxif_lora_std i c ctx
                     | IF_LORA_MULTI \<Rightarrow> rxif_lora_multi i c ctx
                     | IF_FSK_STD \<Rightarrow> rxif_fsk_std i c ctx
                     | IF_UNDEFINED \<Rightarrow> (LGW_HAL_ERROR, c, ctx))
              in Inr (ret, Some c', ctx'))))"

subsection \<open>Demodulators, gain tables, fine timestamps, SX1261 and debug\<close>

definition lgw_demod_setconf :: "u8 option \<Rightarrow> lgw_context_t \<Rightarrow> int \<times> lgw_context_t" where
  "lgw_demod_setconf conf ctx =
     (case conf of None \<Rightarrow> (LGW_HAL_ERROR, ctx) | Some m \<Rightarrow> (LGW_HAL_SUCCESS, ctx\<lparr>demod_multisf_datarate := m\<rparr>))"

definition tx_gain_valid :: "lgw_tx_gain_s \<Rightarrow> bool" where
  "tx_gain_valid g \<longleftrightarrow> lut_dig_gain g \<le> 3 \<and> lut_dac_gain g \<le> 3 \<and> 5 \<le> lut_mix_gain g \<and> lut_mix_gain g \<le> 15 \<and>
     lut_pa_gain g \<le> 3 \<and> lut_pwr_idx g \<le> 22"

text \<open>The loop over the entries: it stops at the first invalid one, the earlier ones are already stored.\<close>

fun txgain_fill :: "lgw_tx_gain_s list \<Rightarrow> nat \<Rightarrow> lgw_tx_gain_s list \<Rightarrow> int \<times> lgw_tx_gain_s list" where
  "txgain_fill [] i lut = (LGW_HAL_SUCCESS, lut)"
| "txgain_fill (g # gs) i lut =
     (if \<not> tx_gain_valid g then (LGW_HAL_ERROR, lut)
      else txgain_fill gs (Suc i) (lut[i := g\<lparr>lut_offset_i := 0, lut_offset_q := 0\<rparr>]))"

definition lgw_txgain_setconf :: "u8 \<Rightarrow> lgw_tx_gain_lut_s option \<Rightarrow> lgw_context_t \<Rightarrow> c_fault + (int \<times> lgw_context_t)" where
  "lgw_txgain_setconf rf_chain conf ctx =
     (case conf of
        None \<Rightarrow> Inr (LGW_HAL_ERROR, ctx)
      | Some c \<Rightarrow>
          if unat (lut_size c) < 1 \<or> TX_GAIN_LUT_SIZE_MAX < unat (lut_size c) then Inr (LGW_HAL_ERROR, ctx)
          else if LGW_RF_CHAIN_NB \<le> unat rf_chain then Inl OutOfBounds
          else let t = tx_gain_lut ctx ! unat rf_chain;
                   (ret, lut) = txgain_fill (take (unat (lut_size c)) (lut_entries c)) 0 (lut_entries t)
               in Inr (ret, ctx\<lparr>tx_gain_lut := (tx_gain_lut ctx)[unat rf_chain :=
                          \<lparr>lut_entries = lut, lut_size = lut_size c\<rparr>]\<rparr>))"

definition lgw_ftime_setconf :: "lgw_conf_ftime_s option \<Rightarrow> lgw_context_t \<Rightarrow> int \<times> lgw_context_t" where
  "lgw_ftime_setconf conf ctx =
     (case conf of None \<Rightarrow> (LGW_HAL_ERROR, ctx) | Some c \<Rightarrow> (LGW_HAL_SUCCESS, ctx\<lparr>ftime_cfg := c\<rparr>))"

definition lbt_chan_valid :: "lgw_conf_chan_lbt_s \<Rightarrow> bool" where
  "lbt_chan_valid c \<longleftrightarrow> (lbtc_bandwidth c = BW_125KHZ \<or> lbtc_bandwidth c = BW_250KHZ) \<and>
     (lbtc_scan_time_us c = 128 \<or> lbtc_scan_time_us c = 5000)"

text \<open>The loop over the LBT channels; \<open>n\<close> is the number still to be copied, \<^verbatim>\<open>nb_channel\<close> is not checked.\<close>

fun lbt_fill :: "nat \<Rightarrow> lgw_conf_chan_lbt_s list \<Rightarrow> nat \<Rightarrow> lgw_conf_chan_lbt_s list \<Rightarrow>
    c_fault + (int \<times> lgw_conf_chan_lbt_s list)" where
  "lbt_fill 0 cs i chans = Inr (LGW_HAL_SUCCESS, chans)"
| "lbt_fill (Suc n) [] i chans = Inl OutOfBounds"
| "lbt_fill (Suc n) (c # cs) i chans =
     (if \<not> lbt_chan_valid c then Inr (LGW_HAL_ERROR, chans)
      else lbt_fill n cs (Suc i) (chans[i := c]))"

definition lgw_sx1261_setconf :: "lgw_conf_sx1261_s option \<Rightarrow> lgw_context_t \<Rightarrow> c_fault + (int \<times> lgw_context_t)" where
  "lgw_sx1261_setconf conf ctx =
     (case conf of
        None \<Rightarrow> Inr (LGW_HAL_ERROR, ctx)
      | Some c \<Rightarrow>
          let l = sx_lbt_conf c; l0 = sx_lbt_conf (sx1261_cfg ctx)
          in res_bind (lbt_fill (unat (lbt_nb_channel l)) (lbt_channels l) 0 (lbt_channels l0)) (\<lambda>(ret, chans).
               Inr (ret, ctx\<lparr>sx1261_cfg := \<lparr>sx_enable = sx_enable c, sx_spi_path = strncpy_term 64 (sx_spi_path c),
                    sx_rssi_offset = sx_rssi_offset c,
                    sx_lbt_conf = \<lparr>lbt_enable = lbt_enable l, lbt_rssi_target = lbt_rssi_target l,
                                   lbt_nb_channel = lbt_nb_channel l, lbt_channels = chans\<rparr>\<rparr>\<rparr>)))"

definition dbg_ref_entry :: "u32 \<Rightarrow> conf_ref_payload_s \<Rightarrow> conf_ref_payload_s" where
  "dbg_ref_entry pid r =
     r\<lparr>ref_id := pid, ref_prev_cnt := 0,
       ref_payload_bytes := [ucast (drop_bit 24 pid), ucast (drop_bit 16 pid), ucast (drop_bit 8 pid), ucast pid] @
                            drop 4 (ref_payload_bytes r)\<rparr>"

fun dbg_fill :: "nat \<Rightarrow> conf_ref_payload_s list \<Rightarrow> nat \<Rightarrow> conf_ref_payload_s list \<Rightarrow> c_fault + conf_ref_payload_s list" where
  "dbg_fill 0 cs i rs = Inr rs"
| "dbg_fill (Suc n) [] i rs = Inl OutOfBounds"
| "dbg_fill (Suc n) (c # cs) i rs =
     (if length rs \<le> i then Inl OutOfBounds
      else dbg_fill n cs (Suc i) (rs[i := dbg_ref_entry (ref_id c) (rs ! i)]))"

definition lgw_debug_setconf :: "lgw_conf_debug_s option \<Rightarrow> lgw_context_t \<Rightarrow> c_fault + (int \<times> lgw_context_t)" where
  "lgw_debug_setconf conf ctx =
     (case conf of
        None \<Rightarrow> Inr (LGW_HAL_ERROR, ctx)
      | Some c \<Rightarrow>
          res_bind (dbg_fill (unat (dbg_nb_ref_payload c)) (dbg_ref_payload c) 0 (dbg_ref_payload (debug_cfg ctx))) (\<lambda>rs.
            Inr (LGW_HAL_SUCCESS, ctx\<lparr>debug_cfg := \<lparr>dbg_nb_ref_payload = dbg_nb_ref_payload c, dbg_ref_payload = rs,
                   dbg_log_file_name = strncpy_term 128 (dbg_log_file_name c)\<rparr>\<rparr>)))"

end
