(* ===== verification/HalConfProps.thy ===== *)
theory HalConfProps
  imports HalConf
begin

text \<open>
  What the configuration functions guarantee of the context, for any sequence of calls: the receive and send paths
  index arrays and divide by values of the context without checking them again.
\<close>

subsection \<open>Validity of the context\<close>

definition rxrf_ok :: "lgw_conf_rxrf_s \<Rightarrow> bool" where
  "rxrf_ok c \<longleftrightarrow> rf_freq_hz c \<le> 1000000000 \<and>
     (rf_enable c \<longrightarrow> 100000000 \<le> rf_freq_hz c \<and>
        rf_type c \<in> {LGW_RADIO_TYPE_SX1255, LGW_RADIO_TYPE_SX1257, LGW_RADIO_TYPE_SX1250})"

definition rxif_ok :: "lgw_conf_rxif_s \<Rightarrow> bool" where
  "rxif_ok c \<longleftrightarrow> unat (if_rf_chain c) < LGW_RF_CHAIN_NB \<and> \<bar>if_freq_hz c\<bar> \<le> 737500"

definition lut_ok :: "lgw_tx_gain_lut_s \<Rightarrow> bool" where
  "lut_ok t \<longleftrightarrow> length (lut_entries t) = TX_GAIN_LUT_SIZE_MAX \<and> 1 \<le> unat (lut_size t) \<and> unat (lut_size t) \<le> TX_GAIN_LUT_SIZE_MAX"

definition hal_ctx_wf :: "lgw_context_t \<Rightarrow> bool" where
  "hal_ctx_wf ctx \<longleftrightarrow>
     bd_com_type (board_cfg ctx) \<noteq> LGW_COM_UNKNOWN \<and>
     length (rf_chain_cfg ctx) = LGW_RF_CHAIN_NB \<and> list_all rxrf_ok (rf_chain_cfg ctx) \<and>
     length (if_chain_cfg ctx) = LGW_IF_CHAIN_NB \<and> list_all rxif_ok (if_chain_cfg ctx) \<and>
     IS_LORA_BW (if_bandwidth (lora_service_cfg ctx)) \<and> IS_LORA_DR (if_datarate (lora_service_cfg ctx)) \<and>
     IS_FSK_BW (if_bandwidth (fsk_cfg ctx)) \<and> IS_FSK_DR (if_datarate (fsk_cfg ctx)) \<and>
     length (tx_gain_lut ctx) = LGW_RF_CHAIN_NB \<and> list_all lut_ok (tx_gain_lut ctx)"

text \<open>Contexts reachable by calls of the configuration functions, whatever they are given and whatever they return.\<close>

inductive hal_reachable :: "lgw_context_t \<Rightarrow> bool" where
  start: "hal_reachable lgw_context_init"
| board: "hal_reachable ctx \<Longrightarrow> lgw_board_setconf c1 ctx = (r, ctx') \<Longrightarrow> hal_reachable ctx'"
| rxrf: "hal_reachable ctx \<Longrightarrow> lgw_rxrf_setconf n c2 ctx = (r, ctx') \<Longrightarrow> hal_reachable ctx'"
| rxif: "hal_reachable ctx \<Longrightarrow> lgw_rxif_setconf n c3 ctx = Inr (r, c', ctx') \<Longrightarrow> hal_reachable ctx'"
| demod: "hal_reachable ctx \<Longrightarrow> lgw_demod_setconf c4 ctx = (r, ctx') \<Longrightarrow> hal_reachable ctx'"
| txgain: "hal_reachable ctx \<Longrightarrow> lgw_txgain_setconf n c5 ctx = Inr (r, ctx') \<Longrightarrow> hal_reachable ctx'"
| ftime: "hal_reachable ctx \<Longrightarrow> lgw_ftime_setconf c6 ctx = (r, ctx') \<Longrightarrow> hal_reachable ctx'"
| sx1261: "hal_reachable ctx \<Longrightarrow> lgw_sx1261_setconf c7 ctx = Inr (r, ctx') \<Longrightarrow> hal_reachable ctx'"
| debug: "hal_reachable ctx \<Longrightarrow> lgw_debug_setconf c8 ctx = Inr (r, ctx') \<Longrightarrow> hal_reachable ctx'"

lemma list_all_update: "list_all P xs \<Longrightarrow> P x \<Longrightarrow> list_all P (xs[i := x])"
  by (induction xs arbitrary: i) (auto split: nat.splits)

lemma hal_ctx_wf_init: "hal_ctx_wf lgw_context_init"
  by (simp add: hal_ctx_wf_def lgw_context_init_def rxrf_zero_def rxif_zero_def rxrf_ok_def rxif_ok_def lut_ok_def
      tx_gain_default_def IS_LORA_BW_def IS_LORA_DR_def IS_FSK_BW_def IS_FSK_DR_def list_all_iff)

lemma board_wf: "hal_ctx_wf ctx \<Longrightarrow> lgw_board_setconf c ctx = (r, ctx') \<Longrightarrow> hal_ctx_wf ctx'"
  by (auto simp: lgw_board_setconf_def hal_ctx_wf_def split: option.splits if_splits)

lemma rxrf_wf: "hal_ctx_wf ctx \<Longrightarrow> lgw_rxrf_setconf n c ctx = (r, ctx') \<Longrightarrow> hal_ctx_wf ctx'"
  by (auto simp: lgw_rxrf_setconf_def hal_ctx_wf_def rxrf_ok_def not_less split: option.splits if_splits
      intro!: list_all_update)

lemma freq_accepted:
  assumes "rxif_freq_refused c = Inr False"
  shows "\<bar>if_freq_hz c\<bar> \<le> 737500"
proof -
  have "62500 \<le> (if lgw_bw_getval (if_bandwidth c) = -1 then 125000 else lgw_bw_getval (if_bandwidth c)) div 2"
    by (simp add: lgw_bw_getval_def)
  with assms show ?thesis
    unfolding rxif_freq_refused_def Let_def by (auto split: if_splits)
qed

lemma commit_wf:
  assumes "hal_ctx_wf ctx" and "unat (if_rf_chain c) < LGW_RF_CHAIN_NB" and "\<bar>if_freq_hz c\<bar> \<le> 737500"
  shows "hal_ctx_wf (rxif_commit_chain i c ctx)"
  using assms by (auto simp: hal_ctx_wf_def rxif_commit_chain_def rxif_ok_def intro!: list_all_update)

lemma defaults_keep [simp]:
  "if_rf_chain (rxif_defaults bw dr c) = if_rf_chain c" "if_freq_hz (rxif_defaults bw dr c) = if_freq_hz c"
  by (simp_all add: rxif_defaults_def)

lemma modem_wf:
  assumes "hal_ctx_wf ctx" and "unat (if_rf_chain c) < LGW_RF_CHAIN_NB" and "\<bar>if_freq_hz c\<bar> \<le> 737500"
  shows "rxif_lora_std i c ctx = (r, c', ctx') \<Longrightarrow> hal_ctx_wf ctx'"
    and "rxif_lora_multi i c ctx = (r, c', ctx') \<Longrightarrow> hal_ctx_wf ctx'"
    and "rxif_fsk_std i c ctx = (r, c', ctx') \<Longrightarrow> hal_ctx_wf ctx'"
proof -
  have w: "hal_ctx_wf (rxif_commit_chain i (rxif_defaults bw dr c) ctx)" for bw dr
    using assms by (intro commit_wf) simp_all
  show "rxif_lora_std i c ctx = (r, c', ctx') \<Longrightarrow> hal_ctx_wf ctx'"
    using assms(1) w unfolding rxif_lora_std_def Let_def by (auto simp: hal_ctx_wf_def split: if_splits)
  show "rxif_lora_multi i c ctx = (r, c', ctx') \<Longrightarrow> hal_ctx_wf ctx'"
    using assms(1) w unfolding rxif_lora_multi_def Let_def by (auto split: if_splits)
  show "rxif_fsk_std i c ctx = (r, c', ctx') \<Longrightarrow> hal_ctx_wf ctx'"
    using assms(1) w unfolding rxif_fsk_std_def Let_def by (auto simp: hal_ctx_wf_def split: if_splits)
qed

lemma rxif_wf:
  assumes "hal_ctx_wf ctx" and "lgw_rxif_setconf n c ctx = Inr (r, c', ctx')"
  shows "hal_ctx_wf ctx'"
proof (cases "c = None \<or> ctx' = ctx")
  case True
  then show ?thesis using assms by (auto simp: lgw_rxif_setconf_def)
next
  case False
  then obtain d where c: "c = Some d" and ne: "ctx' \<noteq> ctx" by auto
  show ?thesis
  proof (cases "if_enable d")
    case False
    then show ?thesis
      using assms c ne by (auto simp: lgw_rxif_setconf_def hal_ctx_wf_def rxif_ok_def list_all_length not_le
          nth_list_update split: if_splits)
  next
    case True
    then obtain ifmod where q: "rxif_freq_refused d = Inr False" "unat (if_rf_chain d) < LGW_RF_CHAIN_NB"
        and e: "(r, the c', ctx') = (case ifmod of IF_LORA_STD \<Rightarrow> rxif_lora_std (unat n) d ctx
          | IF_LORA_MULTI \<Rightarrow> rxif_lora_multi (unat n) d ctx | IF_FSK_STD \<Rightarrow> rxif_fsk_std (unat n) d ctx
          | IF_UNDEFINED \<Rightarrow> (LGW_HAL_ERROR, d, ctx))"
      using assms(2) c ne
      by (auto simp: lgw_rxif_setconf_def res_bind_Inr_iff not_le case_prod_unfold Let_def split: if_splits)
    then show ?thesis
      using assms(1) modem_wf [OF assms(1) q(2) freq_accepted [OF q(1)], of "unat n" r "the c'" ctx']
      by (cases ifmod) auto
  qed
qed

lemma txgain_fill_length: "txgain_fill gs i lut = (r, lut') \<Longrightarrow> length lut' = length lut"
  by (induction gs i lut rule: txgain_fill.induct) (auto split: if_splits)

lemma txgain_wf:
  assumes "hal_ctx_wf ctx" and "lgw_txgain_setconf n c ctx = Inr (r, ctx')"
  shows "hal_ctx_wf ctx'"
proof -
  have len: "length (lut_entries (tx_gain_lut ctx ! unat n)) = 16" if "unat n < 2"
    using assms(1) that by (auto simp: hal_ctx_wf_def list_all_length lut_ok_def)
  show ?thesis
    using assms len
    by (auto simp: lgw_txgain_setconf_def hal_ctx_wf_def lut_ok_def not_le Let_def dest!: txgain_fill_length
        split: option.splits if_splits prod.splits intro!: list_all_update)
qed

lemma other_wf:
  "hal_ctx_wf ctx \<Longrightarrow> lgw_demod_setconf c4 ctx = (r, ctx') \<Longrightarrow> hal_ctx_wf ctx'"
  "hal_ctx_wf ctx \<Longrightarrow> lgw_ftime_setconf c6 ctx = (r, ctx') \<Longrightarrow> hal_ctx_wf ctx'"
  "hal_ctx_wf ctx \<Longrightarrow> lgw_sx1261_setconf c7 ctx = Inr (r, ctx') \<Longrightarrow> hal_ctx_wf ctx'"
  "hal_ctx_wf ctx \<Longrightarrow> lgw_debug_setconf c8 ctx = Inr (r, ctx') \<Longrightarrow> hal_ctx_wf ctx'"
  by (auto simp: lgw_demod_setconf_def lgw_ftime_setconf_def lgw_sx1261_setconf_def lgw_debug_setconf_def hal_ctx_wf_def
      res_bind_Inr_iff Let_def split: option.splits)

lemma hal_reachable_wf: "hal_reachable ctx \<Longrightarrow> hal_ctx_wf ctx"
  by (induction rule: hal_reachable.induct)
    (blast intro: hal_ctx_wf_init board_wf rxrf_wf rxif_wf txgain_wf other_wf)+

text \<open>
  C22. Whatever configuration calls were made, and whatever they returned, the fields that the calls check are in their ranges: the connection is SPI or USB, a radio frequency
  is at most 1 GHz, an enabled RF chain has a supported
  radio and at least 100 MHz, every IF chain refers to one of the two RF chains and lies
  within the radio's bandwidth, the LoRa service and FSK channels have a supported bandwidth and datarate (so no later
  division by the datarate is by zero), and every gain table has between one and sixteen entries. The entries of the gain tables, the clock source, the size of the FSK sync
  word and the channels of listen-before-talk are not among these fields: \<open>hal_context_unchecked\<close> has a context with such values out of range.
\<close>

theorem hal_context_valid:
  assumes "hal_reachable ctx"
  shows "hal_ctx_wf ctx"
  using assms by (rule hal_reachable_wf)

theorem hal_context_valid_witness:
  "hal_ctx_wf (snd (lgw_rxrf_setconf 1 (Some (rxrf_zero\<lparr>rf_enable := True, rf_freq_hz := 868000000,
     rf_type := LGW_RADIO_TYPE_SX1250\<rparr>)) lgw_context_init))"
  by (rule hal_context_valid, rule hal_reachable.rxrf, rule hal_reachable.start, rule surjective_pairing)

text \<open>
  What the calls leave unchecked: after three calls, one of them refused, the clock source is no radio, the FSK sync word is longer than the eight bytes it has, and the
  second of three gain entries is out of range.
\<close>

theorem hal_context_unchecked:
  "\<exists>ctx. hal_reachable ctx \<and> LGW_RF_CHAIN_NB \<le> unat (bd_clksrc (board_cfg ctx)) \<and> 8 < unat (if_sync_word_size (fsk_cfg ctx)) \<and>
     lut_size (tx_gain_lut ctx ! 0) = 3 \<and> \<not> tx_gain_valid (lut_entries (tx_gain_lut ctx ! 0) ! 1)"
proof -
  define c1 where "c1 = snd (lgw_board_setconf (Some ((board_cfg lgw_context_init)\<lparr>bd_clksrc := 7\<rparr>)) lgw_context_init)"
  define c2 where "c2 = snd (projr (lgw_txgain_setconf 0 (Some \<lparr>lut_entries = replicate 16 tx_gain_zero, lut_size = 3\<rparr>) c1))"
  define c3 where "c3 = snd (snd (projr (lgw_rxif_setconf 9 (Some (rxif_zero\<lparr>if_enable := True, if_sync_word := 1, if_sync_word_size := 255\<rparr>)) c2)))"
  have "hal_reachable c1"
    unfolding c1_def by (rule hal_reachable.board [OF hal_reachable.start]) (rule surjective_pairing)
  moreover have "\<not> isl (lgw_txgain_setconf 0 (Some \<lparr>lut_entries = replicate 16 tx_gain_zero, lut_size = 3\<rparr>) c1)"
    unfolding c1_def by code_simp
  ultimately have "hal_reachable c2"
    unfolding c2_def by (metis hal_reachable.txgain prod.collapse sum.collapse(2))
  moreover have "\<not> isl (lgw_rxif_setconf 9 (Some (rxif_zero\<lparr>if_enable := True, if_sync_word := 1, if_sync_word_size := 255\<rparr>)) c2)"
    unfolding c2_def c1_def by code_simp
  ultimately have "hal_reachable c3"
    unfolding c3_def by (metis hal_reachable.rxif prod.collapse sum.collapse(2))
  moreover have "LGW_RF_CHAIN_NB \<le> unat (bd_clksrc (board_cfg c3)) \<and> 8 < unat (if_sync_word_size (fsk_cfg c3)) \<and>
      lut_size (tx_gain_lut c3 ! 0) = 3 \<and> \<not> tx_gain_valid (lut_entries (tx_gain_lut c3 ! 0) ! 1)"
    unfolding c3_def c2_def c1_def by code_simp
  ultimately show ?thesis by blast
qed

subsection \<open>Gain tables\<close>

definition gain_strip :: "lgw_tx_gain_s \<Rightarrow> lgw_tx_gain_s" where
  "gain_strip g = g\<lparr>lut_offset_i := 0, lut_offset_q := 0\<rparr>"

lemma txgain_fill_eq:
  assumes "i + length gs \<le> length lut"
  shows "txgain_fill gs i lut =
    (if list_all tx_gain_valid gs then LGW_HAL_SUCCESS else LGW_HAL_ERROR,
     take i lut @ map gain_strip (takeWhile tx_gain_valid gs) @ drop (i + length (takeWhile tx_gain_valid gs)) lut)"
  using assms
proof (induction gs i lut rule: txgain_fill.induct)
  case (1 i lut)
  then show ?case by simp
next
  case (2 g gs i lut)
  show ?case
  proof (cases "tx_gain_valid g")
    case True
    have i: "i < length lut" using 2(2) by simp
    have "take (Suc i) (lut[i := gain_strip g]) = take i lut @ [gain_strip g]"
      using i by (simp add: take_Suc_conv_app_nth)
    then show ?thesis
      using True 2(1) [OF _] 2(2) by (simp add: gain_strip_def)
  next
    case False
    then show ?thesis by simp
  qed
qed

text \<open>
  Setting the gain table of an RF chain stores the entries up to the first one out of range, with cleared offsets, and succeeds if and only if
  there is none. The number of entries is taken over in both cases: after a refused call the table has the
  new size, the first entries of the new table and, from the refused entry on, whatever the slots held before.
\<close>

theorem txgain_setconf_result:
  assumes "hal_reachable ctx" and "unat rf_chain < LGW_RF_CHAIN_NB"
    and "1 \<le> unat (lut_size c)" and "unat (lut_size c) \<le> length (lut_entries c)" and "length (lut_entries c) = TX_GAIN_LUT_SIZE_MAX"
  defines "new \<equiv> take (unat (lut_size c)) (lut_entries c)"
    and "old \<equiv> lut_entries (tx_gain_lut ctx ! unat rf_chain)"
  shows "lgw_txgain_setconf rf_chain (Some c) ctx =
    Inr (if list_all tx_gain_valid new then LGW_HAL_SUCCESS else LGW_HAL_ERROR,
         ctx\<lparr>tx_gain_lut := (tx_gain_lut ctx)[unat rf_chain :=
           \<lparr>lut_entries = map gain_strip (takeWhile tx_gain_valid new) @ drop (length (takeWhile tx_gain_valid new)) old,
            lut_size = lut_size c\<rparr>]\<rparr>)"
proof -
  have "length old = 16"
    using hal_reachable_wf [OF assms(1)] assms(2) by (auto simp: hal_ctx_wf_def list_all_length lut_ok_def old_def)
  moreover have "length new \<le> 16" using assms(5) by (simp add: new_def)
  ultimately have f: "txgain_fill new 0 old =
      (if list_all tx_gain_valid new then LGW_HAL_SUCCESS else LGW_HAL_ERROR,
       map gain_strip (takeWhile tx_gain_valid new) @ drop (length (takeWhile tx_gain_valid new)) old)"
    using txgain_fill_eq [of 0 new old] by simp
  show ?thesis
    unfolding lgw_txgain_setconf_def option.case Let_def new_def [symmetric] old_def [symmetric] f prod.case
    using assms(2-5) by simp
qed

theorem txgain_setconf_result_witness:
  "lgw_txgain_setconf 0 (Some \<lparr>lut_entries = replicate 16 (tx_gain_zero\<lparr>lut_mix_gain := 4\<rparr>), lut_size = 3\<rparr>) lgw_context_init =
   Inr (LGW_HAL_ERROR, lgw_context_init\<lparr>tx_gain_lut := [tx_gain_default\<lparr>lut_size := 3\<rparr>, tx_gain_default]\<rparr>)"
proof -
  have "lgw_txgain_setconf 0 (Some \<lparr>lut_entries = replicate 16 (tx_gain_zero\<lparr>lut_mix_gain := 4\<rparr>), lut_size = 3\<rparr>) lgw_context_init =
      Inr (if list_all tx_gain_valid (take 3 (replicate 16 (tx_gain_zero\<lparr>lut_mix_gain := 4\<rparr>))) then LGW_HAL_SUCCESS else LGW_HAL_ERROR,
         lgw_context_init\<lparr>tx_gain_lut := (tx_gain_lut lgw_context_init)[0 :=
           \<lparr>lut_entries = map gain_strip (takeWhile tx_gain_valid (take 3 (replicate 16 (tx_gain_zero\<lparr>lut_mix_gain := 4\<rparr>)))) @
              drop (length (takeWhile tx_gain_valid (take 3 (replicate 16 (tx_gain_zero\<lparr>lut_mix_gain := 4\<rparr>)))))
                (lut_entries (tx_gain_lut lgw_context_init ! 0)),
            lut_size = 3\<rparr>]\<rparr>)"
    using txgain_setconf_result [OF hal_reachable.start, of 0 "\<lparr>lut_entries = replicate 16 (tx_gain_zero\<lparr>lut_mix_gain := 4\<rparr>), lut_size = 3\<rparr>"]
    by simp
  moreover have "\<not> tx_gain_valid (tx_gain_zero\<lparr>lut_mix_gain := 4\<rparr>)"
    by (simp add: tx_gain_valid_def tx_gain_zero_def)
  ultimately show ?thesis
    by (simp add: takeWhile_eq_Nil_iff list_all_iff lgw_context_init_def tx_gain_default_def eval_nat_numeral)
qed

end
