(* ===== verification/Crc.thy ===== *)
theory Crc
  imports Prelude
begin

text \<open>
  The two 16-bit checksums of the program: the payload CRC of received packets, \<^verbatim>\<open>lora_crc16\<close> and
  \<^verbatim>\<open>sx1302_lora_payload_crc\<close> of \<^verbatim>\<open>libloragw/src/loragw_sx1302.c\<close>, unrolled to one equation per bit, and the beacon CRC
  \<^verbatim>\<open>crc16\<close> of \<^verbatim>\<open>clusterduck/src/clusterduckd.c\<close>, a bitwise loop.
\<close>

text \<open>
  One byte. The sixteen bits of \<^verbatim>\<open>next\<close>, least significant first; the \<^verbatim>\<open>int\<close> never leaves 16 bits. An exclusive
  or of bits is an inequality of truth values.
\<close>

definition lora_crc16 :: "u8 \<Rightarrow> u16 \<Rightarrow> u16" where
  "lora_crc16 data crc =
     horner_sum of_bool 2
       [(bit data 0 \<noteq> bit crc 12) \<noteq> bit crc 8,
        (bit data 1 \<noteq> bit crc 13) \<noteq> bit crc 9,
        (bit data 2 \<noteq> bit crc 14) \<noteq> bit crc 10,
        (bit data 3 \<noteq> bit crc 15) \<noteq> bit crc 11,
        bit data 4 \<noteq> bit crc 12,
        ((bit data 5 \<noteq> bit crc 13) \<noteq> bit crc 12) \<noteq> bit crc 8,
        ((bit data 6 \<noteq> bit crc 14) \<noteq> bit crc 13) \<noteq> bit crc 9,
        ((bit data 7 \<noteq> bit crc 15) \<noteq> bit crc 14) \<noteq> bit crc 10,
        (bit crc 0 \<noteq> bit crc 15) \<noteq> bit crc 11,
        bit crc 1 \<noteq> bit crc 12,
        bit crc 2 \<noteq> bit crc 13,
        bit crc 3 \<noteq> bit crc 14,
        ((bit crc 4 \<noteq> bit crc 15) \<noteq> bit crc 12) \<noteq> bit crc 8,
        (bit crc 5 \<noteq> bit crc 13) \<noteq> bit crc 9,
        (bit crc 6 \<noteq> bit crc 14) \<noteq> bit crc 10,
        (bit crc 7 \<noteq> bit crc 15) \<noteq> bit crc 11]"

definition sx1302_lora_payload_crc :: "u8 list \<Rightarrow> u8 \<Rightarrow> u16" where
  "sx1302_lora_payload_crc data len = foldl (\<lambda>crc d. lora_crc16 d crc) 0 (take (unat len) data)"

definition crc16_bit :: "u16 \<Rightarrow> u16" where
  "crc16_bit x = (if x AND 0x8000 \<noteq> 0 then push_bit 1 x XOR 0x1021 else push_bit 1 x)"

definition crc16_byte :: "u16 \<Rightarrow> u8 \<Rightarrow> u16" where
  "crc16_byte x d = (crc16_bit ^^ 8) (x XOR push_bit 8 (ucast d))"

definition crc16 :: "u8 list option \<Rightarrow> nat \<Rightarrow> u16" where
  "crc16 data len = (case data of None \<Rightarrow> 0 | Some bs \<Rightarrow> foldl crc16_byte 0 (take len bs))"

end
