(* ===== verification/CrcProps.thy ===== *)
theory CrcProps
  imports Crc
begin

text \<open>
  Both checksums against their specification, the division by the generator polynomial one bit at a time, how they relate
  to each other, and the errors they detect.
\<close>

subsection \<open>Division by the generator polynomial\<close>

text \<open>Shift one message bit in; the bit that falls out at the top subtracts \<open>x^16 + x^12 + x^5 + 1\<close>.\<close>

definition crc_step :: "u16 \<Rightarrow> bool \<Rightarrow> u16" where
  "crc_step c b = (push_bit 1 c OR of_bool b) XOR (if bit c 15 then 0x1021 else 0)"

definition byte_bits :: "u8 \<Rightarrow> bool list" where
  "byte_bits d = map (bit d) [7, 6, 5, 4, 3, 2, 1, 0]"

lemma bit_poly: "bit (0x1021 :: u16) n \<longleftrightarrow> n = 0 \<or> n = 5 \<or> n = 12"
proof (cases "n < 16")
  case True
  have "list_all (\<lambda>n. bit (0x1021 :: u16) n \<longleftrightarrow> n = 0 \<or> n = 5 \<or> n = 12) [0..<16]" by code_simp
  then show ?thesis using True by (simp add: list_all_iff)
next
  case False
  then have "\<not> bit (0x1021 :: u16) n" using bit_imp_le_length [of "0x1021 :: u16" n] by auto
  then show ?thesis using False by auto
qed

lemma bit_crc_step:
  "bit (crc_step c b) n \<longleftrightarrow>
     n < 16 \<and> ((if n = 0 then b else bit c (n - 1)) \<noteq> (bit c 15 \<and> (n = 0 \<or> n = 5 \<or> n = 12)))"
proof -
  have "bit (push_bit 1 c OR of_bool b) n \<longleftrightarrow> n < 16 \<and> (if n = 0 then b else bit c (n - 1))"
    by (cases "n = 0") (auto simp: bit_simps simp del: push_bit_Suc One_nat_def dest: bit_imp_le_length)
  then show ?thesis
    unfolding crc_step_def bit_xor_iff using bit_poly [of n] by (cases "bit c 15") (simp_all only: if_True if_False bit_0_eq, auto)
qed

lemma bit_crc_step_at:
  "bit (crc_step c b) 0 = (b \<noteq> bit c 15)"
  "bit (crc_step c b) 1 = bit c 0"
  "bit (crc_step c b) 2 = bit c 1"
  "bit (crc_step c b) 3 = bit c 2"
  "bit (crc_step c b) 4 = bit c 3"
  "bit (crc_step c b) 5 = (bit c 4 \<noteq> bit c 15)"
  "bit (crc_step c b) 6 = bit c 5"
  "bit (crc_step c b) 7 = bit c 6"
  "bit (crc_step c b) 8 = bit c 7"
  "bit (crc_step c b) 9 = bit c 8"
  "bit (crc_step c b) 10 = bit c 9"
  "bit (crc_step c b) 11 = bit c 10"
  "bit (crc_step c b) 12 = (bit c 11 \<noteq> bit c 15)"
  "bit (crc_step c b) 13 = bit c 12"
  "bit (crc_step c b) 14 = bit c 13"
  "bit (crc_step c b) 15 = bit c 14"
  by (simp_all add: bit_crc_step)

text \<open>The bits of a word given by its list of bits.\<close>

lemma bits16: "length bs = 16 \<Longrightarrow> n < 16 \<Longrightarrow> bit (horner_sum of_bool 2 bs :: u16) n = bs ! n"
  by (simp add: bit_horner_sum_bit_word_iff)

lemma bit_lora_crc16_at:
  "bit (lora_crc16 d c) 0 = ((bit d 0 \<noteq> bit c 12) \<noteq> bit c 8)"
  "bit (lora_crc16 d c) 1 = ((bit d 1 \<noteq> bit c 13) \<noteq> bit c 9)"
  "bit (lora_crc16 d c) 2 = ((bit d 2 \<noteq> bit c 14) \<noteq> bit c 10)"
  "bit (lora_crc16 d c) 3 = ((bit d 3 \<noteq> bit c 15) \<noteq> bit c 11)"
  "bit (lora_crc16 d c) 4 = (bit d 4 \<noteq> bit c 12)"
  "bit (lora_crc16 d c) 5 = (((bit d 5 \<noteq> bit c 13) \<noteq> bit c 12) \<noteq> bit c 8)"
  "bit (lora_crc16 d c) 6 = (((bit d 6 \<noteq> bit c 14) \<noteq> bit c 13) \<noteq> bit c 9)"
  "bit (lora_crc16 d c) 7 = (((bit d 7 \<noteq> bit c 15) \<noteq> bit c 14) \<noteq> bit c 10)"
  "bit (lora_crc16 d c) 8 = ((bit c 0 \<noteq> bit c 15) \<noteq> bit c 11)"
  "bit (lora_crc16 d c) 9 = (bit c 1 \<noteq> bit c 12)"
  "bit (lora_crc16 d c) 10 = (bit c 2 \<noteq> bit c 13)"
  "bit (lora_crc16 d c) 11 = (bit c 3 \<noteq> bit c 14)"
  "bit (lora_crc16 d c) 12 = (((bit c 4 \<noteq> bit c 15) \<noteq> bit c 12) \<noteq> bit c 8)"
  "bit (lora_crc16 d c) 13 = ((bit c 5 \<noteq> bit c 13) \<noteq> bit c 9)"
  "bit (lora_crc16 d c) 14 = ((bit c 6 \<noteq> bit c 14) \<noteq> bit c 10)"
  "bit (lora_crc16 d c) 15 = ((bit c 7 \<noteq> bit c 15) \<noteq> bit c 11)"
  unfolding lora_crc16_def by (subst bits16; simp)+

lemma u16_eqI:
  assumes "\<forall>n\<in>{15, 14, 13, 12, 11, 10, 9, 8, 7, 6, 5, 4, 3, 2, 1, 0}. bit (x :: u16) n = bit y n"
  shows "x = y"
proof (rule bit_word_eqI)
  fix n
  assume "n < LENGTH(16)"
  then have "n \<in> {..<16}" by simp
  then have "n \<in> {15, 14, 13, 12, 11, 10, 9, 8, 7, 6, 5, 4, 3, 2, 1, 0}"
    by (simp add: lessThan_nat_numeral)
  with assms show "bit x n = bit y n" by blast
qed

text \<open>Eight steps with zero bits: multiplication by \<open>x^8\<close> modulo the polynomial.\<close>

definition crc_shift :: "u16 \<Rightarrow> u16" where
  "crc_shift c = foldl crc_step c [False, False, False, False, False, False, False, False]"

lemmas crc_unfold = crc_shift_def byte_bits_def list.map foldl_Cons foldl_Nil

lemma lora_crc16_serial: "lora_crc16 d c = foldl crc_step c (byte_bits d)"
  by (rule u16_eqI, intro ballI, elim insertE emptyE; hypsubst)
    (simp only: crc_unfold bit_lora_crc16_at bit_crc_step_at; argo)+

subsection \<open>Linearity\<close>

lemma crc_step_linear: "crc_step (x XOR y) False = crc_step x False XOR crc_step y False"
  by (rule bit_word_eqI) (auto simp: bit_crc_step bit_xor_iff)

lemma crc_shift_linear: "crc_shift (x XOR y) = crc_shift x XOR crc_shift y"
  by (simp only: crc_unfold crc_step_linear)

lemma crc_step_0: "crc_step x False = 0 \<Longrightarrow> x = 0"
proof (rule bit_word_eqI)
  fix n
  assume z: "crc_step x False = 0" and n: "n < LENGTH(16)"
  have b: "\<not> bit (crc_step x False) k" for k by (simp add: z)
  show "bit x n = bit 0 n"
    using b [of 0] b [of "Suc n"] n by (cases "n = 15") (auto simp: bit_crc_step)
qed

lemma crc_shift_0_iff: "crc_shift x = 0 \<longleftrightarrow> x = 0"
proof
  assume "crc_shift x = 0"
  then show "x = 0" by (simp only: crc_unfold) (blast dest: crc_step_0)
next
  have "crc_step 0 False = 0" by code_simp
  then show "x = 0 \<Longrightarrow> crc_shift x = 0" by (simp add: crc_unfold)
qed

lemma u8_high_bits:
  fixes d :: u8
  shows "\<not> bit d 8" "\<not> bit d 9" "\<not> bit d 10" "\<not> bit d 11" "\<not> bit d 12" "\<not> bit d 13" "\<not> bit d 14" "\<not> bit d 15"
  by (auto dest: bit_imp_le_length)

lemma bit_byte_at:
  fixes d :: u8
  shows "n < 16 \<Longrightarrow> bit (ucast d :: u16) n = bit d n"
  by (simp add: bit_simps)

lemma crc_shift_byte: "crc_shift (ucast (d :: u8)) = push_bit 8 (ucast d)"
  by (rule u16_eqI, intro ballI, elim insertE emptyE; hypsubst)
    (simp only: crc_unfold bit_crc_step_at; simp add: bit_byte_at bit_push_bit_iff u8_high_bits)+

lemma lora_crc16_shift: "lora_crc16 d c = crc_shift c XOR ucast d"
  by (rule u16_eqI, intro ballI, elim insertE emptyE; hypsubst)
    (simp only: crc_unfold bit_lora_crc16_at bit_crc_step_at bit_xor_iff, simp add: bit_byte_at u8_high_bits; argo)+

subsection \<open>Properties\<close>

definition crc_of :: "u16 \<Rightarrow> u8 list \<Rightarrow> u16" where
  "crc_of c ds = foldl (\<lambda>crc d. lora_crc16 d crc) c ds"

lemma crc_of_simps [simp]: "crc_of c [] = c" "crc_of c (d # ds) = crc_of (lora_crc16 d c) ds" "crc_of c (ds @ es) = crc_of (crc_of c ds) es"
  by (simp_all add: crc_of_def)

lemma crc_of_serial: "crc_of c ds = foldl crc_step c (concat (map byte_bits ds))"
  by (induction ds arbitrary: c) (simp_all add: lora_crc16_serial)

lemma crc16_bit_step: "crc16_bit x = crc_step x False"
proof -
  have "x AND 0x8000 \<noteq> 0 \<longleftrightarrow> bit x 15"
    using and_exp_eq_0_iff_not_bit [of x 15] by simp
  then show ?thesis
    by (simp add: crc16_bit_def crc_step_def del: push_bit_Suc One_nat_def)
qed

lemma crc16_byte_shift: "crc16_byte x d = crc_shift (x XOR push_bit 8 (ucast d))"
  by (simp add: crc16_byte_def crc16_bit_step crc_shift_def eval_nat_numeral)

lemma crc16_fold: "foldl crc16_byte (crc_shift (crc_shift c)) ds = crc_shift (crc_shift (crc_of c ds))"
proof (induction ds arbitrary: c)
  case Nil
  then show ?case by simp
next
  case (Cons d ds)
  have "crc16_byte (crc_shift (crc_shift c)) d = crc_shift (crc_shift (lora_crc16 d c))"
    by (simp only: crc16_byte_shift lora_crc16_shift crc_shift_linear crc_shift_byte [symmetric])
  then show ?case using Cons [of "lora_crc16 d c"] by simp
qed

text \<open>
  C36. Both checksums are polynomial division by \<open>x^16 + x^12 + x^5 + 1\<close>, of different dividends. The unrolled payload CRC is the remainder of the payload itself, most significant bit
  first; the bitwise beacon CRC is the remainder of the message followed by sixteen zero bits, for any message
  length. The two values of the same bytes differ in general.
\<close>

theorem crc_polynomial_division:
  "sx1302_lora_payload_crc data len = foldl crc_step 0 (concat (map byte_bits (take (unat len) data))) \<and>
   crc16 (Some msg) n = foldl crc_step 0 (concat (map byte_bits (take n msg @ [0, 0])))"
proof -
  have z: "crc_shift 0 = 0" by (simp add: crc_shift_0_iff)
  have "crc16 (Some msg) n = crc_shift (crc_shift (crc_of 0 (take n msg)))"
    using crc16_fold [of 0 "take n msg"] by (simp add: crc16_def z)
  also have "\<dots> = crc_of 0 (take n msg @ [0, 0])"
    by (simp add: lora_crc16_shift)
  finally show ?thesis
    by (simp only: crc_of_serial [symmetric] sx1302_lora_payload_crc_def crc_of_def [symmetric])
qed

lemma crc_values_differ: "sx1302_lora_payload_crc [1] 1 = 0x0001 \<and> crc16 (Some [1]) 1 = 0x1021"
  by code_simp

lemma xor_cancel: "z XOR x = z XOR y \<longleftrightarrow> x = (y :: u16)" "x XOR z = y XOR z \<longleftrightarrow> x = y" "x XOR y = 0 \<longleftrightarrow> x = y"
  by (auto simp: bit_eq_iff bit_xor_iff)

lemma crc_of_inj: "crc_of c ds = crc_of c' ds \<longleftrightarrow> c = c'"
proof (induction ds arbitrary: c c')
  case Nil
  then show ?case by simp
next
  case (Cons d ds)
  have "lora_crc16 d c = lora_crc16 d c' \<longleftrightarrow> crc_shift c XOR crc_shift c' = 0"
    by (simp only: lora_crc16_shift xor_cancel)
  also have "\<dots> \<longleftrightarrow> c = c'"
    by (simp only: crc_shift_0_iff xor_cancel crc_shift_linear [symmetric])
  finally show ?case using Cons by simp
qed

lemma crc_two_bytes: "crc_of c [a, b] = crc_shift (crc_shift c) XOR (push_bit 8 (ucast a) XOR ucast b)"
  by (simp add: lora_crc16_shift crc_shift_linear crc_shift_byte ac_simps)

lemma two_bytes_inj:
  assumes "push_bit 8 (ucast (a :: u8)) XOR ucast (b :: u8) = (push_bit 8 (ucast a') XOR ucast b' :: u16)"
  shows "a = a' \<and> b = b'"
proof -
  have e: "bit (push_bit 8 (ucast a) XOR ucast b :: u16) n = bit (push_bit 8 (ucast a') XOR ucast b' :: u16) n" for n
    using assms by simp
  have "bit b n = bit b' n" if "n < 8" for n
    using e [of n] that by (simp add: bit_simps)
  moreover have "bit a n = bit a' n" if "n < 8" for n
    using e [of "n + 8"] that by (auto simp: bit_simps dest: bit_imp_le_length)
  ultimately show ?thesis by (auto intro!: bit_word_eqI)
qed

text \<open>
  The payload check detects every corruption confined to two neighbouring bytes, wherever they are in the packet: the CRC computed
  over the corrupted payload differs from that of the original.
\<close>

theorem payload_crc_detects_burst:
  assumes "(a, b) \<noteq> (a', b')" and "length xs + length ys \<le> 253"
  shows "sx1302_lora_payload_crc (xs @ [a, b] @ ys) (of_nat (length xs + 2 + length ys)) \<noteq>
    sx1302_lora_payload_crc (xs @ [a', b'] @ ys) (of_nat (length xs + 2 + length ys))"
proof -
  have len: "unat (of_nat (length xs + 2 + length ys) :: u8) = length xs + 2 + length ys"
    using assms(2) by (simp only: unat_of_nat) simp
  have crc: "sx1302_lora_payload_crc (xs @ [u, v] @ ys) (of_nat (length xs + 2 + length ys)) =
      crc_of (crc_of (crc_of 0 xs) [u, v]) ys" for u v
    unfolding sx1302_lora_payload_crc_def len by (simp add: crc_of_def)
  have "crc_of (crc_of 0 xs) [a, b] \<noteq> crc_of (crc_of 0 xs) [a', b']"
    using assms(1) two_bytes_inj [of a b a' b'] unfolding crc_two_bytes
    by (auto simp: xor_cancel)
  then show ?thesis
    unfolding crc crc_of_inj .
qed

theorem payload_crc_detects_burst_witness:
  "sx1302_lora_payload_crc ([1] @ [2, 3] @ [4]) 4 \<noteq> sx1302_lora_payload_crc ([1] @ [2, 2] @ [4]) 4"
  using payload_crc_detects_burst [of 2 3 2 2 "[1]" "[4]"] by simp

end
