(* ===== verification/HalRx.thy ===== *)
theory HalRx
  imports HalConf RxBuffer Crc
begin

text \<open>
  The receive path: \<^verbatim>\<open>sx1302_fetch\<close>, \<^verbatim>\<open>sx1302_update\<close> and \<^verbatim>\<open>sx1302_parse\<close> of \<^verbatim>\<open>libloragw/src/loragw_sx1302.c\<close>, and
  \<^verbatim>\<open>lgw_receive\<close> of \<^verbatim>\<open>libloragw/src/loragw_hal.c\<close> with the removal of duplicates. The register readings and the temperature
  sensor are arguments.
\<close>

subsection \<open>Received packets\<close>

text \<open>\<open>p_freq_offset\<close> is an \<^verbatim>\<open>int32_t\<close>; the \<^verbatim>\<open>float\<close> fields are the rational numbers they stand for.\<close>

record lgw_pkt_rx_s =
  p_freq_hz :: u32
  p_freq_offset :: int
  p_if_chain :: u8
  p_status :: u8
  p_count_us :: u32
  p_rf_chain :: u8
  p_modem_id :: u8
  p_modulation :: u8
  p_bandwidth :: u8
  p_datarate :: u32
  p_coderate :: u8
  p_rssic :: rat
  p_rssis :: rat
  p_snr :: rat
  p_snr_min :: rat
  p_snr_max :: rat
  p_crc :: u16
  p_size :: u16
  p_payload :: "u8 list"
  p_ftime_received :: bool
  p_ftime :: u32

text \<open>The static variables of the receive path.\<close>

record rx_state =
  rx_buffer :: rx_buffer_t
  counter_us :: timestamp_counter_t
  pps_hist :: timestamp_pps_history_s
  last_known_temperature :: rat

text \<open>
  What one call of \<^verbatim>\<open>lgw_receive\<close> reads from the hardware: the two readings of the byte count, the FIFO, the three readings
  of the counters, the PPS register for the packet with a given index, and the temperature.
\<close>

record rx_inputs =
  in_nb1 :: "u8 \<times> u8"
  in_nb2 :: "u8 \<times> u8"
  in_mem :: "nat \<Rightarrow> int \<times> u8 list"
  in_cnt1 :: "int \<times> u8 list"
  in_cnt2 :: "int \<times> u8 list"
  in_cnt3 :: "int \<times> u8 list"
  in_pps :: "nat \<Rightarrow> int \<times> u8 list"
  in_temp :: "int \<times> rat"

subsection \<open>Fetching\<close>

definition sx1302_fetch :: "rx_inputs \<Rightarrow> rx_state \<Rightarrow> c_fault + (int \<times> u8 option \<times> rx_state)" where
  "sx1302_fetch inp s =
     (if buffer_pkt_nb (rx_buffer s) = 0
      then case rx_buffer_new (Some (rx_buffer s)) of
             (err, b0) \<Rightarrow>
               if err \<noteq> LGW_REG_SUCCESS then Inr (LGW_REG_ERROR, None, s\<lparr>rx_buffer := the b0\<rparr>)
               else res_bind (rx_buffer_fetch (in_nb1 inp) (in_nb2 inp) (in_mem inp) b0) (\<lambda>(err, b1).
                      let s' = s\<lparr>rx_buffer := the b1\<rparr>
                      in if err \<noteq> LGW_REG_SUCCESS then Inr (LGW_REG_ERROR, None, s')
                         else Inr (LGW_REG_SUCCESS, Some (buffer_pkt_nb (rx_buffer s')), s'))
      else Inr (LGW_REG_SUCCESS, Some (buffer_pkt_nb (rx_buffer s)), s))"

text \<open>The result of reading the counters is not looked at.\<close>

definition sx1302_update :: "rx_inputs \<Rightarrow> rx_state \<Rightarrow> int \<times> rx_state" where
  "sx1302_update inp s =
     (case timestamp_counter_get (in_cnt1 inp) (in_cnt2 inp) (in_cnt3 inp) (counter_us s) (pps_hist s) of
        (ret, v, c, h) \<Rightarrow> (LGW_REG_SUCCESS, s\<lparr>counter_us := c, pps_hist := h\<rparr>))"

subsection \<open>Parsing\<close>

text \<open>C's division truncates towards zero.\<close>

definition c_div :: "int \<Rightarrow> int \<Rightarrow> int" where
  "c_div a b = (if (a < 0) = (b < 0) then \<bar>a\<bar> div \<bar>b\<bar> else - (\<bar>a\<bar> div \<bar>b\<bar>))"

definition IF_HZ_TO_REG :: "int \<Rightarrow> int" where
  "IF_HZ_TO_REG f = c_div (f * 32) 15625"

text \<open>A structure cleared to zero; the values \<^verbatim>\<open>rx_buffer_pop\<close> does not write are not read.\<close>

definition rx_packet_zero :: rx_packet_t where
  "rx_packet_zero = \<lparr>rxbytenb_modem = 0, rx_channel_in = 0, crc_en = False, coding_rate = 0, rx_rate_sf = 0, modem_id = 0,
     frequency_offset_error = 0, rx_payload = replicate 255 0, payload_crc_error = False, sync_error = False,
     header_error = False, timing_set = False, snr_average = 0, rssi_chan_avg = 0, rssi_signal_avg = 0, timestamp_cnt = 0,
     rx_crc16_value = 0, num_ts_metrics_stored = 0, timestamp_avg = replicate 255 0, timestamp_stddev = replicate 255 0\<rparr>"

text \<open>The CRC status of a LoRa packet; \<open>None\<close> when the payload does not match the CRC it came with.\<close>

definition parse_crc_status :: "lgw_context_t \<Rightarrow> if_modem \<Rightarrow> rx_packet_t \<Rightarrow> u8 list \<Rightarrow> u8 option" where
  "parse_crc_status ctx ifmod pkt payload =
     (if crc_en pkt \<or> (ifmod = IF_LORA_STD \<and> if_implicit_crc_en (lora_service_cfg ctx))
      then if payload_crc_error pkt then Some STAT_CRC_BAD
           else if 0 < rxbytenb_modem pkt \<and> sx1302_lora_payload_crc payload (rxbytenb_modem pkt) \<noteq> rx_crc16_value pkt
           then None else Some STAT_CRC_OK
      else Some STAT_NO_CRC)"

definition parse_datarate :: "u8 \<Rightarrow> u32" where
  "parse_datarate sf = (if 5 \<le> sf \<and> sf \<le> 12 then ucast sf else DR_UNDEFINED)"

definition parse_coderate :: "u8 \<Rightarrow> u8" where
  "parse_coderate cr = (if cr = 1 then CR_LORA_4_5 else if cr = 2 then CR_LORA_4_6 else if cr = 3 then CR_LORA_4_7
     else if cr = 4 then CR_LORA_4_8 else 0)"

definition parse_freq_offset :: "u8 \<Rightarrow> int \<Rightarrow> int" where
  "parse_freq_offset bw err =
     (if bw = BW_125KHZ then c_trunc (flt (of_int err * flt (11920929 / 10 ^ 8)))
      else if bw = BW_250KHZ then c_trunc (flt (of_int err * flt (238418579 / 10 ^ 9)))
      else if bw = BW_500KHZ then c_trunc (flt (of_int err * flt (476837158 / 10 ^ 9)))
      else 0)"

text \<open>The part of the IF frequency that the register of the channelizer cannot represent.\<close>

definition if_freq_error :: "int \<Rightarrow> int" where
  "if_freq_error f = f - c_div (IF_HZ_TO_REG f * 15625) 32"

text \<open>The error of the packet's frequency relative to that of the channel. A frequency of zero divides by zero.\<close>

definition parse_freq_error :: "u32 \<Rightarrow> int \<Rightarrow> rat" where
  "parse_freq_error freq_hz freq_offset =
     dbl (dbl (of_nat (unat (freq_hz + of_int freq_offset)) / of_nat (unat freq_hz)) - 1)"

text \<open>The fine timestamp: whether it was received, its value, the history of PPS counters.\<close>

definition parse_ftime ::
    "int \<times> u8 list \<Rightarrow> rx_packet_t \<Rightarrow> u8 \<Rightarrow> u32 \<Rightarrow> int \<Rightarrow> int \<Rightarrow> timestamp_pps_history_s \<Rightarrow>
     c_fault + (bool \<times> u32 \<times> timestamp_pps_history_s)" where
  "parse_ftime reg pkt status freq_hz freq_offset if_freq hist =
     (if 0 < num_ts_metrics_stored pkt \<and> timing_set pkt \<and> status = STAT_CRC_OK
      then if freq_hz = 0 \<and> \<not> pps_size hist < MAX_TIMESTAMP_PPS_HISTORY then Inl UndefinedConversion
           else res_bind (precise_timestamp_calculate reg (num_ts_metrics_stored pkt) (timestamp_avg pkt) (timestamp_cnt pkt)
                  (rx_rate_sf pkt) if_freq (parse_freq_error freq_hz freq_offset) hist) (\<lambda>(err, ft, h).
                    Inr (err = 0, (case ft of None \<Rightarrow> 0 | Some t \<Rightarrow> t), h))
      else Inr (False, 0, hist))"

text \<open>The LoRa branch, from the modulation to the fine timestamp; the correction of the timestamp is part of the result.\<close>

definition parse_lora ::
    "lgw_context_t \<Rightarrow> int \<times> u8 list \<Rightarrow> if_modem \<Rightarrow> rx_packet_t \<Rightarrow> timestamp_pps_history_s \<Rightarrow> lgw_pkt_rx_s \<Rightarrow>
     c_fault + (int \<times> int \<times> lgw_pkt_rx_s \<times> timestamp_pps_history_s)" where
  "parse_lora ctx reg ifmod pkt hist p =
     (case parse_crc_status ctx ifmod pkt (p_payload p) of
        None \<Rightarrow> Inr (LGW_REG_ERROR, 0, p\<lparr>p_modulation := MOD_LORA, p_status := STAT_CRC_OK\<rparr>, hist)
      | Some status \<Rightarrow>
          let svc = lora_service_cfg ctx;
              if_freq = if_freq_hz (if_chain_cfg ctx ! unat (p_if_chain p));
              bw = (if ifmod = IF_LORA_MULTI then BW_125KHZ else if_bandwidth svc);
              dr = parse_datarate (rx_rate_sf pkt);
              cr = parse_coderate (if ifmod = IF_LORA_MULTI \<or> \<not> if_implicit_hdr svc then coding_rate pkt else if_implicit_coderate svc);
              off = parse_freq_offset bw (frequency_offset_error pkt) + if_freq_error if_freq
          in res_bind (timestamp_counter_correction (ftime_enable (ftime_cfg ctx)) bw (ucast dr) cr (crc_en pkt) (rxbytenb_modem pkt)
               RX_DFT_PEAK_MODE_AUTO) (\<lambda>corr.
             res_bind (parse_ftime reg pkt status (p_freq_hz p) off if_freq hist) (\<lambda>(received, ft, h).
               Inr (LGW_REG_SUCCESS, corr,
                    p\<lparr>p_modulation := MOD_LORA, p_status := status, p_snr := of_int (snr_average pkt) / 4, p_bandwidth := bw,
                      p_datarate := dr, p_coderate := cr, p_freq_offset := off, p_ftime_received := received, p_ftime := ft\<rparr>, h))))"

definition fsk_rssi :: "rat \<Rightarrow> rat" where
  "fsk_rssi r =
     flt (dbl (dbl (dbl (dbl (90636423 / 10 ^ 6) + dbl (dbl (420835 / 10 ^ 6) * r)) + dbl (dbl (7129 / 10 ^ 6) * dbl (r ^ 2))) +
               dbl (- dbl (26 / 10 ^ 6) * dbl (r ^ 3))))"

definition parse_fsk :: "lgw_context_t \<Rightarrow> rx_packet_t \<Rightarrow> lgw_pkt_rx_s \<Rightarrow> c_fault + (int \<times> lgw_pkt_rx_s)" where
  "parse_fsk ctx pkt p =
     (let fsk = fsk_cfg ctx
      in if if_datarate fsk = 0 then Inl DivisionByZero
         else Inr (sint (680000 div if_datarate fsk - 20),
                   p\<lparr>p_modulation := MOD_FSK,
                     p_status := (if crc_en pkt then if payload_crc_error pkt then STAT_CRC_BAD else STAT_CRC_OK else STAT_NO_CRC),
                     p_bandwidth := if_bandwidth fsk, p_datarate := if_datarate fsk, p_rssic := fsk_rssi (p_rssic p),
                     p_coderate := 0, p_snr := -128, p_rssis := -128\<rparr>))"

definition parse_unknown :: "lgw_pkt_rx_s \<Rightarrow> lgw_pkt_rx_s" where
  "parse_unknown p =
     p\<lparr>p_status := STAT_UNDEFINED, p_modulation := MOD_UNDEFINED, p_rssic := -128, p_rssis := -128, p_snr := -128,
       p_snr_min := -128, p_snr_max := -128, p_bandwidth := BW_UNDEFINED, p_datarate := DR_UNDEFINED, p_coderate := 0\<rparr>"

text \<open>The end of the function: timestamp and CRC of the packet.\<close>

definition parse_finish :: "timestamp_counter_t \<Rightarrow> rx_packet_t \<Rightarrow> int \<Rightarrow> lgw_pkt_rx_s \<Rightarrow> lgw_pkt_rx_s" where
  "parse_finish cnt pkt corr p =
     p\<lparr>p_count_us := timestamp_pkt_expand cnt (timestamp_cnt pkt div 32) + of_int corr, p_crc := rx_crc16_value pkt\<rparr>"

definition parse_channel :: "lgw_context_t \<Rightarrow> rx_packet_t \<Rightarrow> lgw_pkt_rx_s \<Rightarrow> c_fault + lgw_pkt_rx_s" where
  "parse_channel ctx pkt p =
     (let ifc = if_chain_cfg ctx ! unat (p_if_chain p); rf = if_rf_chain ifc
      in if LGW_RF_CHAIN_NB \<le> unat rf then Inl OutOfBounds
         else let f = sint (rf_freq_hz (rf_chain_cfg ctx ! unat rf)) + if_freq_hz ifc
              in if \<not> i32_range f then Inl SignedOverflow
                 else Inr (p\<lparr>p_rf_chain := rf, p_freq_hz := of_int f, p_rssic := of_nat (unat (rssi_chan_avg pkt)),
                             p_rssis := of_nat (unat (rssi_signal_avg pkt))\<rparr>))"

definition sx1302_parse ::
    "lgw_context_t \<Rightarrow> int \<times> u8 list \<Rightarrow> lgw_pkt_rx_s \<Rightarrow> rx_state \<Rightarrow> c_fault + (int \<times> lgw_pkt_rx_s \<times> rx_state)" where
  "sx1302_parse ctx reg p s =
     res_bind (rx_buffer_pop (Some (rx_buffer s)) (Some rx_packet_zero)) (\<lambda>(err, b, q).
       if err = LGW_REG_WARNING then Inr (err, p, s\<lparr>rx_buffer := the (snd (rx_buffer_del b))\<rparr>)
       else if err = LGW_REG_ERROR then Inr (err, p, s)
       else
         let pkt = the q; s1 = s\<lparr>rx_buffer := the b\<rparr>;
             p1 = p\<lparr>p_payload := mem_write (p_payload p) (take (unat (rxbytenb_modem pkt)) (rx_payload pkt)),
                    p_size := ucast (rxbytenb_modem pkt), p_modem_id := modem_id pkt, p_if_chain := rx_channel_in pkt\<rparr>
         in if LGW_IF_CHAIN_NB \<le> unat (rx_channel_in pkt) then Inr (LGW_REG_ERROR, p1, s1)
            else res_bind (sx1302_get_ifmod_config (rx_channel_in pkt)) (\<lambda>ifmod.
              res_bind (parse_channel ctx pkt p1) (\<lambda>p2.
                case ifmod of
                  IF_UNDEFINED \<Rightarrow> Inr (LGW_REG_SUCCESS, parse_finish (counter_us s1) pkt 0 (parse_unknown p2), s1)
                | IF_FSK_STD \<Rightarrow> res_bind (parse_fsk ctx pkt p2) (\<lambda>(corr, p3).
                    Inr (LGW_REG_SUCCESS, parse_finish (counter_us s1) pkt corr p3, s1))
                | _ \<Rightarrow> res_bind (parse_lora ctx reg ifmod pkt (pps_hist s1) p2) (\<lambda>(err, corr, p3, h).
                    let s2 = s1\<lparr>pps_hist := h\<rparr>
                    in if err \<noteq> LGW_REG_SUCCESS then Inr (err, p3, s2)
                       else Inr (LGW_REG_SUCCESS, parse_finish (counter_us s2) pkt corr p3, s2)))))"

definition sx1302_rssi_get_temperature_offset :: "lgw_rssi_tcomp_s \<Rightarrow> rat \<Rightarrow> rat" where
  "sx1302_rssi_get_temperature_offset c t =
     flt (dbl (dbl (dbl (dbl (dbl (dbl (coeff_a c * dbl (t ^ 4)) + dbl (coeff_b c * dbl (t ^ 3))) +
       dbl (coeff_c c * dbl (t ^ 2))) + flt (coeff_d c * t)) + coeff_e c) / 2 ^ 16))"

subsection \<open>Duplicates\<close>

text \<open>\<^verbatim>\<open>abs\<close> of the smallest \<^verbatim>\<open>int\<close> is itself.\<close>

definition is_same_pkt :: "lgw_pkt_rx_s \<Rightarrow> lgw_pkt_rx_s \<Rightarrow> bool" where
  "is_same_pkt p1 p2 \<longleftrightarrow>
     (let d = sint (p_count_us p1 - p_count_us p2) in (if d = - (2 ^ 31) then d else \<bar>d\<bar>) \<le> 24) \<and>
     p_if_chain p1 = p_if_chain p2 \<and> p_datarate p1 = p_datarate p2 \<and> p_size p1 = p_size p2 \<and>
     take (unat (p_size p1)) (p_payload p1) = take (unat (p_size p1)) (p_payload p2)"

definition remove_pkt :: "lgw_pkt_rx_s list \<Rightarrow> nat \<Rightarrow> nat \<Rightarrow> int \<times> lgw_pkt_rx_s list \<times> nat" where
  "remove_pkt ps nb i =
     (if int nb - 1 < int i then (-1, ps, nb)
      else (0, if i = nb - 1 then ps else ps[i := ps ! (nb - 1)], nb - 1))"

definition compare_pkt_tmst :: "lgw_pkt_rx_s \<Rightarrow> lgw_pkt_rx_s \<Rightarrow> int" where
  "compare_pkt_tmst p q = sint (p_count_us p - p_count_us q)"

fun merge_find :: "lgw_pkt_rx_s list \<Rightarrow> nat \<Rightarrow> nat \<Rightarrow> nat list \<Rightarrow> nat option" where
  "merge_find ps cpt j [] = None"
| "merge_find ps cpt j (k # ks) = (if is_same_pkt (ps ! j) (ps ! k) then Some k else merge_find ps cpt j ks)"

definition merge_dup_idx :: "lgw_pkt_rx_s list \<Rightarrow> nat \<Rightarrow> nat \<Rightarrow> nat" where
  "merge_dup_idx ps j k =
     (let pj = ps ! j; pk = ps ! k
      in if p_status pj = STAT_CRC_OK \<and> p_status pk = STAT_CRC_BAD then k
         else if p_status pj = STAT_CRC_BAD \<and> p_status pk = STAT_CRC_OK then j
         else if p_ftime_received pj then k else j)"

lemma merge_find_range: "merge_find ps cpt j ks = Some k \<Longrightarrow> k \<in> set ks \<and> is_same_pkt (ps ! j) (ps ! k)"
  by (induction ks) (auto split: if_splits)

lemma merge_remove_less:
  assumes "merge_find ps cpt j [Suc j..<cpt] = Some k" and "j < cpt" and "(x, ps', cpt') = remove_pkt ps cpt (merge_dup_idx ps j k)"
  shows "cpt' < cpt"
proof -
  have "merge_dup_idx ps j k < cpt"
    using merge_find_range [OF assms(1)] assms(2) by (auto simp: merge_dup_idx_def Let_def)
  then show ?thesis using assms(2,3) by (auto simp: remove_pkt_def split: if_splits)
qed

text \<open>The search starts over after every removal.\<close>

function merge_loop :: "lgw_pkt_rx_s list \<Rightarrow> nat \<Rightarrow> nat \<Rightarrow> lgw_pkt_rx_s list \<times> nat" where
  "merge_loop ps cpt j =
     (if j < cpt
      then case merge_find ps cpt j [j + 1..<cpt] of
             None \<Rightarrow> merge_loop ps cpt (j + 1)
           | Some k \<Rightarrow> (case remove_pkt ps cpt (merge_dup_idx ps j k) of (x, ps', cpt') \<Rightarrow> merge_loop ps' cpt' 0)
      else (ps, cpt))"
  by pat_completeness auto
termination
proof (relation "measures [\<lambda>(ps, cpt, j). cpt, \<lambda>(ps, cpt, j). cpt - j]")
  show "wf (measures [\<lambda>(ps :: lgw_pkt_rx_s list, cpt, j). cpt, \<lambda>(ps, cpt, j). cpt - j])" by simp
qed (use merge_remove_less in \<open>fastforce simp: less_Suc_eq\<close>)+

declare merge_loop.simps [simp del]

definition merge_packets :: "lgw_pkt_rx_s list \<Rightarrow> nat \<Rightarrow> int \<times> lgw_pkt_rx_s list \<times> nat" where
  "merge_packets ps nb_pkt =
     (case merge_loop ps nb_pkt 0 of
        (ps', cpt) \<Rightarrow> (0, qsort_r compare_pkt_tmst (take cpt ps') @ drop cpt ps', cpt))"

subsection \<open>Receiving\<close>

definition lgw_get_temperature :: "lgw_context_t \<Rightarrow> int \<times> rat \<Rightarrow> int \<times> rat \<Rightarrow> int \<times> rat" where
  "lgw_get_temperature ctx spi usb =
     (case bd_com_type (board_cfg ctx) of LGW_COM_SPI \<Rightarrow> spi | LGW_COM_USB \<Rightarrow> usb | LGW_COM_UNKNOWN \<Rightarrow> (LGW_HAL_ERROR, 0))"

definition rx_apply_rssi :: "lgw_context_t \<Rightarrow> rat \<Rightarrow> lgw_pkt_rx_s \<Rightarrow> c_fault + lgw_pkt_rx_s" where
  "rx_apply_rssi ctx temp p =
     (if length (rf_chain_cfg ctx) \<le> unat (p_rf_chain p) then Inl OutOfBounds
      else let rf = rf_chain_cfg ctx ! unat (p_rf_chain p);
               t = sx1302_rssi_get_temperature_offset (rf_rssi_tcomp rf) temp
           in Inr (p\<lparr>p_rssic := flt (flt (p_rssic p + rf_rssi_offset rf) + t),
                     p_rssis := flt (flt (p_rssis p + rf_rssi_offset rf) + t)\<rparr>))"

text \<open>
  The loop over the fetched packets: \<open>n\<close> are still to be parsed, the next one goes to slot \<open>i\<close>. The result is the status of the last
  parse, \<open>LGW_REG_SUCCESS\<close> when all were parsed.
\<close>

fun receive_loop ::
    "lgw_context_t \<Rightarrow> (nat \<Rightarrow> int \<times> u8 list) \<Rightarrow> rat \<Rightarrow> nat \<Rightarrow> nat \<Rightarrow> lgw_pkt_rx_s list \<Rightarrow> rx_state \<Rightarrow>
     c_fault + (int \<times> lgw_pkt_rx_s list \<times> rx_state)" where
  "receive_loop ctx pps temp 0 i ps s = Inr (LGW_REG_SUCCESS, ps, s)"
| "receive_loop ctx pps temp (Suc n) i ps s =
     (if length ps \<le> i then Inl OutOfBounds
      else res_bind (sx1302_parse ctx (pps i) (ps ! i) s) (\<lambda>(res, p, s').
        if res = LGW_REG_WARNING \<or> res = LGW_REG_ERROR then Inr (res, ps[i := p], s')
        else res_bind (rx_apply_rssi ctx temp p) (\<lambda>p'. receive_loop ctx pps temp n (Suc i) (ps[i := p']) s')))"

definition lgw_receive ::
    "lgw_context_t \<Rightarrow> rx_inputs \<Rightarrow> u8 \<Rightarrow> lgw_pkt_rx_s list \<Rightarrow> rx_state \<Rightarrow> c_fault + (int \<times> lgw_pkt_rx_s list \<times> rx_state)" where
  "lgw_receive ctx inp max_pkt ps s =
     res_bind (sx1302_fetch inp s) (\<lambda>(res, nb, s1).
       if res \<noteq> LGW_REG_SUCCESS then Inr (LGW_HAL_ERROR, ps, s1)
       else case sx1302_update inp s1 of
              (res, s2) \<Rightarrow>
                if res \<noteq> LGW_REG_SUCCESS then Inr (LGW_HAL_ERROR, ps, s2)
                else if the nb = 0 then Inr (0, ps, s2)
                else
                  let temp = (if fst (in_temp inp) \<noteq> 0 then last_known_temperature s2 else snd (in_temp inp));
                      s3 = s2\<lparr>last_known_temperature := temp\<rparr>;
                      n = (if the nb \<le> max_pkt then unat (the nb) else unat max_pkt)
                  in res_bind (receive_loop ctx (in_pps inp) temp n 0 ps s3) (\<lambda>(res, ps', s4).
                       if res = LGW_REG_WARNING then Inr (LGW_HAL_SUCCESS, ps', s4)
                       else if res = LGW_REG_ERROR then Inr (LGW_HAL_ERROR, ps', s4)
                       else if 0 < n \<and> ftime_enable (ftime_cfg ctx)
                       then case merge_packets ps' n of (x, ps'', m) \<Rightarrow> Inr (int m, ps'', s4)
                       else Inr (int n, ps', s4)))"

end
