(* ===== verification/HalRxProps.thy ===== *)
theory HalRxProps
  imports HalRx HalConfProps TimestampProps RxBufferProps
begin

text \<open>
  What the receive path guarantees: the removal of duplicates, the faults that cannot occur in a configured concentrator,
  and what happens to a packet the parser refuses.
\<close>

subsection \<open>The duplicate test\<close>

lemma sint_minus_u32: "sint (w :: u32) \<noteq> - (2 ^ 31) \<Longrightarrow> sint (- w) = - sint w"
proof -
  assume ne: "sint w \<noteq> - (2 ^ 31)"
  have b: "- (2 ^ 31) \<le> sint w" "sint w < 2 ^ 31"
    using sint_range_size [of w] by (simp_all add: word_size)
  have "sint (word_of_int (- sint w) :: u32) = - sint w"
    by (rule sint_of_int_u32) (use b ne in linarith)+
  moreover have "(word_of_int (- sint w) :: u32) = - w"
    by (simp add: wi_hom_neg [symmetric])
  ultimately show ?thesis by simp
qed

lemma sint_minus_min: "sint (w :: u32) = - (2 ^ 31) \<Longrightarrow> - w = w"
proof -
  assume m: "sint w = - (2 ^ 31)"
  have "w = of_int (sint w)" by simp
  then have "w = of_int (- (2 ^ 31))" unfolding m .
  then show ?thesis by simp
qed

lemma is_same_pkt_sym: "is_same_pkt p q \<longleftrightarrow> is_same_pkt q p"
proof -
  have neg: "p_count_us q - p_count_us p = - (p_count_us p - p_count_us q)" by simp
  show ?thesis
  proof (cases "sint (p_count_us p - p_count_us q) = - (2 ^ 31)")
    case True
    then have "p_count_us q - p_count_us p = p_count_us p - p_count_us q"
      unfolding neg by (rule sint_minus_min)
    then show ?thesis unfolding is_same_pkt_def by (simp only: ) (auto simp: eq_commute)
  next
    case False
    then have "sint (p_count_us q - p_count_us p) = - sint (p_count_us p - p_count_us q)"
      unfolding neg by (rule sint_minus_u32)
    moreover have "- sint (p_count_us p - p_count_us q) \<noteq> - (2 ^ 31)"
      using sint_range_size [of "p_count_us p - p_count_us q"] by (simp add: word_size)
    ultimately show ?thesis using False by (auto simp: is_same_pkt_def Let_def)
  qed
qed

lemma symp_not_same: "symp (\<lambda>p q. \<not> is_same_pkt p q)"
  by (rule sympI) (simp add: is_same_pkt_sym)

subsection \<open>Removing packets\<close>

text \<open>The array with the number of packets in it, as a store that gives up a slot by index.\<close>

definition rx_items :: "lgw_pkt_rx_s list \<times> nat \<Rightarrow> lgw_pkt_rx_s list" where
  "rx_items q = take (snd q) (fst q)"

definition rx_drop :: "lgw_pkt_rx_s list \<times> nat \<Rightarrow> nat \<Rightarrow> lgw_pkt_rx_s list \<times> nat" where
  "rx_drop q i = snd (remove_pkt (fst q) (snd q) i)"

lemma remove_pkt_eq:
  "i < n \<Longrightarrow> n \<le> length ps \<Longrightarrow> remove_pkt ps n i = (0, ps[i := ps ! (n - 1)], n - 1)"
  by (auto simp: remove_pkt_def)

interpretation rx_slots: slot_store "\<lambda>q. snd q \<le> length (fst q)" rx_items rx_drop
  by unfold_locales (simp_all add: rx_items_def rx_drop_def remove_pkt_eq mset_swap_remove [unfolded One_nat_def])

text \<open>What the search for duplicates keeps while it removes packets.\<close>

definition merge_ok :: "lgw_pkt_rx_s list \<Rightarrow> lgw_pkt_rx_s list \<times> nat \<Rightarrow> bool" where
  "merge_ok orig q \<longleftrightarrow> snd q \<le> length (fst q) \<and> mset (rx_items q) \<subseteq># mset orig \<and>
     (\<forall>p\<in>set orig. \<exists>r\<in>set (rx_items q). is_same_pkt\<^sup>*\<^sup>* p r)"

lemma merge_ok_drop:
  assumes ok: "merge_ok orig q" and i: "i < snd q" and k: "k < snd q" and ne: "i \<noteq> k"
    and same: "is_same_pkt (fst q ! i) (fst q ! k)"
  shows "merge_ok orig (rx_drop q i)"
proof -
  have wf: "snd q \<le> length (fst q)" using ok by (simp add: merge_ok_def)
  have len: "length (rx_items q) = snd q" using wf by (simp add: rx_items_def)
  have nth: "rx_items q ! i = fst q ! i" "rx_items q ! k = fst q ! k" using i k by (simp_all add: rx_items_def)
  have m: "mset (rx_items (rx_drop q i)) = mset (rx_items q) - {#fst q ! i#}"
    using rx_slots.drop_items [OF wf, of i] i len nth by simp
  have kept: "x \<in> set (rx_items (rx_drop q i))" if "x \<in> set (rx_items q)" "x \<noteq> fst q ! i" for x
    using rx_slots.drop_keeps [OF wf, of i x] that i len nth by simp
  have partner: "fst q ! k \<in> set (rx_items (rx_drop q i))"
  proof (cases "fst q ! k = fst q ! i")
    case False
    have "fst q ! k \<in> set (rx_items q)" using nth(2) k len by (metis nth_mem)
    then show ?thesis using kept False by simp
  next
    case True
    have "2 \<le> count_list (rx_items q) (fst q ! i)"
    proof -
      have "{i, k} \<subseteq> {j. j < length (rx_items q) \<and> fst q ! i = rx_items q ! j}"
        using i k len nth True by simp
      then have "card {i, k} \<le> length (filter ((=) (fst q ! i)) (rx_items q))"
        unfolding length_filter_conv_card by (intro card_mono) auto
      then show ?thesis using ne by (simp add: count_list_eq_length_filter)
    qed
    then have "fst q ! i \<in># mset (rx_items q) - {#fst q ! i#}"
      by (simp add: in_diff_count count_mset)
    then show ?thesis using m True by (metis set_mset_mset)
  qed
  have "\<exists>r\<in>set (rx_items (rx_drop q i)). is_same_pkt\<^sup>*\<^sup>* p r" if "p \<in> set orig" for p
  proof -
    have "\<exists>r\<in>set (rx_items q). is_same_pkt\<^sup>*\<^sup>* p r" using ok that by (simp add: merge_ok_def)
    then obtain r where r: "r \<in> set (rx_items q)" "is_same_pkt\<^sup>*\<^sup>* p r" by (rule bexE)
    show ?thesis
    proof (cases "r = fst q ! i")
      case True
      then have "is_same_pkt\<^sup>*\<^sup>* p (fst q ! k)" using r(2) same by (metis rtranclp.rtrancl_into_rtrancl)
      then show ?thesis using partner by blast
    next
      case False
      then show ?thesis using r kept by blast
    qed
  qed
  moreover have "mset (rx_items (rx_drop q i)) \<subseteq># mset orig"
    using ok rx_slots.drop_subset [OF wf, of i] i len by (auto simp: merge_ok_def)
  ultimately show ?thesis
    using rx_slots.drop_inv [OF wf, of i] i len by (auto simp: merge_ok_def)
qed

text \<open>The packets before \<open>j\<close> have no duplicate behind them.\<close>

definition no_dup_before :: "lgw_pkt_rx_s list \<Rightarrow> nat \<Rightarrow> nat \<Rightarrow> bool" where
  "no_dup_before ps cpt j \<longleftrightarrow> (\<forall>a<j. \<forall>b<cpt. a < b \<longrightarrow> \<not> is_same_pkt (ps ! a) (ps ! b))"

lemma merge_find_None: "merge_find ps cpt j ks = None \<longleftrightarrow> (\<forall>k\<in>set ks. \<not> is_same_pkt (ps ! j) (ps ! k))"
  by (induction ks) auto

lemma merge_loop_ok:
  assumes "merge_ok orig (ps, cpt)" and "no_dup_before ps cpt j" and "merge_loop ps cpt j = (ps', cpt')"
  shows "merge_ok orig (ps', cpt') \<and> no_dup_before ps' cpt' cpt' \<and> length ps' = length ps \<and> cpt' \<le> cpt \<and> (0 < cpt \<longrightarrow> 0 < cpt')"
  using assms
proof (induction ps cpt j arbitrary: ps' cpt' rule: merge_loop.induct)
  case (1 ps cpt j)
  show ?case
  proof (cases "j < cpt")
    case False
    then have "ps' = ps \<and> cpt' = cpt" using 1(5) by (simp add: merge_loop.simps)
    then show ?thesis using 1(3,4) False by (auto simp: no_dup_before_def)
  next
    case True
    show ?thesis
    proof (cases "merge_find ps cpt j [j + 1..<cpt]")
      case None
      have "no_dup_before ps cpt (j + 1)"
        using 1(4) None by (auto simp: no_dup_before_def merge_find_None less_Suc_eq)
      moreover have "merge_loop ps cpt (j + 1) = (ps', cpt')"
        using 1(5) True None by (subst (asm) merge_loop.simps) simp
      ultimately show ?thesis using 1(1) [OF True None 1(3)] by blast
    next
      case (Some k)
      define d where "d = merge_dup_idx ps j k"
      have k: "j < k" "k < cpt" "is_same_pkt (ps ! j) (ps ! k)" using merge_find_range [OF Some] by auto
      have wf: "cpt \<le> length ps" using 1(3) by (simp add: merge_ok_def)
      have d: "d = j \<or> d = k" by (auto simp: d_def merge_dup_idx_def Let_def)
      then have dc: "d < cpt" using True k by auto
      have rm: "remove_pkt ps cpt d = (0, ps[d := ps ! (cpt - 1)], cpt - 1)" by (rule remove_pkt_eq [OF dc wf])
      have "merge_ok orig (rx_drop (ps, cpt) d)"
        using d merge_ok_drop [OF 1(3), of j k] merge_ok_drop [OF 1(3), of k j] k True by (auto simp: is_same_pkt_sym)
      then have ok: "merge_ok orig (ps[d := ps ! (cpt - 1)], cpt - 1)" by (simp add: rx_drop_def rm)
      have nd: "no_dup_before (ps[d := ps ! (cpt - 1)]) (cpt - 1) 0" by (simp add: no_dup_before_def)
      have lp: "merge_loop (ps[d := ps ! (cpt - 1)]) (cpt - 1) 0 = (ps', cpt')"
        using 1(5) True Some rm by (subst (asm) merge_loop.simps) (simp add: d_def)
      have "merge_ok orig (ps', cpt') \<and> no_dup_before ps' cpt' cpt' \<and> length ps' = length (ps[d := ps ! (cpt - 1)]) \<and>
          cpt' \<le> cpt - 1 \<and> (0 < cpt - 1 \<longrightarrow> 0 < cpt')"
        by (rule 1(2) [OF True Some _ refl ok nd lp]) (simp add: rm flip: d_def)
      then show ?thesis using k by auto
    qed
  qed
qed

text \<open>
  C23. Removing duplicates is sound: of the \<open>n\<close> packets received, the ones returned form a sub-multiset, no two of them are duplicates of each
  other, at least one remains when there was one, and every packet that was dropped is linked by a chain of duplicates to a packet that was
  kept. The search terminates and the slots behind the packets keep their number. When the timestamps lie within half the range of
  the counter from some time \<open>t\<close> on, the packets returned are in the order of their timestamps, across roll-overs.
\<close>

theorem merge_packets_sound:
  assumes "n \<le> length ps" and "merge_packets ps n = (r, ps', m)"
  shows "r = 0 \<and> length ps' = length ps \<and> m \<le> n \<and> (n = 0 \<or> 0 < m) \<and> mset (take m ps') \<subseteq># mset (take n ps) \<and>
    sorted_wrt (\<lambda>p q. \<not> is_same_pkt p q) (take m ps') \<and>
    (\<forall>p\<in>set (take n ps). \<exists>q\<in>set (take m ps'). is_same_pkt\<^sup>*\<^sup>* p q) \<and>
    ((\<forall>p\<in>set (take n ps). unat (p_count_us p - t) < 2 ^ 31) \<longrightarrow>
      sorted (map (\<lambda>p. unat (p_count_us p - t)) (take m ps')))"
proof -
  obtain qs c where l: "merge_loop ps n 0 = (qs, c)" by (cases "merge_loop ps n 0")
  have ok0: "merge_ok (take n ps) (ps, n)" using assms(1) by (auto simp: merge_ok_def rx_items_def)
  have ok: "merge_ok (take n ps) (qs, c)" "no_dup_before qs c c" "length qs = length ps" "c \<le> n" "0 < n \<longrightarrow> 0 < c"
    using merge_loop_ok [OF ok0 _ l] by (simp_all add: no_dup_before_def)
  have cq: "c \<le> length qs" using ok(3,4) assms(1) by simp
  have out: "r = 0" "m = c" "ps' = qsort_r compare_pkt_tmst (take c qs) @ drop c qs"
    using assms(2) l by (auto simp: merge_packets_def)
  have t: "take m ps' = qsort_r compare_pkt_tmst (take c qs)" using cq by (simp add: out)
  have ms: "mset (take m ps') = mset (take c qs)" and st: "set (take m ps') = set (take c qs)" by (simp_all add: t)
  have sub: "mset (take c qs) \<subseteq># mset (take n ps)" using ok(1) by (simp add: merge_ok_def rx_items_def)
  have "sorted_wrt (\<lambda>p q. \<not> is_same_pkt p q) (take c qs)"
    using ok(2) cq by (auto simp: sorted_wrt_iff_nth_less no_dup_before_def)
  then have nd: "sorted_wrt (\<lambda>p q. \<not> is_same_pkt p q) (take m ps')"
    using sorted_wrt_sym_cong [OF symp_not_same ms] by blast
  have "\<forall>p\<in>set (take n ps). \<exists>q\<in>set (take c qs). is_same_pkt\<^sup>*\<^sup>* p q"
    using ok(1) by (simp add: merge_ok_def rx_items_def)
  moreover have "sorted (map (\<lambda>p. unat (p_count_us p - t)) (take m ps'))"
    if w: "\<forall>p\<in>set (take n ps). unat (p_count_us p - t) < 2 ^ 31"
    unfolding t
  proof (rule qs.srt_by_key)
    fix x y
    assume "x \<in> set (take c qs)" "y \<in> set (take c qs)"
    then have "x \<in> set (take n ps)" "y \<in> set (take n ps)" using set_mset_mono [OF sub] by auto
    then show "compare_pkt_tmst x y \<le> 0 \<longleftrightarrow> unat (p_count_us x - t) \<le> unat (p_count_us y - t)"
      unfolding compare_pkt_tmst_def using w by (intro sint_diff_window) blast+
  qed
  ultimately show ?thesis
    using nd sub ms st ok(3-5) cq out by auto
qed

definition rx_pkt_zero :: lgw_pkt_rx_s where
  "rx_pkt_zero = \<lparr>p_freq_hz = 0, p_freq_offset = 0, p_if_chain = 0, p_status = 0, p_count_us = 0, p_rf_chain = 0, p_modem_id = 0,
     p_modulation = 0, p_bandwidth = 0, p_datarate = 0, p_coderate = 0, p_rssic = 0, p_rssis = 0, p_snr = 0, p_snr_min = 0, p_snr_max = 0,
     p_crc = 0, p_size = 0, p_payload = replicate 256 0, p_ftime_received = False, p_ftime = 0\<rparr>"

theorem merge_packets_sound_witness:
  "\<exists>r ps' m. merge_packets [rx_pkt_zero, rx_pkt_zero\<lparr>p_count_us := 10\<rparr>] 2 = (r, ps', m) \<and> m \<le> 2 \<and> 0 < m \<and>
     sorted_wrt (\<lambda>p q. \<not> is_same_pkt p q) (take m ps')"
proof -
  obtain r ps' m where e: "merge_packets [rx_pkt_zero, rx_pkt_zero\<lparr>p_count_us := 10\<rparr>] 2 = (r, ps', m)"
    using prod_cases3 by blast
  from merge_packets_sound [OF _ e] show ?thesis using e by auto
qed

subsection \<open>Parsing\<close>

lemma double_to_u32_fault: "double_to_u32 x = Inl e \<Longrightarrow> e = UndefinedConversion"
  by (auto simp: double_to_u32_def split: if_splits)

lemma precise_fault: "precise_timestamp_calculate reg k ms cnt sf f err hist = Inl e \<Longrightarrow> e = UndefinedConversion"
  unfolding precise_timestamp_calculate_def Let_def
  by (auto simp: res_bind_Inl_iff dest: double_to_u32_fault split: if_splits option.splits prod.splits)

lemma parse_ftime_fault: "parse_ftime reg pkt st f off i hist = Inl e \<Longrightarrow> e = UndefinedConversion"
  unfolding parse_ftime_def by (auto simp: res_bind_Inl_iff dest: precise_fault split: if_splits)

lemma parse_lora_fault:
  assumes "parse_lora ctx reg ifmod pkt hist p = Inl e"
  shows "e = UndefinedConversion"
proof -
  have "\<nexists>e. timestamp_counter_correction a b c d f g h = Inl e" for a b c d f g h
    using timestamp_correction_ex [of a b c d f g h] by auto
  then show ?thesis
    using assms unfolding parse_lora_def Let_def
    by (auto simp: res_bind_Inl_iff dest: parse_ftime_fault split: option.splits)
qed

text \<open>
  In a configured concentrator the parser stays within its arrays and divides by no zero: a fault of \<^verbatim>\<open>sx1302_parse\<close> can only be one of the
  receive buffer (a packet that announces too many metrics) or a fine timestamp outside the range of its type; otherwise it returns.
\<close>

theorem sx1302_parse_faults:
  assumes "hal_reachable ctx" and "sx1302_parse ctx reg p s = Inl e"
  shows "e = UndefinedConversion \<or> rx_buffer_pop (Some (rx_buffer s)) (Some rx_packet_zero) = Inl e"
proof -
  have wf: "hal_ctx_wf ctx" by (rule hal_reachable_wf [OF assms(1)])
  have fsk: "if_datarate (fsk_cfg ctx) \<noteq> 0"
    using wf by (auto simp: hal_ctx_wf_def IS_FSK_DR_def)
  have two31: "(2 :: int) ^ 31 = 2147483648" by simp
  have chan: "\<exists>p'. parse_channel ctx pkt q = Inr p'" if "unat (p_if_chain q) < LGW_IF_CHAIN_NB" for pkt q
  proof -
    define ifc where "ifc = if_chain_cfg ctx ! unat (p_if_chain q)"
    have ok: "rxif_ok ifc" using wf that by (simp add: hal_ctx_wf_def list_all_length ifc_def)
    define rf where "rf = rf_chain_cfg ctx ! unat (if_rf_chain ifc)"
    have "rxrf_ok rf" using wf ok by (simp add: hal_ctx_wf_def list_all_length rf_def rxif_ok_def)
    then have f: "uint (rf_freq_hz rf) \<le> 1000000000" by (simp add: rxrf_ok_def word_le_def)
    then have "sint (rf_freq_hz rf) = uint (rf_freq_hz rf)"
      using sint_of_int_u32 [of "uint (rf_freq_hz rf)"] uint_ge_0 [of "rf_freq_hz rf"] by simp
    then have "i32_range (sint (rf_freq_hz rf) + if_freq_hz ifc)"
      using f ok uint_ge_0 [of "rf_freq_hz rf"] unfolding i32_range_def rxif_ok_def two31 by linarith
    then show ?thesis using ok by (simp add: parse_channel_def Let_def rxif_ok_def flip: ifc_def rf_def)
  qed
  show ?thesis
  proof (cases "rx_buffer_pop (Some (rx_buffer s)) (Some rx_packet_zero)")
    case (Inl e')
    then show ?thesis using assms(2) by (simp add: sx1302_parse_def)
  next
    case (Inr x)
    obtain err b q where x: "x = (err, b, q)" by (rule prod_cases3)
    define pkt where "pkt = the q"
    define p1 where "p1 = p\<lparr>p_payload := mem_write (p_payload p) (take (unat (rxbytenb_modem pkt)) (rx_payload pkt)),
      p_size := ucast (rxbytenb_modem pkt), p_modem_id := modem_id pkt, p_if_chain := rx_channel_in pkt\<rparr>"
    note e = assms(2) [unfolded sx1302_parse_def Inr x res_bind_simps prod.case Let_def pkt_def [symmetric] p1_def [symmetric]]
    have ch: "unat (rx_channel_in pkt) < 10" using e by (cases "10 \<le> unat (rx_channel_in pkt)") (simp_all split: if_splits)
    obtain ifmod where im: "sx1302_get_ifmod_config (rx_channel_in pkt) = Inr ifmod" and "ifmod \<in> set ifmod_config"
      using ch by (simp add: sx1302_get_ifmod_config_def ifmod_config_def del: set_append)
    obtain p2 where p2: "parse_channel ctx pkt p1 = Inr p2" using chan [of p1 pkt] ch by (auto simp: p1_def)
    show ?thesis
      using e ch fsk unfolding im p2 res_bind_simps
      by (cases ifmod) (auto simp: parse_fsk_def Let_def res_bind_Inl_iff dest: parse_lora_fault split: if_splits)
  qed
qed

theorem sx1302_parse_faults_witness:
  "\<exists>s p. sx1302_parse lgw_context_init (0, []) p s = Inl OutOfBounds \<and>
     rx_buffer_pop (Some (rx_buffer s)) (Some rx_packet_zero) = Inl OutOfBounds"
proof -
  define s where "s = \<lparr>rx_buffer = \<lparr>rb_buffer = [], buffer_size = 1, buffer_index = 0, buffer_pkt_nb = 1\<rparr>,
    counter_us = timestamp_counter_new, pps_hist = pps_history_init, last_known_temperature = 25\<rparr>"
  have e: "sx1302_parse lgw_context_init (0, []) rx_pkt_zero s = Inl OutOfBounds"
    by (simp add: s_def sx1302_parse_def rx_buffer_pop_def rx_sync_at_def rx_byte_def)
  from sx1302_parse_faults [OF hal_reachable.start e] e show ?thesis by auto
qed

text \<open>
  Reading a packet the parser refuses: the packet stays at the head of the buffer, and as the buffer is not empty nothing is fetched, so the
  next call meets the same packet.
\<close>

lemma lgw_receive_refused:
  assumes "buffer_pkt_nb (rx_buffer s) \<noteq> 0" and "rx_buffer_pop (Some (rx_buffer s)) (Some rx_packet_zero) = Inr (LGW_REG_ERROR, b, q)"
    and "0 < max_pkt" and "ps \<noteq> []"
  shows "\<exists>s'. lgw_receive ctx inp max_pkt ps s = Inr (LGW_HAL_ERROR, ps, s') \<and> rx_buffer s' = rx_buffer s"
proof -
  obtain u where u: "sx1302_update inp s = (LGW_REG_SUCCESS, u)" and b: "rx_buffer u = rx_buffer s"
    by (cases "timestamp_counter_get (in_cnt1 inp) (in_cnt2 inp) (in_cnt3 inp) (counter_us s) (pps_hist s)")
      (simp add: sx1302_update_def)
  define n where "n = (if buffer_pkt_nb (rx_buffer s) \<le> max_pkt then unat (buffer_pkt_nb (rx_buffer s)) else unat max_pkt)"
  have "0 < n" using assms(1,3) by (simp add: n_def unat_gt_0 word_gt_0)
  then obtain k where k: "n = Suc k" by (cases n) auto
  define temp where "temp = (if fst (in_temp inp) \<noteq> 0 then last_known_temperature u else snd (in_temp inp))"
  define v where "v = u\<lparr>last_known_temperature := temp\<rparr>"
  have "sx1302_parse ctx (in_pps inp 0) (ps ! 0) v = Inr (LGW_REG_ERROR, ps ! 0, v)"
    using assms(2) b by (simp add: sx1302_parse_def v_def)
  then have l: "receive_loop ctx (in_pps inp) temp n 0 ps v = Inr (LGW_REG_ERROR, ps, v)"
    using assms(4) by (simp add: k)
  have f: "sx1302_fetch inp s = Inr (LGW_REG_SUCCESS, Some (buffer_pkt_nb (rx_buffer s)), s)"
    using assms(1) by (simp add: sx1302_fetch_def)
  have "lgw_receive ctx inp max_pkt ps s = Inr (LGW_HAL_ERROR, ps, v)"
    unfolding lgw_receive_def f res_bind_simps prod.case u Let_def option.sel temp_def [symmetric] v_def [symmetric] n_def [symmetric] l
    using assms(1) by simp
  then show ?thesis using b by (simp add: v_def)
qed

lemma precise_register_failure:
  assumes "fst reg \<noteq> 0" and "\<not> pps_size hist < 16" and "precise_timestamp_calculate reg k ms cnt sf f err hist = Inr r"
  shows "r = (0, None, hist)"
  using assms unfolding precise_timestamp_calculate_def Let_def by (simp add: res_bind_Inr_iff)

text \<open>
  A fine timestamp is reported although it could not be computed: when the PPS register cannot be read, the calculation returns 0,
  which the parser takes for success, so the packet is marked as having a fine timestamp, with the value 0.
\<close>

theorem ftime_register_failure:
  assumes "fst reg \<noteq> 0" and "0 < num_ts_metrics_stored pkt" and "timing_set pkt" and "unat (pps_size hist) = 16"
    and "parse_ftime reg pkt STAT_CRC_OK freq off if_freq hist = Inr res"
  shows "res = (True, 0, hist)"
proof -
  have sz: "\<not> pps_size hist < 16" using assms(4) by (simp add: word_less_nat_alt)
  define m where "m = precise_timestamp_calculate reg (num_ts_metrics_stored pkt) (timestamp_avg pkt) (timestamp_cnt pkt) (rx_rate_sf pkt) if_freq
    (parse_freq_error freq off) hist"
  have "res_bind m (\<lambda>(err, ft, h). Inr (err = 0, (case ft of None \<Rightarrow> 0 | Some t \<Rightarrow> t), h)) = Inr res"
    using assms(2,3,5) sz unfolding parse_ftime_def m_def [symmetric] by (cases "freq = 0") simp_all
  then obtain a where a: "m = Inr a" and e: "(\<lambda>(err, ft, h). Inr (err = 0, (case ft of None \<Rightarrow> 0 | Some t \<Rightarrow> t), h)) a = (Inr res :: c_fault + _)"
    unfolding res_bind_Inr_iff by blast
  show ?thesis
    using e unfolding precise_register_failure [OF assms(1) sz a [unfolded m_def]] by simp
qed

theorem ftime_register_failure_witness:
  "parse_ftime (-1, []) (rx_packet_zero\<lparr>num_ts_metrics_stored := 4, timing_set := True, rx_rate_sf := 7\<rparr>) STAT_CRC_OK 868000000 0 0
     (pps_history_init\<lparr>pps_size := 16\<rparr>) = Inr (True, 0, pps_history_init\<lparr>pps_size := 16\<rparr>)"
proof -
  define pkt where "pkt = rx_packet_zero\<lparr>num_ts_metrics_stored := 4, timing_set := True, rx_rate_sf := 7\<rparr>"
  define hist where "hist = pps_history_init\<lparr>pps_size := 16\<rparr>"
  have z: "parse_freq_error 868000000 0 = 0"
    using dbl_of_nat [of 1] by (simp add: parse_freq_error_def)
  have o: "ftime_offset_hdr 7 = 401152" by (simp add: ftime_offset_hdr_def)
  have h: "dbl (1 / 2) = 1 / 2" using dbl_half [of 1] by simp
  have a: "401152 + dbl (1 / 2) = 802305 / 2" unfolding h by simp
  have d: "dbl (401152 + dbl (1 / 2)) = 802305 / 2" unfolding a using dbl_half [of 802305] by simp
  have "\<exists>res. parse_ftime (-1, []) pkt STAT_CRC_OK 868000000 0 0 hist = Inr res"
    by (simp add: parse_ftime_def precise_timestamp_calculate_def z o d double_to_u32_def pkt_def hist_def Let_def) blast
  then obtain res where r: "parse_ftime (-1, []) pkt STAT_CRC_OK 868000000 0 0 hist = Inr res" ..
  have "res = (True, 0, hist)"
    by (rule ftime_register_failure [OF _ _ _ _ r]) (simp_all add: pkt_def hist_def)
  then show ?thesis using r by (simp add: pkt_def hist_def)
qed

end
