(* ===== verification/Uplink.thy ===== *)
theory Uplink
  imports HalRx
begin

text \<open>
  The upstream thread of the daemon, \<^verbatim>\<open>thread_up\<close> of \<^verbatim>\<open>clusterduck/src/clusterduckd.c\<close>: one turn of its loop, and the loop over a sequence of turns. What a
  turn hands to \<^verbatim>\<open>cdp_bridge_handle_uplink\<close> is part of the result; statistics and messages are left out.
\<close>

text \<open>The arguments of \<^verbatim>\<open>cdp_bridge_handle_uplink\<close>.\<close>

record uplink =
  up_payload :: "u8 list"
  up_size :: u16
  up_rssi :: int
  up_snr :: rat
  up_freq_hz :: u32
  up_tmst :: u32
  up_rf_chain :: u8
  up_bandwidth_hz :: u32
  up_datarate_sf :: u8
  up_coderate :: u8

text \<open>The conversion of the signal strength comes before the checks; outside \<^verbatim>\<open>int16_t\<close> it is undefined.\<close>

definition thread_up_packet :: "lgw_pkt_rx_s \<Rightarrow> c_fault + uplink option" where
  "thread_up_packet p =
     (if \<not> (- 32769 < p_rssic p \<and> p_rssic p < 32768) then Inl UndefinedConversion
      else if p_size p = 0 \<or> 255 < p_size p then Inr None
      else if p_coderate p = 0 \<or> CR_LORA_4_8 < p_coderate p then Inr None
      else Inr (Some \<lparr>up_payload = p_payload p, up_size = p_size p, up_rssi = c_trunc (p_rssic p), up_snr = p_snr p,
                      up_freq_hz = p_freq_hz p, up_tmst = p_count_us p, up_rf_chain = p_if_chain p,
                      up_bandwidth_hz = ucast (p_bandwidth p), up_datarate_sf = ucast (p_datarate p), up_coderate = p_coderate p\<rparr>))"

abbreviation (input) MAX_CONSECUTIVE_RX_ERRORS :: nat where "MAX_CONSECUTIVE_RX_ERRORS \<equiv> 10"

text \<open>The variables of the thread that live across turns.\<close>

record up_state =
  consecutive_rx_errors :: nat
  rxpkt :: "lgw_pkt_rx_s list"
  up_rx :: rx_state

definition thread_up_forward :: "lgw_pkt_rx_s list \<Rightarrow> c_fault + uplink list" where
  "thread_up_forward ps = res_bind (res_map thread_up_packet ps) (\<lambda>us. Inr (List.map_filter id us))"

definition thread_up_turn :: "lgw_context_t \<Rightarrow> rx_inputs \<Rightarrow> up_state \<Rightarrow> c_fault + (uplink list \<times> up_state)" where
  "thread_up_turn ctx inp s =
     res_bind (lgw_receive ctx inp 255 (rxpkt s) (up_rx s)) (\<lambda>(nb_pkt, ps, rx).
       let s1 = s\<lparr>rxpkt := ps, up_rx := rx\<rparr>
       in if nb_pkt = LGW_HAL_ERROR
          then let n = consecutive_rx_errors s + 1
               in if MAX_CONSECUTIVE_RX_ERRORS \<le> n then Inl ExitFailure
                  else Inr ([], s1\<lparr>consecutive_rx_errors := n\<rparr>)
          else res_bind (thread_up_forward (take (nat nb_pkt) ps)) (\<lambda>us.
                 Inr (us, s1\<lparr>consecutive_rx_errors := 0\<rparr>)))"

fun thread_up_run :: "lgw_context_t \<Rightarrow> rx_inputs list \<Rightarrow> up_state \<Rightarrow> c_fault + (uplink list \<times> up_state)" where
  "thread_up_run ctx [] s = Inr ([], s)"
| "thread_up_run ctx (inp # inps) s =
     res_bind (thread_up_turn ctx inp s) (\<lambda>(us, s').
       res_bind (thread_up_run ctx inps s') (\<lambda>(vs, s''). Inr (us @ vs, s'')))"

end
