(* ===== verification/UplinkProps.thy ===== *)
theory UplinkProps
  imports Uplink HalRxProps
begin

text \<open>
  The upstream thread: which packets reach the mesh network, and how the thread deals with errors of the receiver.
\<close>

subsection \<open>Forwarding\<close>

definition up_forwardable :: "lgw_pkt_rx_s \<Rightarrow> bool" where
  "up_forwardable p \<longleftrightarrow> 1 \<le> unat (p_size p) \<and> unat (p_size p) \<le> 255 \<and> IS_LORA_CR (p_coderate p)"

lemma coderate_valid: "\<not> (cr = 0 \<or> (4 :: u8) < cr) \<longleftrightarrow> IS_LORA_CR cr"
proof -
  have "unat cr = 1 \<or> unat cr = 2 \<or> unat cr = 3 \<or> unat cr = 4 \<longleftrightarrow> IS_LORA_CR cr"
    by (auto simp: IS_LORA_CR_def word_unat_eq_iff)
  moreover have "cr = 0 \<longleftrightarrow> unat cr = 0" "4 < cr \<longleftrightarrow> 4 < unat cr" by (simp_all add: word_unat_eq_iff word_less_nat_alt)
  ultimately show ?thesis by linarith
qed

lemma size_valid: "\<not> (n = 0 \<or> (255 :: u16) < n) \<longleftrightarrow> 1 \<le> unat n \<and> unat n \<le> 255"
proof -
  have "n = 0 \<longleftrightarrow> unat n = 0" "255 < n \<longleftrightarrow> 255 < unat n" by (simp_all add: word_unat_eq_iff word_less_nat_alt)
  then show ?thesis by linarith
qed

lemma thread_up_packet_cases:
  assumes "thread_up_packet p = Inr u"
  shows "if up_forwardable p then \<exists>v. u = Some v \<and> up_payload v = p_payload p \<and> up_size v = p_size p \<and> up_tmst v = p_count_us p
    else u = None"
  using assms size_valid [of "p_size p"] coderate_valid [of "p_coderate p"]
  by (auto simp: thread_up_packet_def up_forwardable_def split: if_splits)

lemma thread_up_forward_eq:
  assumes "thread_up_forward ps = Inr us"
  shows "map up_payload us = map p_payload (filter up_forwardable ps) \<and> map up_size us = map p_size (filter up_forwardable ps) \<and>
    map up_tmst us = map p_count_us (filter up_forwardable ps)"
  using assms
proof (induction ps arbitrary: us)
  case Nil
  then show ?case by (simp add: thread_up_forward_def map_filter_simps)
next
  case (Cons p ps)
  then obtain u vs where u: "thread_up_packet p = Inr u" and vs: "thread_up_forward ps = Inr vs"
      and us: "us = (case u of None \<Rightarrow> vs | Some v \<Rightarrow> v # vs)"
    by (auto simp: thread_up_forward_def res_bind_Inr_iff map_filter_simps split: option.splits)
  show ?case
    using thread_up_packet_cases [OF u] Cons.IH [OF vs] us by (cases "up_forwardable p") auto
qed

text \<open>
  C24. A turn of the upstream thread hands to the mesh network exactly the received packets with 1 to 255 bytes and a LoRa coding rate, each once and
  in the order of reception, with its payload, size and timestamp; it resets the count of errors. The CRC status plays no role: a packet with a bad
  CRC is handed on as well.
\<close>

theorem thread_up_forwards:
  assumes "lgw_receive ctx inp 255 (rxpkt s) (up_rx s) = Inr (nb_pkt, ps, rx)" and "nb_pkt \<noteq> LGW_HAL_ERROR"
    and "thread_up_turn ctx inp s = Inr (us, s')"
  defines "fwd \<equiv> filter up_forwardable (take (nat nb_pkt) ps)"
  shows "map up_payload us = map p_payload fwd \<and> map up_size us = map p_size fwd \<and> map up_tmst us = map p_count_us fwd \<and>
    consecutive_rx_errors s' = 0"
proof -
  have "thread_up_forward (take (nat nb_pkt) ps) = Inr us" and "consecutive_rx_errors s' = 0"
    using assms(1-3) by (auto simp: thread_up_turn_def Let_def res_bind_Inr_iff)
  then show ?thesis unfolding fwd_def using thread_up_forward_eq by blast
qed

definition rx_state_init :: rx_state where
  "rx_state_init = \<lparr>rx_buffer = \<lparr>rb_buffer = [], buffer_size = 0, buffer_index = 0, buffer_pkt_nb = 0\<rparr>,
     counter_us = timestamp_counter_new, pps_hist = pps_history_init, last_known_temperature = 25\<rparr>"

definition rx_no_input :: rx_inputs where
  "rx_no_input = \<lparr>in_nb1 = (0, 0), in_nb2 = (0, 0), in_mem = (\<lambda>n. (0, [])), in_cnt1 = (-1, []), in_cnt2 = (-1, []), in_cnt3 = (-1, []),
     in_pps = (\<lambda>i. (0, [])), in_temp = (0, 25)\<rparr>"

lemma receive_nothing:
  "lgw_receive ctx rx_no_input 255 ps rx_state_init =
     Inr (0, ps, rx_state_init\<lparr>rx_buffer := \<lparr>rb_buffer = replicate 4096 0, buffer_size = 0, buffer_index = 0, buffer_pkt_nb = 0\<rparr>\<rparr>)"
  by (simp add: lgw_receive_def sx1302_fetch_def rx_buffer_new_def rx_buffer_fetch_def rx_nb_bytes_def sx1302_update_def
      timestamp_counter_get_def rx_no_input_def rx_state_init_def Let_def)

theorem thread_up_forwards_witness:
  "\<exists>us s'. thread_up_turn lgw_context_init rx_no_input \<lparr>consecutive_rx_errors = 9, rxpkt = [], up_rx = rx_state_init\<rparr> = Inr (us, s') \<and>
     us = [] \<and> consecutive_rx_errors s' = 0"
proof -
  define s where "s = \<lparr>consecutive_rx_errors = 9, rxpkt = [], up_rx = rx_state_init\<rparr>"
  have "\<exists>us s'. thread_up_turn lgw_context_init rx_no_input s = Inr (us, s')"
    by (simp add: thread_up_turn_def s_def receive_nothing thread_up_forward_def)
  then obtain us s' where t: "thread_up_turn lgw_context_init rx_no_input s = Inr (us, s')" by blast
  have r: "lgw_receive lgw_context_init rx_no_input 255 (rxpkt s) (up_rx s) =
      Inr (0, [], rx_state_init\<lparr>rx_buffer := \<lparr>rb_buffer = replicate 4096 0, buffer_size = 0, buffer_index = 0, buffer_pkt_nb = 0\<rparr>\<rparr>)"
    by (simp add: s_def receive_nothing)
  from thread_up_forwards [OF r _ t] t show ?thesis by (auto simp: s_def)
qed

subsection \<open>Errors of the receiver\<close>

text \<open>A refused packet at the head of the receive buffer.\<close>

definition up_stuck :: "up_state \<Rightarrow> bool" where
  "up_stuck s \<longleftrightarrow> rxpkt s \<noteq> [] \<and> buffer_pkt_nb (rx_buffer (up_rx s)) \<noteq> 0 \<and>
     (\<exists>b q. rx_buffer_pop (Some (rx_buffer (up_rx s))) (Some rx_packet_zero) = Inr (LGW_REG_ERROR, b, q))"

lemma up_stuck_turn:
  assumes "up_stuck s"
  shows "thread_up_turn ctx inp s =
      (if 9 \<le> consecutive_rx_errors s then Inl ExitFailure else thread_up_turn ctx inp s)"
    and "consecutive_rx_errors s < 9 \<Longrightarrow>
      \<exists>s'. thread_up_turn ctx inp s = Inr ([], s') \<and> up_stuck s' \<and> consecutive_rx_errors s' = Suc (consecutive_rx_errors s)"
proof -
  obtain rx where r: "lgw_receive ctx inp 255 (rxpkt s) (up_rx s) = Inr (LGW_HAL_ERROR, rxpkt s, rx)" "rx_buffer rx = rx_buffer (up_rx s)"
    using assms lgw_receive_refused [of "up_rx s" _ _ 255 "rxpkt s" ctx inp] unfolding up_stuck_def by auto
  then show "thread_up_turn ctx inp s = (if 9 \<le> consecutive_rx_errors s then Inl ExitFailure else thread_up_turn ctx inp s)"
    and "consecutive_rx_errors s < 9 \<Longrightarrow>
      \<exists>s'. thread_up_turn ctx inp s = Inr ([], s') \<and> up_stuck s' \<and> consecutive_rx_errors s' = Suc (consecutive_rx_errors s)"
    using assms by (auto simp: thread_up_turn_def Let_def up_stuck_def)
qed

lemma up_stuck_run:
  assumes "up_stuck s" and "consecutive_rx_errors s + length inps = 10" and "inps \<noteq> []"
  shows "thread_up_run ctx inps s = Inl ExitFailure"
  using assms
proof (induction inps arbitrary: s)
  case Nil
  then show ?case by simp
next
  case (Cons inp inps)
  show ?case
  proof (cases "inps = []")
    case True
    then have "9 \<le> consecutive_rx_errors s" using Cons.prems(2) by simp
    then show ?thesis using up_stuck_turn(1) [OF Cons.prems(1), of ctx inp] by simp
  next
    case False
    then have "consecutive_rx_errors s < 9" using Cons.prems(2) by (cases inps) auto
    then obtain s' where "thread_up_turn ctx inp s = Inr ([], s')" "up_stuck s'" "consecutive_rx_errors s' = Suc (consecutive_rx_errors s)"
      using up_stuck_turn(2) [OF Cons.prems(1)] by blast
    then show ?thesis using Cons.IH [of s'] Cons.prems(2) False by simp
  qed
qed

text \<open>
  C40. A packet that \<^verbatim>\<open>rx_buffer_pop\<close> refuses with \<^verbatim>\<open>LGW_REG_ERROR\<close>, before it has taken it out of the buffer, ends the daemon: that is a head of the buffer without sync word, or with a modem, channel or
  spreading factor out of range, or no bytes left, while packets are still counted. With such a head of the receive buffer, whatever the hardware
  delivers afterwards, the next ten turns all fail on it, nothing is forwarded, and the tenth turn exits the process. Truncated packets and wrong checksums are answered with another
  code, and a payload CRC mismatch is found after the packet was taken out; they are not meant here.
\<close>

theorem refused_packet_ends_daemon:
  assumes "up_stuck s" and "consecutive_rx_errors s = 0" and "length inps = 10"
  shows "thread_up_run ctx inps s = Inl ExitFailure"
proof -
  have "inps \<noteq> []" using assms(3) by auto
  then show ?thesis using up_stuck_run [of s inps ctx] assms by simp
qed

definition refused_bytes :: "u8 list" where
  "refused_bytes = [0xA5, 0xC0, 0, 0, 0, 18, 0, 0, 0, 0, 0, 0, 0, 0, 0, 0, 0, 0, 0, 0, 0, 0, 119]"

theorem refused_packet_ends_daemon_witness:
  "thread_up_run lgw_context_init (replicate 10 rx_no_input)
     \<lparr>consecutive_rx_errors = 0, rxpkt = [rx_pkt_zero],
      up_rx = rx_state_init\<lparr>rx_buffer := \<lparr>rb_buffer = refused_bytes, buffer_size = 23, buffer_index = 0, buffer_pkt_nb = 1\<rparr>\<rparr>\<rparr> =
   Inl ExitFailure"
proof (rule refused_packet_ends_daemon)
  define r where "r = rx_buffer_pop (Some \<lparr>rb_buffer = refused_bytes, buffer_size = 23, buffer_index = 0, buffer_pkt_nb = 1\<rparr>) (Some rx_packet_zero)"
  have "case r of Inr (e, b, q) \<Rightarrow> e = LGW_REG_ERROR | Inl f \<Rightarrow> False"
    unfolding r_def by code_simp
  then obtain b q where "r = Inr (LGW_REG_ERROR, b, q)"
    by (auto split: sum.splits)
  then show "up_stuck \<lparr>consecutive_rx_errors = 0, rxpkt = [rx_pkt_zero],
      up_rx = rx_state_init\<lparr>rx_buffer := \<lparr>rb_buffer = refused_bytes, buffer_size = 23, buffer_index = 0, buffer_pkt_nb = 1\<rparr>\<rparr>\<rparr>"
    by (simp add: up_stuck_def rx_state_init_def r_def)
qed simp_all

end
