(* ===== verification/Sx1302Tx.thy ===== *)
theory Sx1302Tx
  imports HalConf CDouble
begin

text \<open>
  Programming the transmitter, \<^verbatim>\<open>sx1302_send\<close> and its helpers of \<^verbatim>\<open>libloragw/src/loragw_sx1302.c\<close>. The function is a sequence of register and
  memory writes, each followed by \<^verbatim>\<open>CHECK_ERR\<close>, whose values depend on the packet only: its model is the list of these operations, and running a
  list on a bus stops at the first operation that fails. A register is named as in \<^verbatim>\<open>loragw_reg.h\<close> without the prefix \<^verbatim>\<open>SX1302_REG_\<close>; \<open>RegOf\<close> is a macro
  that selects the register by RF chain. The function also stores the preamble it uses in the caller's packet, which no caller reads.
\<close>

subsection \<open>The bus\<close>

datatype reg = Reg string | RegOf string u8

datatype reg_op =
    RegW reg int
  | RegWB reg "u8 list"
  | MemWB u16 "u8 list"
  | WriteBulk bool
  | Flush
  | Abort
  | Undefined c_fault

text \<open>
  \<open>bus\<close> performs an operation and says whether it succeeded. \<open>Abort\<close> is a \<^verbatim>\<open>return LGW_REG_ERROR\<close> in the middle of the sequence, \<open>Undefined\<close> a
  computation whose behaviour C leaves undefined. The result holds the operations that were issued, the failing one included.
\<close>

fun reg_run :: "(reg_op \<Rightarrow> 'w \<Rightarrow> bool \<times> 'w) \<Rightarrow> reg_op list \<Rightarrow> 'w \<Rightarrow> c_fault + (int \<times> reg_op list \<times> 'w)" where
  "reg_run bus [] w = Inr (LGW_REG_SUCCESS, [], w)"
| "reg_run bus (Abort # xs) w = Inr (LGW_REG_ERROR, [], w)"
| "reg_run bus (Undefined f # xs) w = Inl f"
| "reg_run bus (x # xs) w =
     (case bus x w of
        (False, w') \<Rightarrow> Inr (LGW_REG_ERROR, [x], w')
      | (True, w') \<Rightarrow> res_bind (reg_run bus xs w') (\<lambda>(r, ys, w''). Inr (r, x # ys, w'')))"

subsection \<open>Modem, gain and frequency\<close>

definition select_modem :: "lgw_pkt_tx_s \<Rightarrow> reg_op list" where
  "select_modem p =
     (let cfg = (\<lambda>t s. [RegW (RegOf ''TX_TOP_GEN_CFG_0_MODULATION_TYPE'' (tx_rf_chain p)) t,
                        RegW (RegOf ''TX_TOP_TX_RFFE_IF_CTRL_TX_IF_SRC'' (tx_rf_chain p)) s])
      in if tx_modulation p = MOD_CW then cfg 0 0
         else if tx_modulation p = MOD_LORA then cfg 0 1
         else if tx_modulation p = MOD_FSK then cfg 1 2
         else [Abort])"

text \<open>The last entry of the gain table, counting down, whose power does not exceed the requested one; entry 0 if there is none.\<close>

fun pow_index_down :: "lgw_tx_gain_s list \<Rightarrow> int \<Rightarrow> nat \<Rightarrow> nat" where
  "pow_index_down lut rf_power 0 = 0"
| "pow_index_down lut rf_power (Suc i) =
     (if sint (lut_rf_power (lut ! Suc i)) \<le> rf_power then Suc i else pow_index_down lut rf_power i)"

text \<open>The index is a \<^verbatim>\<open>uint8_t\<close>: an empty table makes it start at 255. \<open>None\<close> is a start outside the table.\<close>

definition tx_pow_index :: "lgw_tx_gain_lut_s \<Rightarrow> u8 \<Rightarrow> nat option" where
  "tx_pow_index lut rf_power =
     (let start = unat (lut_size lut - 1)
      in if length (lut_entries lut) \<le> start then None
         else Some (pow_index_down (lut_entries lut) (sint rf_power) start))"

definition tx_power_ops :: "lgw_radio_type_t \<Rightarrow> lgw_tx_gain_s \<Rightarrow> u8 \<Rightarrow> reg_op list" where
  "tx_power_ops radio_type g rf =
     [RegW (RegOf ''TX_TOP_TX_RFFE_IF_I_OFFSET_I_OFFSET'' rf) (sint (lut_offset_i g)),
      RegW (RegOf ''TX_TOP_TX_RFFE_IF_Q_OFFSET_Q_OFFSET'' rf) (sint (lut_offset_q g))] @
     (let set = (\<lambda>pw :: u8. [RegW (RegOf ''TX_TOP_AGC_TX_PWR_AGC_TX_PWR'' rf) (uint pw)])
      in case radio_type of
           LGW_RADIO_TYPE_SX1250 \<Rightarrow> set (push_bit 6 (if 0 < lut_pa_gain g then 1 else 0) OR lut_pwr_idx g)
         | LGW_RADIO_TYPE_SX1255 \<Rightarrow> set (push_bit 6 (lut_pa_gain g) OR push_bit 4 (lut_dac_gain g) OR lut_mix_gain g)
         | LGW_RADIO_TYPE_SX1257 \<Rightarrow> set (push_bit 6 (lut_pa_gain g) OR push_bit 4 (lut_dac_gain g) OR lut_mix_gain g)
         | _ \<Rightarrow> [Abort]) @
     [RegW (RegOf ''TX_TOP_TX_RFFE_IF_IQ_GAIN_IQ_GAIN'' rf) (uint (lut_dig_gain g))]"

text \<open>The macros compute in 64 bits and truncate the result to 32.\<close>

definition SX1302_FREQ_TO_REG :: "nat \<Rightarrow> u32" where
  "SX1302_FREQ_TO_REG f = of_nat (f * 2 ^ 18 div 32000000)"

definition SX1250_FREQ_TO_REG :: "nat \<Rightarrow> u32" where
  "SX1250_FREQ_TO_REG f = of_nat (f * 2 ^ 25 div 32000000)"

definition byte_of :: "'w::len word \<Rightarrow> nat \<Rightarrow> int" where
  "byte_of x n = uint (drop_bit (8 * n) x AND 0xFF)"

definition tx_freq_reg :: "lgw_radio_type_t \<Rightarrow> u32 \<Rightarrow> u32" where
  "tx_freq_reg radio_type freq_hz =
     (if radio_type = LGW_RADIO_TYPE_SX1255 then SX1302_FREQ_TO_REG (unat freq_hz * 2) else SX1302_FREQ_TO_REG (unat freq_hz))"

definition tx_freq_ops :: "lgw_radio_type_t \<Rightarrow> lgw_pkt_tx_s \<Rightarrow> reg_op list" where
  "tx_freq_ops radio_type p =
     (let freq_reg = tx_freq_reg radio_type (tx_freq_hz p); rf = tx_rf_chain p
      in [RegW (RegOf ''TX_TOP_TX_RFFE_IF_FREQ_RF_H_FREQ_RF'' rf) (byte_of freq_reg 2),
          RegW (RegOf ''TX_TOP_TX_RFFE_IF_FREQ_RF_M_FREQ_RF'' rf) (byte_of freq_reg 1),
          RegW (RegOf ''TX_TOP_TX_RFFE_IF_FREQ_RF_L_FREQ_RF'' rf) (byte_of freq_reg 0)] @
         (if tx_modulation p = MOD_LORA
          then [RegW (RegOf ''TX_TOP_AGC_TX_BW_AGC_TX_BW'' rf) (uint (tx_bandwidth p))]
          else if tx_modulation p = MOD_CW \<or> tx_modulation p = MOD_FSK
          then [RegW (RegOf ''TX_TOP_AGC_TX_BW_AGC_TX_BW'' rf) (uint (0x80 OR tx_bandwidth p))]
          else [Abort]))"

definition tx_freq_dev_ops :: "u8 \<Rightarrow> nat \<Rightarrow> reg_op list" where
  "tx_freq_dev_ops rf freq_dev =
     (let fdev_reg = SX1302_FREQ_TO_REG freq_dev
      in [RegW (RegOf ''TX_TOP_TX_RFFE_IF_FREQ_DEV_H_FREQ_DEV'' rf) (byte_of fdev_reg 1),
          RegW (RegOf ''TX_TOP_TX_RFFE_IF_FREQ_DEV_L_FREQ_DEV'' rf) (byte_of fdev_reg 0)])"

text \<open>The frequency deviation for the firmware of the gain control, which configures the SX1250.\<close>

definition tx_agc_dev_ops :: "nat \<Rightarrow> reg_op list" where
  "tx_agc_dev_ops freq_dev =
     (let fdev_reg = SX1250_FREQ_TO_REG freq_dev
      in [RegW (Reg ''AGC_MCU_MCU_MAIL_BOX_WR_DATA_BYTE2_MCU_MAIL_BOX_WR_DATA'') (byte_of fdev_reg 2),
          RegW (Reg ''AGC_MCU_MCU_MAIL_BOX_WR_DATA_BYTE1_MCU_MAIL_BOX_WR_DATA'') (byte_of fdev_reg 1),
          RegW (Reg ''AGC_MCU_MCU_MAIL_BOX_WR_DATA_BYTE0_MCU_MAIL_BOX_WR_DATA'') (byte_of fdev_reg 0)])"

subsection \<open>Modulation parameters\<close>

text \<open>Continuous wave. An offset of zero divides zero by zero and converts the result to an \<^verbatim>\<open>int\<close>.\<close>

definition tx_cw_ops :: "lgw_pkt_tx_s \<Rightarrow> reg_op list" where
  "tx_cw_ops p =
     (let freq_dev = nat \<lceil>\<bar>flt (of_int (sint (tx_freq_offset p)) / 10)\<bar>\<rceil> * 10000
      in tx_freq_dev_ops (tx_rf_chain p) freq_dev @ tx_agc_dev_ops freq_dev @
         (if freq_dev = 0 then [Undefined UndefinedConversion]
          else [RegW (RegOf ''TX_TOP_TX_RFFE_IF_TEST_MOD_FREQ'' (tx_rf_chain p))
                  (c_trunc (dbl (of_int (sint (tx_freq_offset p) * 64000) / of_nat freq_dev)))]))"

definition tx_lora_preamble :: "u16 \<Rightarrow> u16" where
  "tx_lora_preamble n = (if n = 0 then 8 else if n < 6 then 6 else n)"

definition tx_fsk_preamble :: "u16 \<Rightarrow> u16" where
  "tx_fsk_preamble n = (if n = 0 then 5 else if n < 3 then 3 else n)"

definition SET_PPM_ON :: "u8 \<Rightarrow> u32 \<Rightarrow> bool" where
  "SET_PPM_ON bw dr \<longleftrightarrow> bw = BW_125KHZ \<and> (dr = 11 \<or> dr = 12) \<or> bw = BW_250KHZ \<and> dr = 12"

definition chirp_lowpass :: "u32 \<Rightarrow> nat" where
  "chirp_lowpass dr = (if dr < 10 then 6 else 7)"

definition tx_lora_ops :: "bool \<Rightarrow> lgw_pkt_tx_s \<Rightarrow> reg_op list" where
  "tx_lora_ops lwan_public p =
     (let rf = tx_rf_chain p; preamble = tx_lora_preamble (tx_preamble p); sf56 = (tx_datarate p = 5 \<or> tx_datarate p = 6);
          private = (\<not> lwan_public \<or> sf56)
      in tx_freq_dev_ops rf (nat (lgw_bw_getval (tx_bandwidth p) div 2)) @
         [RegW (RegOf ''TX_TOP_TXRX_CFG0_0_MODEM_BW'' rf) (uint (tx_bandwidth p)),
          RegW (RegOf ''TX_TOP_TXRX_CFG1_3_PREAMBLE_SYMB_NB'' rf) (byte_of preamble 1),
          RegW (RegOf ''TX_TOP_TXRX_CFG1_2_PREAMBLE_SYMB_NB'' rf) (byte_of preamble 0),
          RegW (RegOf ''TX_TOP_TXRX_CFG0_0_MODEM_SF'' rf) (uint (tx_datarate p)),
          RegW (RegOf ''TX_TOP_TX_CFG0_0_CHIRP_LOWPASS'' rf) (int (chirp_lowpass (tx_datarate p))),
          RegW (RegOf ''TX_TOP_TXRX_CFG0_1_CODING_RATE'' rf) (uint (tx_coderate p)),
          RegW (RegOf ''TX_TOP_TXRX_CFG0_2_MODEM_EN'' rf) 1,
          RegW (RegOf ''TX_TOP_TXRX_CFG0_2_CADRXTX'' rf) 2,
          RegW (RegOf ''TX_TOP_TXRX_CFG1_1_MODEM_START'' rf) 1,
          RegW (RegOf ''TX_TOP_TX_CFG0_0_CONTINUOUS'' rf) 0,
          RegW (RegOf ''TX_TOP_TX_CFG0_0_CHIRP_INVERT'' rf) (if tx_invert_pol p then 1 else 0),
          RegW (RegOf ''TX_TOP_TXRX_CFG0_2_IMPLICIT_HEADER'' rf) (if tx_no_header p then 1 else 0),
          RegW (RegOf ''TX_TOP_TXRX_CFG0_2_CRC_EN'' rf) (if tx_no_crc p then 0 else 1),
          RegW (RegOf ''TX_TOP_FRAME_SYNCH_0_PEAK1_POS'' rf) (if private then 2 else 6),
          RegW (RegOf ''TX_TOP_FRAME_SYNCH_1_PEAK2_POS'' rf) (if private then 4 else 8),
          RegW (RegOf ''TX_TOP_TXRX_CFG0_2_FINE_SYNCH_EN'' rf) (if sf56 then 1 else 0),
          RegW (RegOf ''TX_TOP_TXRX_CFG0_3_PAYLOAD_LENGTH'' rf) (uint (tx_size p)),
          RegW (RegOf ''TX_TOP_TXRX_CFG0_1_PPM_OFFSET_HDR_CTRL'' rf) 0,
          RegW (RegOf ''TX_TOP_TXRX_CFG0_1_PPM_OFFSET'' rf) (if SET_PPM_ON (tx_bandwidth p) (tx_datarate p) then 1 else 0)])"

text \<open>
  FSK. The sync word is shifted by \<open>8 * (8 - size)\<close> bits: a size of zero or more than eight shifts by an amount outside the width of the type, which is
  undefined.
\<close>

definition tx_fsk_ops :: "lgw_conf_rxif_s \<Rightarrow> lgw_pkt_tx_s \<Rightarrow> reg_op list" where
  "tx_fsk_ops fsk p =
     (let rf = tx_rf_chain p; n = unat (if_sync_word_size fsk);
          sync = push_bit (8 * (8 - n)) (if_sync_word fsk);
          br = (32000000 div tx_datarate p :: u32);
          preamble = tx_fsk_preamble (tx_preamble p);
          freq_dev = unat (tx_f_dev p) * 1000
      in tx_freq_dev_ops rf freq_dev @ tx_agc_dev_ops freq_dev @
         [RegW (RegOf ''TX_TOP_FSK_CFG_0_PKT_MODE'' rf) 1,
          RegW (RegOf ''TX_TOP_FSK_CFG_0_CRC_EN'' rf) (if tx_no_crc p then 0 else 1),
          RegW (RegOf ''TX_TOP_FSK_CFG_0_CRC_IBM'' rf) 0,
          RegW (RegOf ''TX_TOP_FSK_CFG_0_DCFREE_ENC'' rf) 2,
          RegW (RegOf ''TX_TOP_FSK_MOD_FSK_GAUSSIAN_EN'' rf) 1,
          RegW (RegOf ''TX_TOP_FSK_MOD_FSK_GAUSSIAN_SELECT_BT'' rf) 2,
          RegW (RegOf ''TX_TOP_FSK_MOD_FSK_REF_PATTERN_EN'' rf) 1,
          RegW (RegOf ''TX_TOP_FSK_MOD_FSK_REF_PATTERN_SIZE'' rf) (int n - 1)] @
         (if n = 0 \<or> 8 < n then [Undefined UndefinedConversion] else []) @
         [RegW (RegOf ''TX_TOP_FSK_REF_PATTERN_BYTE0_FSK_REF_PATTERN'' rf) (byte_of sync 0),
          RegW (RegOf ''TX_TOP_FSK_REF_PATTERN_BYTE1_FSK_REF_PATTERN'' rf) (byte_of sync 1),
          RegW (RegOf ''TX_TOP_FSK_REF_PATTERN_BYTE2_FSK_REF_PATTERN'' rf) (byte_of sync 2),
          RegW (RegOf ''TX_TOP_FSK_REF_PATTERN_BYTE3_FSK_REF_PATTERN'' rf) (byte_of sync 3),
          RegW (RegOf ''TX_TOP_FSK_REF_PATTERN_BYTE4_FSK_REF_PATTERN'' rf) (byte_of sync 4),
          RegW (RegOf ''TX_TOP_FSK_REF_PATTERN_BYTE5_FSK_REF_PATTERN'' rf) (byte_of sync 5),
          RegW (RegOf ''TX_TOP_FSK_REF_PATTERN_BYTE6_FSK_REF_PATTERN'' rf) (byte_of sync 6),
          RegW (RegOf ''TX_TOP_FSK_REF_PATTERN_BYTE7_FSK_REF_PATTERN'' rf) (byte_of sync 7),
          RegW (RegOf ''TX_TOP_FSK_MOD_FSK_PREAMBLE_SEQ'' rf) 0] @
         (if tx_datarate p = 0 then [Undefined DivisionByZero] else []) @
         [RegWB (RegOf ''TX_TOP_FSK_BIT_RATE_MSB_BIT_RATE'' rf) [ucast (drop_bit 8 br), ucast br],
          RegWB (RegOf ''TX_TOP_FSK_PREAMBLE_SIZE_MSB_PREAMBLE_SIZE'' rf) [ucast (drop_bit 8 preamble), ucast preamble],
          RegW (RegOf ''TX_TOP_FSK_PKT_LEN_PKT_LENGTH'' rf) (uint (tx_size p))])"

definition tx_modem_ops :: "bool \<Rightarrow> lgw_conf_rxif_s \<Rightarrow> lgw_pkt_tx_s \<Rightarrow> reg_op list" where
  "tx_modem_ops lwan_public fsk p =
     (if tx_modulation p = MOD_CW then tx_cw_ops p
      else if tx_modulation p = MOD_LORA then tx_lora_ops lwan_public p
      else if tx_modulation p = MOD_FSK then tx_fsk_ops fsk p
      else [Abort])"

subsection \<open>Start delay, payload and trigger\<close>

definition radio_bw_delay :: "lgw_radio_type_t \<Rightarrow> u8 \<Rightarrow> u16 option" where
  "radio_bw_delay radio_type bw =
     (case radio_type of
        LGW_RADIO_TYPE_SX1250 \<Rightarrow>
          if bw = BW_125KHZ then Some 19 else if bw = BW_250KHZ then Some 24 else if bw = BW_500KHZ then Some 21 else None
      | LGW_RADIO_TYPE_SX1255 \<Rightarrow>
          if bw = BW_125KHZ then Some 100 else if bw = BW_250KHZ then Some 106 else if bw = BW_500KHZ then Some 100 else None
      | LGW_RADIO_TYPE_SX1257 \<Rightarrow>
          if bw = BW_125KHZ then Some 100 else if bw = BW_250KHZ then Some 106 else if bw = BW_500KHZ then Some 100 else None
      | _ \<Rightarrow> None)"

definition sx1302_tx_set_start_delay :: "u8 \<Rightarrow> lgw_radio_type_t \<Rightarrow> u8 \<Rightarrow> u8 \<Rightarrow> nat \<Rightarrow> reg_op list \<times> u16" where
  "sx1302_tx_set_start_delay rf radio_type modulation bw lowpass =
     (if modulation \<noteq> MOD_LORA then ([], 0)
      else case radio_bw_delay radio_type bw of
             None \<Rightarrow> ([Abort], 0)
           | Some d \<Rightarrow>
               let bw_hz = of_int (lgw_bw_getval bw) :: rat;
                   filter_delay = (of_int (c_trunc (dbl (dbl ((2 ^ lowpass - 1) * 10 ^ 6) / bw_hz))) :: u16);
                   modem_delay = (of_int (c_trunc (dbl (8 * dbl (32 * 10 ^ 6 / (32 * bw_hz))))) :: u16);
                   delay = 48000 - (d + filter_delay + modem_delay)
               in ([RegWB (RegOf ''TX_TOP_TX_START_DELAY_MSB_TX_START_DELAY'' rf) [ucast (drop_bit 8 delay), ucast delay]], delay))"

definition tx_payload_ops :: "lgw_pkt_tx_s \<Rightarrow> reg_op list" where
  "tx_payload_ops p =
     (let rf = tx_rf_chain p; mem_addr = (if rf = 0 then 0x5300 else 0x5500);
          bytes = take (unat (tx_size p)) (tx_payload p)
      in [RegW (RegOf ''TX_TOP_TX_CTRL_WRITE_BUFFER'' rf) 1] @
         (if tx_modulation p = MOD_FSK then [MemWB mem_addr [ucast (tx_size p)]] else []) @
         (if length (tx_payload p) < unat (tx_size p) then [Undefined OutOfBounds]
          else [MemWB (if tx_modulation p = MOD_FSK then mem_addr + 1 else mem_addr) bytes]) @
         [RegW (RegOf ''TX_TOP_TX_CTRL_WRITE_BUFFER'' rf) 0])"

definition tx_trigger_ops :: "lgw_pkt_tx_s \<Rightarrow> u16 \<Rightarrow> reg_op list" where
  "tx_trigger_ops p delay =
     (let rf = tx_rf_chain p; fire = (\<lambda>r. [RegW (RegOf r rf) 0, RegW (RegOf r rf) 1])
      in if tx_mode p = IMMEDIATE then fire ''TX_TOP_TX_TRIG_TX_TRIG_IMMEDIATE''
         else if tx_mode p = TIMESTAMPED
         then let count_us = tx_count_us p * 32 - ucast delay
              in [RegW (RegOf ''TX_TOP_TIMER_TRIG_BYTE0_TIMER_DELAYED_TRIG'' rf) (byte_of count_us 0),
                  RegW (RegOf ''TX_TOP_TIMER_TRIG_BYTE1_TIMER_DELAYED_TRIG'' rf) (byte_of count_us 1),
                  RegW (RegOf ''TX_TOP_TIMER_TRIG_BYTE2_TIMER_DELAYED_TRIG'' rf) (byte_of count_us 2),
                  RegW (RegOf ''TX_TOP_TIMER_TRIG_BYTE3_TIMER_DELAYED_TRIG'' rf) (byte_of count_us 3)] @
                 fire ''TX_TOP_TX_TRIG_TX_TRIG_DELAYED''
         else if tx_mode p = ON_GPS then fire ''TX_TOP_TX_TRIG_TX_TRIG_GPS''
         else [Abort])"

subsection \<open>The whole sequence\<close>

definition sx1302_send_ops ::
    "lgw_radio_type_t \<Rightarrow> lgw_tx_gain_lut_s \<Rightarrow> bool \<Rightarrow> lgw_conf_rxif_s \<Rightarrow> lgw_pkt_tx_s \<Rightarrow> reg_op list" where
  "sx1302_send_ops radio_type lut lwan_public fsk p =
     (case sx1302_tx_set_start_delay (tx_rf_chain p) radio_type (tx_modulation p) (tx_bandwidth p)
             (if tx_modulation p = MOD_LORA then chirp_lowpass (tx_datarate p) else 0) of
        (delay_ops, delay) \<Rightarrow>
          [WriteBulk True] @ select_modem p @
          (case tx_pow_index lut (tx_rf_power p) of
             None \<Rightarrow> [Undefined OutOfBounds]
           | Some i \<Rightarrow> tx_power_ops radio_type (lut_entries lut ! i) (tx_rf_chain p)) @
          tx_freq_ops radio_type p @ tx_modem_ops lwan_public fsk p @ delay_ops @ tx_payload_ops p @ tx_trigger_ops p delay @
          [Flush, WriteBulk False])"

definition sx1302_send ::
    "(reg_op \<Rightarrow> 'w \<Rightarrow> bool \<times> 'w) \<Rightarrow> lgw_radio_type_t \<Rightarrow> lgw_tx_gain_lut_s \<Rightarrow> bool \<Rightarrow> lgw_conf_rxif_s \<Rightarrow> lgw_pkt_tx_s \<Rightarrow> 'w \<Rightarrow>
     c_fault + (int \<times> reg_op list \<times> 'w)" where
  "sx1302_send bus radio_type lut lwan_public fsk p w = reg_run bus (sx1302_send_ops radio_type lut lwan_public fsk p) w"

end
