(* ===== verification/HalTx.thy ===== *)
theory HalTx
  imports Sx1302Tx TimeOnAir
begin

text \<open>
  Sending: \<^verbatim>\<open>lgw_send\<close>, \<^verbatim>\<open>lgw_status\<close> and \<^verbatim>\<open>lgw_abort_tx\<close> of \<^verbatim>\<open>libloragw/src/loragw_hal.c\<close>, listen-before-talk of \<^verbatim>\<open>libloragw/src/loragw_lbt.c\<close>, and
  the status functions of \<^verbatim>\<open>libloragw/src/loragw_sx1302.c\<close>. The state \<open>'w\<close> is the hardware; a record holds what it does on each access.
\<close>

subsection \<open>The hardware\<close>

text \<open>
  The register bus, the DAC on the I2C bus, and the commands of the SX1261 radio. The polling loops of the source read a status until it has the wanted value
  or a time limit is reached: \<open>hw_agc_polls\<close> and \<open>hw_tx_polls\<close> give the results and values of the readings that fit into the time limit.
\<close>

record 'w tx_hw =
  hw_bus :: "reg_op \<Rightarrow> 'w \<Rightarrow> bool \<times> 'w"
  hw_dac :: "u8 list \<Rightarrow> 'w \<Rightarrow> int \<times> 'w"
  hw_set_rx_params :: "u32 \<Rightarrow> u8 \<Rightarrow> 'w \<Rightarrow> int \<times> 'w"
  hw_lbt_start :: "int \<Rightarrow> u8 \<Rightarrow> 'w \<Rightarrow> int \<times> 'w"
  hw_lbt_stop :: "'w \<Rightarrow> int \<times> 'w"
  hw_agc_polls :: "'w \<Rightarrow> (int \<times> u8) list \<times> 'w"
  hw_tx_polls :: "u8 \<Rightarrow> 'w \<Rightarrow> (int \<times> int) list \<times> 'w"

datatype 'a poll = PollTimeout | PollFail | PollDone 'a

fun poll_until :: "('a \<Rightarrow> bool) \<Rightarrow> (int \<times> 'a) list \<Rightarrow> 'a poll" where
  "poll_until stop [] = PollTimeout"
| "poll_until stop ((err, v) # xs) = (if err \<noteq> 0 then PollFail else if stop v then PollDone v else poll_until stop xs)"

subsection \<open>Status of the transmitter\<close>

abbreviation (input) TX_STATUS :: u8 where "TX_STATUS \<equiv> 1"
abbreviation (input) RX_STATUS :: u8 where "RX_STATUS \<equiv> 2"
abbreviation (input) TX_STATUS_UNKNOWN :: u8 where "TX_STATUS_UNKNOWN \<equiv> 0"
abbreviation (input) TX_OFF :: u8 where "TX_OFF \<equiv> 1"
abbreviation (input) TX_FREE :: u8 where "TX_FREE \<equiv> 2"
abbreviation (input) TX_SCHEDULED :: u8 where "TX_SCHEDULED \<equiv> 3"
abbreviation (input) TX_EMITTING :: u8 where "TX_EMITTING \<equiv> 4"
abbreviation (input) RX_STATUS_UNKNOWN :: u8 where "RX_STATUS_UNKNOWN \<equiv> 0"
abbreviation (input) RX_OFF :: u8 where "RX_OFF \<equiv> 1"

text \<open>The argument is the result and the value of the register read.\<close>

definition sx1302_tx_status :: "int \<times> int \<Rightarrow> u8" where
  "sx1302_tx_status rd =
     (case rd of (err, v) \<Rightarrow>
        if err \<noteq> LGW_REG_SUCCESS then TX_STATUS_UNKNOWN
        else if v = 0x80 then TX_FREE
        else if v = 0x30 \<or> v = 0x50 \<or> v = 0x60 \<or> v = 0x70 then TX_EMITTING
        else if v = 0x91 \<or> v = 0x92 then TX_SCHEDULED
        else TX_STATUS_UNKNOWN)"

definition sx1302_rx_status :: "u8 \<Rightarrow> u8" where
  "sx1302_rx_status rf_chain = RX_STATUS_UNKNOWN"

definition lgw_status :: "lgw_context_t \<Rightarrow> int \<times> int \<Rightarrow> u8 \<Rightarrow> u8 \<Rightarrow> int \<times> u8 option" where
  "lgw_status ctx rd rf_chain select =
     (if LGW_RF_CHAIN_NB \<le> unat rf_chain then (LGW_HAL_ERROR, None)
      else if select = TX_STATUS
      then (LGW_HAL_SUCCESS, Some (if \<not> is_started ctx then TX_OFF else sx1302_tx_status rd))
      else if select = RX_STATUS
      then (LGW_HAL_SUCCESS, Some (if \<not> is_started ctx then RX_OFF else sx1302_rx_status rf_chain))
      else (LGW_HAL_ERROR, None))"

text \<open>The three writes are all made, then their results are looked at.\<close>

definition sx1302_tx_abort :: "'w tx_hw \<Rightarrow> u8 \<Rightarrow> 'w \<Rightarrow> int \<times> 'w" where
  "sx1302_tx_abort hw rf w0 =
     (case hw_bus hw (RegW (RegOf ''TX_TOP_TX_TRIG_TX_TRIG_IMMEDIATE'' rf) 0) w0 of (ok1, w1) \<Rightarrow>
      case hw_bus hw (RegW (RegOf ''TX_TOP_TX_TRIG_TX_TRIG_DELAYED'' rf) 0) w1 of (ok2, w2) \<Rightarrow>
      case hw_bus hw (RegW (RegOf ''TX_TOP_TX_TRIG_TX_TRIG_GPS'' rf) 0) w2 of (ok3, w3) \<Rightarrow>
        if \<not> (ok1 \<and> ok2 \<and> ok3) then (LGW_REG_ERROR, w3)
        else case hw_tx_polls hw rf w3 of (rds, w4) \<Rightarrow>
          (if list_ex (\<lambda>rd. sx1302_tx_status rd = TX_FREE) rds then LGW_REG_SUCCESS else LGW_REG_ERROR, w4))"

definition lgw_abort_tx :: "'w tx_hw \<Rightarrow> u8 \<Rightarrow> 'w \<Rightarrow> int \<times> 'w" where
  "lgw_abort_tx hw rf_chain w =
     (if LGW_RF_CHAIN_NB \<le> unat rf_chain then (LGW_HAL_ERROR, w) else sx1302_tx_abort hw rf_chain w)"

subsection \<open>Listen before talk\<close>

definition is_equal_freq :: "u32 \<Rightarrow> u32 \<Rightarrow> bool" where
  "is_equal_freq a b \<longleftrightarrow> \<bar>uint a - uint b\<bar> \<le> 10000"

text \<open>The scan over the configured channels; their number is not bounded by the size of the array.\<close>

function lbt_scan :: "lgw_conf_lbt_s \<Rightarrow> u32 \<Rightarrow> u8 \<Rightarrow> nat \<Rightarrow> c_fault + nat option" where
  "lbt_scan lbt freq_hz bw i =
     (if i < unat (lbt_nb_channel lbt)
      then if length (lbt_channels lbt) \<le> i then Inl OutOfBounds
           else if is_equal_freq freq_hz (lbtc_freq_hz (lbt_channels lbt ! i)) \<and> bw = lbtc_bandwidth (lbt_channels lbt ! i)
           then Inr (Some i)
           else lbt_scan lbt freq_hz bw (Suc i)
      else Inr None)"
  by pat_completeness auto
termination
  by (relation "measure (\<lambda>(lbt, f, b, i). unat (lbt_nb_channel lbt) - i)") auto

declare lbt_scan.simps [simp del]

definition is_lbt_channel :: "lgw_conf_lbt_s \<Rightarrow> u32 \<Rightarrow> u8 \<Rightarrow> c_fault + nat option" where
  "is_lbt_channel lbt freq_hz bw = lbt_scan lbt freq_hz bw 0"

text \<open>The air time is multiplied in 32 bits.\<close>

definition lgw_lbt_start :: "'w tx_hw \<Rightarrow> u8 \<Rightarrow> lgw_conf_sx1261_s \<Rightarrow> lgw_pkt_tx_s \<Rightarrow> 'w \<Rightarrow> c_fault + (int \<times> 'w)" where
  "lgw_lbt_start hw fsk_sync_word_size sx p w =
     res_bind (is_lbt_channel (sx_lbt_conf sx) (tx_freq_hz p) (tx_bandwidth p)) (\<lambda>sel.
       case sel of
         None \<Rightarrow> Inr (-1, w)
       | Some i \<Rightarrow>
           let ch = lbt_channels (sx_lbt_conf sx) ! i; limit = int (unat (lbtc_transmit_time_ms ch)) * 1000
           in if limit \<le> 1500 then Inr (-1, w)
              else if (of_int (limit - 1500) :: u32) < lgw_time_on_air fsk_sync_word_size (Some p) * 1000 then Inr (-1, w)
              else case hw_set_rx_params hw (tx_freq_hz p) (tx_bandwidth p) w of (e1, w1) \<Rightarrow>
                if e1 \<noteq> 0 then Inr (-1, w1)
                else case hw_lbt_start hw (lbtc_scan_time_us ch) (lbt_rssi_target (sx_lbt_conf sx) + sx_rssi_offset sx) w1 of (e2, w2) \<Rightarrow>
                  Inr (if e2 \<noteq> 0 then -1 else 0, w2))"

definition agc_mailbox0 :: "int \<Rightarrow> reg_op" where
  "agc_mailbox0 v = RegW (Reg ''AGC_MCU_MCU_MAIL_BOX_WR_DATA_BYTE0_MCU_MAIL_BOX_WR_DATA'') v"

text \<open>Whether the transmission was allowed is known only when it was initiated in time.\<close>

definition lgw_lbt_tx_status :: "'w tx_hw \<Rightarrow> u8 \<Rightarrow> 'w \<Rightarrow> int \<times> bool option \<times> 'w" where
  "lgw_lbt_tx_status hw rf_chain w0 =
     (case hw_agc_polls hw w0 of (rds1, w1) \<Rightarrow>
      case poll_until (\<lambda>v. bit v (unat rf_chain)) rds1 of
        PollFail \<Rightarrow> (-1, None, w1)
      | r1 \<Rightarrow>
          (let tx_ok = (case r1 of PollDone v \<Rightarrow> Some (TAKE_N_BITS_FROM v (if rf_chain = 0 then 6 else 7) 1 = 0) | _ \<Rightarrow> None)
           in case hw_bus hw (agc_mailbox0 0xFF) w1 of (_, w2) \<Rightarrow>
              case hw_agc_polls hw w2 of (rds2, w3) \<Rightarrow>
              case poll_until (\<lambda>v. v = 0) rds2 of
                PollFail \<Rightarrow> (-1, tx_ok, w3)
              | r2 \<Rightarrow> (case hw_bus hw (agc_mailbox0 0) w3 of (_, w4) \<Rightarrow>
                  (if r1 = PollTimeout \<or> r2 = PollTimeout then -1 else 0, tx_ok, w4))))"

definition lgw_lbt_stop :: "'w tx_hw \<Rightarrow> 'w \<Rightarrow> int \<times> 'w" where
  "lgw_lbt_stop hw w = (case hw_lbt_stop hw w of (e, w') \<Rightarrow> (if e \<noteq> 0 then -1 else 0, w'))"

subsection \<open>Sending\<close>

text \<open>The checks of the packet against the configuration; the answer is whether the packet is accepted.\<close>

definition send_accepts :: "lgw_context_t \<Rightarrow> lgw_pkt_tx_s \<Rightarrow> bool" where
  "send_accepts ctx p \<longleftrightarrow>
     (if LGW_RF_CHAIN_NB \<le> unat (tx_rf_chain p) then False
      else if \<not> rf_tx_enable (rf_chain_cfg ctx ! unat (tx_rf_chain p)) then False
      else if \<not> rf_enable (rf_chain_cfg ctx ! unat (tx_rf_chain p)) then False
      else if \<not> IS_TX_MODE (tx_mode p) then False
      else if tx_modulation p = MOD_LORA
      then IS_LORA_BW (tx_bandwidth p) \<and> IS_LORA_DR (tx_datarate p) \<and> IS_LORA_CR (tx_coderate p) \<and> tx_size p \<le> 255
      else if tx_modulation p = MOD_FSK
      then 1 \<le> tx_f_dev p \<and> tx_f_dev p \<le> 200 \<and> IS_FSK_DR (tx_datarate p) \<and> tx_size p \<le> 255
      else tx_modulation p = MOD_CW)"

text \<open>The calls a send makes, with their results: they are part of the result of the model.\<close>

datatype tx_call =
    CallDac int
  | CallLbtStart int
  | CallSend int "reg_op list"
  | CallLbtStatus int "bool option"
  | CallTxAbort int
  | CallLbtStop int

text \<open>Listen-before-talk after the packet was programmed.\<close>

definition send_lbt_end :: "'w tx_hw \<Rightarrow> u8 \<Rightarrow> 'w \<Rightarrow> int \<times> tx_call list \<times> 'w" where
  "send_lbt_end hw rf w0 =
     (case lgw_lbt_tx_status hw rf w0 of (e1, allowed, w1) \<Rightarrow>
        if e1 \<noteq> 0
        then case sx1302_tx_abort hw rf w1 of (e2, w2) \<Rightarrow>
             case lgw_lbt_stop hw w2 of (e3, w3) \<Rightarrow>
               (LGW_HAL_ERROR, [CallLbtStatus e1 allowed, CallTxAbort e2, CallLbtStop e3], w3)
        else case lgw_lbt_stop hw w1 of (e2, w2) \<Rightarrow>
               (if e2 \<noteq> 0 then LGW_HAL_ERROR else if allowed = Some False then LGW_LBT_NOT_ALLOWED else LGW_HAL_SUCCESS,
                [CallLbtStatus e1 allowed, CallLbtStop e2], w2))"

definition send_program :: "'w tx_hw \<Rightarrow> lgw_context_t \<Rightarrow> lgw_pkt_tx_s \<Rightarrow> 'w \<Rightarrow> c_fault + (int \<times> tx_call list \<times> 'w)" where
  "send_program hw ctx p w0 =
     (let rf = unat (tx_rf_chain p); lbt = lbt_enable (sx_lbt_conf (sx1261_cfg ctx))
      in res_bind (sx1302_send (hw_bus hw) (rf_type (rf_chain_cfg ctx ! rf)) (tx_gain_lut ctx ! rf) (bd_lorawan_public (board_cfg ctx)) (fsk_cfg ctx) p w0)
           (\<lambda>(e, ops, w1).
             if e \<noteq> LGW_REG_SUCCESS
             then if lbt then case lgw_lbt_stop hw w1 of (e2, w2) \<Rightarrow> Inr (LGW_HAL_ERROR, [CallSend e ops, CallLbtStop e2], w2)
                  else Inr (LGW_HAL_ERROR, [CallSend e ops], w1)
             else if lbt then case send_lbt_end hw (tx_rf_chain p) w1 of (r, cs, w2) \<Rightarrow> Inr (r, CallSend e ops # cs, w2)
             else Inr (LGW_HAL_SUCCESS, [CallSend e ops], w1)))"

definition send_with_lbt :: "'w tx_hw \<Rightarrow> lgw_context_t \<Rightarrow> lgw_pkt_tx_s \<Rightarrow> 'w \<Rightarrow> c_fault + (int \<times> tx_call list \<times> 'w)" where
  "send_with_lbt hw ctx p w0 =
     (if lbt_enable (sx_lbt_conf (sx1261_cfg ctx))
      then res_bind (lgw_lbt_start hw (if_sync_word_size (fsk_cfg ctx)) (sx1261_cfg ctx) p w0) (\<lambda>(e, w1).
             if e \<noteq> 0 then Inr (LGW_HAL_ERROR, [CallLbtStart e], w1)
             else res_bind (send_program hw ctx p w1) (\<lambda>(r, cs, w2). Inr (r, CallLbtStart e # cs, w2)))
      else send_program hw ctx p w0)"

text \<open>The DAC is set to 2.51 V.\<close>

definition lgw_send :: "'w tx_hw \<Rightarrow> lgw_context_t \<Rightarrow> lgw_pkt_tx_s option \<Rightarrow> 'w \<Rightarrow> c_fault + (int \<times> tx_call list \<times> 'w)" where
  "lgw_send hw ctx pkt_data w0 =
     (if \<not> is_started ctx then Inr (LGW_HAL_ERROR, [], w0)
      else case pkt_data of
             None \<Rightarrow> Inr (LGW_HAL_ERROR, [], w0)
           | Some p \<Rightarrow>
               if \<not> send_accepts ctx p then Inr (LGW_HAL_ERROR, [], w0)
               else if bd_full_duplex (board_cfg ctx)
               then case hw_dac hw [0x39, 128, 128] w0 of (e, w1) \<Rightarrow>
                 if e \<noteq> 0 then Inr (LGW_HAL_ERROR, [CallDac e], w1)
                 else res_bind (send_with_lbt hw ctx p w1) (\<lambda>(r, cs, w2). Inr (r, CallDac e # cs, w2))
               else send_with_lbt hw ctx p w0)"

end
