(* ===== verification/HalTxProps.thy ===== *)
theory HalTxProps
  imports HalTx HalConfProps "HOL-Library.Sublist"
begin

text \<open>
  What a send does to the transmitter: it is triggered only when everything else was written, the registers hold what the packet asks for, and a
  listen-before-talk session that was started is always stopped.
\<close>

subsection \<open>Runs of register operations\<close>

fun op_plain :: "reg_op \<Rightarrow> bool" where
  "op_plain Abort = False"
| "op_plain (Undefined f) = False"
| "op_plain x = True"

lemma reg_run_plain:
  assumes "op_plain x"
  shows "reg_run bus (x # xs) w =
     (case bus x w of
        (False, w') \<Rightarrow> Inr (LGW_REG_ERROR, [x], w')
      | (True, w') \<Rightarrow> res_bind (reg_run bus xs w') (\<lambda>(r, ys, w''). Inr (r, x # ys, w'')))"
  using assms by (cases x; hypsubst; simp)

lemma reg_run_issued:
  assumes "list_all op_plain ops"
  shows "\<exists>r issued w'. reg_run bus ops w = Inr (r, issued, w') \<and>
    (r = LGW_REG_SUCCESS \<and> issued = ops \<or> r = LGW_REG_ERROR \<and> issued \<noteq> [] \<and> prefix issued ops)"
  using assms
proof (induction ops arbitrary: w)
  case Nil
  then show ?case by simp
next
  case (Cons x xs)
  obtain ok w1 where b: "bus x w = (ok, w1)" by (cases "bus x w")
  obtain r issued w2 where IH: "reg_run bus xs w1 = Inr (r, issued, w2)"
      "r = LGW_REG_SUCCESS \<and> issued = xs \<or> r = LGW_REG_ERROR \<and> issued \<noteq> [] \<and> prefix issued xs"
    using Cons.IH [of w1] Cons.prems by auto
  show ?case using b IH Cons.prems by (cases ok) (auto simp: reg_run_plain)
qed

subsection \<open>The operations of a send\<close>

definition tx_radio_ok :: "lgw_radio_type_t \<Rightarrow> bool" where
  "tx_radio_ok t \<longleftrightarrow> t \<in> {LGW_RADIO_TYPE_SX1255, LGW_RADIO_TYPE_SX1257, LGW_RADIO_TYPE_SX1250}"

definition tx_packet_ok :: "lgw_conf_rxif_s \<Rightarrow> lgw_pkt_tx_s \<Rightarrow> bool" where
  "tx_packet_ok fsk p \<longleftrightarrow> IS_TX_MODE (tx_mode p) \<and> length (tx_payload p) = 256 \<and> tx_size p \<le> 255 \<and>
     (tx_modulation p = MOD_LORA \<and> IS_LORA_BW (tx_bandwidth p) \<or>
      tx_modulation p = MOD_FSK \<and> tx_datarate p \<noteq> 0 \<and> 1 \<le> unat (if_sync_word_size fsk) \<and> unat (if_sync_word_size fsk) \<le> 8)"

text \<open>The operations before the trigger: configuration, payload, and the time of a timestamped packet.\<close>

definition tx_fires :: "reg_op \<Rightarrow> bool" where
  "tx_fires x \<longleftrightarrow> (\<exists>r rf. x = RegW (RegOf r rf) 1 \<and>
     r \<in> {''TX_TOP_TX_TRIG_TX_TRIG_IMMEDIATE'', ''TX_TOP_TX_TRIG_TX_TRIG_DELAYED'', ''TX_TOP_TX_TRIG_TX_TRIG_GPS''})"

lemma pow_index_down_le: "pow_index_down lut rf_power i \<le> i"
  by (induction i) auto

lemma tx_pow_index_some:
  assumes "lut_ok lut"
  shows "tx_pow_index lut rf_power = Some (pow_index_down (lut_entries lut) (sint rf_power) (unat (lut_size lut) - 1))"
proof -
  have "lut_size lut \<noteq> 0" using assms by (auto simp: lut_ok_def)
  then have "unat (lut_size lut - 1) = unat (lut_size lut) - 1" by (simp add: unat_minus_one)
  then show ?thesis using assms by (auto simp: tx_pow_index_def Let_def lut_ok_def)
qed

text \<open>Everything up to the trigger, and the trigger.\<close>

definition tx_config_ops ::
    "lgw_radio_type_t \<Rightarrow> lgw_tx_gain_lut_s \<Rightarrow> bool \<Rightarrow> lgw_conf_rxif_s \<Rightarrow> lgw_pkt_tx_s \<Rightarrow> reg_op list" where
  "tx_config_ops radio_type lut lwan_public fsk p =
     (let ops = sx1302_send_ops radio_type lut lwan_public fsk p in take (length ops - 3) ops)"

lemma send_ops_plain:
  assumes "tx_radio_ok t" and "lut_ok lut" and "tx_packet_ok fsk p"
  shows "list_all op_plain (sx1302_send_ops t lut pub fsk p)"
proof -
  have m: "list_all op_plain (select_modem p)" "list_all op_plain (tx_freq_ops t p)" "list_all op_plain (tx_modem_ops pub fsk p)"
    using assms(3) by (auto simp: tx_packet_ok_def select_modem_def tx_freq_ops_def tx_modem_ops_def tx_lora_ops_def tx_fsk_ops_def
        tx_freq_dev_ops_def tx_agc_dev_ops_def Let_def)
  have pw: "list_all op_plain (tx_power_ops t g rf)" for g rf
    using assms(1) by (auto simp: tx_radio_ok_def tx_power_ops_def Let_def)
  have d: "list_all op_plain (fst (sx1302_tx_set_start_delay rf t (tx_modulation p) (tx_bandwidth p) lp))" for rf lp
    using assms(1,3) by (auto simp: tx_radio_ok_def tx_packet_ok_def sx1302_tx_set_start_delay_def radio_bw_delay_def IS_LORA_BW_def Let_def)
  have sz: "unat (tx_size p) \<le> 255" using assms(3) by (auto simp: tx_packet_ok_def word_le_nat_alt)
  have pay: "list_all op_plain (tx_payload_ops p)" "list_all op_plain (tx_trigger_ops p dl)" for dl
    using assms(3) sz by (auto simp: tx_packet_ok_def tx_payload_ops_def tx_trigger_ops_def IS_TX_MODE_def Let_def)
  show ?thesis
    using m pw d [of "tx_rf_chain p"] pay by (auto simp: sx1302_send_ops_def tx_pow_index_some [OF assms(2)] split: prod.splits) (metis fst_conv)+
qed

lemma no_fire_sections:
  assumes "tx_packet_ok fsk p"
  shows "list_all (\<lambda>x. \<not> tx_fires x) (select_modem p)" "list_all (\<lambda>x. \<not> tx_fires x) (tx_freq_ops t p)"
    "list_all (\<lambda>x. \<not> tx_fires x) (tx_modem_ops pub fsk p)" "list_all (\<lambda>x. \<not> tx_fires x) (tx_power_ops t g rf)"
    "list_all (\<lambda>x. \<not> tx_fires x) (fst (sx1302_tx_set_start_delay rf t md bw lp))" "list_all (\<lambda>x. \<not> tx_fires x) (tx_payload_ops p)"
  using assms
  by (auto simp: tx_packet_ok_def select_modem_def tx_freq_ops_def tx_modem_ops_def tx_lora_ops_def tx_fsk_ops_def tx_power_ops_def
      tx_freq_dev_ops_def tx_agc_dev_ops_def sx1302_tx_set_start_delay_def tx_payload_ops_def tx_fires_def Let_def
      split: option.splits lgw_radio_type_t.splits)

lemma trigger_split:
  assumes "IS_TX_MODE (tx_mode p)"
  shows "\<exists>cs x. tx_trigger_ops p dl = cs @ [x] \<and> tx_fires x \<and> list_all (\<lambda>x. \<not> tx_fires x) cs"
  using assms by (auto simp: IS_TX_MODE_def tx_trigger_ops_def tx_fires_def Let_def intro: exI [of _ "[_]"]
      exI [of _ "[_, _, _, _, _]"])

lemma send_ops_split:
  assumes "lut_ok lut" and "tx_packet_ok fsk p"
  shows "\<exists>x. sx1302_send_ops t lut pub fsk p = tx_config_ops t lut pub fsk p @ [x, Flush, WriteBulk False] \<and> tx_fires x \<and>
    list_all (\<lambda>x. \<not> tx_fires x) (tx_config_ops t lut pub fsk p)"
proof -
  obtain dops dl where d: "sx1302_tx_set_start_delay (tx_rf_chain p) t (tx_modulation p) (tx_bandwidth p)
      (if tx_modulation p = MOD_LORA then chirp_lowpass (tx_datarate p) else 0) = (dops, dl)" by fastforce
  obtain cs x where c: "tx_trigger_ops p dl = cs @ [x]" "tx_fires x" "list_all (\<lambda>x. \<not> tx_fires x) cs"
    using trigger_split [of p dl] assms(2) by (auto simp: tx_packet_ok_def)
  define g where "g = lut_entries lut ! pow_index_down (lut_entries lut) (sint (tx_rf_power p)) (unat (lut_size lut) - 1)"
  define front where "front = [WriteBulk True] @ select_modem p @ tx_power_ops t g (tx_rf_chain p) @ tx_freq_ops t p @ tx_modem_ops pub fsk p @
    dops @ tx_payload_ops p @ cs"
  have ops: "sx1302_send_ops t lut pub fsk p = front @ [x, Flush, WriteBulk False]"
    by (simp add: sx1302_send_ops_def d tx_pow_index_some [OF assms(1)] c(1) front_def g_def)
  then have cfg: "tx_config_ops t lut pub fsk p = front" by (simp add: tx_config_ops_def)
  have "\<not> tx_fires (WriteBulk True)" by (simp add: tx_fires_def)
  moreover have "list_all (\<lambda>x. \<not> tx_fires x) dops"
    using no_fire_sections(5) [OF assms(2), of "tx_rf_chain p" t] d by (metis fst_conv)
  ultimately have "list_all (\<lambda>x. \<not> tx_fires x) front"
    using no_fire_sections [OF assms(2)] c(3) by (simp add: front_def)
  then show ?thesis using ops cfg c(2) by auto
qed

text \<open>What a run of the sequence has issued.\<close>

lemma send_run:
  fixes pub :: bool
  assumes "tx_radio_ok t" and "lut_ok lut" and "tx_packet_ok fsk p"
  defines "full \<equiv> sx1302_send_ops t lut pub fsk p"
  shows "\<exists>e ops w'. sx1302_send bus t lut pub fsk p w = Inr (e, ops, w') \<and> prefix ops full \<and> (e = 0 \<longrightarrow> ops = full) \<and>
    (\<forall>pre x. prefix (pre @ [x]) ops \<longrightarrow> tx_fires x \<longrightarrow> pre = tx_config_ops t lut pub fsk p)"
proof -
  obtain x where x: "full = tx_config_ops t lut pub fsk p @ [x, Flush, WriteBulk False]" "list_all (\<lambda>x. \<not> tx_fires x) (tx_config_ops t lut pub fsk p)"
    using send_ops_split [OF assms(2,3)] unfolding full_def by blast
  obtain e ops w' where r: "sx1302_send bus t lut pub fsk p w = Inr (e, ops, w')"
      "e = LGW_REG_SUCCESS \<and> ops = full \<or> e = LGW_REG_ERROR \<and> ops \<noteq> [] \<and> prefix ops full"
    using reg_run_issued [OF send_ops_plain [OF assms(1-3)], of bus pub w] unfolding sx1302_send_def full_def by blast
  have "pre = tx_config_ops t lut pub fsk p" if "prefix (pre @ [y]) full" "tx_fires y" for pre y
  proof -
    define n where "n = length pre"
    have n: "n < length full" "full ! n = y" "pre = take n full"
      using that(1) by (auto simp: prefix_def n_def nth_append)
    have "\<not> n < length (tx_config_ops t lut pub fsk p)"
      using x n that(2) by (auto simp: nth_append list_all_length)
    moreover have "\<not> tx_fires Flush" "\<not> tx_fires (WriteBulk False)" by (simp_all add: tx_fires_def)
    ultimately have "n = length (tx_config_ops t lut pub fsk p)"
      using x(1) n that(2) by (auto simp: nth_append nth_Cons' split: if_splits)
    then show ?thesis using n(3) x(1) by simp
  qed
  then show ?thesis using r by (metis prefix_order.order_trans prefix_order.order_refl zero_neq_neg_one)
qed

subsection \<open>Sending a packet\<close>

definition tx_ready :: "lgw_context_t \<Rightarrow> bool" where
  "tx_ready ctx \<longleftrightarrow> (\<exists>ctx0. hal_reachable ctx0 \<and> ctx = ctx0\<lparr>is_started := True\<rparr>) \<and>
     1 \<le> unat (if_sync_word_size (fsk_cfg ctx)) \<and> unat (if_sync_word_size (fsk_cfg ctx)) \<le> 8 \<and>
     unat (lbt_nb_channel (sx_lbt_conf (sx1261_cfg ctx))) \<le> length (lbt_channels (sx_lbt_conf (sx1261_cfg ctx)))"

lemma tx_ready_wf: "tx_ready ctx \<Longrightarrow> hal_ctx_wf ctx \<and> is_started ctx"
  using hal_reachable_wf by (auto simp: tx_ready_def hal_ctx_wf_def)

lemma send_accepts_ok:
  assumes "tx_ready ctx" and "send_accepts ctx p" and "tx_modulation p \<noteq> MOD_CW" and "length (tx_payload p) = 256"
  shows "tx_radio_ok (rf_type (rf_chain_cfg ctx ! unat (tx_rf_chain p)))" and "lut_ok (tx_gain_lut ctx ! unat (tx_rf_chain p))"
    and "tx_packet_ok (fsk_cfg ctx) p"
proof -
  have wf: "hal_ctx_wf ctx" using tx_ready_wf [OF assms(1)] by simp
  have rf: "unat (tx_rf_chain p) < LGW_RF_CHAIN_NB" "rf_enable (rf_chain_cfg ctx ! unat (tx_rf_chain p))"
    using assms(2) by (auto simp: send_accepts_def split: if_splits)
  show "tx_radio_ok (rf_type (rf_chain_cfg ctx ! unat (tx_rf_chain p)))" and "lut_ok (tx_gain_lut ctx ! unat (tx_rf_chain p))"
    using wf rf by (auto simp: hal_ctx_wf_def list_all_length rxrf_ok_def tx_radio_ok_def)
  have "tx_datarate p \<noteq> 0" if "IS_FSK_DR (tx_datarate p)" using that by (auto simp: IS_FSK_DR_def)
  then show "tx_packet_ok (fsk_cfg ctx) p"
    using assms by (auto simp: send_accepts_def tx_packet_ok_def tx_ready_def split: if_splits)
qed

lemma lbt_scan_total:
  assumes "unat (lbt_nb_channel lbt) \<le> length (lbt_channels lbt)"
  shows "\<exists>r. lbt_scan lbt f b i = Inr r"
  using assms by (induction lbt f b i rule: lbt_scan.induct) (subst lbt_scan.simps, auto)

lemma lbt_start_total:
  assumes "unat (lbt_nb_channel (sx_lbt_conf sx)) \<le> length (lbt_channels (sx_lbt_conf sx))"
  shows "\<exists>e w'. lgw_lbt_start hw n sx p w = Inr (e, w')"
proof -
  obtain r where "is_lbt_channel (sx_lbt_conf sx) (tx_freq_hz p) (tx_bandwidth p) = Inr r"
    using lbt_scan_total [OF assms] unfolding is_lbt_channel_def by blast
  then show ?thesis by (auto simp: lgw_lbt_start_def Let_def split: option.splits prod.splits)
qed

text \<open>The packet as the hardware is told to send it: the registers of its RF chain.\<close>

definition send_full_ops :: "lgw_context_t \<Rightarrow> lgw_pkt_tx_s \<Rightarrow> reg_op list" where
  "send_full_ops ctx p = sx1302_send_ops (rf_type (rf_chain_cfg ctx ! unat (tx_rf_chain p))) (tx_gain_lut ctx ! unat (tx_rf_chain p))
     (bd_lorawan_public (board_cfg ctx)) (fsk_cfg ctx) p"

definition send_config_ops :: "lgw_context_t \<Rightarrow> lgw_pkt_tx_s \<Rightarrow> reg_op list" where
  "send_config_ops ctx p = tx_config_ops (rf_type (rf_chain_cfg ctx ! unat (tx_rf_chain p))) (tx_gain_lut ctx ! unat (tx_rf_chain p))
     (bd_lorawan_public (board_cfg ctx)) (fsk_cfg ctx) p"

definition send_call_ok :: "lgw_context_t \<Rightarrow> lgw_pkt_tx_s \<Rightarrow> int \<Rightarrow> tx_call \<Rightarrow> bool" where
  "send_call_ok ctx p r c \<longleftrightarrow> (case c of
     CallSend e ops \<Rightarrow> prefix ops (send_full_ops ctx p) \<and> (e = 0 \<longrightarrow> ops = send_full_ops ctx p) \<and> (r = LGW_HAL_SUCCESS \<longrightarrow> e = 0) \<and>
       (\<forall>pre x. prefix (pre @ [x]) ops \<longrightarrow> tx_fires x \<longrightarrow> pre = send_config_ops ctx p)
   | _ \<Rightarrow> True)"

lemma send_program_total:
  assumes "sx1302_send (hw_bus hw) (rf_type (rf_chain_cfg ctx ! unat (tx_rf_chain p))) (tx_gain_lut ctx ! unat (tx_rf_chain p))
      (bd_lorawan_public (board_cfg ctx)) (fsk_cfg ctx) p w = Inr x"
  shows "\<exists>y. send_program hw ctx p w = Inr y"
proof -
  obtain e ops w1 where "x = (e, ops, w1)" by (metis prod_cases3)
  then show ?thesis using assms by (auto simp: send_program_def Let_def split: prod.splits)
qed

lemma send_program_calls:
  assumes "tx_ready ctx" and "send_accepts ctx p" and "tx_modulation p \<noteq> MOD_CW" and "length (tx_payload p) = 256"
  shows "\<exists>r calls w'. send_program hw ctx p w = Inr (r, calls, w') \<and> list_all (send_call_ok ctx p r) calls \<and>
    (\<exists>e ops. CallSend e ops \<in> set calls)"
proof -
  obtain e ops w1 where s: "sx1302_send (hw_bus hw) (rf_type (rf_chain_cfg ctx ! unat (tx_rf_chain p))) (tx_gain_lut ctx ! unat (tx_rf_chain p))
      (bd_lorawan_public (board_cfg ctx)) (fsk_cfg ctx) p w = Inr (e, ops, w1)"
      "prefix ops (send_full_ops ctx p)" "e = 0 \<longrightarrow> ops = send_full_ops ctx p"
      "\<forall>pre x. prefix (pre @ [x]) ops \<longrightarrow> tx_fires x \<longrightarrow> pre = send_config_ops ctx p"
    using send_run [OF send_accepts_ok [OF assms], of "hw_bus hw" "bd_lorawan_public (board_cfg ctx)" w]
    unfolding send_full_ops_def send_config_ops_def by blast
  have c: "send_call_ok ctx p r (CallSend e ops)" if "e = 0 \<or> r \<noteq> 0" for r
    using s that by (auto simp: send_call_ok_def)
  have lbt: "list_all (send_call_ok ctx p r) cs" if "send_lbt_end hw rf v = (r, cs, v')" for r cs rf v v'
    using that by (auto simp: send_lbt_end_def send_call_ok_def split: prod.splits if_splits)
  show ?thesis
  proof (cases "e = 0")
    case True
    then show ?thesis using s(1) c lbt
      by (auto simp: send_program_def Let_def split: prod.splits)
  next
    case False
    have stop: "send_call_ok ctx p r (CallLbtStop e2)" for r e2 by (simp add: send_call_ok_def)
    show ?thesis using False s(1) c [of "-1"] stop
      by (auto simp: send_program_def Let_def split: prod.splits)
  qed
qed

text \<open>
  C25. A send is all or nothing up to the trigger. For a configured and started concentrator, with sane FSK and listen-before-talk settings, and any behaviour of the hardware, sending an accepted LoRa or FSK
  packet (no continuous wave) returns; the writes it issues are an initial part of the full sequence for this packet, all of them if the function reports success; and the transmitter
  is triggered only after the complete configuration and payload were written without error.
\<close>

theorem send_triggers_last:
  assumes "tx_ready ctx" and "send_accepts ctx p" and "tx_modulation p \<noteq> MOD_CW" and "length (tx_payload p) = 256"
  shows "\<exists>r calls w'. lgw_send hw ctx (Some p) w = Inr (r, calls, w') \<and> list_all (send_call_ok ctx p r) calls \<and>
    (r = LGW_HAL_SUCCESS \<longrightarrow> CallSend 0 (send_full_ops ctx p) \<in> set calls)"
proof -
  have lift: "r = LGW_HAL_SUCCESS \<longrightarrow> CallSend 0 (send_full_ops ctx p) \<in> set calls"
    if "list_all (send_call_ok ctx p r) calls" "CallSend e ops \<in> set calls" for r calls e ops
    using that by (auto simp: list_all_iff send_call_ok_def dest!: bspec)
  have wl: "\<exists>r calls w'. send_with_lbt hw ctx p v = Inr (r, calls, w') \<and> list_all (send_call_ok ctx p r) calls \<and>
      (r = LGW_HAL_SUCCESS \<longrightarrow> CallSend 0 (send_full_ops ctx p) \<in> set calls)" for v
  proof (cases "lbt_enable (sx_lbt_conf (sx1261_cfg ctx))")
    case False
    then show ?thesis using send_program_calls [OF assms, of hw v] lift by (fastforce simp: send_with_lbt_def)
  next
    case True
    obtain e v1 where st: "lgw_lbt_start hw (if_sync_word_size (fsk_cfg ctx)) (sx1261_cfg ctx) p v = Inr (e, v1)"
      using lbt_start_total [of "sx1261_cfg ctx" hw "if_sync_word_size (fsk_cfg ctx)" p v] assms(1) unfolding tx_ready_def by blast
    have ok: "send_call_ok ctx p r (CallLbtStart e)" for r by (simp add: send_call_ok_def)
    obtain r calls v2 where sp: "send_program hw ctx p v1 = Inr (r, calls, v2)" "list_all (send_call_ok ctx p r) calls"
        "\<exists>e ops. CallSend e ops \<in> set calls" using send_program_calls [OF assms, of hw v1] by blast
    show ?thesis using True st ok sp lift by (auto simp: send_with_lbt_def)
  qed
  have ok: "send_call_ok ctx p r (CallDac e)" for r e by (simp add: send_call_ok_def)
  obtain e w1 where dac: "hw_dac hw [0x39, 128, 128] w = (e, w1)" by fastforce
  show ?thesis
    using wl [of w] wl [of w1] ok dac assms(2) tx_ready_wf [OF assms(1)] by (auto simp: lgw_send_def)
qed

text \<open>A context with one radio, a packet, and hardware that always answers.\<close>

definition tx_sample_conf :: lgw_conf_rxrf_s where
  "tx_sample_conf = rxrf_zero\<lparr>rf_enable := True, rf_freq_hz := 868000000, rf_type := LGW_RADIO_TYPE_SX1250, rf_tx_enable := True\<rparr>"

definition tx_sample_ctx :: lgw_context_t where
  "tx_sample_ctx = (snd (lgw_rxrf_setconf 0 (Some tx_sample_conf) lgw_context_init))\<lparr>is_started := True\<rparr>"

definition tx_sample :: lgw_pkt_tx_s where
  "tx_sample = tx_pkt_zero\<lparr>tx_freq_hz := 868100000, tx_mode := TIMESTAMPED, tx_count_us := 5000000, tx_modulation := MOD_LORA,
     tx_bandwidth := BW_125KHZ, tx_datarate := DR_LORA_SF7, tx_coderate := CR_LORA_4_5, tx_size := 10\<rparr>"

definition tx_sample_hw :: "unit tx_hw" where
  "tx_sample_hw = \<lparr>hw_bus = (\<lambda>x w. (True, w)), hw_dac = (\<lambda>bs w. (0, w)), hw_set_rx_params = (\<lambda>f b w. (0, w)), hw_lbt_start = (\<lambda>t r w. (0, w)),
     hw_lbt_stop = (\<lambda>w. (0, w)), hw_agc_polls = (\<lambda>w. ([(0, 1), (0, 0)], w)), hw_tx_polls = (\<lambda>rf w. ([(0, 0x80)], w))\<rparr>"

lemma tx_sample_ctx_eq: "tx_sample_ctx = lgw_context_init\<lparr>is_started := True, rf_chain_cfg := [tx_sample_conf, rxrf_zero]\<rparr>"
proof -
  have "replicate LGW_RF_CHAIN_NB rxrf_zero = [rxrf_zero, rxrf_zero]" by (simp add: numeral_2_eq_2)
  then show ?thesis by (simp add: tx_sample_ctx_def lgw_rxrf_setconf_def lgw_context_init_def tx_sample_conf_def)
qed

lemma tx_sample_ready: "tx_ready tx_sample_ctx"
proof -
  have "hal_reachable (snd (lgw_rxrf_setconf 0 (Some tx_sample_conf) lgw_context_init))"
    by (rule hal_reachable.rxrf, rule hal_reachable.start, rule surjective_pairing)
  moreover have "unat (if_sync_word_size (fsk_cfg tx_sample_ctx)) = 3 \<and> unat (lbt_nb_channel (sx_lbt_conf (sx1261_cfg tx_sample_ctx))) = 0"
    by (simp add: tx_sample_ctx_eq lgw_context_init_def)
  ultimately show ?thesis unfolding tx_ready_def tx_sample_ctx_def by auto
qed

lemma tx_sample_accepted: "send_accepts tx_sample_ctx tx_sample"
  by (simp add: send_accepts_def tx_sample_ctx_eq tx_sample_def tx_pkt_zero_def tx_sample_conf_def IS_TX_MODE_def IS_LORA_BW_def IS_LORA_DR_def IS_LORA_CR_def)

theorem send_triggers_last_witness:
  "\<exists>r calls w'. lgw_send tx_sample_hw tx_sample_ctx (Some tx_sample) () = Inr (r, calls, w') \<and>
     (r = LGW_HAL_SUCCESS \<longrightarrow> CallSend 0 (send_full_ops tx_sample_ctx tx_sample) \<in> set calls)"
proof -
  have "tx_modulation tx_sample \<noteq> MOD_CW" "length (tx_payload tx_sample) = 256" by (simp_all add: tx_sample_def tx_pkt_zero_def)
  from send_triggers_last [OF tx_sample_ready tx_sample_accepted this, of tx_sample_hw "()"] show ?thesis by blast
qed

subsection \<open>Listen before talk\<close>

fun is_lbt_stop :: "tx_call \<Rightarrow> bool" where
  "is_lbt_stop (CallLbtStop e) = True"
| "is_lbt_stop c = False"

text \<open>The calls from the programming of the packet on, when listen-before-talk is in use.\<close>

definition lbt_closed :: "int \<Rightarrow> tx_call list \<Rightarrow> bool" where
  "lbt_closed r calls \<longleftrightarrow> calls \<noteq> [] \<and> is_lbt_stop (last calls) \<and> length (filter is_lbt_stop calls) = 1 \<and>
     (r = LGW_HAL_SUCCESS \<longrightarrow> CallLbtStatus 0 (Some True) \<in> set calls \<and> CallLbtStop 0 \<in> set calls) \<and>
     (r = LGW_LBT_NOT_ALLOWED \<longrightarrow> CallLbtStatus 0 (Some False) \<in> set calls)"

lemma lbt_status_known: "lgw_lbt_tx_status hw rf w = (0, a, w') \<Longrightarrow> \<exists>b. a = Some b"
  by (auto simp: lgw_lbt_tx_status_def Let_def split: poll.splits prod.splits if_splits)

lemma lbt_closed_Cons: "lbt_closed r calls \<Longrightarrow> \<not> is_lbt_stop c \<Longrightarrow> lbt_closed r (c # calls)"
  by (auto simp: lbt_closed_def)

lemma send_lbt_end_closed:
  assumes "send_lbt_end hw rf w = (r, cs, w')"
  shows "lbt_closed r cs"
  using assms lbt_status_known [of hw rf w] by (auto simp: send_lbt_end_def lbt_closed_def split: prod.splits if_splits)

lemma send_program_lbt:
  assumes "lbt_enable (sx_lbt_conf (sx1261_cfg ctx))" and "send_program hw ctx p w = Inr (r, calls, w')"
  shows "lbt_closed r calls"
proof -
  obtain e ops w1 where s: "sx1302_send (hw_bus hw) (rf_type (rf_chain_cfg ctx ! unat (tx_rf_chain p))) (tx_gain_lut ctx ! unat (tx_rf_chain p))
      (bd_lorawan_public (board_cfg ctx)) (fsk_cfg ctx) p w = Inr (e, ops, w1)"
    using assms(2) by (auto simp: send_program_def Let_def res_bind_Inr_iff)
  obtain e2 w2 where stop: "lgw_lbt_stop hw w1 = (e2, w2)" by fastforce
  obtain r3 cs w3 where fin: "send_lbt_end hw (tx_rf_chain p) w1 = (r3, cs, w3)" by (metis prod_cases3)
  have "(r, calls) = (if e \<noteq> 0 then (LGW_HAL_ERROR, [CallSend e ops, CallLbtStop e2]) else (r3, CallSend e ops # cs))"
    using assms s stop fin by (auto simp: send_program_def Let_def split: if_splits)
  then show ?thesis
    using lbt_closed_Cons [OF send_lbt_end_closed [OF fin], of "CallSend e ops"] by (auto simp: lbt_closed_def split: if_splits)
qed

lemma send_with_lbt_closed:
  assumes "lbt_enable (sx_lbt_conf (sx1261_cfg ctx))" and "send_with_lbt hw ctx p w = Inr (r, calls, w')"
  shows "(\<exists>e. e \<noteq> 0 \<and> r = LGW_HAL_ERROR \<and> calls = [CallLbtStart e]) \<or> (\<exists>cs. calls = CallLbtStart 0 # cs \<and> lbt_closed r cs)"
proof -
  obtain e w1 where st: "lgw_lbt_start hw (if_sync_word_size (fsk_cfg ctx)) (sx1261_cfg ctx) p w = Inr (e, w1)"
    using assms by (auto simp: send_with_lbt_def res_bind_Inr_iff)
  show ?thesis
  proof (cases "e = 0")
    case False
    then show ?thesis using assms st by (auto simp: send_with_lbt_def)
  next
    case True
    then obtain cs where "send_program hw ctx p w1 = Inr (r, cs, w')" "calls = CallLbtStart 0 # cs"
      using assms st by (auto simp: send_with_lbt_def res_bind_Inr_iff)
    then show ?thesis using send_program_lbt [OF assms(1)] by auto
  qed
qed

text \<open>
  C27. Listen-before-talk sessions are always closed: when it is enabled, a send either never starts a session and touches the transmitter in no way, or it starts
  one, stops it exactly once, as its very last action, on every path; it reports success only if the gain control confirmed that the channel was free, and
  \<^verbatim>\<open>LGW_LBT_NOT_ALLOWED\<close> only if it was not.
\<close>

theorem lbt_session_closed:
  assumes "lbt_enable (sx_lbt_conf (sx1261_cfg ctx))" and "lgw_send hw ctx pkt w = Inr (r, calls, w')"
  shows "if CallLbtStart 0 \<in> set calls then lbt_closed r calls
    else r = LGW_HAL_ERROR \<and> (\<forall>e ops. CallSend e ops \<notin> set calls) \<and> list_all (\<lambda>c. \<not> is_lbt_stop c) calls"
proof -
  have "if CallLbtStart 0 \<in> set cs then lbt_closed r cs
      else r = LGW_HAL_ERROR \<and> (\<forall>e ops. CallSend e ops \<notin> set cs) \<and> list_all (\<lambda>c. \<not> is_lbt_stop c) cs"
    if "send_with_lbt hw ctx p v = Inr (r, cs, v')" for p v cs v'
    using send_with_lbt_closed [OF assms(1) that] by (auto simp: lbt_closed_Cons)
  then show ?thesis
    using assms(2) by (auto simp: lgw_send_def res_bind_Inr_iff lbt_closed_Cons split: if_splits option.splits prod.splits)
qed

text \<open>The sample context with listen-before-talk on the channel of the sample packet.\<close>

definition lbt_sample_ctx :: lgw_context_t where
  "lbt_sample_ctx = tx_sample_ctx\<lparr>sx1261_cfg := (sx1261_cfg tx_sample_ctx)\<lparr>sx_lbt_conf := \<lparr>lbt_enable = True, lbt_rssi_target = 0, lbt_nb_channel = 1,
     lbt_channels = replicate 16 \<lparr>lbtc_freq_hz = 868100000, lbtc_bandwidth = BW_125KHZ, lbtc_scan_time_us = 128, lbtc_transmit_time_ms = 4000\<rparr>\<rparr>\<rparr>\<rparr>"

theorem lbt_session_closed_witness:
  "\<exists>r calls w'. lgw_send tx_sample_hw lbt_sample_ctx (Some tx_sample) () = Inr (r, calls, w') \<and>
     (if CallLbtStart 0 \<in> set calls then lbt_closed r calls
      else r = LGW_HAL_ERROR \<and> (\<forall>e ops. CallSend e ops \<notin> set calls) \<and> list_all (\<lambda>c. \<not> is_lbt_stop c) calls)"
proof -
  have rfc: "rf_chain_cfg lbt_sample_ctx = rf_chain_cfg tx_sample_ctx" by (simp add: lbt_sample_ctx_def)
  have acc: "send_accepts lbt_sample_ctx tx_sample"
    using tx_sample_accepted unfolding send_accepts_def rfc .
  have same: "lgw_send tx_sample_hw lbt_sample_ctx (Some tx_sample) () = send_with_lbt tx_sample_hw lbt_sample_ctx tx_sample ()"
    using acc by (simp add: lgw_send_def lbt_sample_ctx_def tx_sample_ctx_eq lgw_context_init_def)
  obtain e w1 where st: "lgw_lbt_start tx_sample_hw (if_sync_word_size (fsk_cfg lbt_sample_ctx)) (sx1261_cfg lbt_sample_ctx) tx_sample () = Inr (e, w1)"
    using lbt_start_total [of "sx1261_cfg lbt_sample_ctx" tx_sample_hw "if_sync_word_size (fsk_cfg lbt_sample_ctx)" tx_sample "()"]
    by (auto simp: lbt_sample_ctx_def)
  have rf: "unat (tx_rf_chain tx_sample) = 0" by (simp add: tx_sample_def tx_pkt_zero_def)
  have "tx_radio_ok (rf_type (rf_chain_cfg lbt_sample_ctx ! 0))" "lut_ok (tx_gain_lut lbt_sample_ctx ! 0)" "tx_packet_ok (fsk_cfg lbt_sample_ctx) tx_sample"
    using send_accepts_ok [OF tx_sample_ready tx_sample_accepted] rf
    by (simp_all add: lbt_sample_ctx_def tx_sample_def tx_pkt_zero_def)
  from send_run [OF this, of "hw_bus tx_sample_hw" "bd_lorawan_public (board_cfg lbt_sample_ctx)" w1]
  obtain x where sp: "send_program tx_sample_hw lbt_sample_ctx tx_sample w1 = Inr x"
    using send_program_total [of tx_sample_hw lbt_sample_ctx tx_sample w1] unfolding rf by blast
  have en: "lbt_enable (sx_lbt_conf (sx1261_cfg lbt_sample_ctx))" by (simp add: lbt_sample_ctx_def)
  have "\<exists>y. send_with_lbt tx_sample_hw lbt_sample_ctx tx_sample () = Inr y"
    unfolding send_with_lbt_def using en st sp by (cases "e = 0") (simp_all split: prod.splits)
  then obtain r calls w' where w: "send_with_lbt tx_sample_hw lbt_sample_ctx tx_sample () = Inr (r, calls, w')"
    by (metis prod_cases3)
  from lbt_session_closed [OF en w [folded same]] w [folded same] show ?thesis by blast
qed

subsection \<open>What the registers hold\<close>

definition reg_file :: "reg_op list \<Rightarrow> reg \<Rightarrow> int option" where
  "reg_file ops = foldl (\<lambda>m x. case x of RegW r v \<Rightarrow> m(r \<mapsto> v) | _ \<Rightarrow> m) Map.empty ops"

definition mem_ops :: "reg_op list \<Rightarrow> (u16 \<times> u8 list) list" where
  "mem_ops ops = List.map_filter (\<lambda>x. case x of MemWB a bs \<Rightarrow> Some (a, bs) | _ \<Rightarrow> None) ops"

lemma byte_of_div: "byte_of (x :: u32) n = uint x div 2 ^ (8 * n) mod 256"
proof -
  have m: "(255 :: int) = mask 8" by (simp add: mask_eq_exp_minus_1)
  have t: "take_bit 32 (uint x) = uint x"
    by (rule take_bit_int_eq_self) (use uint_lt2p [of x] in simp_all)
  have "byte_of x n = uint (drop_bit (8 * n) x) AND 255"
    unfolding byte_of_def by (simp add: uint_and)
  also have "uint (drop_bit (8 * n) x) = uint x div 2 ^ (8 * n)"
    unfolding unsigned_drop_bit_eq by (simp add: drop_bit_eq_div t)
  finally show ?thesis unfolding m by (simp add: take_bit_eq_mod flip: take_bit_eq_mask)
qed

lemma bytes_join:
  fixes x :: int
  assumes "0 \<le> x"
  shows "x < 2 ^ 24 \<Longrightarrow> x div 2 ^ 16 mod 256 * 65536 + x div 2 ^ 8 mod 256 * 256 + x mod 256 = x"
    and "x < 2 ^ 32 \<Longrightarrow> x div 2 ^ 24 mod 256 * 16777216 + x div 2 ^ 16 mod 256 * 65536 + x div 2 ^ 8 mod 256 * 256 + x mod 256 = x"
proof -
  define y z u where "y = x div 256" and "z = y div 256" and "u = z div 256"
  have d: "x div 2 ^ 8 = y" "x div 2 ^ 16 = z" "x div 2 ^ 24 = u"
    using zdiv_zmult2_eq [of 256 x 256] zdiv_zmult2_eq [of 256 x 65536] zdiv_zmult2_eq [of 256 y 256] by (simp_all add: y_def z_def u_def)
  have e: "x = y * 256 + x mod 256" "y = z * 256 + y mod 256" "z = u * 256 + z mod 256" by (simp_all add: y_def z_def u_def)
  have "0 \<le> u" using assms by (simp add: y_def z_def u_def pos_imp_zdiv_nonneg_iff)
  show "x < 2 ^ 24 \<Longrightarrow> x div 2 ^ 16 mod 256 * 65536 + x div 2 ^ 8 mod 256 * 256 + x mod 256 = x"
  proof -
    assume "x < 2 ^ 24"
    then have "u = 0" using \<open>0 \<le> u\<close> assms by (simp flip: d)
    then show ?thesis unfolding d using e by linarith
  qed
  show "x < 2 ^ 32 \<Longrightarrow> x div 2 ^ 24 mod 256 * 16777216 + x div 2 ^ 16 mod 256 * 65536 + x div 2 ^ 8 mod 256 * 256 + x mod 256 = x"
  proof -
    assume "x < 2 ^ 32"
    then have "u < 256" unfolding d(3)[symmetric] by (simp add: div_less_iff_less_mult)
    then have "u mod 256 = u" using \<open>0 \<le> u\<close> by simp
    then show ?thesis unfolding d using e by linarith
  qed
qed

text \<open>The delays by bandwidth and filter, as the floating-point expressions give them.\<close>

lemma start_delay_parts:
  "c_trunc (dbl (dbl ((2 ^ 6 - 1) * 10 ^ 6) / 125000)) = 504" "c_trunc (dbl (dbl ((2 ^ 7 - 1) * 10 ^ 6) / 125000)) = 1016"
  "c_trunc (dbl (dbl ((2 ^ 6 - 1) * 10 ^ 6) / 250000)) = 252" "c_trunc (dbl (dbl ((2 ^ 7 - 1) * 10 ^ 6) / 250000)) = 508"
  "c_trunc (dbl (dbl ((2 ^ 6 - 1) * 10 ^ 6) / 500000)) = 126" "c_trunc (dbl (dbl ((2 ^ 7 - 1) * 10 ^ 6) / 500000)) = 254"
  "c_trunc (dbl (8 * dbl (32 * 10 ^ 6 / (32 * 125000)))) = 64" "c_trunc (dbl (8 * dbl (32 * 10 ^ 6 / (32 * 250000)))) = 32"
  "c_trunc (dbl (8 * dbl (32 * 10 ^ 6 / (32 * 500000)))) = 16"
  by code_simp+

lemma start_delay_bounds:
  assumes "tx_radio_ok t" and "IS_LORA_BW bw" and "lp = 6 \<or> lp = 7"
  shows "\<exists>bs d. sx1302_tx_set_start_delay rf t MOD_LORA bw lp =
      ([RegWB (RegOf ''TX_TOP_TX_START_DELAY_MSB_TX_START_DELAY'' rf) bs], d) \<and> 46810 \<le> unat d \<and> unat d \<le> 48000"
proof -
  have bw: "bw = 4 \<and> lgw_bw_getval bw = 125000 \<or> bw = 5 \<and> lgw_bw_getval bw = 250000 \<or> bw = 6 \<and> lgw_bw_getval bw = 500000"
    using assms(2) by (auto simp: IS_LORA_BW_def lgw_bw_getval_def)
  define a b where "a = c_trunc (dbl (dbl ((2 ^ lp - 1) * 10 ^ 6) / of_int (lgw_bw_getval bw)))"
    and "b = c_trunc (dbl (8 * dbl (32 * 10 ^ 6 / (32 * of_int (lgw_bw_getval bw)))))"
  have a: "a \<in> {504, 1016, 252, 508, 126, 254}"
    using bw assms(3) unfolding a_def by (elim disjE conjE; simp only: start_delay_parts of_int_numeral insert_iff simp_thms)
  have b: "b \<in> {64, 32, 16}"
    using bw unfolding b_def by (elim disjE conjE; simp only: start_delay_parts of_int_numeral insert_iff simp_thms)
  obtain c where c: "radio_bw_delay t bw = Some c" "c \<in> {19, 21, 24, 100, 106}"
    using assms(1) bw by (auto simp: tx_radio_ok_def radio_bw_delay_def)
  have eq: "sx1302_tx_set_start_delay rf t MOD_LORA bw lp =
      (let d = 48000 - (c + of_int a + of_int b)
       in ([RegWB (RegOf ''TX_TOP_TX_START_DELAY_MSB_TX_START_DELAY'' rf) [ucast (drop_bit 8 d), ucast d]], d))"
    by (simp only: sx1302_tx_set_start_delay_def c(1) a_def b_def Let_def option.case if_False simp_thms)
  have "46810 \<le> unat (48000 - (c + of_int a + of_int b))" "unat (48000 - (c + of_int a + of_int b)) \<le> 48000"
    using a b c(2) by (elim insertE emptyE; hypsubst; simp)+
  then show ?thesis unfolding eq Let_def by blast
qed

lemma reg_file_fold:
  assumes "\<forall>v'. RegW r v' \<in> set ops \<longrightarrow> v' = v"
  shows "foldl (\<lambda>m x. case x of RegW r v \<Rightarrow> m(r \<mapsto> v) | _ \<Rightarrow> m) m ops r = (if RegW r v \<in> set ops then Some v else m r)"
  using assms
proof (induction ops arbitrary: m)
  case Nil
  then show ?case by simp
next
  case (Cons x ops)
  have "\<forall>v'. RegW r v' \<in> set ops \<longrightarrow> v' = v" using Cons.prems unfolding list.set by blast
  note IH = Cons.IH [OF this]
  show ?case
  proof (cases "\<exists>v'. x = RegW r v'")
    case True
    then have "x = RegW r v" using Cons.prems unfolding list.set by blast
    then show ?thesis using IH by simp
  next
    case False
    then have "(case x of RegW r v \<Rightarrow> m(r \<mapsto> v) | _ \<Rightarrow> m) r = m r" by (cases x) auto
    moreover have "RegW r v \<noteq> x" using False by blast
    ultimately show ?thesis using IH by simp
  qed
qed

lemma reg_file_last:
  assumes "RegW r v \<in> set ops" and "\<And>v'. RegW r v' \<in> set ops \<Longrightarrow> v' = v"
  shows "reg_file ops r = Some v"
proof -
  have "\<forall>v'. RegW r v' \<in> set ops \<longrightarrow> v' = v" using assms(2) by blast
  from reg_file_fold [OF this, of Map.empty] assms(1) show ?thesis by (simp add: reg_file_def)
qed

text \<open>The operations for a timestamped LoRa packet.\<close>

lemma lora_send_ops:
  assumes "lut_ok lut" and "tx_modulation p = MOD_LORA" and "tx_mode p = TIMESTAMPED" and "tx_size p \<le> 255" and "length (tx_payload p) = 256"
    and "sx1302_tx_set_start_delay (tx_rf_chain p) t MOD_LORA (tx_bandwidth p) (chirp_lowpass (tx_datarate p)) =
      ([RegWB (RegOf ''TX_TOP_TX_START_DELAY_MSB_TX_START_DELAY'' (tx_rf_chain p)) bs], dl)"
  shows "\<exists>g. sx1302_send_ops t lut pub fsk p =
    [WriteBulk True] @ select_modem p @ tx_power_ops t g (tx_rf_chain p) @ tx_freq_ops t p @ tx_lora_ops pub p @
    [RegWB (RegOf ''TX_TOP_TX_START_DELAY_MSB_TX_START_DELAY'' (tx_rf_chain p)) bs] @ tx_payload_ops p @ tx_trigger_ops p dl @ [Flush, WriteBulk False]"
  using assms(2,6) by (simp add: sx1302_send_ops_def tx_pow_index_some [OF assms(1)] tx_modem_ops_def) (rule exI, rule refl)

lemmas tx_section_defs = select_modem_def tx_power_ops_def tx_freq_ops_def tx_lora_ops_def tx_freq_dev_ops_def tx_payload_ops_def tx_trigger_ops_def

lemma lora_reg:
  assumes "sx1302_send_ops t lut pub fsk p =
    [WriteBulk True] @ select_modem p @ tx_power_ops t g (tx_rf_chain p) @ tx_freq_ops t p @ tx_lora_ops pub p @
    [RegWB (RegOf ''TX_TOP_TX_START_DELAY_MSB_TX_START_DELAY'' (tx_rf_chain p)) bs] @ tx_payload_ops p @ tx_trigger_ops p dl @ [Flush, WriteBulk False]"
    and "tx_radio_ok t" and "tx_modulation p = MOD_LORA" and "tx_mode p = TIMESTAMPED" and "tx_size p \<le> 255" and "length (tx_payload p) = 256"
  defines "rg \<equiv> \<lambda>n. reg_file (sx1302_send_ops t lut pub fsk p) (RegOf n (tx_rf_chain p))"
    and "cnt \<equiv> tx_count_us p * 32 - ucast dl"
  shows "rg ''TX_TOP_TX_RFFE_IF_FREQ_RF_H_FREQ_RF'' = Some (byte_of (tx_freq_reg t (tx_freq_hz p)) 2)"
    and "rg ''TX_TOP_TX_RFFE_IF_FREQ_RF_M_FREQ_RF'' = Some (byte_of (tx_freq_reg t (tx_freq_hz p)) 1)"
    and "rg ''TX_TOP_TX_RFFE_IF_FREQ_RF_L_FREQ_RF'' = Some (byte_of (tx_freq_reg t (tx_freq_hz p)) 0)"
    and "rg ''TX_TOP_TXRX_CFG0_0_MODEM_SF'' = Some (uint (tx_datarate p))"
    and "rg ''TX_TOP_TXRX_CFG0_0_MODEM_BW'' = Some (uint (tx_bandwidth p))"
    and "rg ''TX_TOP_TXRX_CFG0_1_CODING_RATE'' = Some (uint (tx_coderate p))"
    and "rg ''TX_TOP_TXRX_CFG0_3_PAYLOAD_LENGTH'' = Some (uint (tx_size p))"
    and "rg ''TX_TOP_TIMER_TRIG_BYTE0_TIMER_DELAYED_TRIG'' = Some (byte_of cnt 0)"
    and "rg ''TX_TOP_TIMER_TRIG_BYTE1_TIMER_DELAYED_TRIG'' = Some (byte_of cnt 1)"
    and "rg ''TX_TOP_TIMER_TRIG_BYTE2_TIMER_DELAYED_TRIG'' = Some (byte_of cnt 2)"
    and "rg ''TX_TOP_TIMER_TRIG_BYTE3_TIMER_DELAYED_TRIG'' = Some (byte_of cnt 3)"
  unfolding rg_def assms(1)
  by (rule reg_file_last; insert assms(2-6); auto simp: tx_section_defs tx_radio_ok_def cnt_def Let_def word_le_nat_alt; fail)+

lemma mem_ops_simps [simp]:
  "mem_ops [] = []" "mem_ops (xs @ ys) = mem_ops xs @ mem_ops ys" "mem_ops (RegW r v # xs) = mem_ops xs" "mem_ops (RegWB r bs # xs) = mem_ops xs"
  "mem_ops (MemWB a bs # xs) = (a, bs) # mem_ops xs" "mem_ops (WriteBulk b # xs) = mem_ops xs" "mem_ops (Flush # xs) = mem_ops xs"
  by (simp_all add: mem_ops_def List.map_filter_def)

lemma lora_mem:
  assumes "sx1302_send_ops t lut pub fsk p =
    [WriteBulk True] @ select_modem p @ tx_power_ops t g (tx_rf_chain p) @ tx_freq_ops t p @ tx_lora_ops pub p @
    [RegWB (RegOf ''TX_TOP_TX_START_DELAY_MSB_TX_START_DELAY'' (tx_rf_chain p)) bs] @ tx_payload_ops p @ tx_trigger_ops p dl @ [Flush, WriteBulk False]"
    and "tx_radio_ok t" and "tx_modulation p = MOD_LORA" and "tx_mode p = TIMESTAMPED" and "tx_size p \<le> 255" and "length (tx_payload p) = 256"
  shows "mem_ops (sx1302_send_ops t lut pub fsk p) = [(if tx_rf_chain p = 0 then 0x5300 else 0x5500, take (unat (tx_size p)) (tx_payload p))]"
proof -
  have "mem_ops (select_modem p) = []" "mem_ops (tx_power_ops t g (tx_rf_chain p)) = []" "mem_ops (tx_freq_ops t p) = []" "mem_ops (tx_lora_ops pub p) = []"
    "mem_ops (tx_trigger_ops p dl) = []"
    using assms(2-4) by (auto simp: tx_section_defs tx_radio_ok_def Let_def)
  moreover have "unat (tx_size p) \<le> 255" using assms(5) by (simp add: word_le_nat_alt)
  ultimately show ?thesis unfolding assms(1) using assms(3,6) by (simp add: tx_payload_ops_def Let_def)
qed

lemma freq_reg_small:
  assumes "f \<le> 2000000000"
  shows "uint (SX1302_FREQ_TO_REG f) = int (f * 2 ^ 18 div 32000000)" and "uint (SX1302_FREQ_TO_REG f) < 2 ^ 24"
proof -
  have "f * 2 ^ 18 div 32000000 \<le> 2000000000 * 2 ^ 18 div 32000000" using assms by (intro div_le_mono) simp
  then have b: "f * 2 ^ 18 div 32000000 \<le> 16384000" by simp
  then show "uint (SX1302_FREQ_TO_REG f) = int (f * 2 ^ 18 div 32000000)"
    by (simp add: SX1302_FREQ_TO_REG_def uint_nat unat_of_nat)
  then show "uint (SX1302_FREQ_TO_REG f) < 2 ^ 24" using b by simp
qed

text \<open>
  C26. After a complete send of a timestamped LoRa packet the registers hold exactly what the packet asks for: the three frequency registers make up the
  frequency in steps of 32 MHz / 2^18, rounded down (twice the frequency for the SX1255), the modem has the packet's spreading factor, bandwidth, coding rate and
  length, the transmit buffer its payload, and the four timer registers make up the departure time in ticks of 32 MHz, modulo 2^32, less a start delay between
  1462 and 1500 microseconds, within the 1500 microseconds the scheduling queue reserves.
\<close>

theorem lora_registers_exact:
  fixes pub :: bool and fsk :: lgw_conf_rxif_s
  assumes "tx_radio_ok t" and "lut_ok lut" and "tx_modulation p = MOD_LORA" and "tx_mode p = TIMESTAMPED" and "IS_LORA_BW (tx_bandwidth p)"
    and "tx_size p \<le> 255" and "length (tx_payload p) = 256" and "tx_freq_hz p \<le> 1000000000"
  defines "regs \<equiv> \<lambda>n. the (reg_file (sx1302_send_ops t lut pub fsk p) (RegOf n (tx_rf_chain p)))"
  shows "regs ''TX_TOP_TX_RFFE_IF_FREQ_RF_H_FREQ_RF'' * 65536 + regs ''TX_TOP_TX_RFFE_IF_FREQ_RF_M_FREQ_RF'' * 256 +
      regs ''TX_TOP_TX_RFFE_IF_FREQ_RF_L_FREQ_RF'' =
      int ((if t = LGW_RADIO_TYPE_SX1255 then unat (tx_freq_hz p) * 2 else unat (tx_freq_hz p)) * 2 ^ 18 div 32000000) \<and>
    regs ''TX_TOP_TXRX_CFG0_0_MODEM_SF'' = uint (tx_datarate p) \<and> regs ''TX_TOP_TXRX_CFG0_0_MODEM_BW'' = uint (tx_bandwidth p) \<and>
    regs ''TX_TOP_TXRX_CFG0_1_CODING_RATE'' = uint (tx_coderate p) \<and> regs ''TX_TOP_TXRX_CFG0_3_PAYLOAD_LENGTH'' = uint (tx_size p) \<and>
    mem_ops (sx1302_send_ops t lut pub fsk p) = [(if tx_rf_chain p = 0 then 0x5300 else 0x5500, take (unat (tx_size p)) (tx_payload p))] \<and>
    (\<exists>delay. 1462 * 32 \<le> delay \<and> delay \<le> 1500 * 32 \<and>
      regs ''TX_TOP_TIMER_TRIG_BYTE3_TIMER_DELAYED_TRIG'' * 16777216 + regs ''TX_TOP_TIMER_TRIG_BYTE2_TIMER_DELAYED_TRIG'' * 65536 +
      regs ''TX_TOP_TIMER_TRIG_BYTE1_TIMER_DELAYED_TRIG'' * 256 + regs ''TX_TOP_TIMER_TRIG_BYTE0_TIMER_DELAYED_TRIG'' =
      uint (tx_count_us p * 32 - of_nat delay))"
proof -
  have lp: "chirp_lowpass (tx_datarate p) = 6 \<or> chirp_lowpass (tx_datarate p) = 7" by (simp add: chirp_lowpass_def)
  obtain bs dl where d: "sx1302_tx_set_start_delay (tx_rf_chain p) t MOD_LORA (tx_bandwidth p) (chirp_lowpass (tx_datarate p)) =
      ([RegWB (RegOf ''TX_TOP_TX_START_DELAY_MSB_TX_START_DELAY'' (tx_rf_chain p)) bs], dl)" "46810 \<le> unat dl" "unat dl \<le> 48000"
    using start_delay_bounds [OF assms(1,5) lp] by blast
  obtain g where ops: "sx1302_send_ops t lut pub fsk p =
    [WriteBulk True] @ select_modem p @ tx_power_ops t g (tx_rf_chain p) @ tx_freq_ops t p @ tx_lora_ops pub p @
    [RegWB (RegOf ''TX_TOP_TX_START_DELAY_MSB_TX_START_DELAY'' (tx_rf_chain p)) bs] @ tx_payload_ops p @ tx_trigger_ops p dl @ [Flush, WriteBulk False]"
    using lora_send_ops [OF assms(2-4,6,7) d(1)] by blast
  note rg = lora_reg [OF ops assms(1,3,4,6,7)] and mem = lora_mem [OF ops assms(1,3,4,6,7)]
  define F where "F = (if t = LGW_RADIO_TYPE_SX1255 then unat (tx_freq_hz p) * 2 else unat (tx_freq_hz p))"
  have "unat (tx_freq_hz p) \<le> 1000000000" using assms(8) by (simp add: word_le_nat_alt)
  then have F: "F \<le> 2000000000" "tx_freq_reg t (tx_freq_hz p) = SX1302_FREQ_TO_REG F" by (auto simp: F_def tx_freq_reg_def)
  define cnt where "cnt = tx_count_us p * 32 - (ucast dl :: u32)"
  have cnt: "cnt = tx_count_us p * 32 - of_nat (unat dl)"
    by (simp add: cnt_def of_nat_unat)
  have "0 \<le> uint cnt" "uint cnt < 2 ^ 32" using uint_lt2p [of cnt] by simp_all
  note timer = bytes_join(2) [OF this]
  have e: "8 * 3 = (24 :: nat)" "8 * 2 = (16 :: nat)" "8 * 1 = (8 :: nat)" "8 * 0 = (0 :: nat)" by simp_all
  have "0 \<le> uint (SX1302_FREQ_TO_REG F)" by simp
  note freq = bytes_join(1) [OF this freq_reg_small(2) [OF F(1)]]
  show ?thesis
    unfolding regs_def rg [folded cnt_def] option.sel F(2) byte_of_div F_def [symmetric]
  proof (intro conjI exI [of _ "unat dl"])
    show "uint (SX1302_FREQ_TO_REG F) div 2 ^ (8 * 2) mod 256 * 65536 + uint (SX1302_FREQ_TO_REG F) div 2 ^ (8 * 1) mod 256 * 256 +
        uint (SX1302_FREQ_TO_REG F) div 2 ^ (8 * 0) mod 256 = int (F * 2 ^ 18 div 32000000)"
      unfolding e power_0 div_by_1 freq_reg_small(1) [OF F(1), symmetric] by (rule freq)
    show "uint cnt div 2 ^ (8 * 3) mod 256 * 16777216 + uint cnt div 2 ^ (8 * 2) mod 256 * 65536 + uint cnt div 2 ^ (8 * 1) mod 256 * 256 +
        uint cnt div 2 ^ (8 * 0) mod 256 = uint (tx_count_us p * 32 - of_nat (unat dl))"
      unfolding cnt [symmetric] e power_0 div_by_1 by (rule timer)
  qed (use d(2,3) mem in simp_all)
qed

theorem lora_registers_exact_witness:
  "the (reg_file (sx1302_send_ops LGW_RADIO_TYPE_SX1250 tx_gain_default True rxif_zero tx_sample) (RegOf ''TX_TOP_TX_RFFE_IF_FREQ_RF_H_FREQ_RF'' 0)) * 65536 +
   the (reg_file (sx1302_send_ops LGW_RADIO_TYPE_SX1250 tx_gain_default True rxif_zero tx_sample) (RegOf ''TX_TOP_TX_RFFE_IF_FREQ_RF_M_FREQ_RF'' 0)) * 256 +
   the (reg_file (sx1302_send_ops LGW_RADIO_TYPE_SX1250 tx_gain_default True rxif_zero tx_sample) (RegOf ''TX_TOP_TX_RFFE_IF_FREQ_RF_L_FREQ_RF'' 0)) = 7111475"
proof -
  have "tx_radio_ok LGW_RADIO_TYPE_SX1250" "lut_ok tx_gain_default" by (simp_all add: tx_radio_ok_def lut_ok_def tx_gain_default_def)
  moreover have "tx_modulation tx_sample = MOD_LORA" "tx_mode tx_sample = TIMESTAMPED" "IS_LORA_BW (tx_bandwidth tx_sample)" "tx_size tx_sample \<le> 255"
      "length (tx_payload tx_sample) = 256" "tx_freq_hz tx_sample \<le> 1000000000"
    by (simp_all add: tx_sample_def tx_pkt_zero_def IS_LORA_BW_def)
  ultimately show ?thesis
    using lora_registers_exact [of LGW_RADIO_TYPE_SX1250 tx_gain_default tx_sample True rxif_zero] by (simp add: tx_sample_def tx_pkt_zero_def)
qed

end
