(* ===== verification/Gps.thy ===== *)
theory Gps
  imports Prelude CDouble
begin

text \<open>
  The time reference: synchronisation with the GPS clock and the conversions between the counter of the concentrator and GPS or UTC time, \<^verbatim>\<open>lgw_gps_sync\<close>,
  \<^verbatim>\<open>lgw_cnt2utc\<close>, \<^verbatim>\<open>lgw_utc2cnt\<close>, \<^verbatim>\<open>lgw_cnt2gps\<close> and \<^verbatim>\<open>lgw_gps2cnt\<close> of \<^verbatim>\<open>libloragw/src/loragw_gps.c\<close>, and its supervision by the daemon,
  \<^verbatim>\<open>gps_process_sync\<close> and \<^verbatim>\<open>thread_valid\<close> of \<^verbatim>\<open>clusterduck/src/clusterduckd.c\<close>. The readings of the GPS receiver, of the counter and of the system clock are
  arguments. A \<^verbatim>\<open>double\<close> is a rational number, every operation is rounded.
\<close>

subsection \<open>The reference\<close>

record timespec =
  tv_sec :: int
  tv_nsec :: int

record tref =
  systime :: int
  tref_count_us :: u32
  tref_utc :: timespec
  tref_gps :: timespec
  xtal_err :: rat

definition timespec_zero :: timespec where
  "timespec_zero = \<lparr>tv_sec = 0, tv_nsec = 0\<rparr>"

definition tref_zero :: tref where
  "tref_zero = \<lparr>systime = 0, tref_count_us = 0, tref_utc = timespec_zero, tref_gps = timespec_zero, xtal_err = 0\<rparr>"

abbreviation (input) LGW_GPS_SUCCESS :: int where "LGW_GPS_SUCCESS \<equiv> 0"
abbreviation (input) LGW_GPS_ERROR :: int where "LGW_GPS_ERROR \<equiv> -1"

definition PLUS_10PPM :: rat where
  "PLUS_10PPM = dbl (100001 / 100000)"

definition MINUS_10PPM :: rat where
  "MINUS_10PPM = dbl (99999 / 100000)"

definition xtal_refused :: "rat \<Rightarrow> bool" where
  "xtal_refused x \<longleftrightarrow> PLUS_10PPM < x \<or> x < MINUS_10PPM"

text \<open>The difference of two times in seconds, as the sources compute it.\<close>

definition timespec_diff :: "timespec \<Rightarrow> timespec \<Rightarrow> rat" where
  "timespec_diff a b = dbl (dbl (of_int (tv_sec a - tv_sec b)) + dbl (dbl (1 / 10 ^ 9) * dbl (of_int (tv_nsec a - tv_nsec b))))"

subsection \<open>Synchronisation\<close>

text \<open>The static variables: whether the last sync point and the one before were aberrant.\<close>

record sync_state =
  sync_ref :: tref
  aber_min1 :: bool
  aber_min2 :: bool

definition sync_slope :: "tref \<Rightarrow> u32 \<Rightarrow> timespec \<Rightarrow> rat option" where
  "sync_slope ref count_us utc =
     (let cnt_diff = dbl (of_nat (unat (count_us - tref_count_us ref)) / 10 ^ 6);
          utc_diff = timespec_diff utc (tref_utc ref)
      in if utc_diff \<noteq> 0
         then let slope = dbl (cnt_diff / utc_diff) in if xtal_refused slope then None else Some slope
         else None)"

text \<open>\<open>now\<close> is the value of \<^verbatim>\<open>time(NULL)\<close>. A sync point is aberrant when \<open>sync_slope\<close> is \<open>None\<close>.\<close>

definition lgw_gps_sync :: "int \<Rightarrow> u32 \<Rightarrow> timespec \<Rightarrow> timespec \<Rightarrow> sync_state \<Rightarrow> int \<times> sync_state" where
  "lgw_gps_sync now count_us utc gps_time s =
     (let ref = sync_ref s; slope = sync_slope ref count_us utc;
          ref' = ref\<lparr>systime := now, tref_count_us := count_us, tref_utc := utc, tref_gps := gps_time\<rparr>;
          s' = s\<lparr>aber_min2 := aber_min1 s, aber_min1 := (slope = None)\<rparr>
      in case slope of
           Some x \<Rightarrow> (LGW_GPS_SUCCESS, s'\<lparr>sync_ref := ref'\<lparr>xtal_err := x\<rparr>\<rparr>)
         | None \<Rightarrow>
             if aber_min1 s \<and> aber_min2 s
             then (LGW_GPS_SUCCESS, s'\<lparr>sync_ref := (if xtal_refused (xtal_err ref) then ref'\<lparr>xtal_err := 1\<rparr> else ref')\<rparr>)
             else (LGW_GPS_ERROR, s'))"

subsection \<open>Conversions\<close>

definition tref_unusable :: "tref \<Rightarrow> bool" where
  "tref_unusable ref \<longleftrightarrow> systime ref = 0 \<or> xtal_refused (xtal_err ref)"

text \<open>The counter as a time, relative to a reference time.\<close>

definition cnt_to_time :: "tref \<Rightarrow> timespec \<Rightarrow> u32 \<Rightarrow> timespec" where
  "cnt_to_time ref base count_us =
     (let delta_sec = dbl (of_nat (unat (count_us - tref_count_us ref)) / dbl (10 ^ 6 * xtal_err ref));
          intpart = c_trunc delta_sec; fractpart = delta_sec - of_int intpart;
          tmp = tv_nsec base + c_trunc (dbl (fractpart * 10 ^ 9))
      in if tmp < 10 ^ 9 then \<lparr>tv_sec = tv_sec base + intpart, tv_nsec = tmp\<rparr>
         else \<lparr>tv_sec = tv_sec base + intpart + 1, tv_nsec = tmp - 10 ^ 9\<rparr>)"

text \<open>A time as a counter value; the conversion to \<^verbatim>\<open>uint32_t\<close> is undefined outside the range of the type.\<close>

definition time_to_cnt :: "tref \<Rightarrow> timespec \<Rightarrow> timespec \<Rightarrow> c_fault + u32" where
  "time_to_cnt ref base t =
     (let ticks = dbl (dbl (timespec_diff t base * 10 ^ 6) * xtal_err ref)
      in if - 1 < ticks \<and> ticks < 2 ^ 32 then Inr (tref_count_us ref + of_int (c_trunc ticks)) else Inl UndefinedConversion)"

definition lgw_cnt2utc :: "tref \<Rightarrow> u32 \<Rightarrow> int \<times> timespec option" where
  "lgw_cnt2utc ref count_us =
     (if tref_unusable ref then (LGW_GPS_ERROR, None) else (LGW_GPS_SUCCESS, Some (cnt_to_time ref (tref_utc ref) count_us)))"

definition lgw_cnt2gps :: "tref \<Rightarrow> u32 \<Rightarrow> int \<times> timespec option" where
  "lgw_cnt2gps ref count_us =
     (if tref_unusable ref then (LGW_GPS_ERROR, None) else (LGW_GPS_SUCCESS, Some (cnt_to_time ref (tref_gps ref) count_us)))"

definition lgw_utc2cnt :: "tref \<Rightarrow> timespec \<Rightarrow> c_fault + (int \<times> u32 option)" where
  "lgw_utc2cnt ref utc =
     (if tref_unusable ref then Inr (LGW_GPS_ERROR, None)
      else res_bind (time_to_cnt ref (tref_utc ref) utc) (\<lambda>c. Inr (LGW_GPS_SUCCESS, Some c)))"

definition lgw_gps2cnt :: "tref \<Rightarrow> timespec \<Rightarrow> c_fault + (int \<times> u32 option)" where
  "lgw_gps2cnt ref gps_time =
     (if tref_unusable ref then Inr (LGW_GPS_ERROR, None)
      else res_bind (time_to_cnt ref (tref_gps ref) gps_time) (\<lambda>c. Inr (LGW_GPS_SUCCESS, Some c)))"

subsection \<open>Supervision\<close>

abbreviation (input) GPS_REF_MAX_AGE :: int where "GPS_REF_MAX_AGE \<equiv> 30"
abbreviation (input) XERR_INIT_AVG :: nat where "XERR_INIT_AVG \<equiv> 16"

text \<open>The state the threads share, and the variables of \<^verbatim>\<open>thread_valid\<close>.\<close>

record time_state =
  time_sync :: sync_state
  gps_ref_valid :: bool
  xtal_correct_ok :: bool
  xtal_correct :: rat
  init_cpt :: nat
  init_acc :: rat

definition time_state_init :: time_state where
  "time_state_init = \<lparr>time_sync = \<lparr>sync_ref = tref_zero, aber_min1 = False, aber_min2 = False\<rparr>, gps_ref_valid = False,
     xtal_correct_ok = False, xtal_correct = 1, init_cpt = 0, init_acc = 0\<rparr>"

text \<open>\<open>gps\<close> is what \<^verbatim>\<open>lgw_gps_get\<close> delivers, \<open>trig\<close> the counter captured on the PPS pulse.\<close>

definition gps_process_sync :: "int \<Rightarrow> (timespec \<times> timespec) option \<Rightarrow> u32 \<Rightarrow> time_state \<Rightarrow> time_state" where
  "gps_process_sync now gps trig s =
     (case gps of
        None \<Rightarrow> s
      | Some (utc, gps_time) \<Rightarrow> s\<lparr>time_sync := snd (lgw_gps_sync now trig utc gps_time (time_sync s))\<rparr>)"

text \<open>One turn of \<^verbatim>\<open>thread_valid\<close>.\<close>

definition thread_valid_turn :: "int \<Rightarrow> time_state \<Rightarrow> time_state" where
  "thread_valid_turn now s =
     (let ref = sync_ref (time_sync s); age = now - systime ref
      in if 0 \<le> age \<and> age \<le> GPS_REF_MAX_AGE
         then let s1 = s\<lparr>gps_ref_valid := True\<rparr>
              in if init_cpt s < XERR_INIT_AVG
                 then s1\<lparr>init_acc := dbl (init_acc s + xtal_err ref), init_cpt := init_cpt s + 1\<rparr>
                 else if init_cpt s = XERR_INIT_AVG
                 then s1\<lparr>xtal_correct := dbl (of_nat XERR_INIT_AVG / init_acc s), xtal_correct_ok := True, init_cpt := init_cpt s + 1\<rparr>
                 else let x = dbl (1 / xtal_err ref); c = xtal_correct s
                      in s1\<lparr>xtal_correct := dbl (dbl (c - dbl (c / 256)) + dbl (x / 256))\<rparr>
         else s\<lparr>gps_ref_valid := False, xtal_correct_ok := False, xtal_correct := 1, init_cpt := 0, init_acc := 0\<rparr>)"

end
