(* ===== verification/GpsProps.thy ===== *)
theory GpsProps
  imports Gps
begin

text \<open>
  The time reference stays usable whatever the GPS receiver delivers, the crystal correction derived from it stays close to one, and the conversion of a time to
  the counter is accurate for times after the reference.
\<close>

subsection \<open>Rounding\<close>

lemma dbl_err_abs: "\<bar>dbl x - x\<bar> \<le> \<bar>x\<bar> / 2 ^ 53"
proof (cases "0 \<le> x")
  case True
  then show ?thesis using dbl_err [of x] by simp
next
  case False
  then show ?thesis using dbl_err [of "- x"] by (simp add: dbl_minus abs_minus_commute)
qed

lemma c_trunc_err: "\<bar>of_int (c_trunc v) - v\<bar> < 1"
  unfolding c_trunc_def by (auto simp: abs_less_iff) linarith+

text \<open>A rounded value that is at most 16 is off by less than a \<open>10^14\<close>th.\<close>

lemma dbl_close:
  assumes "\<bar>x\<bar> \<le> 17"
  shows "\<bar>dbl x - x\<bar> \<le> 1 / 10 ^ 14"
proof -
  have "\<bar>x\<bar> / 2 ^ 53 \<le> 17 / 2 ^ 53" using assms by (intro divide_right_mono) auto
  also have "(17 :: rat) / 2 ^ 53 \<le> 1 / 10 ^ 14" by simp
  finally show ?thesis using dbl_err_abs [of x] by linarith
qed

lemma ppm_limits: "\<bar>PLUS_10PPM - 100001 / 100000\<bar> \<le> 1 / 10 ^ 14" "\<bar>MINUS_10PPM - 99999 / 100000\<bar> \<le> 1 / 10 ^ 14"
  using dbl_close [of "100001 / 100000"] dbl_close [of "99999 / 100000"] by (simp_all add: PLUS_10PPM_def MINUS_10PPM_def)

lemma xtal_accepted: "\<not> xtal_refused x \<Longrightarrow> \<bar>x - 1\<bar> \<le> 1 / 100000 + 1 / 10 ^ 14"
  using ppm_limits unfolding xtal_refused_def by linarith

lemma one_accepted: "\<not> xtal_refused 1"
  using ppm_limits by (auto simp: xtal_refused_def abs_le_iff)

subsection \<open>Reachable states\<close>

text \<open>The threads in any interleaving; the system clock reads more than thirty seconds after its epoch.\<close>

inductive time_reachable :: "time_state \<Rightarrow> bool" where
  init: "time_reachable time_state_init"
| sync: "time_reachable s \<Longrightarrow> GPS_REF_MAX_AGE < now \<Longrightarrow> time_reachable (gps_process_sync now gps trig s)"
| valid: "time_reachable s \<Longrightarrow> GPS_REF_MAX_AGE < now \<Longrightarrow> time_reachable (thread_valid_turn now s)"

definition ref_synced :: "tref \<Rightarrow> bool" where
  "ref_synced ref \<longleftrightarrow> GPS_REF_MAX_AGE < systime ref \<and> \<not> xtal_refused (xtal_err ref)"

definition time_inv :: "time_state \<Rightarrow> bool" where
  "time_inv s \<longleftrightarrow> (sync_ref (time_sync s) = tref_zero \<or> ref_synced (sync_ref (time_sync s))) \<and>
     (gps_ref_valid s \<longrightarrow> ref_synced (sync_ref (time_sync s))) \<and>
     \<bar>xtal_correct s - 1\<bar> \<le> 1 / 10000 \<and> init_cpt s \<le> 17 \<and>
     (init_cpt s \<le> 16 \<longrightarrow> \<bar>init_acc s - of_nat (init_cpt s)\<bar> \<le> of_nat (init_cpt s) * (1 / 50000))"

lemma tref_zero_refused: "xtal_refused (xtal_err tref_zero)"
  using ppm_limits by (auto simp: xtal_refused_def tref_zero_def abs_le_iff)

lemma lgw_gps_sync_ref:
  assumes "lgw_gps_sync now c utc gps s = (r, s')" and "GPS_REF_MAX_AGE < now"
  shows "ref_synced (sync_ref s') \<or> sync_ref s' = sync_ref s" and "r = LGW_GPS_SUCCESS \<Longrightarrow> ref_synced (sync_ref s')"
  using assms one_accepted
  by (auto simp: lgw_gps_sync_def ref_synced_def sync_slope_def Let_def split: option.splits if_splits)

lemma sync_inv:
  assumes "time_inv s" and "GPS_REF_MAX_AGE < now"
  shows "time_inv (gps_process_sync now gps trig s)"
proof (cases gps)
  case None
  then show ?thesis using assms by (simp add: gps_process_sync_def)
next
  case (Some ug)
  obtain utc g where ug: "ug = (utc, g)" by fastforce
  obtain r s' where l: "lgw_gps_sync now trig utc g (time_sync s) = (r, s')" by fastforce
  show ?thesis using lgw_gps_sync_ref(1) [OF l assms(2)] assms(1) Some ug l
    by (auto simp: gps_process_sync_def time_inv_def)
qed

text \<open>One step of the filter: a correction within 100 ppm stays within 100 ppm.\<close>

lemma filter_step:
  assumes "\<bar>c - 1\<bar> \<le> 1 / 10000" and "\<bar>e - 1\<bar> \<le> 1 / 100000 + 1 / 10 ^ 14"
  shows "\<bar>dbl (dbl (c - dbl (c / 256)) + dbl (dbl (1 / e) / 256)) - 1\<bar> \<le> 1 / 10000"
proof -
  define k where "k = (1 :: rat) / 10 ^ 14"
  have "(1 :: rat) / 100000 + 1 / 10 ^ 14 \<le> 2 / 100000" by simp
  then have e: "99998 / 100000 \<le> e" "e \<le> 100002 / 100000" using assms(2) by linarith+
  define y where "y = 1 / e"
  have "y \<le> 1 / (99998 / 100000)" "1 / (100002 / 100000) \<le> y"
    using e unfolding y_def by (intro divide_left_mono; simp)+
  then have "y * 49999 \<le> 50000" "50000 \<le> y * 50001" by simp_all
  then have inv: "\<bar>y - 1\<bar> \<le> 1 / 40000" by linarith
  define x where "x = dbl y"
  have x: "\<bar>x - 1\<bar> \<le> 1 / 40000 + k" using dbl_close [of y] inv unfolding x_def k_def by linarith
  have k: "0 < k" "k \<le> 1 / 10000000000" by (simp_all add: k_def)
  define a b d where "a = dbl (c / 256)" and "b = dbl (c - a)" and "d = dbl (x / 256)"
  have a: "\<bar>a - c / 256\<bar> \<le> k" using dbl_close [of "c / 256"] assms(1) unfolding a_def k_def by linarith
  have b: "\<bar>b - (c - a)\<bar> \<le> k" using dbl_close [of "c - a"] assms(1) a k unfolding b_def k_def by linarith
  have d: "\<bar>d - x / 256\<bar> \<le> k" using dbl_close [of "x / 256"] x k unfolding d_def k_def by linarith
  have "\<bar>b - (c - c / 256)\<bar> \<le> 2 * k" using a b by linarith
  moreover have "\<bar>d - 1 / 256\<bar> \<le> k + 1 / 10240000 + k / 256" using d x by linarith
  ultimately have s: "\<bar>b + d - (c - c / 256 + 1 / 256)\<bar> \<le> 3 * k + 1 / 10240000 + k / 256" by linarith
  then have "\<bar>b + d\<bar> \<le> 17" using assms(1) k by linarith
  then have "\<bar>dbl (b + d) - (b + d)\<bar> \<le> k" unfolding k_def by (rule dbl_close)
  then have "\<bar>dbl (b + d) - 1\<bar> \<le> 1 / 10000" using s k assms(1) by linarith
  then show ?thesis by (simp add: a_def b_def d_def x_def y_def)
qed

lemma average_step:
  assumes "\<bar>a - 16\<bar> \<le> 16 * (1 / 50000)"
  shows "\<bar>dbl (16 / a) - 1\<bar> \<le> 1 / 10000"
proof -
  have a: "16 * (49999 / 50000) \<le> a" "a \<le> 16 * (50001 / 50000)" using assms by linarith+
  define y where "y = 16 / a"
  have "y \<le> 16 / (16 * (49999 / 50000))" "16 / (16 * (50001 / 50000)) \<le> y"
    using a unfolding y_def by (intro divide_left_mono; simp)+
  then have "y * 49999 \<le> 50000" "50000 \<le> y * 50001" by simp_all
  then have "\<bar>y - 1\<bar> \<le> 1 / 40000" by linarith
  moreover have "(1 :: rat) / 10 ^ 14 \<le> 1 / 1000000" by simp
  ultimately show ?thesis using dbl_close [of y] unfolding y_def by linarith
qed

lemma accumulate_step:
  assumes "\<bar>a - of_nat n\<bar> \<le> of_nat n * (1 / 50000)" and "\<bar>e - 1\<bar> \<le> 1 / 100000 + 1 / 10 ^ 14" and "n < 16"
  shows "\<bar>dbl (a + e) - of_nat (Suc n)\<bar> \<le> of_nat (Suc n) * (1 / 50000)"
proof -
  have n: "(of_nat n :: rat) \<le> 15" using assms(3) by simp
  have k: "(1 :: rat) / 10 ^ 14 \<le> 1 / 1000000" by simp
  then have "\<bar>a + e\<bar> \<le> 17" using assms(1,2) n by linarith
  moreover have "(1 + of_nat n) * (1 / 50000) = 1 / 50000 + of_nat n * (1 / 50000 :: rat)" by (simp add: distrib_right)
  ultimately show ?thesis using dbl_close [of "a + e"] assms(1,2) k unfolding of_nat_Suc by linarith
qed

lemma valid_inv:
  assumes "time_inv s" and "GPS_REF_MAX_AGE < now"
  shows "time_inv (thread_valid_turn now s)"
proof (cases "0 \<le> now - systime (sync_ref (time_sync s)) \<and> now - systime (sync_ref (time_sync s)) \<le> GPS_REF_MAX_AGE")
  case False
  then show ?thesis using assms by (auto simp: thread_valid_turn_def time_inv_def Let_def)
next
  case True
  then have "sync_ref (time_sync s) \<noteq> tref_zero" using assms(2) by (auto simp: tref_zero_def)
  then have ref: "ref_synced (sync_ref (time_sync s))" using assms(1) by (simp add: time_inv_def)
  then have e: "\<bar>xtal_err (sync_ref (time_sync s)) - 1\<bar> \<le> 1 / 100000 + 1 / 10 ^ 14"
    using xtal_accepted by (simp add: ref_synced_def)
  consider "init_cpt s < 16" | "init_cpt s = 16" | "init_cpt s = 17"
    using assms(1) by (fastforce simp: time_inv_def)
  then show ?thesis
  proof cases
    case 1
    then show ?thesis using accumulate_step [of "init_acc s" "init_cpt s", OF _ e] True ref assms(1)
      by (auto simp: thread_valid_turn_def time_inv_def Let_def)
  next
    case 2
    then show ?thesis using average_step [of "init_acc s"] True ref assms(1)
      by (auto simp: thread_valid_turn_def time_inv_def Let_def)
  next
    case 3
    then show ?thesis using filter_step [OF _ e, of "xtal_correct s"] True ref assms(1)
      by (auto simp: thread_valid_turn_def time_inv_def Let_def)
  qed
qed

lemma time_reachable_inv: "time_reachable s \<Longrightarrow> time_inv s"
proof (induction rule: time_reachable.induct)
  case init
  then show ?case by (simp add: time_inv_def time_state_init_def)
qed (simp_all add: sync_inv valid_inv)

text \<open>
  C28. The clock supervision is safe. Whatever times the GPS receiver reports and in whatever order synchronisation and supervision run, with a system clock above 30 s: when the reference is marked
  valid, the conversions accept it (a synchronisation has happened and its crystal error is within 10 ppm); the correction applied to the beacon frequency always
  stays within 100 ppm of one, all rounding errors included.
\<close>

theorem time_reference_safe:
  assumes "time_reachable s"
  shows "(gps_ref_valid s \<longrightarrow> \<not> tref_unusable (sync_ref (time_sync s))) \<and> \<bar>xtal_correct s - 1\<bar> \<le> 1 / 10000"
  using time_reachable_inv [OF assms] by (auto simp: time_inv_def ref_synced_def tref_unusable_def)

text \<open>Three synchronisations with the time 0, which are all aberrant, so that the third one starts the reference anew, and a turn of the supervision: the reference is valid.\<close>

definition time_steps :: "int list \<Rightarrow> time_state" where
  "time_steps ts = foldl (\<lambda>s t. gps_process_sync t (Some (timespec_zero, timespec_zero)) 5 s) time_state_init ts"

lemma time_steps_reachable: "\<forall>t\<in>set ts. GPS_REF_MAX_AGE < t \<Longrightarrow> time_reachable (time_steps ts)"
  unfolding time_steps_def
  by (induction ts rule: rev_induct) (auto intro: time_reachable.intros)

theorem time_reference_safe_witness:
  "gps_ref_valid (thread_valid_turn 1003 (time_steps [1000, 1001, 1002])) \<and>
   \<not> tref_unusable (sync_ref (time_sync (thread_valid_turn 1003 (time_steps [1000, 1001, 1002])))) \<and>
   \<bar>xtal_correct (thread_valid_turn 1003 (time_steps [1000, 1001, 1002])) - 1\<bar> \<le> 1 / 10000"
proof -
  have z: "timespec_diff timespec_zero timespec_zero = 0"
    by (simp add: timespec_diff_def)
  have "sync_slope tref_zero 5 timespec_zero = None"
    using z by (simp add: sync_slope_def tref_zero_def)
  then have "systime (sync_ref (time_sync (time_steps [1000, 1001, 1002]))) = 1002"
    by (simp add: time_steps_def gps_process_sync_def lgw_gps_sync_def time_state_init_def Let_def)
  then have v: "gps_ref_valid (thread_valid_turn 1003 (time_steps [1000, 1001, 1002]))"
    by (simp add: thread_valid_turn_def Let_def)
  have "time_reachable (thread_valid_turn 1003 (time_steps [1000, 1001, 1002]))"
    by (intro time_reachable.valid time_steps_reachable) simp_all
  from time_reference_safe [OF this] v show ?thesis by simp
qed

text \<open>
  C29. Synchronisation always recovers: of any three consecutive calls of \<^verbatim>\<open>lgw_gps_sync\<close>, whatever the reference and the times, at least one succeeds and leaves a
  reference that the conversions accept.
\<close>

theorem gps_sync_recovers:
  assumes "lgw_gps_sync n1 c1 u1 g1 s0 = (r1, s1)" and "lgw_gps_sync n2 c2 u2 g2 s1 = (r2, s2)" and "lgw_gps_sync n3 c3 u3 g3 s2 = (r3, s3)"
    and "GPS_REF_MAX_AGE < min n1 (min n2 n3)"
  shows "\<exists>(r, s)\<in>{(r1, s1), (r2, s2), (r3, s3)}. r = LGW_GPS_SUCCESS \<and> \<not> tref_unusable (sync_ref s)"
proof -
  have ok: "\<not> tref_unusable (sync_ref s')" if "lgw_gps_sync n c u g s = (LGW_GPS_SUCCESS, s')" "GPS_REF_MAX_AGE < n" for n c u g s s'
    using lgw_gps_sync_ref(2) [OF that] by (auto simp: ref_synced_def tref_unusable_def)
  have aber: "r = LGW_GPS_SUCCESS \<or> r = LGW_GPS_ERROR \<and> aber_min1 s' \<and> aber_min2 s' = aber_min1 s \<and> \<not> (aber_min1 s \<and> aber_min2 s)"
    if "lgw_gps_sync n c u g s = (r, s')" for n c u g s r s'
    using that by (auto simp: lgw_gps_sync_def Let_def split: option.splits if_splits)
  have "r1 = 0 \<or> r2 = 0 \<or> r3 = 0"
    using aber [OF assms(1)] aber [OF assms(2)] aber [OF assms(3)] by auto
  then show ?thesis
    using ok [of n1 c1 u1 g1 s0 s1] ok [of n2 c2 u2 g2 s1 s2] ok [of n3 c3 u3 g3 s2 s3] assms by auto
qed

theorem gps_sync_recovers_witness:
  "\<exists>s1 s2 s3. lgw_gps_sync 100 5 timespec_zero timespec_zero (time_sync time_state_init) = (-1, s1) \<and> lgw_gps_sync 101 5 timespec_zero timespec_zero s1 = (-1, s2) \<and>
     lgw_gps_sync 102 5 timespec_zero timespec_zero s2 = (0, s3) \<and> \<not> tref_unusable (sync_ref s3)"
proof -
  define s0 where "s0 = time_sync time_state_init"
  obtain r1 s1 where 1: "lgw_gps_sync 100 5 timespec_zero timespec_zero s0 = (r1, s1)" by fastforce
  obtain r2 s2 where 2: "lgw_gps_sync 101 5 timespec_zero timespec_zero s1 = (r2, s2)" by fastforce
  obtain r3 s3 where 3: "lgw_gps_sync 102 5 timespec_zero timespec_zero s2 = (r3, s3)" by fastforce
  have n: "sync_slope tref_zero 5 timespec_zero = None" by (simp add: sync_slope_def timespec_diff_def tref_zero_def timespec_zero_def Let_def)
  have r: "r1 = -1" "r2 = -1" using 1 2 by (auto simp: s0_def time_state_init_def lgw_gps_sync_def n Let_def)
  have "30 < min (100 :: int) (min 101 102)" by simp
  from gps_sync_recovers [OF 1 2 3 this] have "r3 = 0 \<and> \<not> tref_unusable (sync_ref s3)" using r by auto
  then show ?thesis using 1 2 3 r by (auto simp: s0_def)
qed

end
