(* ===== verification/JitSchedule.thy ===== *)
theory JitSchedule
  imports JitQueueProps
begin

text \<open>
  The Just-In-Time queue in running time: one thread inserts packets, the other polls the queue and takes out what is due. Time is counted in microseconds and does
  not wrap, the counter of the concentrator shows it modulo \<open>2^32\<close>. The transmission thread releases the mutex of the queue between \<^verbatim>\<open>jit_peek\<close> and
  \<^verbatim>\<open>jit_dequeue\<close>, so that insertions may come between the two calls.
\<close>

subsection \<open>The timed system\<close>

record jit_clock =
  ck_now :: nat
  ck_poll :: nat
  ck_pending :: "int option"
  ck_queue :: jit_queue_s

text \<open>
  The gap \<open>gap\<close> bounds the time between two polls. A packet is inserted with a reading of the counter that is at most 2.5 ms old; it leaves at most 500 s later, and
  its time on air is at least \<open>gap\<close> less 2.5 ms (and below 9 minutes, so that no sum of delays wraps).
\<close>

inductive jit_timed :: "u8 \<Rightarrow> nat \<Rightarrow> jit_clock \<Rightarrow> bool" for sws :: u8 and gap :: nat where
  start: "jit_timed sws gap \<lparr>ck_now = t, ck_poll = t, ck_pending = None, ck_queue = jit_queue_init\<rparr>"
| tick: "jit_timed sws gap s \<Longrightarrow> ck_now s \<le> t \<Longrightarrow> t < ck_poll s + gap \<Longrightarrow> jit_timed sws gap (s\<lparr>ck_now := t\<rparr>)"
| enqueue: "jit_timed sws gap s \<Longrightarrow> r \<le> ck_now s \<Longrightarrow> ck_now s - r \<le> 2500 \<Longrightarrow>
    jit_enqueue sws (ck_queue s) (of_nat r) (Some p) ty = (e, q', Some p') \<Longrightarrow>
    e = JIT_ERROR_OK \<longrightarrow> unat (tx_count_us p' - of_nat r) \<le> 500000000 \<and>
      gap \<le> 2500 + unat (jit_pkt_post_delay sws p ty) \<and> unat (jit_pkt_post_delay sws p ty) < 2 ^ 29 \<Longrightarrow>
    jit_timed sws gap (s\<lparr>ck_queue := q'\<rparr>)"
| peek: "jit_timed sws gap s \<Longrightarrow> ck_pending s = None \<Longrightarrow> jit_peek (ck_queue s) (of_nat (ck_now s)) True = Inr (e, q', i) \<Longrightarrow>
    jit_timed sws gap (s\<lparr>ck_poll := ck_now s, ck_queue := q',
      ck_pending := (case i of Some k \<Rightarrow> if e = JIT_ERROR_OK \<and> -1 < k then Some k else None | None \<Rightarrow> None)\<rparr>)"
| dequeue: "jit_timed sws gap s \<Longrightarrow> ck_pending s = Some i \<Longrightarrow> jit_dequeue (ck_queue s) i True = (e, q', x) \<Longrightarrow>
    jit_timed sws gap (s\<lparr>ck_pending := None, ck_queue := q'\<rparr>)"

subsection \<open>The time left\<close>

definition jit_lead :: "nat \<Rightarrow> jit_node_s \<Rightarrow> nat" where
  "jit_lead t n = unat (tx_count_us (pkt n) - of_nat t)"

lemma unat_minus_of_nat:
  fixes x :: u32
  assumes "k \<le> unat x"
  shows "unat (x - of_nat k) = unat x - k"
proof -
  have "unat x < 2 ^ LENGTH(32)" by (rule unsigned_less)
  then have "k < 2 ^ 32" using assms by simp
  then have "unat (of_nat k :: u32) = k" by (simp add: unat_of_nat)
  with assms show ?thesis by (simp add: unat_sub word_le_nat_alt)
qed

lemma len32_pow: "2 ^ LENGTH(32) = (2 :: nat) ^ 32"
  by simp

lemma jit_lead_later:
  assumes "p \<le> t" and "t - p \<le> jit_lead p n"
  shows "jit_lead t n = jit_lead p n - (t - p)"
proof -
  have "tx_count_us (pkt n) - of_nat t = (tx_count_us (pkt n) - of_nat p) - of_nat (t - p)"
    using assms(1) by (simp add: of_nat_diff)
  then show ?thesis
    using assms(2) unfolding jit_lead_def by (simp only: unat_minus_of_nat)
qed

lemma jit_lead_earlier:
  assumes "p \<le> t" and "jit_lead t n + (t - p) < 2 ^ 32"
  shows "jit_lead p n = jit_lead t n + (t - p)"
proof -
  have "tx_count_us (pkt n) - of_nat p = (tx_count_us (pkt n) - of_nat t) + of_nat (t - p)"
    using assms(1) by (simp add: of_nat_diff)
  moreover have "unat (of_nat (t - p) :: u32) = t - p"
    using assms(2) by (simp add: unat_of_nat)
  ultimately show ?thesis
    using assms(2) unfolding jit_lead_def by (simp only: unat_word_ariths(1) len32_pow mod_less)
qed

text \<open>The departures of compatible packets are apart by the reserved time of the first one and 2.5 ms.\<close>

definition jit_node_ok :: "nat \<Rightarrow> jit_node_s \<Rightarrow> bool" where
  "jit_node_ok gap n \<longleftrightarrow> pre_delay n = jit_pkt_pre_delay (pkt_type n) \<and> gap \<le> 2500 + unat (post_delay n) \<and> unat (post_delay n) < 2 ^ 29"

lemma jit_target_pre_delay_ge:
  "pre_delay n = jit_pkt_pre_delay (pkt_type n) \<Longrightarrow>
     1500 \<le> unat (jit_target_pre_delay ty n) \<and> unat (jit_target_pre_delay ty n) < 2 ^ 30 \<and> 1500 \<le> unat (pre_delay n) \<and> unat (pre_delay n) < 2 ^ 30"
  by (cases "pkt_type n") (auto simp: jit_target_pre_delay_def jit_pkt_pre_delay_def)

lemma jit_compat_apart:
  assumes "jit_compat a b" and ok: "jit_node_ok gap a" "jit_node_ok gap b"
    and "jit_lead p a \<le> jit_lead p b" and "jit_lead p b < 2 ^ 31"
  shows "jit_lead p a + gap < jit_lead p b"
proof -
  define d where "d = tx_count_us (pkt b) - tx_count_us (pkt a)"
  have "d = (tx_count_us (pkt b) - of_nat p) - of_nat (jit_lead p a)"
    by (simp add: d_def jit_lead_def)
  then have d: "unat d = jit_lead p b - jit_lead p a"
    using assms(4) unfolding jit_lead_def by (simp only: unat_minus_of_nat)
  have pb: "1500 \<le> unat (pre_delay b)" "unat (pre_delay b) < 2 ^ 30" and tb: "1500 \<le> unat (jit_target_pre_delay ty b)"
      "unat (jit_target_pre_delay ty b) < 2 ^ 30" for ty
    using ok(2) jit_target_pre_delay_ge by (auto simp: jit_node_ok_def)
  have qa: "unat (post_delay a) < 2 ^ 30" "gap \<le> 2500 + unat (post_delay a)"
    using ok(1) by (simp_all add: jit_node_ok_def)
  from assms(1) have "\<not> d \<le> jit_target_pre_delay (pkt_type a) b + post_delay a + 1000 \<or> \<not> d \<le> pre_delay b + post_delay a + 1000"
    unfolding jit_compat_def jit_collides_def jit_collision_test_def d_def by blast
  then have "2500 + unat (post_delay a) < unat d"
    using pb tb [of "pkt_type a"] qa unfolding word_le_nat_alt by (auto simp: unat_add3)
  with d qa show ?thesis by linarith
qed

subsection \<open>The invariant\<close>

definition jit_on_time :: "nat \<Rightarrow> jit_clock \<Rightarrow> bool" where
  "jit_on_time gap s \<longleftrightarrow>
     jit_wf (ck_queue s) \<and> jit_separated (ck_queue s) \<and>
     (\<forall>n\<in>set (jit_active (ck_queue s)). jit_node_ok gap n \<and> jit_lead (ck_poll s) n < 512000000) \<and>
     sorted (map (jit_lead (ck_poll s)) (jit_active (ck_queue s))) \<and>
     ck_poll s \<le> ck_now s \<and> ck_now s < ck_poll s + gap \<and>
     (case ck_pending s of
        None \<Rightarrow> \<forall>n\<in>set (jit_active (ck_queue s)). gap \<le> jit_lead (ck_poll s) n
      | Some i \<Rightarrow> i = 0 \<and> jit_active (ck_queue s) \<noteq> [] \<and> jit_lead (ck_poll s) (hd (jit_active (ck_queue s))) < 40000 \<and>
          (\<forall>n\<in>set (tl (jit_active (ck_queue s))). gap \<le> jit_lead (ck_poll s) n))"

lemma jit_sort_sorted:
  assumes "unat (num_pkt q) \<le> length (nodes q)"
    and "\<forall>n\<in>set (jit_active (jit_sort_queue q)). jit_lead t n < 2 ^ 31"
  shows "sorted (map (jit_lead t) (jit_active (jit_sort_queue q)))"
proof -
  have "set (jit_active (jit_sort_queue q)) = set (jit_active q)"
    using jit_mset_sort [OF assms(1)] by (metis set_mset_mset)
  then show ?thesis
    using assms(2) jit_sort_window [OF assms(1), of "of_nat t"] unfolding jit_lead_def by blast
qed

lemma jit_append_sorted:
  assumes "jit_wf q" and "\<not> jit_queue_is_full q" and "\<forall>n\<in>set (jit_active (jit_append q m)). jit_lead t n < 2 ^ 31"
  shows "sorted (map (jit_lead t) (jit_active (jit_append q m)))"
  using assms(3) unfolding jit_append_def
  by (rule jit_sort_sorted [rotated])
    (use jit_wf_lengths [OF assms(1)] assms(2) in \<open>simp add: jit_is_full_iff unat_word_ariths\<close>)

lemma jit_remove_sorted:
  assumes "jit_wf q" and "i < unat (num_pkt q)" and "\<forall>n\<in>set (jit_active (jit_remove_at q i)). jit_lead t n < 2 ^ 31"
  shows "sorted (map (jit_lead t) (jit_active (jit_remove_at q i)))"
  using assms(3) unfolding jit_remove_at_def Let_def
  by (rule jit_sort_sorted [rotated])
    (use jit_wf_lengths [OF assms(1)] assms(2) in \<open>simp add: unat_pred\<close>)

text \<open>The head of a sorted queue is strictly the earliest, by more than \<open>gap\<close>.\<close>

lemma jit_head_earliest:
  assumes "jit_separated q" and "jit_active q = h # ns" and "\<forall>n\<in>set (jit_active q). jit_node_ok gap n \<and> jit_lead p n < 2 ^ 31"
    and "sorted (map (jit_lead p) (jit_active q))"
  shows "\<forall>n\<in>set ns. jit_lead p h + gap < jit_lead p n"
proof
  fix n assume "n \<in> set ns"
  then show "jit_lead p h + gap < jit_lead p n"
    using assms jit_compat_apart [of h n gap p] by (auto simp: jit_separated_def)
qed

lemma hd_of_least:
  assumes "sorted (map f xs)" and "h \<in> set xs" and "\<forall>n\<in>#mset xs - {#h#}. f h < (f n :: nat)"
  shows "hd xs = h \<and> mset (tl xs) = mset xs - {#h#}"
proof (cases xs)
  case Nil
  with assms(2) show ?thesis by simp
next
  case (Cons y ys)
  have "y = h"
  proof (rule ccontr)
    assume ne: "y \<noteq> h"
    then have "y \<in># mset xs - {#h#}" using Cons by (simp add: in_diff_count)
    then have "f h < f y" using assms(3) by blast
    moreover have "h \<in> set ys" using assms(2) Cons ne by simp
    ultimately show False using assms(1) Cons by fastforce
  qed
  with Cons show ?thesis by simp
qed

text \<open>Polling: nothing is overdue, so the queue is unchanged and the answer is about its head.\<close>

lemma jit_peek_head:
  assumes "jit_wf q" and "jit_active q = h # ns" and "\<forall>n\<in>set (jit_active q). jit_lead t n < 512000000"
    and "\<forall>n\<in>set ns. jit_lead t h < jit_lead t n"
  shows "jit_peek q (of_nat t) True = Inr (JIT_ERROR_OK, q, Some (if jit_lead t h < 40000 then 0 else -1))"
proof -
  have "0 < unat (num_pkt q)"
    using assms(2) jit_wf_lengths(3) [OF assms(1)] by simp
  moreover have "\<forall>n\<in>set (jit_active q). \<not> jit_outdated (of_nat t) n"
    using assms(3) by (auto simp: jit_outdated_def jit_lead_def word_le_nat_alt not_le)
  ultimately obtain k where k: "jit_peek_loop (of_nat t) q 0 (-1) = (q, k)" "0 \<le> k" "nat k < unat (num_pkt q)"
    and low: "tx_count_us (pkt (nodes q ! nat k)) - of_nat t \<le> tx_count_us (pkt (nodes q ! 0)) - of_nat t"
    using jit_peek_loop_earliest [OF assms(1), of "of_nat t" 0 "-1"] by auto
  have nth: "nodes q ! j = (h # ns) ! j" if "j < unat (num_pkt q)" for j
    using jit_active_nth [OF assms(1) that] assms(2) by simp
  have "nat k = 0"
  proof (rule ccontr)
    assume "nat k \<noteq> 0"
    then have "nodes q ! nat k \<in> set ns"
      using nth [OF k(3)] k(3) assms(2) jit_wf_lengths(3) [OF assms(1)] by (cases "nat k") auto
    moreover have "jit_lead t (nodes q ! nat k) \<le> jit_lead t h"
      using low nth [of 0] k(3) by (simp add: jit_lead_def word_le_nat_alt)
    ultimately show False using assms(4) by (meson leD)
  qed
  moreover have "nodes q ! 0 = h"
    using nth [of 0] k(3) by simp
  ultimately show ?thesis
    using k by (simp add: jit_peek_def jit_is_empty_iff jit_lead_def word_less_nat_alt)
qed

lemma jit_on_time_lead:
  assumes "jit_on_time gap s" and "ck_pending s = None" and "n \<in> set (jit_active (ck_queue s))"
  shows "jit_lead (ck_now s) n = jit_lead (ck_poll s) n - (ck_now s - ck_poll s) \<and> ck_now s - ck_poll s < jit_lead (ck_poll s) n"
proof -
  have "ck_poll s \<le> ck_now s" "ck_now s < ck_poll s + gap" "gap \<le> jit_lead (ck_poll s) n"
    using assms by (auto simp: jit_on_time_def)
  then show ?thesis using jit_lead_later [of "ck_poll s" "ck_now s" n] by simp
qed

lemma jit_on_time_peek:
  assumes "jit_on_time gap s" and "ck_pending s = None" and "gap \<le> 40000"
  shows "jit_peek (ck_queue s) (of_nat (ck_now s)) True =
    (case jit_active (ck_queue s) of
       [] \<Rightarrow> Inr (JIT_ERROR_EMPTY, ck_queue s, None)
     | h # _ \<Rightarrow> Inr (JIT_ERROR_OK, ck_queue s, Some (if jit_lead (ck_now s) h < 40000 then 0 else -1)))"
proof (cases "jit_active (ck_queue s)")
  case Nil
  then show ?thesis
    using assms(1) jit_wf_lengths(3) [of "ck_queue s"] by (simp add: jit_on_time_def jit_peek_def jit_is_empty_iff)
next
  case (Cons h ns)
  have inv: "jit_wf (ck_queue s)" "jit_separated (ck_queue s)" "sorted (map (jit_lead (ck_poll s)) (jit_active (ck_queue s)))"
    and ok: "\<forall>n\<in>set (jit_active (ck_queue s)). jit_node_ok gap n \<and> jit_lead (ck_poll s) n < 512000000"
    using assms(1) by (simp_all add: jit_on_time_def)
  note lead = jit_on_time_lead [OF assms(1,2)]
  have "jit_lead (ck_now s) h < jit_lead (ck_now s) n" if "n \<in> set ns" for n
  proof -
    have "jit_lead (ck_poll s) h + gap < jit_lead (ck_poll s) n"
      using jit_head_earliest [OF inv(2) Cons _ inv(3)] ok that by fastforce
    moreover have "h \<in> set (jit_active (ck_queue s))" "n \<in> set (jit_active (ck_queue s))" using Cons that by simp_all
    ultimately show ?thesis using lead [of h] lead [of n] by linarith
  qed
  moreover have "\<forall>n\<in>set (jit_active (ck_queue s)). jit_lead (ck_now s) n < 512000000"
    using ok lead by fastforce
  ultimately show ?thesis
    using jit_peek_head [OF inv(1) Cons] Cons by simp
qed

subsection \<open>The steps keep the invariant\<close>

lemma jit_on_time_enqueue:
  assumes inv: "jit_on_time gap s" and gap: "gap \<le> 40000" and r: "r \<le> ck_now s" "ck_now s - r \<le> 2500"
    and e: "jit_enqueue sws (ck_queue s) (of_nat r) (Some p) ty = (JIT_ERROR_OK, q', Some p')"
    and c: "unat (tx_count_us p' - of_nat r) \<le> 500000000" "gap \<le> 2500 + unat (jit_pkt_post_delay sws p ty)"
      "unat (jit_pkt_post_delay sws p ty) < 2 ^ 29"
  shows "jit_on_time gap (s\<lparr>ck_queue := q'\<rparr>)"
proof -
  define q n where "q = ck_queue s" and "n = jit_new_node sws q (of_nat r) p ty"
  have i: "jit_wf q" "jit_separated q" "ck_poll s \<le> ck_now s" "ck_now s < ck_poll s + gap"
      "\<forall>n\<in>set (jit_active q). jit_node_ok gap n \<and> jit_lead (ck_poll s) n < 512000000"
    and srt: "sorted (map (jit_lead (ck_poll s)) (jit_active q))"
    using inv by (simp_all add: jit_on_time_def q_def)
  from e [unfolded jit_enqueue_OK Let_def, folded q_def, folded n_def]
  have nf: "\<not> jit_queue_is_full q" and late: "\<not> jit_too_late (of_nat r) n" and col: "\<forall>m\<in>set (jit_active q). \<not> jit_node_collides n m"
    and q': "q' = jit_append q n" and p': "p' = pkt n"
    by simp_all
  have "42500 < jit_lead r n" "jit_lead r n \<le> 500000000"
    using late c(1) by (simp_all add: jit_too_late_def jit_lead_def p' word_le_nat_alt not_le)
  then have lead: "40000 \<le> jit_lead (ck_poll s) n" "jit_lead (ck_poll s) n < 512000000"
    using jit_lead_later [of r "ck_poll s" n] jit_lead_earlier [of "ck_poll s" r n] r i(3,4) gap
    by (cases "r \<le> ck_poll s"; simp)+
  have okn: "jit_node_ok gap n"
    using c(2,3) by (simp add: jit_node_ok_def n_def jit_new_node_def Let_def)
  have m: "mset (jit_active q') = add_mset n (mset (jit_active q))"
    unfolding q' by (rule jit_append_active [OF i(1) nf])
  then have set': "set (jit_active q') = insert n (set (jit_active q))"
    by (metis set_mset_add_mset_insert set_mset_mset)
  have all: "\<forall>x\<in>set (jit_active q'). jit_node_ok gap x \<and> jit_lead (ck_poll s) x < 512000000"
    using set' okn lead i(5) by simp
  have srt': "sorted (map (jit_lead (ck_poll s)) (jit_active q'))"
    unfolding q' by (rule jit_append_sorted [OF i(1) nf]) (use all in \<open>fastforce simp: q'\<close>)
  have pend: "case ck_pending s of
        None \<Rightarrow> \<forall>n\<in>set (jit_active q'). gap \<le> jit_lead (ck_poll s) n
      | Some i \<Rightarrow> i = 0 \<and> jit_active q' \<noteq> [] \<and> jit_lead (ck_poll s) (hd (jit_active q')) < 40000 \<and>
          (\<forall>n\<in>set (tl (jit_active q')). gap \<le> jit_lead (ck_poll s) n)"
  proof (cases "ck_pending s")
    case None
    then show ?thesis using inv set' lead(1) gap by (simp add: jit_on_time_def q_def)
  next
    case (Some i)
    define h ns where "h = hd (jit_active q)" and "ns = tl (jit_active q)"
    have h: "jit_active q = h # ns" "i = 0" "jit_lead (ck_poll s) h < 40000" "\<forall>n\<in>set ns. gap \<le> jit_lead (ck_poll s) n"
      using inv Some by (simp_all add: jit_on_time_def q_def h_def ns_def)
    have "\<forall>x\<in>set ns. jit_lead (ck_poll s) h < jit_lead (ck_poll s) x"
      using jit_head_earliest [OF i(2) h(1) _ srt] i(5) by fastforce
    then have "\<forall>x\<in>#mset (jit_active q') - {#h#}. jit_lead (ck_poll s) h < jit_lead (ck_poll s) x"
      using m h(1,3) lead(1) by simp
    then have "hd (jit_active q') = h \<and> mset (tl (jit_active q')) = mset (jit_active q') - {#h#}"
      by (rule hd_of_least [OF srt', rotated]) (simp add: set' h(1))
    moreover then have "set (tl (jit_active q')) = insert n (set ns)"
      using m h(1) by (metis add_mset_remove_trivial diff_union_swap insert_iff mset.simps(2) set_mset_add_mset_insert set_mset_mset add_mset_commute)
    ultimately show ?thesis
      using Some h lead gap set' by auto
  qed
  show ?thesis
    using i(3,4) all srt' pend jit_append_wf [OF i(1) nf] jit_append_separated [OF i(1) nf i(2) col]
    by (cases "ck_pending s") (simp_all add: jit_on_time_def q')
qed

lemma jit_on_time_polled:
  assumes inv: "jit_on_time gap s" and "ck_pending s = None" and gap: "0 < gap" "gap \<le> 40000"
    and pk: "jit_peek (ck_queue s) (of_nat (ck_now s)) True = Inr (e, q', i)"
  shows "jit_on_time gap (s\<lparr>ck_poll := ck_now s, ck_queue := q',
      ck_pending := (case i of Some k \<Rightarrow> if e = JIT_ERROR_OK \<and> -1 < k then Some k else None | None \<Rightarrow> None)\<rparr>)"
proof -
  define q where "q = ck_queue s"
  have w: "jit_wf q" "jit_separated q" and ok: "\<forall>n\<in>set (jit_active q). jit_node_ok gap n \<and> jit_lead (ck_poll s) n < 512000000"
    and srt: "sorted (map (jit_lead (ck_poll s)) (jit_active q))"
    using inv by (simp_all add: jit_on_time_def q_def)
  note lead = jit_on_time_lead [OF inv assms(2), folded q_def]
  have ok': "\<forall>n\<in>set (jit_active q). jit_node_ok gap n \<and> jit_lead (ck_now s) n < 512000000"
    using ok lead by fastforce
  have "sorted (map (\<lambda>x. x - (ck_now s - ck_poll s)) (map (jit_lead (ck_poll s)) (jit_active q)))"
    using srt by (auto simp: sorted_iff_nth_mono intro!: diff_le_mono)
  then have srt': "sorted (map (jit_lead (ck_now s)) (jit_active q))"
    using lead by (simp cong: map_cong add: comp_def)
  show ?thesis
  proof (cases "jit_active q")
    case Nil
    then show ?thesis
      using pk jit_on_time_peek [OF inv assms(2) gap(2)] w gap by (simp add: jit_on_time_def q_def [symmetric])
  next
    case (Cons h ns)
    have far: "\<forall>n\<in>set ns. jit_lead (ck_now s) h + gap < jit_lead (ck_now s) n"
      using jit_head_earliest [OF w(2) Cons _ srt'] ok' by fastforce
    have pk': "e = JIT_ERROR_OK" "q' = q" "i = Some (if jit_lead (ck_now s) h < 40000 then 0 else -1)"
      using pk jit_on_time_peek [OF inv assms(2) gap(2)] Cons by (simp_all add: q_def)
    have "jit_on_time gap (s\<lparr>ck_poll := ck_now s, ck_queue := q, ck_pending := (if jit_lead (ck_now s) h < 40000 then Some 0 else None)\<rparr>)"
      using w ok' srt' gap far Cons by (auto simp: jit_on_time_def)
    then show ?thesis by (cases "jit_lead (ck_now s) h < 40000") (simp_all add: pk')
  qed
qed

lemma jit_on_time_dequeue:
  assumes inv: "jit_on_time gap s" and "ck_pending s = Some i"
  shows "jit_dequeue (ck_queue s) i True = (JIT_ERROR_OK, jit_remove_at (ck_queue s) 0,
      Some (pkt (hd (jit_active (ck_queue s))), pkt_type (hd (jit_active (ck_queue s)))))"
    and "mset (jit_active (jit_remove_at (ck_queue s) 0)) = mset (tl (jit_active (ck_queue s)))"
    and "jit_on_time gap (s\<lparr>ck_pending := None, ck_queue := jit_remove_at (ck_queue s) 0\<rparr>)"
proof -
  define q h ns where "q = ck_queue s" and "h = hd (jit_active q)" and "ns = tl (jit_active q)"
  have c: "jit_active q = h # ns" and w: "jit_wf q" "jit_separated q" and i: "i = 0"
    and ok: "\<forall>n\<in>set ns. jit_node_ok gap n \<and> jit_lead (ck_poll s) n < 512000000 \<and> gap \<le> jit_lead (ck_poll s) n"
    and t: "ck_poll s \<le> ck_now s" "ck_now s < ck_poll s + gap"
    using inv assms(2) by (auto simp: jit_on_time_def q_def h_def ns_def dest: list.set_sel(2))
  have np: "0 < unat (num_pkt q)" using c jit_wf_lengths(3) [OF w(1)] by simp
  have h0: "nodes q ! 0 = h" using jit_active_nth [OF w(1) np] c by simp
  show "jit_dequeue (ck_queue s) i True = (JIT_ERROR_OK, jit_remove_at (ck_queue s) 0,
      Some (pkt (hd (jit_active (ck_queue s))), pkt_type (hd (jit_active (ck_queue s)))))"
    using np h0 i by (simp add: jit_dequeue_def jit_is_empty_iff Let_def h_def flip: q_def)
  have m: "mset (jit_active (jit_remove_at q 0)) = mset ns"
    using jit_remove_at_active [OF w(1) np] c h0 by simp
  then show "mset (jit_active (jit_remove_at (ck_queue s) 0)) = mset (tl (jit_active (ck_queue s)))"
    by (simp add: ns_def flip: q_def)
  have set': "set (jit_active (jit_remove_at q 0)) = set ns"
    using m by (metis set_mset_mset)
  have "sorted (map (jit_lead (ck_poll s)) (jit_active (jit_remove_at q 0)))"
    by (rule jit_remove_sorted [OF w(1) np]) (use ok set' in fastforce)
  moreover have "jit_separated (jit_remove_at q 0)"
    using jit_slots.drop_pairwise [OF symp_jit_compat w(1), of 0] w(2) np jit_wf_lengths(3) [OF w(1)] by (simp add: jit_separated_def)
  ultimately show "jit_on_time gap (s\<lparr>ck_pending := None, ck_queue := jit_remove_at (ck_queue s) 0\<rparr>)"
    using ok set' t jit_remove_at_wf [OF w(1) np] by (simp add: jit_on_time_def flip: q_def)
qed

lemma jit_timed_inv:
  assumes "jit_timed sws gap s" and "0 < gap" and "gap \<le> 40000"
  shows "jit_on_time gap s"
  using assms(1)
proof (induction rule: jit_timed.induct)
  case (start t)
  show ?case
    using jit_wf_init assms(2) by (simp add: jit_on_time_def jit_separated_def jit_active_def) (simp add: jit_queue_init_def)
next
  case (tick s t)
  then show ?case by (cases "ck_pending s") (simp_all add: jit_on_time_def)
next
  case (enqueue s r p ty e q' p')
  show ?case
  proof (cases "e = JIT_ERROR_OK")
    case True
    with enqueue show ?thesis using jit_on_time_enqueue [OF enqueue.IH assms(3)] by simp
  next
    case False
    with enqueue.hyps(4) have "q' = ck_queue s"
      by (auto simp: jit_enqueue_Some Let_def split: if_splits option.splits)
    then have "s\<lparr>ck_queue := q'\<rparr> = s" by simp
    with enqueue.IH show ?thesis by simp
  qed
next
  case (peek s e q' i)
  then show ?case using jit_on_time_polled [OF peek.IH peek.hyps(2) assms(2,3)] by simp
next
  case (dequeue s i e q' x)
  then show ?case using jit_on_time_dequeue [OF dequeue.IH dequeue.hyps(2)] by simp
qed

subsection \<open>Properties\<close>

text \<open>
  C3. No scheduled packet is missed or mistaken in a queue that is served in time: when the queue is polled at least every \<open>gap\<close> (at most 40 ms), every inserted packet
  leaves at most 500 s after the reading of the counter it is inserted with, that reading is at most 2.5 ms old, and the time reserved after every departure is at least \<open>gap\<close> less 2.5 ms and below
  \<open>2^29\<close> microseconds, then no poll faults or discards a packet, and although insertions may come between \<^verbatim>\<open>jit_peek\<close> and
  \<^verbatim>\<open>jit_dequeue\<close>, the packet that is taken out is the one that leaves first: it was due within 40 ms at the poll, and all others leave more than \<open>gap\<close> after it.
  A downlink scheduled with an old reading is outside these bounds, and may be discarded.
\<close>

theorem jit_deadlines_met:
  assumes "jit_timed sws gap s" and "0 < gap" and "gap \<le> 40000"
  shows "(ck_pending s = None \<longrightarrow>
      (\<exists>e i. jit_peek (ck_queue s) (of_nat (ck_now s)) True = Inr (e, ck_queue s, i)) \<and>
      (\<forall>n\<in>set (jit_active (ck_queue s)). 0 < jit_lead (ck_now s) n \<and> jit_lead (ck_now s) n < 512000000)) \<and>
    (\<forall>i. ck_pending s = Some i \<longrightarrow>
      (\<exists>n ns q'. mset (jit_active (ck_queue s)) = add_mset n (mset ns) \<and> mset (jit_active q') = mset ns \<and>
        jit_dequeue (ck_queue s) i True = (JIT_ERROR_OK, q', Some (pkt n, pkt_type n)) \<and>
        jit_lead (ck_poll s) n < 40000 \<and> (\<forall>m\<in>set ns. jit_lead (ck_poll s) n + gap < jit_lead (ck_poll s) m)))"
proof (intro conjI impI allI)
  note inv = jit_timed_inv [OF assms]
  assume none: "ck_pending s = None"
  show "\<exists>e i. jit_peek (ck_queue s) (of_nat (ck_now s)) True = Inr (e, ck_queue s, i)"
    using jit_on_time_peek [OF inv none assms(3)] by (simp split: list.split)
  show "\<forall>n\<in>set (jit_active (ck_queue s)). 0 < jit_lead (ck_now s) n \<and> jit_lead (ck_now s) n < 512000000"
    using jit_on_time_lead [OF inv none] inv by (fastforce simp: jit_on_time_def)
next
  note inv = jit_timed_inv [OF assms]
  fix i assume some: "ck_pending s = Some i"
  define h ns where "h = hd (jit_active (ck_queue s))" and "ns = tl (jit_active (ck_queue s))"
  have c: "jit_active (ck_queue s) = h # ns" "jit_lead (ck_poll s) h < 40000"
    using inv some by (simp_all add: jit_on_time_def h_def ns_def)
  have "\<forall>m\<in>set ns. jit_lead (ck_poll s) h + gap < jit_lead (ck_poll s) m"
    using inv by (intro jit_head_earliest [OF _ c(1)]) (auto simp: jit_on_time_def)
  then show "\<exists>n ns q'. mset (jit_active (ck_queue s)) = add_mset n (mset ns) \<and> mset (jit_active q') = mset ns \<and>
        jit_dequeue (ck_queue s) i True = (JIT_ERROR_OK, q', Some (pkt n, pkt_type n)) \<and>
        jit_lead (ck_poll s) n < 40000 \<and> (\<forall>m\<in>set ns. jit_lead (ck_poll s) n + gap < jit_lead (ck_poll s) m)"
    using c jit_on_time_dequeue [OF inv some]
    by (intro exI [of _ h] exI [of _ ns] exI [of _ "jit_remove_at (ck_queue s) 0"]) simp
qed

text \<open>A beacon that leaves after 60 ms: it is inserted at time 0, and polled after 20 and 39 ms.\<close>

definition sched_beacon :: lgw_pkt_tx_s where
  "sched_beacon = tx_pkt_zero\<lparr>tx_count_us := 60000\<rparr>"

definition sched_queue :: jit_queue_s where
  "sched_queue = jit_append jit_queue_init (jit_new_node 3 jit_queue_init 0 sched_beacon JIT_PKT_TYPE_BEACON)"

definition sched_state :: jit_clock where
  "sched_state = \<lparr>ck_now = 39000, ck_poll = 39000, ck_pending = Some 0, ck_queue = sched_queue\<rparr>"

lemma sched_queue_active:
  "jit_active sched_queue = [\<lparr>pkt = sched_beacon, pkt_type = JIT_PKT_TYPE_BEACON, pre_delay = 3041500, post_delay = 2120000\<rparr>]"
proof -
  have n: "jit_new_node 3 jit_queue_init 0 sched_beacon JIT_PKT_TYPE_BEACON =
      \<lparr>pkt = sched_beacon, pkt_type = JIT_PKT_TYPE_BEACON, pre_delay = 3041500, post_delay = 2120000\<rparr>"
    by (simp add: jit_new_node_def jit_pkt_pre_delay_def jit_pkt_post_delay_def)
  have "\<not> jit_queue_is_full jit_queue_init" "jit_active jit_queue_init = []"
    by (simp_all add: jit_queue_is_full_def jit_active_def jit_queue_init_def)
  then have "mset (jit_active sched_queue) = {#\<lparr>pkt = sched_beacon, pkt_type = JIT_PKT_TYPE_BEACON, pre_delay = 3041500, post_delay = 2120000\<rparr>#}"
    using jit_append_active [OF jit_wf_init] n by (simp add: sched_queue_def)
  then show ?thesis by simp
qed

lemma sched_enqueue: "jit_enqueue 3 jit_queue_init (of_nat 0) (Some sched_beacon) JIT_PKT_TYPE_BEACON = (JIT_ERROR_OK, sched_queue, Some sched_beacon)"
  unfolding jit_enqueue_OK
  by (simp add: Let_def sched_queue_def jit_queue_is_full_def jit_active_def jit_queue_init_def)
    (simp add: jit_new_node_def jit_pkt_pre_delay_def jit_pkt_post_delay_def jit_too_late_def jit_too_early_def sched_beacon_def)

lemma sched_reachable: "jit_timed 3 20000 sched_state"
proof -
  define s0 s1 s2 where "s0 = \<lparr>ck_now = 0, ck_poll = 0, ck_pending = None, ck_queue = jit_queue_init\<rparr>"
    and "s1 = \<lparr>ck_now = 19999, ck_poll = 0, ck_pending = None, ck_queue = sched_queue\<rparr>"
    and "s2 = \<lparr>ck_now = 39000, ck_poll = 19999, ck_pending = None, ck_queue = sched_queue\<rparr>"
  have r0: "jit_timed 3 20000 s0" unfolding s0_def by (rule jit_timed.start)
  have "jit_enqueue 3 (ck_queue s0) (of_nat 0) (Some sched_beacon) JIT_PKT_TYPE_BEACON = (JIT_ERROR_OK, sched_queue, Some sched_beacon)"
    using sched_enqueue by (simp add: s0_def)
  then have "jit_timed 3 20000 (s0\<lparr>ck_queue := sched_queue\<rparr>)"
    by (rule jit_timed.enqueue [OF r0, rotated 2]) (simp_all add: s0_def jit_pkt_post_delay_def sched_beacon_def)
  from jit_timed.tick [OF this, of 19999] have r1: "jit_timed 3 20000 s1"
    by (simp add: s0_def s1_def)
  have lead: "jit_lead t (hd (jit_active sched_queue)) = 60000 - t" if "t \<le> 60000" for t
    using unat_minus_of_nat [of t 60000] that by (simp add: jit_lead_def sched_queue_active sched_beacon_def)
  have "jit_peek sched_queue (of_nat 19999) True = Inr (JIT_ERROR_OK, sched_queue, Some (-1))"
    using jit_on_time_peek [OF jit_timed_inv [OF r1]] lead [of 19999] by (simp add: s1_def sched_queue_active)
  with jit_timed.peek [OF r1] have "jit_timed 3 20000 (s1\<lparr>ck_poll := 19999\<rparr>)"
    by (force simp: s1_def)
  from jit_timed.tick [OF this, of 39000] have r2: "jit_timed 3 20000 s2"
    by (simp add: s1_def s2_def)
  have "jit_peek sched_queue (of_nat 39000) True = Inr (JIT_ERROR_OK, sched_queue, Some 0)"
    using jit_on_time_peek [OF jit_timed_inv [OF r2]] lead [of 39000] by (simp add: s2_def sched_queue_active)
  with jit_timed.peek [OF r2] show ?thesis
    by (force simp: s2_def sched_state_def)
qed

theorem jit_deadlines_met_witness:
  "\<exists>q'. jit_dequeue sched_queue 0 True = (JIT_ERROR_OK, q', Some (sched_beacon, JIT_PKT_TYPE_BEACON)) \<and> jit_active q' = []"
  using jit_deadlines_met [OF sched_reachable] by (auto simp: sched_state_def sched_queue_active)

end
