(* ===== verification/Bridge.thy ===== *)
theory Bridge
  imports Uplink
begin

text \<open>
  The bridge between the daemon and the mesh protocol, \<^verbatim>\<open>clusterduck/src/bridge/ClusterDuckBridge.cpp\<close>: the queue of received packets, which forgets its oldest
  entry, the queue of packets to send, and the counters. Every operation holds a mutex, so it is one step. A \<^verbatim>\<open>std::deque\<close> is a list with its front first. What the
  bridge passes to a registered callback is part of the result.
\<close>

subsection \<open>State\<close>

text \<open>A packet to send. \<open>dl_tx_power_dbm\<close> is an \<^verbatim>\<open>int16_t\<close>: read it with \<open>sint\<close>.\<close>

record downlink_packet =
  dl_payload :: "u8 list"
  dl_freq_hz :: u32
  dl_tmst :: u32
  dl_tx_power_dbm :: u16
  dl_bw_hz :: u32
  dl_sf :: u8
  dl_cr :: u8
  dl_rf_chain :: u8

record uplink_packet =
  upk_payload :: "u8 list"
  upk_freq_hz :: u32
  upk_datarate_sf :: u8
  upk_rf_chain :: u8
  upk_rssi :: int
  upk_snr :: rat

text \<open>\<open>'c\<close> identifies a callback function.\<close>

record 'c g_bridge =
  rx_callback :: "'c option"
  uplink_queue :: "uplink_packet list"
  downlink_queue :: "downlink_packet list"
  uplink_count :: u32
  downlink_count :: u32

definition g_bridge_init :: "'c g_bridge" where
  "g_bridge_init = \<lparr>rx_callback = None, uplink_queue = [], downlink_queue = [], uplink_count = 0, downlink_count = 0\<rparr>"

subsection \<open>Uplink\<close>

abbreviation (input) MAX_QUEUE_SIZE :: nat where "MAX_QUEUE_SIZE \<equiv> 50"

definition cdp_bridge_register_rx_callback :: "'c option \<Rightarrow> 'c g_bridge \<Rightarrow> 'c g_bridge" where
  "cdp_bridge_register_rx_callback cb b = b\<lparr>rx_callback := cb\<rparr>"

definition push_uplink_packet :: "uplink_packet \<Rightarrow> 'c g_bridge \<Rightarrow> 'c g_bridge" where
  "push_uplink_packet p b =
     (let xs = (if MAX_QUEUE_SIZE \<le> length (uplink_queue b) then tl (uplink_queue b) else uplink_queue b)
      in b\<lparr>uplink_queue := xs @ [p]\<rparr>)"

text \<open>
  The result holds the call of the callback, if there is one. The payload pointer may be NULL; the copy reads \<open>len\<close> bytes behind it.
\<close>

definition cdp_bridge_handle_uplink ::
    "u8 list option \<Rightarrow> u16 \<Rightarrow> int \<Rightarrow> rat \<Rightarrow> u32 \<Rightarrow> u32 \<Rightarrow> u8 \<Rightarrow> u32 \<Rightarrow> u8 \<Rightarrow> u8 \<Rightarrow> 'c g_bridge \<Rightarrow>
     c_fault + (('c \<times> uplink) option \<times> 'c g_bridge)" where
  "cdp_bridge_handle_uplink payload len rssi snr freq_hz tmst rf_chain bandwidth_hz datarate_sf coderate b =
     (case payload of
        None \<Rightarrow> Inr (None, b)
      | Some bs \<Rightarrow>
          if len = 0 then Inr (None, b)
          else let b1 = b\<lparr>uplink_count := uplink_count b + 1\<rparr>
               in case rx_callback b of
                    Some cb \<Rightarrow>
                      Inr (Some (cb, \<lparr>up_payload = bs, up_size = len, up_rssi = rssi, up_snr = snr, up_freq_hz = freq_hz, up_tmst = tmst,
                                      up_rf_chain = rf_chain, up_bandwidth_hz = bandwidth_hz, up_datarate_sf = datarate_sf,
                                      up_coderate = coderate\<rparr>), b1)
                  | None \<Rightarrow>
                      if length bs < unat len then Inl OutOfBounds
                      else let xs = (if MAX_QUEUE_SIZE \<le> length (uplink_queue b1) then tl (uplink_queue b1) else uplink_queue b1)
                           in Inr (None, b1\<lparr>uplink_queue := xs @
                                [\<lparr>upk_payload = take (unat len) bs, upk_freq_hz = freq_hz, upk_datarate_sf = datarate_sf,
                                  upk_rf_chain = rf_chain, upk_rssi = rssi, upk_snr = snr\<rparr>]\<rparr>))"

definition has_uplink_packet :: "'c g_bridge \<Rightarrow> bool" where
  "has_uplink_packet b \<longleftrightarrow> uplink_queue b \<noteq> []"

definition pop_uplink_packet :: "'c g_bridge \<Rightarrow> uplink_packet option \<times> 'c g_bridge" where
  "pop_uplink_packet b =
     (case uplink_queue b of
        [] \<Rightarrow> (None, b)
      | p # ps \<Rightarrow> (Some p, b\<lparr>uplink_queue := ps\<rparr>))"

subsection \<open>Downlink\<close>

definition cdp_bridge_enqueue_downlink_ext ::
    "u8 list option \<Rightarrow> u16 \<Rightarrow> u32 \<Rightarrow> u32 \<Rightarrow> u16 \<Rightarrow> u32 \<Rightarrow> u8 \<Rightarrow> u8 \<Rightarrow> u8 \<Rightarrow> 'c g_bridge \<Rightarrow> c_fault + (int \<times> 'c g_bridge)" where
  "cdp_bridge_enqueue_downlink_ext payload len freq_hz tmst tx_power_dbm bw_hz sf cr rf_chain b =
     (case payload of
        None \<Rightarrow> Inr (-1, b)
      | Some bs \<Rightarrow>
          if len = 0 then Inr (-1, b)
          else if length bs < unat len then Inl OutOfBounds
          else Inr (0, b\<lparr>downlink_queue := downlink_queue b @
                 [\<lparr>dl_payload = take (unat len) bs, dl_freq_hz = freq_hz, dl_tmst = tmst, dl_tx_power_dbm = tx_power_dbm,
                   dl_bw_hz = bw_hz, dl_sf = sf, dl_cr = cr, dl_rf_chain = rf_chain\<rparr>],
               downlink_count := downlink_count b + 1\<rparr>))"

text \<open>The simple version leaves the members of the packet at their initial value 0.\<close>

definition cdp_bridge_enqueue_downlink :: "u8 list option \<Rightarrow> u16 \<Rightarrow> 'c g_bridge \<Rightarrow> c_fault + (int \<times> 'c g_bridge)" where
  "cdp_bridge_enqueue_downlink payload len b =
     (case payload of
        None \<Rightarrow> Inr (-1, b)
      | Some bs \<Rightarrow>
          if len = 0 then Inr (-1, b)
          else if length bs < unat len then Inl OutOfBounds
          else Inr (0, b\<lparr>downlink_queue := downlink_queue b @
                 [\<lparr>dl_payload = take (unat len) bs, dl_freq_hz = 0, dl_tmst = 0, dl_tx_power_dbm = 0,
                   dl_bw_hz = 0, dl_sf = 0, dl_cr = 0, dl_rf_chain = 0\<rparr>],
               downlink_count := downlink_count b + 1\<rparr>))"

text \<open>
  The variables behind the out-pointers of \<^verbatim>\<open>cdp_bridge_pop_downlink\<close>; a pointer that is NULL is \<open>None\<close>. The buffer is as large as the caller's array, the
  capacity is what the caller says it is.
\<close>

record downlink_out =
  out_buf :: "u8 list option"
  inout_capacity :: "u16 option"
  out_freq_hz :: "u32 option"
  out_tmst :: "u32 option"
  out_tx_power_dbm :: "u16 option"
  out_bw_hz :: "u32 option"
  out_sf :: "u8 option"
  out_cr :: "u8 option"
  out_rf_chain :: "u8 option"

definition cdp_bridge_pop_downlink :: "downlink_out \<Rightarrow> 'c g_bridge \<Rightarrow> c_fault + (int \<times> downlink_out \<times> 'c g_bridge)" where
  "cdp_bridge_pop_downlink v b =
     (case inout_capacity v of
        None \<Rightarrow> Inr (-1, v, b)
      | Some cap \<Rightarrow>
          (case downlink_queue b of
             [] \<Rightarrow> Inr (1, v, b)
           | p # ps \<Rightarrow>
               let b1 = b\<lparr>downlink_queue := ps\<rparr>
               in case out_buf v of
                    None \<Rightarrow> Inr (-2, v\<lparr>inout_capacity := Some 0\<rparr>, b1)
                  | Some buf \<Rightarrow>
                      if unat cap < length (dl_payload p) then Inr (-2, v\<lparr>inout_capacity := Some 0\<rparr>, b1)
                      else if length buf < length (dl_payload p) then Inl OutOfBounds
                      else Inr (0,
                        \<lparr>out_buf = Some (mem_write buf (dl_payload p)),
                         inout_capacity = Some (of_nat (length (dl_payload p))),
                         out_freq_hz = map_option (\<lambda>_. dl_freq_hz p) (out_freq_hz v),
                         out_tmst = map_option (\<lambda>_. dl_tmst p) (out_tmst v),
                         out_tx_power_dbm = map_option (\<lambda>_. dl_tx_power_dbm p) (out_tx_power_dbm v),
                         out_bw_hz = map_option (\<lambda>_. dl_bw_hz p) (out_bw_hz v),
                         out_sf = map_option (\<lambda>_. dl_sf p) (out_sf v),
                         out_cr = map_option (\<lambda>_. dl_cr p) (out_cr v),
                         out_rf_chain = map_option (\<lambda>_. dl_rf_chain p) (out_rf_chain v)\<rparr>, b1)))"

text \<open>
  \<^verbatim>\<open>DuckLoRa::startTransmitData\<close> of \<^verbatim>\<open>clusterduck/src/radio/DuckLoRa.cpp\<close>, through which the mesh protocol sends; the length is converted to \<^verbatim>\<open>uint16_t\<close>,
  the result of the bridge is not looked at. The power is the one of \<^verbatim>\<open>cdpcfg.h\<close>.
\<close>

definition startTransmitData :: "u8 list option \<Rightarrow> int \<Rightarrow> 'c g_bridge \<Rightarrow> c_fault + 'c g_bridge" where
  "startTransmitData data len b =
     res_bind (cdp_bridge_enqueue_downlink_ext data (of_int len) 922800000 0 14 125000 7 1 0 b) (\<lambda>(_, b'). Inr b')"

subsection \<open>Diagnostics\<close>

definition cdp_bridge_get_stats :: "'c g_bridge \<Rightarrow> u32 \<times> u32 \<times> u32" where
  "cdp_bridge_get_stats b = (uplink_count b, downlink_count b, of_nat (length (downlink_queue b)))"

definition cdp_bridge_reset_stats :: "'c g_bridge \<Rightarrow> 'c g_bridge" where
  "cdp_bridge_reset_stats b = b\<lparr>uplink_count := 0, downlink_count := 0\<rparr>"

end
