(* ===== verification/BridgeProps.thy ===== *)
theory BridgeProps
  imports Bridge
begin

text \<open>
  The queues of the bridge. The uplink queue is the bounded queue of the interface \<open>drop_oldest_fifo\<close>: it keeps the newest 50 packets in their order.
\<close>

lemma drop_oldest_step: "length xs \<le> 50 \<Longrightarrow> (if 50 \<le> length xs then tl xs else xs) @ [x] = drop (length xs + 1 - 50) (xs @ [x])"
  by (cases "length xs = 50"; cases xs) auto

definition uplink_wf :: "'c g_bridge \<Rightarrow> bool" where
  "uplink_wf b \<longleftrightarrow> length (uplink_queue b) \<le> MAX_QUEUE_SIZE"

definition uplink_put :: "'c g_bridge \<Rightarrow> uplink_packet \<Rightarrow> 'c g_bridge" where
  "uplink_put b p = push_uplink_packet p b"

definition uplink_get :: "'c g_bridge \<Rightarrow> uplink_packet \<times> 'c g_bridge" where
  "uplink_get b = map_prod the (\<lambda>x. x) (pop_uplink_packet b)"

interpretation ulq: drop_oldest_fifo uplink_wf uplink_queue MAX_QUEUE_SIZE "\<lambda>_. True" uplink_put uplink_get
proof
  fix b :: "'c g_bridge" and p :: uplink_packet
  assume wf: "uplink_wf b"
  then show "length (uplink_queue b) \<le> 50" by (simp add: uplink_wf_def)
  then show "uplink_queue (uplink_put b p) = drop (length (uplink_queue b) + 1 - 50) (uplink_queue b @ [p])"
    by (simp add: uplink_put_def push_uplink_packet_def drop_oldest_step drop_Suc)
  with wf show "uplink_wf (uplink_put b p)" by (auto simp: uplink_wf_def)
next
  fix b :: "'c g_bridge"
  assume "uplink_wf b" and "uplink_queue b \<noteq> []"
  then show "uplink_wf (snd (uplink_get b))" "uplink_queue b = fst (uplink_get b) # uplink_queue (snd (uplink_get b))"
    by (auto simp: uplink_get_def uplink_wf_def pop_uplink_packet_def split: list.split)
qed

subsection \<open>Properties\<close>

text \<open>What the upstream thread hands over, one packet after the other.\<close>

fun bridge_uplinks :: "uplink list \<Rightarrow> 'c g_bridge \<Rightarrow> c_fault + (('c \<times> uplink) list \<times> 'c g_bridge)" where
  "bridge_uplinks [] b = Inr ([], b)"
| "bridge_uplinks (u # us) b =
     res_bind (cdp_bridge_handle_uplink (Some (up_payload u)) (up_size u) (up_rssi u) (up_snr u) (up_freq_hz u) (up_tmst u) (up_rf_chain u)
       (up_bandwidth_hz u) (up_datarate_sf u) (up_coderate u) b) (\<lambda>(call, b').
     res_bind (bridge_uplinks us b') (\<lambda>(calls, b''). Inr ((case call of None \<Rightarrow> calls | Some c \<Rightarrow> c # calls), b'')))"

definition uplink_packet_of :: "uplink \<Rightarrow> uplink_packet" where
  "uplink_packet_of u = \<lparr>upk_payload = take (unat (up_size u)) (up_payload u), upk_freq_hz = up_freq_hz u, upk_datarate_sf = up_datarate_sf u,
     upk_rf_chain = up_rf_chain u, upk_rssi = up_rssi u, upk_snr = up_snr u\<rparr>"

definition uplink_ok :: "uplink \<Rightarrow> bool" where
  "uplink_ok u \<longleftrightarrow> up_size u \<noteq> 0 \<and> unat (up_size u) \<le> length (up_payload u)"

lemma handle_uplink_polling:
  assumes "uplink_ok u" and "rx_callback b = None"
  shows "cdp_bridge_handle_uplink (Some (up_payload u)) (up_size u) (up_rssi u) (up_snr u) (up_freq_hz u) (up_tmst u) (up_rf_chain u)
      (up_bandwidth_hz u) (up_datarate_sf u) (up_coderate u) b =
    Inr (None, uplink_put (b\<lparr>uplink_count := uplink_count b + 1\<rparr>) (uplink_packet_of u))"
  using assms by (simp add: uplink_ok_def cdp_bridge_handle_uplink_def uplink_put_def push_uplink_packet_def uplink_packet_of_def Let_def)

lemma bridge_uplinks_polling:
  assumes "\<forall>u\<in>set us. uplink_ok u" and "rx_callback b = None"
  shows "\<exists>b'. bridge_uplinks us b = Inr ([], b') \<and> uplink_queue b' = uplink_queue (foldl uplink_put b (map uplink_packet_of us)) \<and>
    uplink_count b' = uplink_count b + of_nat (length us) \<and> downlink_queue b' = downlink_queue b"
  using assms
proof (induction us arbitrary: b)
  case (Cons u us)
  define b1 where "b1 = uplink_put (b\<lparr>uplink_count := uplink_count b + 1\<rparr>) (uplink_packet_of u)"
  have cong: "uplink_queue (foldl uplink_put c ps) = uplink_queue (foldl uplink_put c' ps)" if "uplink_queue c = uplink_queue c'" for c c' :: "'c g_bridge" and ps
    using that by (induction ps arbitrary: c c') (simp_all add: uplink_put_def push_uplink_packet_def)
  have b1: "rx_callback b1 = None" "uplink_queue b1 = uplink_queue (uplink_put b (uplink_packet_of u))" "uplink_count b1 = uplink_count b + 1"
      "downlink_queue b1 = downlink_queue b"
    using Cons.prems(2) by (simp_all add: b1_def uplink_put_def push_uplink_packet_def)
  have "uplink_queue (foldl uplink_put b1 (map uplink_packet_of us)) = uplink_queue (foldl uplink_put b (map uplink_packet_of (u # us)))"
    using cong [OF b1(2)] by simp
  moreover obtain b' where "bridge_uplinks us b1 = Inr ([], b')" "uplink_queue b' = uplink_queue (foldl uplink_put b1 (map uplink_packet_of us))"
      "uplink_count b' = uplink_count b1 + of_nat (length us)" "downlink_queue b' = downlink_queue b1"
    using Cons.IH [of b1] Cons.prems(1) b1(1) by auto
  ultimately show ?case
    using handle_uplink_polling [OF _ Cons.prems(2), of u] Cons.prems(1) b1 by (simp add: b1_def [symmetric])
qed simp

text \<open>
  Without a callback the bridge keeps the newest 50 received packets in the order of arrival, with payload and metadata unchanged, and counts all of them;
  the downlink queue is not touched.
\<close>

theorem bridge_keeps_newest:
  assumes "\<forall>u\<in>set us. uplink_ok u" and "rx_callback b = None" and "uplink_queue b = []"
  shows "\<exists>b'. bridge_uplinks us b = Inr ([], b') \<and> uplink_queue b' = map uplink_packet_of (drop (length us - MAX_QUEUE_SIZE) us) \<and>
    uplink_count b' = uplink_count b + of_nat (length us) \<and> downlink_queue b' = downlink_queue b"
proof -
  have "uplink_wf b" using assms(3) by (simp add: uplink_wf_def)
  then have "uplink_queue (foldl uplink_put b (map uplink_packet_of us)) = drop (length us - 50) (map uplink_packet_of us)"
    using ulq.put_all [of b "map uplink_packet_of us"] assms(3) by simp
  then show ?thesis
    using bridge_uplinks_polling [OF assms(1,2)] by (simp add: drop_map)
qed

definition uplink_sample :: "u8 \<Rightarrow> uplink" where
  "uplink_sample x = \<lparr>up_payload = [x, x, x], up_size = 2, up_rssi = - 80, up_snr = 5, up_freq_hz = 868100000, up_tmst = 0, up_rf_chain = 0,
     up_bandwidth_hz = 4, up_datarate_sf = 7, up_coderate = 1\<rparr>"

theorem bridge_keeps_newest_witness:
  "\<exists>b'. bridge_uplinks (replicate 3 (uplink_sample 1) @ replicate 50 (uplink_sample 2)) (g_bridge_init :: nat g_bridge) = Inr ([], b') \<and>
    uplink_queue b' = replicate 50 (uplink_packet_of (uplink_sample 2)) \<and> uplink_count b' = 53"
proof -
  have "\<forall>u\<in>set (replicate 3 (uplink_sample 1) @ replicate 50 (uplink_sample 2)). uplink_ok u"
    by (auto simp: uplink_ok_def uplink_sample_def)
  from bridge_keeps_newest [OF this, of g_bridge_init] show ?thesis by (auto simp: g_bridge_init_def)
qed

end
