(* ===== verification/Downlink.thy ===== *)
theory Downlink
  imports Bridge JitQueue HalTx Gps Crc "HOL-Library.Signed_Division"
begin

text \<open>
  The downstream thread and the transmission thread of the daemon, \<^verbatim>\<open>thread_down\<close>, \<^verbatim>\<open>get_tx_gain_lut_index\<close> and \<^verbatim>\<open>thread_jit\<close> of
  \<^verbatim>\<open>clusterduck/src/clusterduckd.c\<close>: composing and scheduling the beacons, turning packets of the bridge into scheduled packets, and handing scheduled packets to
  the concentrator. What the threads read from outside (clock, counter, time reference, transmitter status) is an argument of every turn. Messages are left out.
\<close>

subsection \<open>Transmit power\<close>

text \<open>The loop over the table; the state is \<^verbatim>\<open>current_best_index\<close> and \<^verbatim>\<open>current_best_match\<close>.\<close>

fun tx_gain_scan :: "int \<Rightarrow> lgw_tx_gain_s list \<Rightarrow> nat \<Rightarrow> int \<Rightarrow> u8 \<Rightarrow> int" where
  "tx_gain_scan rf_power [] pow_index best match = best"
| "tx_gain_scan rf_power (g # gs) pow_index best match =
     (let diff = rf_power - sint (lut_rf_power g)
      in if diff < 0 then tx_gain_scan rf_power gs (Suc pow_index) best match
         else if best = -1 \<or> diff < uint match then tx_gain_scan rf_power gs (Suc pow_index) (int pow_index) (of_int diff)
         else tx_gain_scan rf_power gs (Suc pow_index) best match)"

text \<open>\<open>has_index\<close> says that the out-pointer is not NULL.\<close>

definition get_tx_gain_lut_index :: "lgw_tx_gain_lut_s list \<Rightarrow> u8 \<Rightarrow> u8 \<Rightarrow> bool \<Rightarrow> c_fault + (int \<times> u8 option)" where
  "get_tx_gain_lut_index txlut rf_chain rf_power has_index =
     (if \<not> has_index then Inr (-1, None)
      else if length txlut \<le> unat rf_chain then Inl OutOfBounds
      else let lut = txlut ! unat rf_chain
           in if length (lut_entries lut) < unat (lut_size lut) then Inl OutOfBounds
              else let best = tx_gain_scan (sint rf_power) (take (unat (lut_size lut)) (lut_entries lut)) 0 (-1) 0xFF
                   in if -1 < best then Inr (0, Some (of_int best)) else Inr (-1, Some 0))"

subsection \<open>Composing a beacon\<close>

record beacon_conf =
  beacon_period :: u32
  beacon_freq_hz :: u32
  beacon_freq_nb :: u8
  beacon_freq_step :: u32
  beacon_datarate :: u8
  beacon_bw_hz :: u32
  beacon_power :: u8
  beacon_infodesc :: u8

text \<open>Writing bytes at a position of an array.\<close>

definition poke :: "nat \<Rightarrow> u8 list \<Rightarrow> u8 list \<Rightarrow> u8 list" where
  "poke i bs buf = take i buf @ bs @ drop (i + length bs) buf"

definition beacon_bandwidth :: "u32 \<Rightarrow> c_fault + u8" where
  "beacon_bandwidth bw_hz = (if bw_hz = 125000 then Inr BW_125KHZ else if bw_hz = 500000 then Inr BW_500KHZ else Inl ExitFailure)"

text \<open>The data rate and the sizes of the two reserved parts.\<close>

definition beacon_rate :: "u8 \<Rightarrow> c_fault + (u32 \<times> nat \<times> nat)" where
  "beacon_rate dr =
     (if dr = 8 then Inr (DR_LORA_SF8, 1, 3)
      else if dr = 9 then Inr (DR_LORA_SF9, 2, 0)
      else if dr = 10 then Inr (DR_LORA_SF10, 3, 1)
      else if dr = 12 then Inr (DR_LORA_SF12, 5, 3)
      else Inl ExitFailure)"

text \<open>A coordinate as a fraction of its range, in 24 bits. The conversion to \<^verbatim>\<open>int32_t\<close> comes before the clamping.\<close>

definition beacon_coord :: "rat \<Rightarrow> rat \<Rightarrow> c_fault + int" where
  "beacon_coord full x =
     (let v = dbl (dbl (x / full) * 2 ^ 23)
      in if - (2 ^ 31) - 1 < v \<and> v < 2 ^ 31
         then Inr (if 0x7FFFFF < c_trunc v then 0x7FFFFF else if c_trunc v < - 0x800000 then - 0x800000 else c_trunc v)
         else Inl UndefinedConversion)"

text \<open>The bytes of a number, least significant first: \<^verbatim>\<open>0xFF & (x >> 8 * i)\<close>.\<close>

definition le_bytes :: "nat \<Rightarrow> int \<Rightarrow> u8 list" where
  "le_bytes n x = map (\<lambda>i. of_int (drop_bit (8 * i) x)) [0..<n]"

text \<open>
  The beacon before its first transmission. \<open>junk\<close> is the uninitialised local variable: some of its members, and the bytes of the payload that are filled in
  later, are not written. The result has the sizes of the reserved parts, too.
\<close>

definition beacon_pkt_init :: "beacon_conf \<Rightarrow> rat \<Rightarrow> rat \<Rightarrow> lgw_pkt_tx_s \<Rightarrow> c_fault + (lgw_pkt_tx_s \<times> nat \<times> nat)" where
  "beacon_pkt_init bc lat lon junk =
     res_bind (beacon_bandwidth (beacon_bw_hz bc)) (\<lambda>bw.
     res_bind (beacon_rate (beacon_datarate bc)) (\<lambda>(dr, rfu1, rfu2).
     res_bind (beacon_coord 90 lat) (\<lambda>field_latitude.
     res_bind (beacon_coord 180 lon) (\<lambda>field_longitude.
       let p0 = poke 0 (replicate rfu1 0) (tx_payload junk);
           p1 = poke (rfu1 + 6) (beacon_infodesc bc # le_bytes 3 field_latitude @ le_bytes 3 field_longitude @ replicate rfu2 0) p0;
           field_crc2 = crc16 (Some (drop (6 + rfu1) p1)) (7 + rfu2);
           p2 = poke (rfu1 + 6 + 7 + rfu2) (le_bytes 2 (uint field_crc2)) p1
       in Inr (junk\<lparr>tx_mode := ON_GPS, tx_rf_chain := 0, tx_rf_power := beacon_power bc, tx_modulation := MOD_LORA,
                    tx_bandwidth := bw, tx_datarate := dr, tx_size := of_nat (rfu1 + 4 + 2 + 7 + rfu2 + 2), tx_coderate := CR_LORA_4_5,
                    tx_invert_pol := False, tx_preamble := 10, tx_no_crc := True, tx_no_header := True, tx_payload := p2\<rparr>, rfu1, rfu2)))))"

text \<open>
  The time of the next beacon in GPS seconds. \<^verbatim>\<open>time_t\<close> does not overflow; the product of the number of retries and the period is computed in 32 bits.
\<close>

definition beacon_next_time :: "u32 \<Rightarrow> int \<Rightarrow> int \<Rightarrow> nat \<Rightarrow> int" where
  "beacon_next_time period last_sec gps_sec retry =
     (if last_sec = 0 then gps_sec + (uint period - gps_sec smod uint period) else last_sec + uint period) + uint (of_nat retry * period)"

definition beacon_channel :: "u32 \<Rightarrow> u8 \<Rightarrow> int \<Rightarrow> u8" where
  "beacon_channel period freq_nb t = (if 1 < freq_nb then of_int ((t sdiv uint period) smod uint freq_nb) else 0)"

text \<open>The members of the beacon that change with its time: frequency, time, and the checksum of the network part.\<close>

definition beacon_pkt_at :: "beacon_conf \<Rightarrow> nat \<Rightarrow> int \<Rightarrow> lgw_pkt_tx_s \<Rightarrow> lgw_pkt_tx_s" where
  "beacon_pkt_at bc rfu1 t p =
     (let p1 = poke rfu1 (le_bytes 4 t) (tx_payload p);
          field_crc1 = crc16 (Some p1) (4 + rfu1)
      in p\<lparr>tx_freq_hz := beacon_freq_hz bc + ucast (beacon_channel (beacon_period bc) (beacon_freq_nb bc) t) * beacon_freq_step bc,
           tx_payload := poke (rfu1 + 4) (le_bytes 2 (uint field_crc1)) p1\<rparr>)"

subsection \<open>The downstream thread\<close>

abbreviation (input) CDPCFG_RF_LORA_FREQ_HZ :: u32 where "CDPCFG_RF_LORA_FREQ_HZ \<equiv> 922800000"
abbreviation (input) CDPCFG_RF_LORA_TXPOW :: u8 where "CDPCFG_RF_LORA_TXPOW \<equiv> 27"
abbreviation (input) DUCK_BUF_SIZE :: u16 where "DUCK_BUF_SIZE \<equiv> 256"

text \<open>
  The variables of the thread that live across turns, the two JIT queues, the bridge, and the statistics it keeps. \<open>down_out\<close> holds \<^verbatim>\<open>duck_payload_buf\<close>,
  \<^verbatim>\<open>buf_capacity\<close> and the \<^verbatim>\<open>dl_\<close> variables, \<open>down_time\<close> is \<^verbatim>\<open>current_concentrator_time\<close>.
\<close>

record 'c down_state =
  down_bridge :: "'c g_bridge"
  down_queue :: "jit_queue_s list"
  down_out :: downlink_out
  down_time :: u32
  beacon_pkt :: lgw_pkt_tx_s
  last_beacon_sec :: int
  meas_nb_tx_requested :: u32
  meas_nb_beacon_queued :: u32
  meas_nb_beacon_rejected :: u32

text \<open>The configuration the thread reads: the transmit band and the gain table of each chain, and the length of the FSK sync word for the air time.\<close>

record down_conf =
  conf_beacon :: beacon_conf
  tx_freq_min :: "u32 list"
  tx_freq_max :: "u32 list"
  conf_txlut :: "lgw_tx_gain_lut_s list"
  conf_sync_word_size :: u8

text \<open>
  Up to the loop: the beacon is composed and the queues are cleared. \<open>junk\<close>, \<open>buf\<close> and \<open>t0\<close> are the initial values of uninitialised variables. The result has
  the sizes of the reserved parts of the beacon, too.
\<close>

definition thread_down_init ::
    "down_conf \<Rightarrow> rat \<Rightarrow> rat \<Rightarrow> lgw_pkt_tx_s \<Rightarrow> u8 list \<Rightarrow> u32 \<Rightarrow> 'c g_bridge \<Rightarrow> c_fault + ('c down_state \<times> nat \<times> nat)" where
  "thread_down_init cf lat lon junk buf t0 b =
     res_bind (beacon_pkt_init (conf_beacon cf) lat lon junk) (\<lambda>(p, rfu1, rfu2).
       Inr (\<lparr>down_bridge = b, down_queue = [jit_queue_init, jit_queue_init],
             down_out = \<lparr>out_buf = Some buf, inout_capacity = Some DUCK_BUF_SIZE, out_freq_hz = Some 0, out_tmst = Some 0,
                         out_tx_power_dbm = Some 0, out_bw_hz = Some 0, out_sf = Some 0, out_cr = Some 0, out_rf_chain = Some 0\<rparr>,
             down_time = t0, beacon_pkt = p, last_beacon_sec = 0,
             meas_nb_tx_requested = 0, meas_nb_beacon_queued = 0, meas_nb_beacon_rejected = 0\<rparr>, rfu1, rfu2))"

text \<open>Both places that take a packet from the bridge: what \<^verbatim>\<open>memset\<close> and the common assignments make of it.\<close>

definition duck_txpkt :: "downlink_out \<Rightarrow> u32 \<Rightarrow> u8 \<Rightarrow> u16 \<Rightarrow> lgw_pkt_tx_s" where
  "duck_txpkt v freq_hz rf_chain preamble =
     tx_pkt_zero\<lparr>tx_payload := mem_write (tx_payload tx_pkt_zero) (take (unat (the (inout_capacity v))) (the (out_buf v))),
       tx_size := the (inout_capacity v), tx_freq_hz := freq_hz, tx_count_us := 0, tx_mode := IMMEDIATE,
       tx_rf_chain := rf_chain, tx_rf_power := CDPCFG_RF_LORA_TXPOW, tx_modulation := MOD_LORA, tx_bandwidth := BW_125KHZ,
       tx_datarate := DR_LORA_SF7, tx_coderate := CR_LORA_4_5, tx_preamble := preamble\<rparr>"

text \<open>The supported power: the entry of the table that is used instead when the requested power is not in it.\<close>

definition supported_power :: "lgw_tx_gain_lut_s list \<Rightarrow> lgw_pkt_tx_s \<Rightarrow> c_fault + lgw_pkt_tx_s" where
  "supported_power txlut p =
     res_bind (get_tx_gain_lut_index txlut (tx_rf_chain p) (tx_rf_power p) True) (\<lambda>(i, idx).
       let es = lut_entries (txlut ! unat (tx_rf_chain p)); k = unat (the idx)
       in if length es \<le> k then Inl OutOfBounds
          else if i < 0 \<or> lut_rf_power (es ! k) \<noteq> tx_rf_power p then Inr (p\<lparr>tx_rf_power := lut_rf_power (es ! k)\<rparr>)
          else Inr p)"

text \<open>
  The packet taken at the start of a turn of the outer loop. It is scheduled with the value \<^verbatim>\<open>current_concentrator_time\<close> has from an earlier turn. The result tells
  what became of the packet: the answer of \<^verbatim>\<open>jit_enqueue\<close>, or the refusal of its frequency.
\<close>

definition down_outer :: "down_conf \<Rightarrow> 'c down_state \<Rightarrow> c_fault + (jit_error_e option \<times> 'c down_state)" where
  "down_outer cf s =
     res_bind (cdp_bridge_pop_downlink (down_out s) (down_bridge s)) (\<lambda>(duck_rc, v, b).
       let s1 = s\<lparr>down_bridge := b, down_out := v\<rparr>
       in if \<not> (duck_rc = 0 \<and> 0 < the (inout_capacity v)) then Inr (None, s1)
          else let rf = (if unat (the (out_rf_chain v)) < LGW_RF_CHAIN_NB then the (out_rf_chain v) else 0);
                   p = duck_txpkt v CDPCFG_RF_LORA_FREQ_HZ rf 0;
                   s2 = s1\<lparr>down_out := v\<lparr>inout_capacity := Some DUCK_BUF_SIZE\<rparr>\<rparr>
               in if tx_freq_hz p < tx_freq_min cf ! unat rf \<or> tx_freq_max cf ! unat rf < tx_freq_hz p
                  then Inr (Some JIT_ERROR_TX_FREQ, s2)
                  else res_bind (supported_power (conf_txlut cf) p) (\<lambda>p'.
                    case jit_enqueue (conf_sync_word_size cf) (down_queue s ! unat rf) (down_time s) (Some p') JIT_PKT_TYPE_DOWNLINK_CLASS_C of
                      (r, q, _) \<Rightarrow> Inr (Some r, s2\<lparr>down_queue := (down_queue s)[unat rf := q],
                                                  meas_nb_tx_requested := meas_nb_tx_requested s + 1\<rparr>)))"

text \<open>The packet taken in a turn of the inner loop; \<open>now\<close> is the counter of the concentrator, read after a delay of 500 ms.\<close>

definition down_inner :: "down_conf \<Rightarrow> u32 \<Rightarrow> 'c down_state \<Rightarrow> c_fault + (jit_error_e option \<times> 'c down_state)" where
  "down_inner cf now s =
     res_bind (cdp_bridge_pop_downlink (down_out s) (down_bridge s)) (\<lambda>(duck_rc, v, b).
       let s1 = s\<lparr>down_bridge := b, down_out := v\<rparr>
       in if \<not> (duck_rc = 0 \<and> 0 < the (inout_capacity v)) then Inr (None, s1)
          else let freq = (if 0 < the (out_freq_hz v) then the (out_freq_hz v) else CDPCFG_RF_LORA_FREQ_HZ);
                   p = duck_txpkt v freq 0 8
               in case jit_enqueue (conf_sync_word_size cf) (down_queue s ! 0) now (Some p) JIT_PKT_TYPE_DOWNLINK_CLASS_C of
                    (r, q, _) \<Rightarrow> Inr (Some r, s1\<lparr>down_out := v\<lparr>inout_capacity := Some DUCK_BUF_SIZE\<rparr>, down_time := now,
                       down_queue := (down_queue s)[0 := q],
                       meas_nb_tx_requested := (if r = JIT_ERROR_OK then meas_nb_tx_requested s + 1 else meas_nb_tx_requested s)\<rparr>))"

text \<open>
  One turn of the loop that fills the queue with beacons: \<open>ts\<close> is the time state the threads share, \<open>now\<close> the counter. \<open>None\<close> leaves the loop. The pair is
  \<^verbatim>\<open>beacon_loop\<close> and \<^verbatim>\<open>retry\<close>.
\<close>

definition beacon_turn ::
    "down_conf \<Rightarrow> nat \<Rightarrow> time_state \<Rightarrow> u32 \<Rightarrow> u8 \<times> nat \<Rightarrow> 'c down_state \<Rightarrow> c_fault + ((u8 \<times> nat) option \<times> 'c down_state)" where
  "beacon_turn cf rfu1 ts now br s =
     (if \<not> (gps_ref_valid ts \<and> xtal_correct_ok ts) then Inr (None, s)
      else let bc = conf_beacon cf; ref = sync_ref (time_sync ts); (loop, retry) = br;
               t = beacon_next_time (beacon_period bc) (last_beacon_sec s) (tv_sec (tref_gps ref)) retry
           in res_bind (lgw_gps2cnt ref \<lparr>tv_sec = t, tv_nsec = 0\<rparr>) (\<lambda>(_, c).
                let p0 = (case c of None \<Rightarrow> beacon_pkt s | Some x \<Rightarrow> (beacon_pkt s)\<lparr>tx_count_us := x\<rparr>);
                    p = beacon_pkt_at bc rfu1 t p0;
                    s1 = s\<lparr>beacon_pkt := p, down_time := now\<rparr>
                in case jit_enqueue (conf_sync_word_size cf) (down_queue s ! 0) now (Some p) JIT_PKT_TYPE_BEACON of
                     (r, q, _) \<Rightarrow>
                       if r = JIT_ERROR_OK
                       then Inr (Some (loop - 1, 0), s1\<lparr>down_queue := (down_queue s)[0 := q], last_beacon_sec := t,
                                                        meas_nb_beacon_queued := meas_nb_beacon_queued s + 1\<rparr>)
                       else Inr (Some (loop, Suc retry), s1\<lparr>meas_nb_beacon_rejected :=
                              (if r \<noteq> JIT_ERROR_COLLISION_BEACON then meas_nb_beacon_rejected s + 1 else meas_nb_beacon_rejected s)\<rparr>)))"

text \<open>
  The loop, over what its turns read. It ends when no beacon is missing or the time reference is not valid; the flag says that it ended within the given readings.
\<close>

fun beacon_fill ::
    "down_conf \<Rightarrow> nat \<Rightarrow> (time_state \<times> u32) list \<Rightarrow> u8 \<times> nat \<Rightarrow> 'c down_state \<Rightarrow> c_fault + (bool \<times> 'c down_state)" where
  "beacon_fill cf rfu1 rds (loop, retry) s =
     (if loop = 0 \<or> beacon_period (conf_beacon cf) = 0 then Inr (True, s)
      else case rds of
             [] \<Rightarrow> Inr (False, s)
           | (ts, now) # rds' \<Rightarrow>
               res_bind (beacon_turn cf rfu1 ts now (loop, retry) s) (\<lambda>(br, s').
                 case br of None \<Rightarrow> Inr (True, s') | Some br' \<Rightarrow> beacon_fill cf rfu1 rds' br' s'))"

declare beacon_fill.simps [simp del]

text \<open>A turn of the inner loop: the beacons, then a packet from the bridge.\<close>

definition down_inner_turn :: "down_conf \<Rightarrow> nat \<Rightarrow> (time_state \<times> u32) list \<Rightarrow> u32 \<Rightarrow> 'c down_state \<Rightarrow> c_fault + (bool \<times> 'c down_state)" where
  "down_inner_turn cf rfu1 rds now s =
     res_bind (beacon_fill cf rfu1 rds (JIT_NUM_BEACON_IN_QUEUE - num_beacon (down_queue s ! 0), 0) s) (\<lambda>(done, s1).
       if done then res_bind (down_inner cf now s1) (\<lambda>(_, s2). Inr (True, s2)) else Inr (False, s1))"

text \<open>
  The inner loop runs as long as the time since the start of the turn, in whole seconds, is below the keep-alive time. Each entry has what a turn reads and the time
  when it is over; the flag says that the loop ended within the given entries.
\<close>

fun down_inner_loop ::
    "down_conf \<Rightarrow> nat \<Rightarrow> int \<Rightarrow> ((time_state \<times> u32) list \<times> u32 \<times> rat) list \<Rightarrow> rat \<Rightarrow> 'c down_state \<Rightarrow> c_fault + (bool \<times> 'c down_state)" where
  "down_inner_loop cf rfu1 keepalive_time inps elapsed s =
     (if \<not> c_trunc elapsed < keepalive_time then Inr (True, s)
      else case inps of
             [] \<Rightarrow> Inr (False, s)
           | (rds, now, elapsed') # inps' \<Rightarrow>
               res_bind (down_inner_turn cf rfu1 rds now s) (\<lambda>(done, s').
                 if done then down_inner_loop cf rfu1 keepalive_time inps' elapsed' s' else Inr (False, s')))"

declare down_inner_loop.simps [simp del]

definition thread_down_turn ::
    "down_conf \<Rightarrow> nat \<Rightarrow> int \<Rightarrow> ((time_state \<times> u32) list \<times> u32 \<times> rat) list \<Rightarrow> 'c down_state \<Rightarrow> c_fault + (bool \<times> 'c down_state)" where
  "thread_down_turn cf rfu1 keepalive_time inps s =
     res_bind (down_outer cf s) (\<lambda>(_, s1). down_inner_loop cf rfu1 keepalive_time inps 0 s1)"

subsection \<open>The transmission thread\<close>

record jit_meas =
  meas_nb_beacon_sent :: u32
  meas_nb_tx_ok :: u32
  meas_nb_tx_fail :: u32

text \<open>What became of a packet taken from the queue: dropped because the concentrator is emitting, or passed to \<^verbatim>\<open>lgw_send\<close> with this result.\<close>

datatype jit_outcome =
    JitDropped lgw_pkt_tx_s
  | JitSent lgw_pkt_tx_s int "tx_call list"

text \<open>The frequency of a beacon, corrected by the error of the crystal.\<close>

definition beacon_freq_corrected :: "rat \<Rightarrow> u32 \<Rightarrow> c_fault + u32" where
  "beacon_freq_corrected correct freq_hz =
     (let v = dbl (correct * of_nat (unat freq_hz))
      in if - 1 < v \<and> v < 2 ^ 32 then Inr (of_int (c_trunc v)) else Inl UndefinedConversion)"

text \<open>
  From the dequeued packet to the concentrator: \<open>rd\<close> is the reading of the status register, \<open>scan_abort\<close> the abort of a spectral scan, when scans are enabled.
\<close>

definition jit_send_packet ::
    "'w tx_hw \<Rightarrow> lgw_context_t \<Rightarrow> rat \<Rightarrow> ('w \<Rightarrow> 'w) option \<Rightarrow> int \<times> int \<Rightarrow> lgw_pkt_tx_s \<Rightarrow> jit_pkt_type_e \<Rightarrow> jit_meas \<Rightarrow> 'w \<Rightarrow>
     c_fault + (jit_outcome \<times> jit_meas \<times> 'w)" where
  "jit_send_packet hw ctx correct scan_abort rd p0 ty m w =
     res_bind (if ty = JIT_PKT_TYPE_BEACON
               then res_bind (beacon_freq_corrected correct (tx_freq_hz p0)) (\<lambda>f.
                      Inr (p0\<lparr>tx_freq_hz := f\<rparr>, m\<lparr>meas_nb_beacon_sent := meas_nb_beacon_sent m + 1\<rparr>))
               else Inr (p0, m)) (\<lambda>(p, m1).
       if lgw_status ctx rd (tx_rf_chain p) TX_STATUS = (LGW_HAL_SUCCESS, Some TX_EMITTING) then Inr (JitDropped p, m1, w)
       else let w1 = (case scan_abort of None \<Rightarrow> w | Some f \<Rightarrow> f w)
            in res_bind (lgw_send hw ctx (Some p) w1) (\<lambda>(r, cs, w2).
                 Inr (JitSent p r cs,
                      if r \<noteq> LGW_HAL_SUCCESS then m1\<lparr>meas_nb_tx_fail := meas_nb_tx_fail m1 + 1\<rparr> else m1\<lparr>meas_nb_tx_ok := meas_nb_tx_ok m1 + 1\<rparr>, w2)))"

text \<open>
  A turn for one chain: \<^verbatim>\<open>jit_peek\<close>, \<^verbatim>\<open>jit_dequeue\<close> when a packet is due, and the transmission. The mutex of the queue is free between the two calls; this is the
  turn without interference.
\<close>

definition jit_turn ::
    "'w tx_hw \<Rightarrow> lgw_context_t \<Rightarrow> rat \<Rightarrow> ('w \<Rightarrow> 'w) option \<Rightarrow> u32 \<Rightarrow> int \<times> int \<Rightarrow> jit_queue_s \<Rightarrow> jit_meas \<Rightarrow> 'w \<Rightarrow>
     c_fault + (jit_outcome option \<times> jit_queue_s \<times> jit_meas \<times> 'w)" where
  "jit_turn hw ctx correct scan_abort now rd q m w =
     res_bind (jit_peek q now True) (\<lambda>(r, q1, idx).
       if r = JIT_ERROR_OK \<and> -1 < the idx
       then case jit_dequeue q1 (the idx) True of
              (r2, q2, None) \<Rightarrow> Inr (None, q2, m, w)
            | (r2, q2, Some (p, ty)) \<Rightarrow>
                res_bind (jit_send_packet hw ctx correct scan_abort rd p ty m w) (\<lambda>(oc, m', w'). Inr (Some oc, q2, m', w'))
       else Inr (None, q1, m, w))"

text \<open>A turn of the thread visits the chains in turn; the readings are those of each chain.\<close>

fun thread_jit_chains ::
    "'w tx_hw \<Rightarrow> lgw_context_t \<Rightarrow> rat \<Rightarrow> ('w \<Rightarrow> 'w) option \<Rightarrow> (u32 \<times> int \<times> int) list \<Rightarrow> jit_queue_s list \<Rightarrow> jit_meas \<Rightarrow> 'w \<Rightarrow>
     c_fault + (jit_outcome list \<times> jit_queue_s list \<times> jit_meas \<times> 'w)" where
  "thread_jit_chains hw ctx correct scan_abort ((now, rd) # rds) (q # qs) m w =
     res_bind (jit_turn hw ctx correct scan_abort now rd q m w) (\<lambda>(oc, q', m', w').
     res_bind (thread_jit_chains hw ctx correct scan_abort rds qs m' w') (\<lambda>(ocs, qs', m'', w'').
       Inr ((case oc of None \<Rightarrow> ocs | Some x \<Rightarrow> x # ocs), q' # qs', m'', w'')))"
| "thread_jit_chains hw ctx correct scan_abort rds qs m w = Inr ([], qs, m, w)"

end
