(* ===== verification/DownlinkProps.thy ===== *)
theory DownlinkProps
  imports Downlink JitQueueProps HalTxProps
begin

text \<open>
  Properties of the downstream thread: the choice of the transmit power, the frame of a beacon, and what becomes of the packets of the bridge.
\<close>

subsection \<open>Transmit power\<close>

definition lut_power :: "lgw_tx_gain_s list \<Rightarrow> nat \<Rightarrow> int" where
  "lut_power es i = sint (lut_rf_power (es ! i))"

text \<open>The best entry among the first \<open>k\<close>.\<close>

definition lut_best :: "lgw_tx_gain_s list \<Rightarrow> int \<Rightarrow> nat \<Rightarrow> int \<Rightarrow> bool" where
  "lut_best es rf k i \<longleftrightarrow>
     (i = -1 \<and> (\<forall>j<k. rf < lut_power es j)) \<or>
     (0 \<le> i \<and> nat i < k \<and> lut_power es (nat i) \<le> rf \<and> (\<forall>j<k. lut_power es j \<le> rf \<longrightarrow> lut_power es j \<le> lut_power es (nat i)))"

lemma sint_u8_bounds: "- 128 \<le> sint (x :: u8)" "sint (x :: u8) < 128"
  using sint_greater_eq [of x] sint_less [of x] by simp_all

lemma uint_of_int_u8: "0 \<le> d \<Longrightarrow> d < 256 \<Longrightarrow> uint (of_int d :: u8) = d"
  by (simp add: unsigned_of_int take_bit_int_eq_self)

lemma tx_gain_scan_best:
  assumes "gs = drop k es" and "k \<le> length es" and "lut_best es rf k best" and "0 \<le> best \<Longrightarrow> uint match = rf - lut_power es (nat best)"
    and "rf < 128"
  shows "lut_best es rf (length es) (tx_gain_scan rf gs k best match)"
  using assms
proof (induction gs arbitrary: k best match)
  case Nil
  then show ?case by simp
next
  case (Cons g gs)
  have "drop k es = g # gs" using Cons.prems(1) by simp
  then have k: "k < length es" "gs = drop (Suc k) es" and g: "lut_power es k = sint (lut_rf_power g)"
    by (auto simp: lut_power_def drop_Suc nth_via_drop simp flip: tl_drop intro: ccontr)
  let ?d = "rf - sint (lut_rf_power g)"
  show ?case
  proof (cases "0 \<le> ?d \<and> (best = -1 \<or> ?d < uint match)")
    case True
    have "0 \<le> ?d" "?d < 256" using True Cons.prems(5) sint_u8_bounds [of "lut_rf_power g"] by simp_all
    then have "uint (of_int ?d :: u8) = ?d" by (rule uint_of_int_u8)
    moreover have "lut_best es rf (Suc k) (int k)"
      using True Cons.prems(3,4) g by (fastforce simp: lut_best_def less_Suc_eq)
    ultimately show ?thesis
      using Cons.IH [OF k(2), of "int k" "of_int ?d"] True k(1) Cons.prems(5) g by (simp add: Let_def)
  next
    case False
    then have "lut_best es rf (Suc k) best"
      using Cons.prems(3,4) g by (fastforce simp: lut_best_def less_Suc_eq)
    then show ?thesis
      using Cons.IH [OF k(2) _ _ Cons.prems(4,5)] False k(1) by (auto simp: Let_def)
  qed
qed

lemma pow_index_down_last:
  "pow_index_down es rf n \<le> n \<and> (\<forall>j\<le>n. pow_index_down es rf n < j \<longrightarrow> rf < lut_power es j) \<and>
   ((\<exists>j\<le>n. lut_power es j \<le> rf) \<longrightarrow> lut_power es (pow_index_down es rf n) \<le> rf)"
  by (induction n) (auto simp: lut_power_def le_Suc_eq)

text \<open>
  The daemon and the HAL choose the same entry of the gain table: for a table in strictly ascending order of power that has an entry not above the requested
  power, \<^verbatim>\<open>get_tx_gain_lut_index\<close> finds the entry \<^verbatim>\<open>sx1302_send\<close> will program, the one with the highest power that does not exceed the request.
\<close>

theorem gain_index_agrees:
  assumes "unat rf_chain < length txlut" and "lut = txlut ! unat rf_chain" and "0 < unat (lut_size lut)"
    and "unat (lut_size lut) \<le> length (lut_entries lut)"
    and asc: "\<forall>i j. i < j \<longrightarrow> j < unat (lut_size lut) \<longrightarrow> lut_power (lut_entries lut) i < lut_power (lut_entries lut) j"
    and "lut_power (lut_entries lut) 0 \<le> sint rf_power"
  shows "\<exists>i. get_tx_gain_lut_index txlut rf_chain rf_power True = Inr (0, Some (of_nat i)) \<and> tx_pow_index lut rf_power = Some i \<and>
    i < unat (lut_size lut) \<and> lut_power (lut_entries lut) i \<le> sint rf_power \<and>
    (\<forall>j<unat (lut_size lut). lut_power (lut_entries lut) j \<le> sint rf_power \<longrightarrow> lut_power (lut_entries lut) j \<le> lut_power (lut_entries lut) i)"
proof -
  define n es where "n = unat (lut_size lut)" and "es = take n (lut_entries lut)"
  define r where "r = tx_gain_scan (sint rf_power) es 0 (-1) 0xFF"
  have len: "length es = n" and P: "\<And>j. j < n \<Longrightarrow> lut_power es j = lut_power (lut_entries lut) j"
    using assms(4) by (simp_all add: es_def n_def lut_power_def)
  have "lut_best es (sint rf_power) n r"
    using tx_gain_scan_best [of es 0 es "sint rf_power" "-1"] sint_u8_bounds [of rf_power] len by (simp add: r_def lut_best_def)
  moreover have "\<not> (\<forall>j<n. sint rf_power < lut_power es j)"
    using P assms(3,6) by (fastforce simp: n_def)
  ultimately have r: "0 \<le> r" "nat r < n" "lut_power (lut_entries lut) (nat r) \<le> sint rf_power"
      "\<forall>j<n. lut_power (lut_entries lut) j \<le> sint rf_power \<longrightarrow> lut_power (lut_entries lut) j \<le> lut_power (lut_entries lut) (nat r)"
    using P by (auto simp: lut_best_def)
  have pred: "unat (lut_size lut - 1) = n - 1"
    using unat_pred [OF assms(3)] by (simp add: n_def)
  define d where "d = pow_index_down (lut_entries lut) (sint rf_power) (n - 1)"
  have d: "d \<le> n - 1" "\<forall>j\<le>n - 1. d < j \<longrightarrow> sint rf_power < lut_power (lut_entries lut) j" "lut_power (lut_entries lut) d \<le> sint rf_power"
    using pow_index_down_last [of "lut_entries lut" "sint rf_power" "n - 1"] assms(6) by (auto simp: d_def)
  have "lut_power (lut_entries lut) d \<le> lut_power (lut_entries lut) (nat r)"
    using r(2,4) d(1,3) by simp
  moreover have "lut_power (lut_entries lut) (nat r) < lut_power (lut_entries lut) d" if "nat r < d"
    using asc that d(1) r(2) by (simp add: n_def)
  moreover have "\<not> d < nat r"
  proof
    assume "d < nat r"
    then have "sint rf_power < lut_power (lut_entries lut) (nat r)" using d(2) r(2) by simp
    with r(3) show False by simp
  qed
  ultimately have "d = nat r" by fastforce
  then have "tx_pow_index lut rf_power = Some (nat r)"
    using assms(3,4) pred d_def by (simp add: tx_pow_index_def n_def Let_def)
  moreover have "get_tx_gain_lut_index txlut rf_chain rf_power True = Inr (0, Some (of_nat (nat r)))"
    using assms(1,2,4) r(1) by (simp add: get_tx_gain_lut_index_def r_def es_def n_def Let_def)
  ultimately show ?thesis using r by (simp add: n_def)
qed

definition lut_sample :: lgw_tx_gain_lut_s where
  "lut_sample = \<lparr>lut_entries = map (\<lambda>p. \<lparr>lut_rf_power = p, lut_dig_gain = 0, lut_pa_gain = 0, lut_dac_gain = 0, lut_mix_gain = 0, lut_offset_i = 0,
     lut_offset_q = 0, lut_pwr_idx = 0\<rparr>) ([246, 12, 14, 27] @ replicate 12 0), lut_size = 4\<rparr>"

theorem gain_index_agrees_witness:
  "get_tx_gain_lut_index [lut_sample, lut_sample] 1 20 True = Inr (0, Some 2)"
proof -
  have P: "lut_power (lut_entries lut_sample) 0 = - 10" "lut_power (lut_entries lut_sample) (Suc 0) = 12"
      "lut_power (lut_entries lut_sample) (Suc (Suc 0)) = 14" "lut_power (lut_entries lut_sample) (Suc (Suc (Suc 0))) = 27"
    and sz: "unat (lut_size lut_sample) = Suc (Suc (Suc (Suc 0)))" "length (lut_entries lut_sample) = 16"
    by (simp_all add: lut_power_def lut_sample_def)
  have "\<exists>i. get_tx_gain_lut_index [lut_sample, lut_sample] 1 20 True = Inr (0, Some (of_nat i)) \<and> tx_pow_index lut_sample 20 = Some i \<and>
    i < unat (lut_size lut_sample) \<and> lut_power (lut_entries lut_sample) i \<le> sint (20 :: u8) \<and>
    (\<forall>j<unat (lut_size lut_sample). lut_power (lut_entries lut_sample) j \<le> sint (20 :: u8) \<longrightarrow>
      lut_power (lut_entries lut_sample) j \<le> lut_power (lut_entries lut_sample) i)"
    by (rule gain_index_agrees) (auto simp: P sz less_Suc_eq)
  then obtain i where i: "get_tx_gain_lut_index [lut_sample, lut_sample] 1 20 True = Inr (0, Some (of_nat i))" "tx_pow_index lut_sample 20 = Some i"
    by blast
  have "tx_pow_index lut_sample 20 = Some 2" by code_simp
  with i show ?thesis by simp
qed

subsection \<open>Packets of the bridge\<close>

text \<open>What happens around the downstream thread: the mesh protocol submits a packet, the thread looks for one at either place.\<close>

datatype down_event = DuckSubmit "u8 list" | DownOuter | DownInner u32

fun down_step :: "down_conf \<Rightarrow> down_event \<Rightarrow> 'c down_state \<Rightarrow> c_fault + 'c down_state" where
  "down_step cf (DuckSubmit bs) s = res_bind (startTransmitData (Some bs) (int (length bs)) (down_bridge s)) (\<lambda>b. Inr (s\<lparr>down_bridge := b\<rparr>))"
| "down_step cf DownOuter s = res_bind (down_outer cf s) (\<lambda>(_, s'). Inr s')"
| "down_step cf (DownInner now) s = res_bind (down_inner cf now s) (\<lambda>(_, s'). Inr s')"

fun down_events :: "down_conf \<Rightarrow> down_event list \<Rightarrow> 'c down_state \<Rightarrow> c_fault + 'c down_state" where
  "down_events cf [] s = Inr s"
| "down_events cf (e # es) s = res_bind (down_step cf e s) (down_events cf es)"

text \<open>The variables for the next packet, with the capacity \<open>cap\<close>.\<close>

definition down_vars :: "u16 \<Rightarrow> downlink_out \<Rightarrow> bool" where
  "down_vars cap v \<longleftrightarrow> inout_capacity v = Some cap \<and> (\<exists>buf. out_buf v = Some buf \<and> length buf = 256) \<and> out_freq_hz v \<noteq> None \<and> out_rf_chain v \<noteq> None"

lemma pop_downlink_too_big:
  assumes "down_vars cap v" and "downlink_queue b = p # ps" and "unat cap < length (dl_payload p)"
  shows "cdp_bridge_pop_downlink v b = Inr (-2, v\<lparr>inout_capacity := Some 0\<rparr>, b\<lparr>downlink_queue := ps\<rparr>)"
  using assms by (auto simp: cdp_bridge_pop_downlink_def down_vars_def)

lemma pop_downlink_fits:
  assumes "down_vars cap v" and "downlink_queue b = p # ps" and "length (dl_payload p) \<le> unat cap" and "unat cap \<le> 256"
  obtains v' where "cdp_bridge_pop_downlink v b = Inr (0, v', b\<lparr>downlink_queue := ps\<rparr>)"
    and "inout_capacity v' = Some (of_nat (length (dl_payload p)))" and "out_freq_hz v' = Some (dl_freq_hz p)" and "out_rf_chain v' = Some (dl_rf_chain p)"
    and "\<exists>buf. out_buf v' = Some buf \<and> length buf = 256 \<and> take (length (dl_payload p)) buf = dl_payload p"
proof -
  obtain buf where buf: "out_buf v = Some buf" "length buf = 256" using assms(1) by (auto simp: down_vars_def)
  then have "length (mem_write buf (dl_payload p)) = 256" using assms(3,4) by (simp add: length_mem_write)
  with buf assms that show ?thesis by (auto simp: cdp_bridge_pop_downlink_def down_vars_def)
qed

text \<open>Once the capacity is 0 every packet is taken out and none is scheduled.\<close>

definition down_blocked :: "'c down_state \<Rightarrow> 'c down_state \<Rightarrow> bool" where
  "down_blocked s0 s \<longleftrightarrow> down_vars 0 (down_out s) \<and> (\<forall>p\<in>set (downlink_queue (down_bridge s)). dl_payload p \<noteq> []) \<and>
     down_queue s = down_queue s0 \<and> meas_nb_tx_requested s = meas_nb_tx_requested s0"

lemma pop_downlink_blocked:
  assumes "down_vars 0 v" and "\<forall>p\<in>set (downlink_queue b). dl_payload p \<noteq> []"
  shows "\<exists>rc. rc \<noteq> 0 \<and> cdp_bridge_pop_downlink v b = Inr (rc, v, b\<lparr>downlink_queue := tl (downlink_queue b)\<rparr>)"
proof (cases "downlink_queue b")
  case Nil
  then have "b\<lparr>downlink_queue := tl (downlink_queue b)\<rparr> = b" by simp
  with Nil assms(1) show ?thesis by (auto simp: cdp_bridge_pop_downlink_def down_vars_def)
next
  case (Cons p ps)
  have "v\<lparr>inout_capacity := Some 0\<rparr> = v" using assms(1) by (simp add: down_vars_def)
  with pop_downlink_too_big [OF assms(1) Cons] assms(2) Cons show ?thesis by simp
qed

lemma down_blocked_pop:
  assumes "down_blocked s0 s"
  shows "\<exists>rc v b. cdp_bridge_pop_downlink (down_out s) (down_bridge s) = Inr (rc, v, b) \<and> rc \<noteq> 0 \<and>
    down_blocked s0 (s\<lparr>down_bridge := b, down_out := v\<rparr>)"
proof -
  have "\<forall>p\<in>set (tl (downlink_queue (down_bridge s))). dl_payload p \<noteq> []"
    using assms by (cases "downlink_queue (down_bridge s)") (simp_all add: down_blocked_def)
  then show ?thesis
    using assms pop_downlink_blocked [of "down_out s" "down_bridge s"] by (fastforce simp: down_blocked_def)
qed

lemma down_blocked_step:
  assumes "down_blocked s0 s"
  shows "\<exists>s'. down_step cf e s = Inr s' \<and> down_blocked s0 s'"
proof (cases e)
  case (DuckSubmit bs)
  have "unat (of_nat (length bs) :: u16) \<le> length bs" by (simp add: unat_of_nat)
  with DuckSubmit assms show ?thesis
    by (auto simp: startTransmitData_def cdp_bridge_enqueue_downlink_ext_def down_blocked_def unat_eq_0)
next
  case DownOuter
  with down_blocked_pop [OF assms] show ?thesis by (auto simp: down_outer_def Let_def)
next
  case (DownInner now)
  with down_blocked_pop [OF assms] show ?thesis by (auto simp: down_inner_def Let_def)
qed

lemma down_blocked_events:
  "down_blocked s0 s \<Longrightarrow> \<exists>s'. down_events cf es s = Inr s' \<and> down_blocked s0 s'"
proof (induction es arbitrary: s)
  case (Cons e es)
  then obtain s1 where "down_step cf e s = Inr s1" "down_blocked s0 s1" using down_blocked_step by blast
  with Cons.IH show ?case by simp
qed simp

text \<open>
  A packet of more than 256 bytes blocks the downlink for good: it makes the bridge set the capacity of the buffer to 0, and the thread restores the capacity
  only after a packet it could take. From then on, whatever is submitted and however often the thread looks, every packet is taken from the bridge and none
  reaches a queue.
\<close>

theorem oversized_downlink_blocks:
  assumes "down_vars 256 (down_out s)" and "downlink_queue (down_bridge s) = p # ps" and "256 < length (dl_payload p)"
    and "\<forall>x\<in>set ps. dl_payload x \<noteq> []" and "e = DownOuter \<or> e = DownInner now"
  shows "\<exists>s'. down_events cf (e # es) s = Inr s' \<and> down_queue s' = down_queue s \<and> meas_nb_tx_requested s' = meas_nb_tx_requested s \<and>
    inout_capacity (down_out s') = Some 0"
proof -
  define s1 where "s1 = s\<lparr>down_bridge := (down_bridge s)\<lparr>downlink_queue := ps\<rparr>, down_out := (down_out s)\<lparr>inout_capacity := Some 0\<rparr>\<rparr>"
  have "cdp_bridge_pop_downlink (down_out s) (down_bridge s) =
      Inr (-2, (down_out s)\<lparr>inout_capacity := Some 0\<rparr>, (down_bridge s)\<lparr>downlink_queue := ps\<rparr>)"
    by (rule pop_downlink_too_big [OF assms(1,2)]) (use assms(3) in simp)
  then have "down_step cf e s = Inr s1"
    using assms(5) by (auto simp: down_outer_def down_inner_def Let_def s1_def)
  moreover have "down_blocked s s1"
    using assms(1,4) by (simp add: down_blocked_def down_vars_def s1_def)
  ultimately show ?thesis
    using down_blocked_events [of s s1 cf es] by (auto simp: down_blocked_def down_vars_def)
qed

subsection \<open>Packets of the outer loop\<close>

lemma jit_append_empty:
  assumes "jit_wf q" and "num_pkt q = 0"
  shows "num_pkt (jit_append q n) = 1" and "nodes (jit_append q n) ! 0 = n"
proof -
  show np: "num_pkt (jit_append q n) = 1" using assms(2) by (simp add: jit_append_def)
  have nf: "\<not> jit_queue_is_full q" and act: "jit_active q = []"
    using assms(2) by (simp_all add: jit_queue_is_full_def jit_active_def)
  have "mset (jit_active (jit_append q n)) = {#n#}" using jit_append_active [OF assms(1) nf] act by simp
  then have "jit_active (jit_append q n) = [n]" by simp
  then show "nodes (jit_append q n) ! 0 = n"
    using jit_active_nth [OF jit_append_wf [OF assms(1) nf], of 0 n] np by simp
qed

text \<open>An immediate downlink in an empty queue leaves 80 ms after the time it was given.\<close>

lemma jit_enqueue_empty_class_c:
  assumes "jit_wf q" and "num_pkt q = 0"
  obtains n where "jit_enqueue sws q t (Some p) JIT_PKT_TYPE_DOWNLINK_CLASS_C = (JIT_ERROR_OK, jit_append q n, Some (pkt n))"
    and "tx_count_us (pkt n) = t + 80000"
proof
  define n where "n = jit_new_node sws q t p JIT_PKT_TYPE_DOWNLINK_CLASS_C"
  have act: "jit_active q = []" using assms(2) by (simp add: jit_active_def)
  show c: "tx_count_us (pkt n) = t + 80000"
    by (simp add: n_def jit_new_node_def act jit_asap_count_def Let_def)
  have "pkt_type n = JIT_PKT_TYPE_DOWNLINK_CLASS_C" by (simp add: n_def jit_new_node_def Let_def)
  then show "jit_enqueue sws q t (Some p) JIT_PKT_TYPE_DOWNLINK_CLASS_C = (JIT_ERROR_OK, jit_append q n, Some (pkt n))"
    unfolding jit_enqueue_OK Let_def n_def [symmetric]
    using assms(2) c by (simp add: jit_queue_is_full_def jit_too_late_def jit_too_early_def act)
qed

lemma get_tx_gain_lut_index_total:
  assumes "unat rf_chain < length txlut" and "unat (lut_size (txlut ! unat rf_chain)) \<le> length (lut_entries (txlut ! unat rf_chain))"
    and "0 < length (lut_entries (txlut ! unat rf_chain))"
  obtains i k where "get_tx_gain_lut_index txlut rf_chain rf_power True = Inr (i, Some k)" and "unat k < length (lut_entries (txlut ! unat rf_chain))"
proof -
  define lut es where "lut = txlut ! unat rf_chain" and "es = take (unat (lut_size lut)) (lut_entries lut)"
  define r where "r = tx_gain_scan (sint rf_power) es 0 (-1) 0xFF"
  have len: "length es = unat (lut_size lut)" "length es \<le> length (lut_entries lut)" using assms(2) by (simp_all add: es_def lut_def)
  have "lut_best es (sint rf_power) (length es) r"
    using tx_gain_scan_best [of es 0 es "sint rf_power" "-1"] sint_u8_bounds [of rf_power] by (simp add: r_def lut_best_def)
  then have rb: "nat r < unat (lut_size lut)" if "-1 < r" using len that by (auto simp: lut_best_def)
  have "unat (lut_size lut) < 256" by (rule order_less_le_trans [OF unsigned_less]) simp
  then have u: "unat (of_int r :: u8) = nat r" if "-1 < r"
    using that rb uint_of_int_u8 [of r] nat_uint_eq [of "of_int r :: u8"] by simp
  have e: "get_tx_gain_lut_index txlut rf_chain rf_power True = (if -1 < r then Inr (0, Some (of_int r)) else Inr (-1, Some 0))"
    using assms by (simp add: get_tx_gain_lut_index_def r_def es_def lut_def Let_def)
  show ?thesis
  proof (cases "-1 < r")
    case True
    show ?thesis by (rule that [of 0 "of_int r"]) (use True e u rb len in \<open>simp_all add: lut_def\<close>)
  next
    case False
    show ?thesis by (rule that [of "-1" 0]) (use False e assms(3) in simp_all)
  qed
qed

text \<open>The tables of the configuration have the size of their arrays.\<close>

definition down_conf_ok :: "down_conf \<Rightarrow> bool" where
  "down_conf_ok cf \<longleftrightarrow> length (tx_freq_min cf) = 2 \<and> length (tx_freq_max cf) = 2 \<and> length (conf_txlut cf) = 2 \<and>
     (\<forall>l\<in>set (conf_txlut cf). length (lut_entries l) = 16 \<and> unat (lut_size l) \<le> 16)"

definition duck_rf_chain :: "downlink_packet \<Rightarrow> u8" where
  "duck_rf_chain p = (if unat (dl_rf_chain p) < LGW_RF_CHAIN_NB then dl_rf_chain p else 0)"

lemma supported_power_total:
  assumes "down_conf_ok cf" and "unat (tx_rf_chain p) < 2"
  obtains p' where "supported_power (conf_txlut cf) p = Inr p'"
proof -
  have l: "length (lut_entries (conf_txlut cf ! unat (tx_rf_chain p))) = 16 \<and> unat (lut_size (conf_txlut cf ! unat (tx_rf_chain p))) \<le> 16"
    using assms by (simp add: down_conf_ok_def)
  obtain i k where "get_tx_gain_lut_index (conf_txlut cf) (tx_rf_chain p) (tx_rf_power p) True = Inr (i, Some k)"
      "unat k < length (lut_entries (conf_txlut cf ! unat (tx_rf_chain p)))"
    using assms l by (elim get_tx_gain_lut_index_total [rotated -1]) (auto simp: down_conf_ok_def)
  then have "\<exists>p'. supported_power (conf_txlut cf) p = Inr p'" by (auto simp: supported_power_def Let_def)
  with that show ?thesis by blast
qed

lemma stale_departure:
  fixes t now :: u32
  assumes "80000 < unat (now - t)" and "unat (now - t) \<le> 3783047296"
  shows "512000000 \<le> t + 80000 - now"
proof -
  have "t + 80000 - now = 80000 - (now - t)" by simp
  moreover have "unat (80000 - (now - t)) = 2 ^ 32 + 80000 - unat (now - t)"
    using assms(1) by (simp add: unat_sub_if_size word_size)
  ultimately have "unat (t + 80000 - now) = 2 ^ 32 + 80000 - unat (now - t)" by (simp only:)
  then show ?thesis using assms(2) by (simp add: word_le_nat_alt)
qed

text \<open>
  C35. A packet that is taken at the start of a turn of the outer loop for a chain with an empty queue is lost when the counter reading it is scheduled with is stale: it is scheduled 80 ms after
  \<^verbatim>\<open>current_concentrator_time\<close>, which was read in an
  earlier turn of the inner loop (or never). When the poll comes more than 80 ms and at most 3783 s after that reading, the departure time has passed; the packet is accepted,
  and the poll takes it for outdated and reads in front of the array. The thread waits 200 ms after every turn of the inner loop, so the first bound is the usual case.
\<close>

theorem outer_downlink_lost:
  assumes "down_vars 256 (down_out s)" and "downlink_queue (down_bridge s) = p # ps" and "dl_payload p \<noteq> []" and "length (dl_payload p) \<le> 256"
    and "down_conf_ok cf" and "length (down_queue s) = 2" and "rf = unat (duck_rf_chain p)" and "jit_wf (down_queue s ! rf)" and "num_pkt (down_queue s ! rf) = 0"
    and "tx_freq_min cf ! rf \<le> CDPCFG_RF_LORA_FREQ_HZ" and "CDPCFG_RF_LORA_FREQ_HZ \<le> tx_freq_max cf ! rf"
    and "80000 < unat (now - down_time s)" and "unat (now - down_time s) \<le> 3783047296"
  shows "\<exists>s'. down_outer cf s = Inr (Some JIT_ERROR_OK, s') \<and> jit_peek (down_queue s' ! rf) now True = Inl OutOfBounds"
proof -
  obtain v where v: "cdp_bridge_pop_downlink (down_out s) (down_bridge s) = Inr (0, v, (down_bridge s)\<lparr>downlink_queue := ps\<rparr>)"
      "inout_capacity v = Some (of_nat (length (dl_payload p)))" "out_rf_chain v = Some (dl_rf_chain p)"
    by (rule pop_downlink_fits [OF assms(1,2)]) (use assms(4) in simp_all)
  have cap: "0 < (of_nat (length (dl_payload p)) :: u16)"
    using assms(3,4) by (simp add: word_less_nat_alt unat_of_nat)
  have rf2: "rf < 2" by (simp add: assms(7) duck_rf_chain_def)
  define pk where "pk = duck_txpkt v CDPCFG_RF_LORA_FREQ_HZ (duck_rf_chain p) 0"
  have pk: "tx_freq_hz pk = CDPCFG_RF_LORA_FREQ_HZ" "tx_rf_chain pk = duck_rf_chain p" by (simp_all add: pk_def duck_txpkt_def)
  obtain pk' where sp: "supported_power (conf_txlut cf) pk = Inr pk'"
    using supported_power_total [OF assms(5), of pk] pk(2) rf2 assms(7) by metis
  obtain n where n: "jit_enqueue (conf_sync_word_size cf) (down_queue s ! rf) (down_time s) (Some pk') JIT_PKT_TYPE_DOWNLINK_CLASS_C =
      (JIT_ERROR_OK, jit_append (down_queue s ! rf) n, Some (pkt n))" "tx_count_us (pkt n) = down_time s + 80000"
    by (rule jit_enqueue_empty_class_c [OF assms(8,9)])
  have out: "jit_outdated now (nodes (jit_append (down_queue s ! rf) n) ! 0)"
    using stale_departure [OF assms(12,13)] by (simp add: jit_append_empty [OF assms(8,9)] jit_outdated_def n(2))
  have "jit_peek (jit_append (down_queue s ! rf) n) now True = Inl OutOfBounds"
    using jit_peek_loop_purge_first [OF _ out] by (simp add: jit_append_empty [OF assms(8,9)] jit_peek_def jit_queue_is_empty_def)
  moreover have "\<exists>s'. down_outer cf s = Inr (Some JIT_ERROR_OK, s') \<and> down_queue s' = (down_queue s)[rf := jit_append (down_queue s ! rf) n]"
  proof -
    have rf: "(if unat (the (out_rf_chain v)) < 2 then the (out_rf_chain v) else 0) = duck_rf_chain p"
      by (simp add: v(3) duck_rf_chain_def)
    show ?thesis
      unfolding down_outer_def v(1) res_bind_simps prod.case Let_def rf pk_def [symmetric] assms(7) [symmetric]
      using cap sp n(1) assms(10,11) pk v(2) by (simp add: not_less [symmetric])
  qed
  ultimately show ?thesis using assms(6) rf2 by auto
qed

text \<open>A thread that finds one packet with this payload in the bridge, and its configuration.\<close>

definition down_sample :: "u8 list \<Rightarrow> unit down_state" where
  "down_sample bs = \<lparr>
     down_bridge = g_bridge_init\<lparr>downlink_queue := [\<lparr>dl_payload = bs, dl_freq_hz = 922800000, dl_tmst = 0, dl_tx_power_dbm = 14, dl_bw_hz = 125000,
       dl_sf = 7, dl_cr = 1, dl_rf_chain = 0\<rparr>]\<rparr>,
     down_queue = [jit_queue_init, jit_queue_init],
     down_out = \<lparr>out_buf = Some (replicate 256 0), inout_capacity = Some 256, out_freq_hz = Some 0, out_tmst = Some 0, out_tx_power_dbm = Some 0,
       out_bw_hz = Some 0, out_sf = Some 0, out_cr = Some 0, out_rf_chain = Some 0\<rparr>,
     down_time = 0, beacon_pkt = tx_pkt_zero, last_beacon_sec = 0, meas_nb_tx_requested = 0, meas_nb_beacon_queued = 0, meas_nb_beacon_rejected = 0\<rparr>"

definition down_conf_sample :: down_conf where
  "down_conf_sample = \<lparr>
     conf_beacon = \<lparr>beacon_period = 128, beacon_freq_hz = 869525000, beacon_freq_nb = 1, beacon_freq_step = 0, beacon_datarate = 9, beacon_bw_hz = 125000,
       beacon_power = 14, beacon_infodesc = 0\<rparr>,
     tx_freq_min = [920000000, 920000000], tx_freq_max = [928000000, 928000000], conf_txlut = [lut_sample, lut_sample], conf_sync_word_size = 3\<rparr>"

lemma down_sample_facts:
  "down_vars 256 (down_out (down_sample bs))" "down_queue (down_sample bs) = [jit_queue_init, jit_queue_init]" "down_time (down_sample bs) = 0"
  "down_conf_ok down_conf_sample"
  by (simp_all add: down_sample_def down_vars_def down_conf_ok_def down_conf_sample_def lut_sample_def)

theorem oversized_downlink_blocks_witness:
  "\<exists>s'. down_events down_conf_sample [DownInner 5, DuckSubmit [1, 2, 3], DownInner 9, DownOuter] (down_sample (replicate 300 7)) = Inr s' \<and>
    down_queue s' = [jit_queue_init, jit_queue_init] \<and> inout_capacity (down_out s') = Some 0"
proof -
  have "\<exists>p ps. downlink_queue (down_bridge (down_sample (replicate 300 7))) = p # ps \<and> 256 < length (dl_payload p) \<and> ps = []"
    by (simp add: down_sample_def)
  then obtain p ps where p: "downlink_queue (down_bridge (down_sample (replicate 300 7))) = p # ps" "256 < length (dl_payload p)" "\<forall>x\<in>set ps. dl_payload x \<noteq> []"
    by fastforce
  show ?thesis
    using oversized_downlink_blocks [OF down_sample_facts(1) p, of "DownInner 5" 5] by (simp only: down_sample_facts) blast
qed

theorem outer_downlink_lost_witness:
  "\<exists>s'. down_outer down_conf_sample (down_sample [1, 2, 3]) = Inr (Some JIT_ERROR_OK, s') \<and> jit_peek (down_queue s' ! 0) 200000 True = Inl OutOfBounds"
proof -
  define p where "p = \<lparr>dl_payload = [1, 2, 3], dl_freq_hz = 922800000, dl_tmst = 0, dl_tx_power_dbm = 14, dl_bw_hz = 125000, dl_sf = 7, dl_cr = 1, dl_rf_chain = 0\<rparr>"
  have q: "downlink_queue (down_bridge (down_sample [1, 2, 3])) = [p]" by (simp add: down_sample_def p_def)
  show ?thesis
    by (rule outer_downlink_lost [OF down_sample_facts(1) q])
      (simp_all add: down_sample_facts p_def duck_rf_chain_def jit_wf_init, simp_all add: down_conf_sample_def jit_queue_init_def)
qed

subsection \<open>Transmission\<close>

lemma jit_peek_due:
  assumes "jit_wf q" and "\<forall>m\<in>set (jit_active q). \<not> jit_outdated t m" and "n \<in> set (jit_active q)" and "tx_count_us (pkt n) - t < TX_JIT_DELAY"
    and "\<forall>m\<in>set (jit_active q) - {n}. tx_count_us (pkt n) - t < tx_count_us (pkt m) - t"
  obtains k where "jit_peek q t True = Inr (JIT_ERROR_OK, q, Some (int k))" and "k < unat (num_pkt q)" and "nodes q ! k = n"
proof -
  have "0 < unat (num_pkt q)" using length_pos_if_in_set [OF assms(3)] jit_wf_lengths(3) [OF assms(1)] by argo
  then obtain k where k: "jit_peek_loop t q 0 (-1) = (q, k)" "0 \<le> k" "nat k < unat (num_pkt q)"
    and low: "\<forall>j<unat (num_pkt q). tx_count_us (pkt (nodes q ! nat k)) - t \<le> tx_count_us (pkt (nodes q ! j)) - t"
    using jit_peek_loop_earliest [OF assms(1,2), of 0 "-1"] by auto
  obtain j where j: "j < unat (num_pkt q)" "nodes q ! j = n"
    using assms(3) jit_active_nth [OF assms(1)] jit_wf_lengths(3) [OF assms(1)] by (metis in_set_conv_nth)
  have "nodes q ! nat k = n"
  proof (rule ccontr)
    assume "nodes q ! nat k \<noteq> n"
    then have "tx_count_us (pkt n) - t < tx_count_us (pkt (nodes q ! nat k)) - t"
      using assms(5) jit_active_mem [OF assms(1) k(3)] by simp
    with low j show False by (metis leD)
  qed
  moreover from this have "jit_peek q t True = Inr (JIT_ERROR_OK, q, Some k)"
    using k assms(4) \<open>0 < unat (num_pkt q)\<close> by (simp add: jit_peek_def jit_is_empty_iff)
  ultimately show ?thesis using that [of "nat k"] k by simp
qed

text \<open>
  What becomes of a packet that is due: a turn of the transmission thread takes exactly this packet out of the queue. When the concentrator is emitting, the packet
  is lost: nothing is sent and nothing is put back. Otherwise it is handed to \<^verbatim>\<open>lgw_send\<close>, after a spectral scan is aborted, and one of the two counters tells the result.
\<close>

theorem jit_turn_due:
  assumes "jit_wf q" and "\<forall>x\<in>set (jit_active q). \<not> jit_outdated now x" and "n \<in> set (jit_active q)" and "tx_count_us (pkt n) - now < TX_JIT_DELAY"
    and "\<forall>x\<in>set (jit_active q) - {n}. tx_count_us (pkt n) - now < tx_count_us (pkt x) - now" and "pkt_type n \<noteq> JIT_PKT_TYPE_BEACON"
  shows "\<exists>q'. mset (jit_active q') = mset (jit_active q) - {#n#} \<and>
    (if unat (tx_rf_chain (pkt n)) < LGW_RF_CHAIN_NB \<and> is_started ctx \<and> sx1302_tx_status rd = TX_EMITTING
     then jit_turn hw ctx correct scan_abort now rd q m w = Inr (Some (JitDropped (pkt n)), q', m, w)
     else \<forall>r cs w2. lgw_send hw ctx (Some (pkt n)) (case scan_abort of None \<Rightarrow> w | Some f \<Rightarrow> f w) = Inr (r, cs, w2) \<longrightarrow>
       jit_turn hw ctx correct scan_abort now rd q m w = Inr (Some (JitSent (pkt n) r cs), q',
         if r = LGW_HAL_SUCCESS then m\<lparr>meas_nb_tx_ok := meas_nb_tx_ok m + 1\<rparr> else m\<lparr>meas_nb_tx_fail := meas_nb_tx_fail m + 1\<rparr>, w2))"
proof -
  obtain k where k: "jit_peek q now True = Inr (JIT_ERROR_OK, q, Some (int k))" "k < unat (num_pkt q)" "nodes q ! k = n"
    by (rule jit_peek_due [OF assms(1-5)])
  have d: "jit_dequeue q (int k) True = (JIT_ERROR_OK, jit_remove_at q k, Some (pkt n, pkt_type n))"
    using k(2,3) jit_wf_lengths(2) [OF assms(1)] by (simp add: jit_dequeue_def jit_is_empty_iff Let_def)
  have st: "lgw_status ctx rd (tx_rf_chain (pkt n)) TX_STATUS = (LGW_HAL_SUCCESS, Some TX_EMITTING) \<longleftrightarrow>
      unat (tx_rf_chain (pkt n)) < 2 \<and> is_started ctx \<and> sx1302_tx_status rd = TX_EMITTING"
    by (auto simp: lgw_status_def)
  have "mset (jit_active (jit_remove_at q k)) = mset (jit_active q) - {#n#}"
    using jit_remove_at_active [OF assms(1) k(2)] k(3) by simp
  then show ?thesis
    using k(1) d assms(6) by (intro exI [of _ "jit_remove_at q k"]) (auto simp: jit_turn_def jit_send_packet_def st Let_def)
qed

theorem jit_turn_due_witness:
  "\<exists>q'. jit_active q' = [] \<and>
    jit_turn tx_sample_hw tx_sample_ctx 1 None 100 (0, 0x30) (jit_one_packet 5000) \<lparr>meas_nb_beacon_sent = 0, meas_nb_tx_ok = 0, meas_nb_tx_fail = 0\<rparr> () =
      Inr (Some (JitDropped (tx_pkt_zero\<lparr>tx_count_us := 5000\<rparr>)), q', \<lparr>meas_nb_beacon_sent = 0, meas_nb_tx_ok = 0, meas_nb_tx_fail = 0\<rparr>, ())"
proof -
  define n where "n = jit_node_zero\<lparr>pkt := tx_pkt_zero\<lparr>tx_count_us := 5000\<rparr>\<rparr>"
  have act: "jit_active (jit_one_packet 5000) = [n]" by (simp add: jit_one_packet_simps n_def)
  have np: "pkt n = tx_pkt_zero\<lparr>tx_count_us := 5000\<rparr>" "pkt_type n = JIT_PKT_TYPE_DOWNLINK_CLASS_A" by (simp_all add: n_def jit_node_zero_def)
  have "tx_rf_chain tx_pkt_zero = 0" by (simp add: tx_pkt_zero_def)
  moreover have "is_started tx_sample_ctx" "sx1302_tx_status (0, 0x30) = 4" by (simp_all add: tx_sample_ctx_def sx1302_tx_status_def)
  ultimately show ?thesis
    using jit_turn_due [OF jit_one_packet_wf [of 5000], of 100 n tx_sample_ctx "(0, 0x30)" tx_sample_hw 1 None
        "\<lparr>meas_nb_beacon_sent = 0, meas_nb_tx_ok = 0, meas_nb_tx_fail = 0\<rparr>" "()"]
    by (simp add: act jit_outdated_def np)
qed

end
