(* ===== verification/BeaconProps.thy ===== *)
theory BeaconProps
  imports Downlink JitQueueProps GpsProps
begin

text \<open>
  Properties of the beacons: the frame that is sent, the position it carries, and the times and the number of the beacons in the queue.
\<close>

subsection \<open>The frame\<close>

lemma length_le_bytes [simp]: "length (le_bytes n x) = n"
  by (simp add: le_bytes_def)

lemma drop_split: "drop n xs = take k (drop n xs) @ drop (n + k) xs"
  by (metis append_take_drop_id drop_drop add.commute)

lemma poke_append:
  "length xs = i \<Longrightarrow> length ys = length bs \<Longrightarrow> poke i bs (xs @ ys @ zs) = xs @ bs @ zs"
  by (simp add: poke_def)

lemma beacon_rate_sizes: "beacon_rate dr = Inr (d, rfu1, rfu2) \<Longrightarrow> rfu1 \<le> 5 \<and> rfu2 \<le> 3"
  by (auto simp: beacon_rate_def split: if_splits)

text \<open>The two parts of a beacon, without their checksums.\<close>

definition beacon_net_part :: "nat \<Rightarrow> int \<Rightarrow> u8 list" where
  "beacon_net_part rfu1 t = replicate rfu1 0 @ le_bytes 4 t"

definition beacon_gw_part :: "u8 \<Rightarrow> nat \<Rightarrow> int \<Rightarrow> int \<Rightarrow> u8 list" where
  "beacon_gw_part infodesc rfu2 flat flon = infodesc # le_bytes 3 flat @ le_bytes 3 flon @ replicate rfu2 0"

definition crc_bytes :: "u8 list \<Rightarrow> u8 list" where
  "crc_bytes bs = le_bytes 2 (uint (crc16 (Some bs) (length bs)))"

lemma length_parts [simp]:
  "length (beacon_net_part rfu1 t) = rfu1 + 4" "length (beacon_gw_part i rfu2 a b) = 7 + rfu2" "length (crc_bytes bs) = 2"
  by (simp_all add: beacon_net_part_def beacon_gw_part_def crc_bytes_def)

text \<open>A payload whose time and first checksum are \<open>xs\<close>.\<close>

definition beacon_payload :: "nat \<Rightarrow> u8 list \<Rightarrow> u8 list \<Rightarrow> u8 list \<Rightarrow> u8 list" where
  "beacon_payload rfu1 xs gw zs = replicate rfu1 0 @ xs @ gw @ crc_bytes gw @ zs"

lemma crc16_take: "length bs \<le> length cs \<Longrightarrow> take (length bs) cs = bs \<Longrightarrow> crc16 (Some cs) (length bs) = crc16 (Some bs) (length bs)"
  by (simp add: crc16_def)

lemma beacon_pkt_init_cases:
  assumes "beacon_pkt_init bc lat lon junk = Inr (p, rfu1, rfu2)"
  obtains bw dr flat flon where "beacon_bandwidth (beacon_bw_hz bc) = Inr bw" and "beacon_rate (beacon_datarate bc) = Inr (dr, rfu1, rfu2)"
    and "beacon_coord 90 lat = Inr flat" and "beacon_coord 180 lon = Inr flon"
proof -
  obtain bw where bw: "beacon_bandwidth (beacon_bw_hz bc) = Inr bw"
    using assms by (cases "beacon_bandwidth (beacon_bw_hz bc)") (simp_all add: beacon_pkt_init_def)
  obtain dr r1 r2 where dr: "beacon_rate (beacon_datarate bc) = Inr (dr, r1, r2)"
    using assms bw by (cases "beacon_rate (beacon_datarate bc)") (simp_all add: beacon_pkt_init_def, metis prod_cases3)
  obtain flat where flat: "beacon_coord 90 lat = Inr flat"
    using assms bw dr by (cases "beacon_coord 90 lat") (simp_all add: beacon_pkt_init_def)
  obtain flon where flon: "beacon_coord 180 lon = Inr flon"
    using assms bw dr flat by (cases "beacon_coord 180 lon") (simp_all add: beacon_pkt_init_def)
  have "r1 = rfu1 \<and> r2 = rfu2" using assms bw dr flat flon by (simp add: beacon_pkt_init_def Let_def)
  with that bw dr flat flon show ?thesis by blast
qed

lemma beacon_pkt_init_payload:
  assumes "beacon_pkt_init bc lat lon junk = Inr (p, rfu1, rfu2)" and "length (tx_payload junk) = 256"
  obtains flat flon xs zs where "beacon_coord 90 lat = Inr flat" and "beacon_coord 180 lon = Inr flon"
    and "tx_payload p = beacon_payload rfu1 xs (beacon_gw_part (beacon_infodesc bc) rfu2 flat flon) zs"
    and "length xs = 6" and "length (tx_payload p) = 256" and "tx_size p = of_nat (15 + rfu1 + rfu2)" and "rfu1 \<le> 5" and "rfu2 \<le> 3"
proof -
  obtain bw dr flat flon where c: "beacon_bandwidth (beacon_bw_hz bc) = Inr bw" "beacon_rate (beacon_datarate bc) = Inr (dr, rfu1, rfu2)"
      "beacon_coord 90 lat = Inr flat" "beacon_coord 180 lon = Inr flon"
    by (rule beacon_pkt_init_cases [OF assms(1)])
  have r: "rfu1 \<le> 5" "rfu2 \<le> 3" using beacon_rate_sizes [OF c(2)] by simp_all
  define gw where "gw = beacon_gw_part (beacon_infodesc bc) rfu2 flat flon"
  define j where "j = tx_payload junk"
  define xs ys ws zs where "xs = take 6 (drop rfu1 j)" and "ys = take (7 + rfu2) (drop (rfu1 + 6) j)" and "ws = take 2 (drop (rfu1 + 6 + (7 + rfu2)) j)"
    and "zs = drop (rfu1 + 6 + (7 + rfu2) + 2) j"
  have len: "length xs = 6" "length ys = 7 + rfu2" "length ws = 2" "length zs = 256 - (rfu1 + 6 + (7 + rfu2) + 2)" "length (take rfu1 j) = rfu1"
    using assms(2) r by (simp_all add: xs_def ys_def ws_def zs_def j_def)
  have j: "j = take rfu1 j @ xs @ ys @ ws @ zs"
    unfolding xs_def ys_def ws_def zs_def
    using drop_split [of rfu1 j 6] drop_split [of "rfu1 + 6" j "7 + rfu2"] drop_split [of "rfu1 + 6 + (7 + rfu2)" j 2]
    by (metis append_take_drop_id)
  have p0: "poke 0 (replicate rfu1 0) j = replicate rfu1 0 @ xs @ ys @ ws @ zs"
    using poke_append [of "[]" 0 "take rfu1 j" "replicate rfu1 0" "xs @ ys @ ws @ zs"] j len by simp
  have p1: "poke (rfu1 + 6) gw (replicate rfu1 0 @ xs @ ys @ ws @ zs) = replicate rfu1 0 @ xs @ gw @ ws @ zs"
    using poke_append [of "replicate rfu1 0 @ xs" "rfu1 + 6" ys gw "ws @ zs"] len by (simp add: gw_def)
  have crc: "crc16 (Some (drop (6 + rfu1) (replicate rfu1 0 @ xs @ gw @ ws @ zs))) (7 + rfu2) = crc16 (Some gw) (length gw)"
    using len by (simp add: crc16_def gw_def)
  have p2: "poke (rfu1 + 6 + 7 + rfu2) (crc_bytes gw) (replicate rfu1 0 @ xs @ gw @ ws @ zs) = beacon_payload rfu1 xs gw zs"
    using poke_append [of "replicate rfu1 0 @ xs @ gw" "rfu1 + 6 + 7 + rfu2" ws "crc_bytes gw" zs] len by (simp add: gw_def beacon_payload_def)
  have "tx_payload p = beacon_payload rfu1 xs gw zs \<and> tx_size p = of_nat (15 + rfu1 + rfu2)"
    using assms(1) c p0 p1 p2 crc
    by (simp add: beacon_pkt_init_def Let_def beacon_gw_part_def [symmetric] gw_def [symmetric] crc_bytes_def [symmetric] j_def [symmetric] add.commute)
      (hypsubst, simp add: ac_simps)
  moreover have "length (beacon_payload rfu1 xs gw zs) = 256" using len r by (simp add: beacon_payload_def gw_def)
  ultimately show ?thesis using that c len(1) r unfolding gw_def by simp
qed

lemma beacon_pkt_at_payload:
  assumes "tx_payload p = beacon_payload rfu1 xs gw zs" and "length xs = 6"
  shows "tx_payload (beacon_pkt_at bc rfu1 t p) = beacon_payload rfu1 (le_bytes 4 t @ crc_bytes (beacon_net_part rfu1 t)) gw zs"
proof -
  define us vs where "us = take 4 xs" and "vs = drop 4 xs"
  have xs: "xs = us @ vs" "length us = 4" "length vs = 2" using assms(2) by (simp_all add: us_def vs_def)
  have p1: "poke rfu1 (le_bytes 4 t) (beacon_payload rfu1 xs gw zs) = beacon_net_part rfu1 t @ vs @ gw @ crc_bytes gw @ zs"
    using poke_append [of "replicate rfu1 0" rfu1 us "le_bytes 4 t" "vs @ gw @ crc_bytes gw @ zs"] xs
    by (simp add: beacon_payload_def beacon_net_part_def)
  have crc: "crc16 (Some (beacon_net_part rfu1 t @ vs @ gw @ crc_bytes gw @ zs)) (4 + rfu1) =
      crc16 (Some (beacon_net_part rfu1 t)) (length (beacon_net_part rfu1 t))"
    by (simp add: crc16_def)
  have "poke (rfu1 + 4) (crc_bytes (beacon_net_part rfu1 t)) (beacon_net_part rfu1 t @ vs @ gw @ crc_bytes gw @ zs) =
      beacon_net_part rfu1 t @ crc_bytes (beacon_net_part rfu1 t) @ gw @ crc_bytes gw @ zs"
    using xs(3) by (intro poke_append) simp_all
  moreover have "tx_payload (beacon_pkt_at bc rfu1 t p) =
      poke (rfu1 + 4) (crc_bytes (beacon_net_part rfu1 t)) (beacon_net_part rfu1 t @ vs @ gw @ crc_bytes gw @ zs)"
    using crc by (simp add: beacon_pkt_at_def Let_def assms(1) p1 crc_bytes_def)
  ultimately show ?thesis by (simp add: beacon_payload_def beacon_net_part_def)
qed

lemma beacon_pkt_at_size [simp]: "tx_size (beacon_pkt_at bc rfu1 t p) = tx_size p"
  by (simp add: beacon_pkt_at_def Let_def)

lemma beacon_pkt_at_times:
  assumes "tx_payload p = beacon_payload rfu1 xs gw zs" and "length xs = 6"
  shows "tx_size (foldl (\<lambda>p t. beacon_pkt_at bc rfu1 t p) p ts) = tx_size p \<and>
    (\<exists>xs'. tx_payload (foldl (\<lambda>p t. beacon_pkt_at bc rfu1 t p) p ts) = beacon_payload rfu1 xs' gw zs \<and> length xs' = 6)"
proof (induction ts rule: rev_induct)
  case Nil
  with assms show ?case by auto
next
  case (snoc t ts)
  then show ?case using beacon_pkt_at_payload by (fastforce simp: crc_bytes_def)
qed

text \<open>Reading a number back, least significant byte first; a coordinate is in two's complement.\<close>

fun le_value :: "u8 list \<Rightarrow> int" where
  "le_value [] = 0"
| "le_value (b # bs) = uint b + 256 * le_value bs"

lemma le_bytes_Suc: "le_bytes (Suc n) x = of_int x # le_bytes n (drop_bit 8 x)"
  unfolding le_bytes_def by (simp add: map_upt_Suc drop_bit_drop_bit add.commute del: upt_Suc)

lemma le_value_bytes: "le_value (le_bytes n x) = x mod 256 ^ n"
proof (induction n arbitrary: x)
  case 0
  then show ?case by (simp add: le_bytes_def)
next
  case (Suc n)
  have "x mod 256 ^ Suc n = x mod 256 + 256 * (x div 256 mod 256 ^ n)"
    by (simp add: mod_mult2_eq' zmod_zmult2_eq)
  then show ?case
    using Suc.IH [of "drop_bit 8 x"] by (simp add: le_bytes_Suc drop_bit_eq_div unsigned_of_int take_bit_eq_mod)
qed

definition signed24 :: "int \<Rightarrow> int" where
  "signed24 v = (if v < 2 ^ 23 then v else v - 2 ^ 24)"

lemma signed24_mod: "- (2 ^ 23) \<le> x \<Longrightarrow> x < 2 ^ 23 \<Longrightarrow> signed24 (x mod 2 ^ 24) = x"
proof (cases "0 \<le> x")
  case False
  assume "- (2 ^ 23) \<le> x" and "x < 2 ^ 23"
  moreover from this have "x mod 2 ^ 24 = x + 2 ^ 24" using False by (intro int_mod_pos_eq [of _ _ "-1"]) simp_all
  ultimately show ?thesis using False by (simp add: signed24_def)
qed (simp add: signed24_def)

lemma beacon_coord_range: "beacon_coord full x = Inr f \<Longrightarrow> - (2 ^ 23) \<le> f \<and> f < 2 ^ 23"
  by (auto simp: beacon_coord_def Let_def split: if_splits)

text \<open>
  C34. The frame of a beacon, however often the packet was used before: the reserved bytes and the time, their checksum, the gateway's part and its checksum, and
  nothing else. A receiver reads the time modulo \<open>2^32\<close>, and the coordinates as they were computed.
\<close>

theorem beacon_frame:
  assumes "beacon_pkt_init bc lat lon junk = Inr (p0, rfu1, rfu2)" and "length (tx_payload junk) = 256"
    and "p = foldl (\<lambda>p t. beacon_pkt_at bc rfu1 t p) p0 (ts @ [t])"
  shows "\<exists>flat flon net gw. beacon_coord 90 lat = Inr flat \<and> beacon_coord 180 lon = Inr flon \<and>
    take (unat (tx_size p)) (tx_payload p) = net @ crc_bytes net @ gw @ crc_bytes gw \<and> length (tx_payload p) = 256 \<and>
    length net = rfu1 + 4 \<and> le_value (drop rfu1 net) = t mod 2 ^ 32 \<and> take rfu1 net = replicate rfu1 0 \<and>
    length gw = 7 + rfu2 \<and> hd gw = beacon_infodesc bc \<and> drop 7 gw = replicate rfu2 0 \<and>
    signed24 (le_value (take 3 (drop 1 gw))) = flat \<and> signed24 (le_value (take 3 (drop 4 gw))) = flon"
proof -
  obtain flat flon xs zs where c: "beacon_coord 90 lat = Inr flat" "beacon_coord 180 lon = Inr flon"
    and pay: "tx_payload p0 = beacon_payload rfu1 xs (beacon_gw_part (beacon_infodesc bc) rfu2 flat flon) zs" "length xs = 6"
    and sz: "length (tx_payload p0) = 256" "tx_size p0 = of_nat (15 + rfu1 + rfu2)" "rfu1 \<le> 5" "rfu2 \<le> 3"
    by (rule beacon_pkt_init_payload [OF assms(1,2)])
  define net gw where "net = beacon_net_part rfu1 t" and "gw = beacon_gw_part (beacon_infodesc bc) rfu2 flat flon"
  obtain xs' where "tx_payload (foldl (\<lambda>p t. beacon_pkt_at bc rfu1 t p) p0 ts) = beacon_payload rfu1 xs' gw zs" "length xs' = 6"
    using beacon_pkt_at_times [OF pay] unfolding gw_def by blast
  from beacon_pkt_at_payload [OF this] have q: "tx_payload p = net @ crc_bytes net @ gw @ crc_bytes gw @ zs"
    by (simp add: assms(3) beacon_payload_def beacon_net_part_def net_def)
  have s: "unat (tx_size p) = 15 + rfu1 + rfu2"
  proof -
    have "tx_size p = of_nat (15 + rfu1 + rfu2)" using beacon_pkt_at_times [OF pay, of bc "ts @ [t]"] sz(2) assms(3) by simp
    moreover have "unat (of_nat (15 + rfu1 + rfu2) :: u16) = 15 + rfu1 + rfu2" unfolding unat_of_nat using sz(3,4) by simp
    ultimately show ?thesis by (simp only:)
  qed
  have "length (tx_payload p) = 256" using q pay sz(1) by (simp add: beacon_payload_def net_def gw_def)
  moreover have "take (unat (tx_size p)) (tx_payload p) = net @ crc_bytes net @ gw @ crc_bytes gw"
    unfolding s q by (simp add: net_def gw_def)
  moreover have "le_value (drop rfu1 net) = t mod 2 ^ 32" "take rfu1 net = replicate rfu1 0"
    by (simp_all add: net_def beacon_net_part_def le_value_bytes)
  moreover have "signed24 (le_value (take 3 (drop 1 gw))) = flat" "signed24 (le_value (take 3 (drop 4 gw))) = flon"
    using beacon_coord_range [OF c(1)] beacon_coord_range [OF c(2)]
    by (simp_all add: gw_def beacon_gw_part_def le_value_bytes signed24_mod [simplified])
  moreover have "hd gw = beacon_infodesc bc" "drop 7 gw = replicate rfu2 0"
    by (simp_all add: gw_def beacon_gw_part_def)
  ultimately show ?thesis
    using c by (intro exI [of _ flat] exI [of _ flon] exI [of _ net] exI [of _ gw]) (simp add: net_def gw_def)
qed

definition beacon_conf_sample :: beacon_conf where
  "beacon_conf_sample = \<lparr>beacon_period = 128, beacon_freq_hz = 869525000, beacon_freq_nb = 1, beacon_freq_step = 0, beacon_datarate = 9, beacon_bw_hz = 125000,
     beacon_power = 14, beacon_infodesc = 3\<rparr>"

theorem beacon_frame_witness:
  "\<exists>p0. beacon_pkt_init beacon_conf_sample 45 (- 90) tx_pkt_zero = Inr (p0, 2, 0) \<and>
    (\<exists>net gw. take 17 (tx_payload (beacon_pkt_at beacon_conf_sample 2 1024 p0)) = net @ crc_bytes net @ gw @ crc_bytes gw \<and>
      le_value (drop 2 net) = 1024 \<and> signed24 (le_value (take 3 (drop 1 gw))) = 4194304 \<and> signed24 (le_value (take 3 (drop 4 gw))) = - 4194304)"
proof -
  have c: "beacon_coord 90 45 = Inr 4194304" "beacon_coord 180 (- 90) = Inr (- 4194304)" by code_simp+
  then obtain p0 where p0: "beacon_pkt_init beacon_conf_sample 45 (- 90) tx_pkt_zero = Inr (p0, 2, 0)" "tx_size p0 = 17"
    by (simp add: beacon_pkt_init_def beacon_conf_sample_def beacon_bandwidth_def beacon_rate_def Let_def)
  have l: "length (tx_payload tx_pkt_zero) = 256" by (simp add: tx_pkt_zero_def)
  have "tx_size (beacon_pkt_at beacon_conf_sample 2 1024 p0) = 17" using p0(2) by simp
  then show ?thesis
    using beacon_frame [OF p0(1) l refl, of "[]" 1024] p0(1) c by auto
qed

subsection \<open>The position\<close>

lemma coord_rounding:
  fixes y :: rat
  assumes "\<bar>y\<bar> \<le> 1"
  shows "\<bar>dbl (dbl y * 2 ^ 23) - y * 2 ^ 23\<bar> \<le> 1 / 2 ^ 28"
proof -
  define d where "d = dbl y"
  have "\<bar>y\<bar> / 2 ^ 53 \<le> 1 / 2 ^ 53" using assms by (intro divide_right_mono) auto
  then have d: "\<bar>d - y\<bar> \<le> 1 / 2 ^ 53" using dbl_err_abs [of y] unfolding d_def by linarith
  moreover have "(1 :: rat) / 2 ^ 53 \<le> 1" by simp
  ultimately have dd: "\<bar>d\<bar> \<le> 2" using assms by linarith
  have "\<bar>d * 2 ^ 23\<bar> / 2 ^ 53 \<le> 2 * 2 ^ 23 / 2 ^ 53" using dd by (intro divide_right_mono) (auto simp: abs_mult)
  then have "\<bar>dbl (d * 2 ^ 23) - d * 2 ^ 23\<bar> \<le> 1 / 2 ^ 29" using dbl_err_abs [of "d * 2 ^ 23"] by simp
  moreover have "\<bar>d * 2 ^ 23 - y * 2 ^ 23\<bar> = \<bar>d - y\<bar> * 2 ^ 23" by (simp only: left_diff_distrib [symmetric] abs_mult) simp
  moreover have "\<bar>d - y\<bar> * 2 ^ 23 \<le> 1 / 2 ^ 53 * 2 ^ 23" using d by (rule mult_right_mono) simp
  moreover have "1 / 2 ^ 29 + 1 / 2 ^ 53 * 2 ^ 23 \<le> (1 :: rat) / 2 ^ 28" by simp
  ultimately show ?thesis unfolding d_def [symmetric] by linarith
qed

text \<open>
  The position in a beacon is within two units of the last place of the configured one: a coordinate inside its range never makes the conversion undefined, and
  the number sent differs from the exact fraction of \<open>2^23\<close> by less than 2. At the upper end of the range the number is clamped to \<open>2^23 - 1\<close>.
\<close>

theorem beacon_position_accurate:
  assumes "0 < full" and "\<bar>x\<bar> \<le> full"
  shows "\<exists>f. beacon_coord full x = Inr f \<and> \<bar>of_int f - x / full * 2 ^ 23\<bar> < 2 \<and> (x = full \<longrightarrow> f = 2 ^ 23 - 1)"
proof -
  define y v where "y = x / full" and "v = dbl (dbl y * 2 ^ 23)"
  have y: "\<bar>y\<bar> \<le> 1" using assms by (simp add: y_def abs_divide)
  have v: "\<bar>v - y * 2 ^ 23\<bar> \<le> 1 / 2 ^ 28" unfolding v_def by (rule coord_rounding [OF y])
  have yb: "\<bar>y * 2 ^ 23\<bar> \<le> 2 ^ 23" using y by (simp add: abs_mult)
  have "(1 :: rat) / 2 ^ 28 \<le> 1 / 2" by simp
  then have vy: "\<bar>v - y * 2 ^ 23\<bar> \<le> 1 / 2" using v by linarith
  have vb: "\<bar>v\<bar> \<le> 2 ^ 23 + 1" using vy yb by linarith
  have t: "\<bar>of_int (c_trunc v) - v\<bar> < 1" by (rule c_trunc_err)
  define f where "f = (if 0x7FFFFF < c_trunc v then 0x7FFFFF else if c_trunc v < - 0x800000 then - 0x800000 else c_trunc v)"
  have e: "beacon_coord full x = Inr f"
    unfolding beacon_coord_def Let_def y_def [symmetric] v_def [symmetric] f_def [symmetric] using vb by (simp add: abs_le_iff)
  have "\<bar>of_int f - y * 2 ^ 23\<bar> < 2"
  proof -
    consider "0x7FFFFF < c_trunc v" "f = 0x7FFFFF" | "c_trunc v < - 0x800000" "f = - 0x800000" | "f = c_trunc v"
      by (cases "0x7FFFFF < c_trunc v"; cases "c_trunc v < - 0x800000") (simp_all add: f_def)
    then show ?thesis
    proof cases
      case 1
      then have "(of_int 8388608 :: rat) \<le> of_int (c_trunc v)" unfolding of_int_le_iff by simp
      then have "(2 ^ 23 :: rat) \<le> of_int (c_trunc v)" by simp
      moreover have "of_int f = (2 ^ 23 - 1 :: rat)" using 1(2) by simp
      ultimately show ?thesis using vy yb t by linarith
    next
      case 2
      then have "of_int (c_trunc v) \<le> (of_int (- 8388608) :: rat)" unfolding of_int_le_iff by simp
      then have "of_int (c_trunc v) \<le> - (2 ^ 23 :: rat)" by simp
      moreover have "of_int f = - (2 ^ 23 :: rat)" using 2(2) by simp
      ultimately show ?thesis using vy yb t by linarith
    next
      case 3
      then show ?thesis using vy t by linarith
    qed
  qed
  moreover have "f = 2 ^ 23 - 1" if "x = full"
  proof -
    have "y = 1" using that assms(1) by (simp add: y_def)
    moreover have "c_trunc (dbl (dbl 1 * 2 ^ 23)) = 8388608" by code_simp
    ultimately show ?thesis by (simp add: f_def v_def)
  qed
  ultimately show ?thesis using e by (auto simp: y_def)
qed

theorem beacon_position_accurate_witness:
  "\<exists>f. beacon_coord 90 (48 + 1 / 3) = Inr f \<and> \<bar>of_int f - (48 + 1 / 3) / 90 * 2 ^ 23\<bar> < (2 :: rat)"
  using beacon_position_accurate [of 90 "48 + 1 / 3"] by auto

subsection \<open>The times\<close>

text \<open>A turn of the loop leaves it, or tries to insert the beacon of the next time.\<close>

lemma beacon_turn_cases:
  assumes "beacon_turn cf rfu1 ts now (loop, retry) s = Inr (br, d)"
  obtains "br = None" and "d = s"
  | p0 e q x t where "tx_rf_chain p0 = tx_rf_chain (beacon_pkt s)"
      and "t = beacon_next_time (beacon_period (conf_beacon cf)) (last_beacon_sec s) (tv_sec (tref_gps (sync_ref (time_sync ts)))) retry"
      and "jit_enqueue (conf_sync_word_size cf) (down_queue s ! 0) now (Some (beacon_pkt_at (conf_beacon cf) rfu1 t p0)) JIT_PKT_TYPE_BEACON = (e, q, x)"
      and "down_queue d = (down_queue s)[0 := q]" and "beacon_pkt d = beacon_pkt_at (conf_beacon cf) rfu1 t p0"
      and "br = Some (if e = JIT_ERROR_OK then (loop - 1, 0) else (loop, Suc retry))"
      and "last_beacon_sec d = (if e = JIT_ERROR_OK then t else last_beacon_sec s)"
      and "meas_nb_beacon_queued d = (if e = JIT_ERROR_OK then meas_nb_beacon_queued s + 1 else meas_nb_beacon_queued s)"
proof (cases "gps_ref_valid ts \<and> xtal_correct_ok ts")
  case False
  with assms that(1) show ?thesis by (simp add: beacon_turn_def)
next
  case True
  define t where "t = beacon_next_time (beacon_period (conf_beacon cf)) (last_beacon_sec s) (tv_sec (tref_gps (sync_ref (time_sync ts)))) retry"
  obtain a c where g: "lgw_gps2cnt (sync_ref (time_sync ts)) \<lparr>tv_sec = t, tv_nsec = 0\<rparr> = Inr (a, c)"
    using assms True by (cases "lgw_gps2cnt (sync_ref (time_sync ts)) \<lparr>tv_sec = t, tv_nsec = 0\<rparr>") (auto simp: beacon_turn_def Let_def t_def)
  define p0 where "p0 = (case c of None \<Rightarrow> beacon_pkt s | Some x \<Rightarrow> (beacon_pkt s)\<lparr>tx_count_us := x\<rparr>)"
  define p where "p = beacon_pkt_at (conf_beacon cf) rfu1 t p0"
  obtain e q x where e: "jit_enqueue (conf_sync_word_size cf) (down_queue s ! 0) now (Some p) JIT_PKT_TYPE_BEACON = (e, q, x)"
    by (metis prod_cases3)
  have qf: "e \<noteq> JIT_ERROR_OK \<Longrightarrow> q = down_queue s ! 0"
    using e by (auto simp: jit_enqueue_Some Let_def split: if_splits option.splits)
  have pc: "tx_rf_chain p0 = tx_rf_chain (beacon_pkt s)" by (simp add: p0_def split: option.split)
  note turn = assms [unfolded beacon_turn_def Let_def prod.case t_def [symmetric] g res_bind_simps p0_def [symmetric] p_def [symmetric] e]
  have d: "down_queue d = (down_queue s)[0 := q]" "beacon_pkt d = p" "br = Some (if e = JIT_ERROR_OK then (loop - 1, 0) else (loop, Suc retry))"
      "last_beacon_sec d = (if e = JIT_ERROR_OK then t else last_beacon_sec s)"
      "meas_nb_beacon_queued d = (if e = JIT_ERROR_OK then meas_nb_beacon_queued s + 1 else meas_nb_beacon_queued s)"
    using turn True qf by (cases "e = JIT_ERROR_OK"; auto)+
  show ?thesis by (rule that(2) [OF pc t_def e [unfolded p_def] d(1) d(2) [unfolded p_def] d(3-5)])
qed

lemma beacon_next_time_slot:
  assumes "0 < uint period" and "0 \<le> last_sec" and "uint period dvd last_sec" and "0 \<le> gps_sec" and "retry * unat period < 2 ^ 32"
  shows "uint period dvd beacon_next_time period last_sec gps_sec retry \<and> last_sec < beacon_next_time period last_sec gps_sec retry \<and>
    (last_sec = 0 \<longrightarrow> gps_sec < beacon_next_time period last_sec gps_sec retry)"
proof -
  define P where "P = uint period"
  have r: "uint (of_nat retry * period) = int retry * P"
  proof -
    have "of_nat retry * period = of_nat (retry * unat period)" by simp
    then have "unat (of_nat retry * period) = retry * unat period" using assms(5) by (simp only: unat_of_nat) simp
    then show ?thesis by (metis P_def of_nat_mult uint_nat)
  qed
  have m: "gps_sec smod P = gps_sec mod P" using assms(1,4) by (simp add: smod_int_alt_def P_def sgn_if)
  have d: "P dvd gps_sec + (P - gps_sec mod P)" "gps_sec < gps_sec + (P - gps_sec mod P)"
    using assms(1) by (simp_all add: P_def dvd_eq_mod_eq_0 mod_simps) (simp add: algebra_simps mod_simps)
  define R where "R = int retry * P"
  have R: "0 \<le> R" "P dvd R" "0 < P" "P dvd last_sec" using assms(1,3) by (simp_all add: P_def R_def)
  define g where "g = gps_sec mod P"
  have g: "g < P" "P dvd gps_sec + (P - g)" using R(3) d(1) by (simp_all add: g_def)
  show ?thesis
    unfolding beacon_next_time_def r P_def [symmetric] R_def [symmetric] m g_def [symmetric] using R g assms(2,4) by (auto intro: dvd_add)
qed

text \<open>A turn leaves the loop, retries for a later slot, or queues one beacon for a slot after the last one.\<close>

lemma beacon_turn_slots:
  assumes "beacon_turn cf rfu1 ts now (loop, retry) s = Inr (br, d)" and "jit_wf (down_queue s ! 0)" and "down_queue s \<noteq> []"
    and "0 < uint (beacon_period (conf_beacon cf))" and "0 \<le> last_beacon_sec s" and "uint (beacon_period (conf_beacon cf)) dvd last_beacon_sec s"
    and "0 \<le> tv_sec (tref_gps (sync_ref (time_sync ts)))" and "retry * unat (beacon_period (conf_beacon cf)) < 2 ^ 32"
  obtains (leaves) "br = None" and "d = s"
  | (retries) "br = Some (loop, Suc retry)" and "down_queue d ! 0 = down_queue s ! 0" and "down_queue d \<noteq> []"
      and "last_beacon_sec d = last_beacon_sec s" and "meas_nb_beacon_queued d = meas_nb_beacon_queued s"
  | (queues) p0 n where "br = Some (loop - 1, 0)" and "jit_wf (down_queue d ! 0)" and "down_queue d \<noteq> []"
      and "uint (beacon_period (conf_beacon cf)) dvd last_beacon_sec d" and "last_beacon_sec s < last_beacon_sec d"
      and "pkt_type n = JIT_PKT_TYPE_BEACON" and "pkt n = beacon_pkt_at (conf_beacon cf) rfu1 (last_beacon_sec d) p0"
      and "mset (jit_active (down_queue d ! 0)) = add_mset n (mset (jit_active (down_queue s ! 0)))"
      and "meas_nb_beacon_queued d = meas_nb_beacon_queued s + 1"
  using assms(1)
proof (rule beacon_turn_cases)
  assume "br = None" and "d = s"
  then show ?thesis by (rule leaves)
next
  fix p0 e q x t
  assume t: "t = beacon_next_time (beacon_period (conf_beacon cf)) (last_beacon_sec s) (tv_sec (tref_gps (sync_ref (time_sync ts)))) retry"
    and e: "jit_enqueue (conf_sync_word_size cf) (down_queue s ! 0) now (Some (beacon_pkt_at (conf_beacon cf) rfu1 t p0)) JIT_PKT_TYPE_BEACON = (e, q, x)"
    and q: "down_queue d = (down_queue s)[0 := q]" and br: "br = Some (if e = JIT_ERROR_OK then (loop - 1, 0) else (loop, Suc retry))"
    and l: "last_beacon_sec d = (if e = JIT_ERROR_OK then t else last_beacon_sec s)"
    and m: "meas_nb_beacon_queued d = (if e = JIT_ERROR_OK then meas_nb_beacon_queued s + 1 else meas_nb_beacon_queued s)"
  have q0: "down_queue d ! 0 = q" "down_queue d \<noteq> []" using q assms(3) by simp_all
  have slot: "uint (beacon_period (conf_beacon cf)) dvd t" "last_beacon_sec s < t"
    using beacon_next_time_slot [OF assms(4-8)] t by simp_all
  show ?thesis
  proof (cases "e = JIT_ERROR_OK")
    case True
    define n where "n = jit_new_node (conf_sync_word_size cf) (down_queue s ! 0) now (beacon_pkt_at (conf_beacon cf) rfu1 t p0) JIT_PKT_TYPE_BEACON"
    have nf: "\<not> jit_queue_is_full (down_queue s ! 0)" and qa: "q = jit_append (down_queue s ! 0) n"
      using e unfolding True jit_enqueue_OK Let_def n_def [symmetric] by auto
    show ?thesis
      using queues [of n p0] br l m True slot q0 qa jit_append_wf [OF assms(2) nf] jit_append_active [OF assms(2) nf]
      by (simp add: n_def jit_new_node_def Let_def)
  next
    case False
    then have "q = down_queue s ! 0" using e by (auto simp: jit_enqueue_Some Let_def split: if_splits option.splits)
    then show ?thesis using retries br l m False q0 by simp
  qed
qed

text \<open>The beacons that a run of the loop inserts: their times, and the nodes of the queue.\<close>

definition beacon_nodes :: "beacon_conf \<Rightarrow> nat \<Rightarrow> int list \<Rightarrow> jit_node_s list \<Rightarrow> bool" where
  "beacon_nodes bc rfu1 = list_all2 (\<lambda>t n. pkt_type n = JIT_PKT_TYPE_BEACON \<and> (\<exists>p. pkt n = beacon_pkt_at bc rfu1 t p))"

text \<open>
  C33. The beacons are queued for successive slots: every run of the loop that fills the queue inserts beacons for strictly increasing times, all of them multiples
  of the period and after the last beacon queued before; the payload and the frequency of each are those of its time, the queue of chain 0 holds
  exactly these packets more, and the counter of queued beacons grows by their number. The number of turns times the period stays below \<open>2^32\<close>.
\<close>

theorem beacon_schedule:
  assumes "beacon_fill cf rfu1 rds (loop, retry) s = Inr (fin, s')" and "jit_wf (down_queue s ! 0)" and "down_queue s \<noteq> []"
    and "0 < uint (beacon_period (conf_beacon cf))" and "0 \<le> last_beacon_sec s" and "uint (beacon_period (conf_beacon cf)) dvd last_beacon_sec s"
    and "\<forall>rd\<in>set rds. 0 \<le> tv_sec (tref_gps (sync_ref (time_sync (fst rd))))"
    and "(retry + length rds) * unat (beacon_period (conf_beacon cf)) < 2 ^ 32"
  shows "\<exists>times ns. sorted_wrt (<) (last_beacon_sec s # times) \<and> (\<forall>t\<in>set times. uint (beacon_period (conf_beacon cf)) dvd t) \<and>
    last_beacon_sec s' = last (last_beacon_sec s # times) \<and> beacon_nodes (conf_beacon cf) rfu1 times ns \<and>
    mset (jit_active (down_queue s' ! 0)) = mset (jit_active (down_queue s ! 0)) + mset ns \<and>
    meas_nb_beacon_queued s' = meas_nb_beacon_queued s + of_nat (length times)"
  using assms
proof (induction rds arbitrary: loop retry s)
  case Nil
  then have "s' = s" by (auto simp: beacon_fill.simps split: if_splits)
  then show ?case by (intro exI [of _ "[]"]) (simp add: beacon_nodes_def)
next
  case (Cons rd rds)
  obtain ts now where rd: "rd = (ts, now)" by (cases rd)
  show ?case
  proof (cases "loop = 0 \<or> beacon_period (conf_beacon cf) = 0")
    case True
    with Cons.prems(1) have "s' = s" by (simp add: beacon_fill.simps)
    then show ?thesis by (intro exI [of _ "[]"]) (simp add: beacon_nodes_def)
  next
    case False
    with Cons.prems(1) obtain br d where turn: "beacon_turn cf rfu1 ts now (loop, retry) s = Inr (br, d)"
      and rest: "(case br of None \<Rightarrow> Inr (True, d) | Some br' \<Rightarrow> beacon_fill cf rfu1 rds br' d) = Inr (fin, s')"
      by (auto simp: beacon_fill.simps [of cf rfu1 "(ts, now) # rds"] rd res_bind_Inr_iff split: if_splits)
    have g: "0 \<le> tv_sec (tref_gps (sync_ref (time_sync ts)))" and r: "retry * unat (beacon_period (conf_beacon cf)) < 2 ^ 32"
      and rds: "\<forall>rd\<in>set rds. 0 \<le> tv_sec (tref_gps (sync_ref (time_sync (fst rd))))"
      using Cons.prems(7,8) rd by (simp_all add: add_mult_distrib)
    from turn Cons.prems(2-6) g r show ?thesis
    proof (cases rule: beacon_turn_slots)
      case leaves
      with rest have "s' = s" by simp
      then show ?thesis by (intro exI [of _ "[]"]) (simp add: beacon_nodes_def)
    next
      case retries
      then have "beacon_fill cf rfu1 rds (loop, Suc retry) d = Inr (fin, s')" using rest by simp
      from Cons.IH [OF this _ retries(3) Cons.prems(4) _ _ rds] retries Cons.prems(2,5,6,8)
      show ?thesis by (simp add: add_mult_distrib)
    next
      case (queues p0 n)
      then have fill: "beacon_fill cf rfu1 rds (loop - 1, 0) d = Inr (fin, s')" using rest by simp
      from Cons.IH [OF fill queues(2,3) Cons.prems(4) _ queues(4) rds] queues(5) Cons.prems(5,8)
      obtain times ns where "sorted_wrt (<) (last_beacon_sec d # times)" "\<forall>t\<in>set times. uint (beacon_period (conf_beacon cf)) dvd t"
          "last_beacon_sec s' = last (last_beacon_sec d # times)" "beacon_nodes (conf_beacon cf) rfu1 times ns"
          "mset (jit_active (down_queue s' ! 0)) = mset (jit_active (down_queue d ! 0)) + mset ns"
          "meas_nb_beacon_queued s' = meas_nb_beacon_queued d + of_nat (length times)"
        by (auto simp: add_mult_distrib)
      with queues show ?thesis
        by (intro exI [of _ "last_beacon_sec d # times"] exI [of _ "n # ns"]) (auto simp: beacon_nodes_def)
    qed
  qed
qed

definition gps_sample :: time_state where
  "gps_sample = time_state_init\<lparr>time_sync := \<lparr>sync_ref = \<lparr>systime = 1, tref_count_us = 0, tref_utc = timespec_zero,
     tref_gps = \<lparr>tv_sec = 1000, tv_nsec = 0\<rparr>, xtal_err = 1\<rparr>, aber_min1 = False, aber_min2 = False\<rparr>, gps_ref_valid := True, xtal_correct_ok := True\<rparr>"

definition fill_conf :: down_conf where
  "fill_conf = \<lparr>conf_beacon = beacon_conf_sample, tx_freq_min = [0, 0], tx_freq_max = [0, 0], conf_txlut = [], conf_sync_word_size = 3\<rparr>"

definition fill_state :: "nat down_state" where
  "fill_state = \<lparr>down_bridge = g_bridge_init, down_queue = [jit_queue_init, jit_queue_init],
     down_out = \<lparr>out_buf = None, inout_capacity = None, out_freq_hz = None, out_tmst = None, out_tx_power_dbm = None, out_bw_hz = None,
       out_sf = None, out_cr = None, out_rf_chain = None\<rparr>,
     down_time = 0, beacon_pkt = tx_pkt_zero, last_beacon_sec = 0, meas_nb_tx_requested = 0, meas_nb_beacon_queued = 0, meas_nb_beacon_rejected = 0\<rparr>"

theorem beacon_schedule_witness:
  "\<exists>fin s'. beacon_fill fill_conf 2 [(gps_sample, 0)] (1, 0) fill_state = Inr (fin, s') \<and> last_beacon_sec s' = 1024 \<and>
    (\<exists>times ns. last (0 # times) = 1024 \<and> beacon_nodes beacon_conf_sample 2 times ns \<and> mset (jit_active (down_queue s' ! 0)) = mset ns)"
proof -
  have t: "beacon_next_time (beacon_period (conf_beacon fill_conf)) (last_beacon_sec fill_state) (tv_sec (tref_gps (sync_ref (time_sync gps_sample)))) 0 = 1024"
    by code_simp
  have g: "lgw_gps2cnt (sync_ref (time_sync gps_sample)) \<lparr>tv_sec = 1024, tv_nsec = 0\<rparr> = Inr (0, Some 24000000)" by code_simp
  define p where "p = beacon_pkt_at beacon_conf_sample 2 1024 (tx_pkt_zero\<lparr>tx_count_us := 24000000\<rparr>)"
  have c: "tx_count_us p = 24000000" by (simp add: p_def beacon_pkt_at_def Let_def)
  have act: "jit_active jit_queue_init = []" "num_pkt jit_queue_init = 0" by (simp_all add: jit_active_def jit_queue_init_def)
  have e: "jit_enqueue 3 jit_queue_init 0 (Some p) JIT_PKT_TYPE_BEACON = (JIT_ERROR_OK, jit_append jit_queue_init (jit_new_node 3 jit_queue_init 0 p JIT_PKT_TYPE_BEACON), Some p)"
    unfolding jit_enqueue_OK Let_def
    by (simp add: act jit_queue_is_full_def jit_too_late_def jit_too_early_def) (simp add: jit_new_node_def jit_pkt_pre_delay_def jit_pkt_post_delay_def c)
  obtain s' where s': "beacon_turn fill_conf 2 gps_sample 0 (1, 0) fill_state = Inr (Some (0, 0), s')" "last_beacon_sec s' = 1024"
    using g e t by (simp add: beacon_turn_def Let_def gps_sample_def fill_conf_def fill_state_def p_def [symmetric])
  have fill: "beacon_fill fill_conf 2 [(gps_sample, 0)] (1, 0) fill_state = Inr (True, s')"
    using s'(1) by (simp add: beacon_fill.simps fill_conf_def beacon_conf_sample_def)
  have "\<exists>times ns. last_beacon_sec s' = last (0 # times) \<and> beacon_nodes beacon_conf_sample 2 times ns \<and> mset (jit_active (down_queue s' ! 0)) = mset ns"
    using beacon_schedule [OF fill] jit_wf_init act
    by (auto simp: fill_state_def fill_conf_def beacon_conf_sample_def gps_sample_def)
  with fill s'(2) show ?thesis by auto
qed

end
