(* ===== verification/Daemon.thy ===== *)
theory Daemon
  imports DownlinkProps BeaconProps
begin

text \<open>
  The downstream thread, the transmission thread and the mesh protocol together: the steps of the threads in any order, at the granularity of the mutexes. A poll and
  the removal of the packet it selected are two steps; so are the turns of the loop that fills the queue with beacons.
\<close>

subsection \<open>Which index a poll gives\<close>

text \<open>The departures of all packets of the queue lie in half the range of the counter after \<open>orig\<close>.\<close>

definition jit_window :: "u32 \<Rightarrow> jit_queue_s \<Rightarrow> bool" where
  "jit_window orig q \<longleftrightarrow> (\<forall>n\<in>set (jit_active q). unat (tx_count_us (pkt n) - orig) < 2 ^ 31)"

definition jit_key :: "u32 \<Rightarrow> jit_node_s \<Rightarrow> nat" where
  "jit_key orig n = unat (tx_count_us (pkt n) - orig)"

definition jit_in_order :: "u32 \<Rightarrow> jit_queue_s \<Rightarrow> bool" where
  "jit_in_order orig q \<longleftrightarrow> jit_window orig q \<and> sorted (map (jit_key orig) (jit_active q))"

lemma jit_window_subset: "mset (jit_active q') \<subseteq># mset (jit_active q) \<Longrightarrow> jit_window orig q \<Longrightarrow> jit_window orig q'"
  unfolding jit_window_def by (metis mset_subset_eqD set_mset_mset)

lemma jit_sort_in_order:
  assumes "unat (num_pkt q) \<le> length (nodes q)" and "jit_window orig (jit_sort_queue q)"
  shows "jit_in_order orig (jit_sort_queue q)"
proof -
  have "set (jit_active (jit_sort_queue q)) = set (jit_active q)"
    using jit_mset_sort [OF assms(1)] by (metis set_mset_mset)
  then have "sorted (map (\<lambda>n. unat (tx_count_us (pkt n) - orig)) (jit_active (jit_sort_queue q)))"
    using assms(2) unfolding jit_window_def by (intro jit_sort_window [OF assms(1)]) simp
  then show ?thesis using assms(2) by (simp add: jit_in_order_def jit_key_def [abs_def])
qed

lemma jit_append_in_order:
  assumes "jit_wf q" and "\<not> jit_queue_is_full q" and "jit_window orig (jit_append q n)"
  shows "jit_in_order orig (jit_append q n)"
  using assms(3) unfolding jit_append_def
  by (rule jit_sort_in_order [rotated]) (use jit_wf_lengths [OF assms(1)] assms(2) in \<open>simp add: jit_is_full_iff unat_word_ariths\<close>)

lemma jit_remove_in_order:
  assumes "jit_wf q" and "i < unat (num_pkt q)" and "jit_window orig q"
  shows "jit_in_order orig (jit_remove_at q i)"
proof -
  have "mset (jit_active (jit_remove_at q i)) \<subseteq># mset (jit_active q)"
    using jit_slots.drop_subset [OF assms(1)] assms(2) jit_wf_lengths(3) [OF assms(1)] by simp
  then have "jit_window orig (jit_remove_at q i)" using assms(3) jit_window_subset by blast
  then show ?thesis unfolding jit_remove_at_def Let_def
    by (rule jit_sort_in_order [rotated]) (use jit_wf_lengths [OF assms(1)] assms(2) in \<open>simp add: unat_pred\<close>)
qed

text \<open>The order does not depend on the origin.\<close>

lemma jit_in_order_shift:
  assumes "jit_in_order a q" and "jit_window b q"
  shows "jit_in_order b q"
proof -
  have "jit_key b x \<le> jit_key b y" if "x \<in> set (jit_active q)" "y \<in> set (jit_active q)" "jit_key a x \<le> jit_key a y" for x y
    using that assms compare_jit_window [of x a y] compare_jit_window [of x b y] by (auto simp: jit_in_order_def jit_window_def jit_key_def)
  then show ?thesis
    using assms by (auto simp: jit_in_order_def sorted_iff_nth_mono_less)
qed

lemma sorted_remove_keys:
  assumes "sorted (map f xs)" and "sorted (map f ys)" and "mset ys = mset xs - {#xs ! i#}" and "i < length xs"
  shows "map f ys = take i (map f xs) @ drop (Suc i) (map f xs)"
proof -
  define k where "k = map f xs"
  have k: "k = take i k @ f (xs ! i) # drop (Suc i) k"
    using assms(4) id_take_nth_drop [of i k] by (simp add: k_def)
  then have "sorted (take i k @ f (xs ! i) # drop (Suc i) k)" using assms(1) k_def by simp
  then have s: "sorted (take i k @ drop (Suc i) k)" by (auto simp: sorted_append)
  have "mset (map f ys) = mset k - {#f (xs ! i)#}"
    using assms(3,4) by (simp add: k_def image_mset_Diff)
  also have "\<dots> = mset (take i k @ drop (Suc i) k)" by (subst k) simp
  finally have "sort (map f ys) = take i k @ drop (Suc i) k" using s by (intro properties_for_sort) simp_all
  then show ?thesis using assms(2) by (simp add: sorted_sort_id k_def)
qed

lemma jit_remove_keys:
  assumes "jit_wf q" and "i < unat (num_pkt q)" and "jit_in_order orig q"
  shows "map (jit_key orig) (jit_active (jit_remove_at q i)) =
    take i (map (jit_key orig) (jit_active q)) @ drop (Suc i) (map (jit_key orig) (jit_active q))"
proof (rule sorted_remove_keys)
  show "sorted (map (jit_key orig) (jit_active q))" using assms(3) by (simp add: jit_in_order_def)
  show "sorted (map (jit_key orig) (jit_active (jit_remove_at q i)))"
    using jit_remove_in_order [OF assms(1,2)] assms(3) by (simp add: jit_in_order_def)
  show "mset (jit_active (jit_remove_at q i)) = mset (jit_active q) - {#jit_active q ! i#}"
    using jit_remove_at_active [OF assms(1,2)] jit_active_nth [OF assms(1,2)] by simp
qed (use assms(2) jit_wf_lengths(3) [OF assms(1)] in simp)

text \<open>A packet is up to date when its key, from an origin half a window before the time, is in this range.\<close>

definition key_fresh :: "nat \<Rightarrow> bool" where
  "key_fresh k \<longleftrightarrow> 2 ^ 30 \<le> k \<and> k < 2 ^ 30 + 512000000"

lemma jit_outdated_key:
  assumes "jit_key (t - 2 ^ 30) n < 2 ^ 31"
  shows "jit_outdated t n \<longleftrightarrow> \<not> key_fresh (jit_key (t - 2 ^ 30) n)"
    and "key_fresh (jit_key (t - 2 ^ 30) n) \<Longrightarrow> unat (tx_count_us (pkt n) - t) = jit_key (t - 2 ^ 30) n - 2 ^ 30"
proof -
  define x where "x = tx_count_us (pkt n) - (t - 2 ^ 30)"
  have x: "unat x < 2 ^ 31" "jit_key (t - 2 ^ 30) n = unat x" and e: "tx_count_us (pkt n) - t = x - 2 ^ 30"
    using assms by (simp_all add: x_def jit_key_def)
  have "unat (x - 2 ^ 30) = (if 2 ^ 30 \<le> unat x then unat x - 2 ^ 30 else unat x + 2 ^ 32 - 2 ^ 30)"
    by (simp add: unat_sub_if_size word_size)
  then show "jit_outdated t n \<longleftrightarrow> \<not> key_fresh (jit_key (t - 2 ^ 30) n)"
    using x by (auto simp: jit_outdated_def e key_fresh_def word_le_nat_alt)
  assume "key_fresh (jit_key (t - 2 ^ 30) n)"
  then show "unat (tx_count_us (pkt n) - t) = jit_key (t - 2 ^ 30) n - 2 ^ 30"
    using x \<open>unat (x - 2 ^ 30) = _\<close> by (simp add: e key_fresh_def)
qed

text \<open>
  The loop of \<^verbatim>\<open>jit_peek\<close> does not reset the selected index when it drops a packet; on a queue in order the index is 0 or 1 and stays that of an active packet.
\<close>

lemma jit_peek_loop_index:
  assumes "jit_wf q" and "jit_in_order (t - 2 ^ 30) q"
    and "idx = -1 \<and> i \<le> 1 \<or>
      0 \<le> idx \<and> nat idx \<le> 1 \<and> nat idx \<le> i \<and> 1 \<le> i \<and> nat idx < unat (num_pkt q) \<and> key_fresh (jit_key (t - 2 ^ 30) (nodes q ! nat idx))"
    and "jit_peek_loop t q i idx = (q', k)"
  shows "k = -1 \<or> 0 \<le> k \<and> nat k < unat (num_pkt q')"
  using assms
proof (induction t q i idx rule: jit_peek_loop.induct)
  case (1 t q i idx)
  let ?key = "jit_key (t - 2 ^ 30)"
  note simps = jit_peek_loop.simps [of t q i idx]
  note wf = "1.prems"(1) and ord = "1.prems"(2)
  have len: "length (jit_active q) = unat (num_pkt q)" using jit_wf_lengths(3) [OF wf] .
  have nth: "nodes q ! j = jit_active q ! j" if "j < unat (num_pkt q)" for j using jit_active_nth [OF wf that] by simp
  have win: "?key (nodes q ! j) < 2 ^ 31" if "j < unat (num_pkt q)" for j
    using ord that nth len nth_mem unfolding jit_in_order_def jit_window_def jit_key_def by metis
  show ?case
  proof (cases "i < unat (num_pkt q)")
    case False
    then show ?thesis using "1.prems"(3,4) by (auto simp: simps)
  next
    case True
    show ?thesis
    proof (cases "jit_outdated t (nodes q ! i)")
      case out: True
      have stale: "\<not> key_fresh (?key (nodes q ! i))" using jit_outdated_key(1) [OF win [OF True]] out by simp
      have wf': "jit_wf (jit_remove_at q i)" and ord': "jit_in_order (t - 2 ^ 30) (jit_remove_at q i)"
        using jit_remove_at_wf [OF wf True] jit_remove_in_order [OF wf True] ord by (simp_all add: jit_in_order_def)
      have n': "unat (num_pkt (jit_remove_at q i)) = unat (num_pkt q) - 1" using True by (simp add: unat_pred)
      have keep: "nat idx < unat (num_pkt (jit_remove_at q i)) \<and> key_fresh (?key (nodes (jit_remove_at q i) ! nat idx))"
        if "idx \<noteq> -1"
      proof -
        have old: "0 \<le> idx" "nat idx \<le> i" "nat idx < unat (num_pkt q)" "key_fresh (?key (nodes q ! nat idx))"
          using "1.prems"(3) that by auto
        then have lt: "nat idx < i" using stale by (cases "nat idx = i") auto
        then have less: "nat idx < unat (num_pkt (jit_remove_at q i))" using True n' by simp
        have "map ?key (jit_active (jit_remove_at q i)) ! nat idx = map ?key (jit_active q) ! nat idx"
          unfolding jit_remove_keys [OF wf True ord] using lt True len by (simp add: nth_append)
        then show ?thesis
          using less old(3,4) len nth jit_active_nth [OF wf' less] jit_wf_lengths(3) [OF wf'] by simp
      qed
      have "k = -1 \<or> 0 \<le> k \<and> nat k < unat (num_pkt q')"
        by (rule "1.IH"(1) [OF True _ wf' ord']) (use out keep "1.prems"(3,4) True in \<open>auto simp: simps jit_outdated_def\<close>)
      then show ?thesis .
    next
      case fresh: False
      then have fr: "key_fresh (?key (nodes q ! i))" using jit_outdated_key(1) [OF win [OF True]] by simp
      show ?thesis
      proof (cases "idx = -1")
        case neg: True
        then have "i \<le> 1" using "1.prems"(3) by simp
        then show ?thesis
          using "1.IH"(2) [OF True] fresh neg wf ord fr True "1.prems"(4) by (simp add: jit_peek_loop.simps [of t q i "-1"] jit_outdated_def)
      next
        case pos: False
        then have old: "0 \<le> idx" "nat idx \<le> 1" "nat idx \<le> i" "1 \<le> i" "nat idx < unat (num_pkt q)" "key_fresh (?key (nodes q ! nat idx))"
          using "1.prems"(3) by auto
        have "map ?key (jit_active q) ! nat idx \<le> map ?key (jit_active q) ! i"
          using ord old(3) True len by (intro sorted_nth_mono) (simp_all add: jit_in_order_def)
        then have "?key (nodes q ! nat idx) \<le> ?key (nodes q ! i)" using nth old(5) True len by simp
        then have "\<not> tx_count_us (pkt (nodes q ! i)) - t < tx_count_us (pkt (nodes q ! nat idx)) - t"
          using jit_outdated_key(2) [OF win [OF True] fr] jit_outdated_key(2) [OF win [OF old(5)] old(6)] by (simp add: word_less_nat_alt)
        then show ?thesis
          using "1.IH"(3) [OF True] fresh pos wf ord old True "1.prems"(4) by (simp add: simps jit_outdated_def)
      qed
    qed
  qed
qed

lemma jit_peek_index:
  assumes "jit_wf q" and "jit_in_order (t - 2 ^ 30) q" and "jit_peek q t True = Inr (e, q', Some k)" and "-1 < k"
  shows "nat k < unat (num_pkt q')"
  using assms(3)
proof (rule jit_peek_cases)
  fix idx
  assume l: "jit_peek_loop t q 0 (-1) = (q', idx)"
    and "Some k = Some (if tx_count_us (pkt (nodes q' ! nat idx)) - t < TX_JIT_DELAY then idx else -1)"
  then have "k = idx" using assms(4) by (auto split: if_splits)
  with jit_peek_loop_index [OF assms(1,2) _ l] assms(4) show ?thesis by simp
qed simp

subsection \<open>The steps\<close>

text \<open>
  The state of the threads: \<open>dm_beacon\<close> is \<^verbatim>\<open>beacon_loop\<close> and \<^verbatim>\<open>retry\<close> while the downstream thread is in the loop that fills the queue with beacons,
  \<open>dm_pending\<close> the index a poll of each chain has given and that has not been dequeued yet.
\<close>

record 'c daemon =
  dm_down :: "'c down_state"
  dm_beacon :: "(u8 \<times> nat) option"
  dm_pending :: "int option list"

text \<open>The queue of a chain after a step of the transmission thread.\<close>

definition dm_set_queue :: "nat \<Rightarrow> jit_queue_s \<Rightarrow> 'c daemon \<Rightarrow> 'c daemon" where
  "dm_set_queue i q m = m\<lparr>dm_down := (dm_down m)\<lparr>down_queue := (down_queue (dm_down m))[i := q]\<rparr>\<rparr>"

text \<open>
  The steps of the mesh protocol, of the downstream thread and of the transmission thread, in any order and with any readings of the clocks, under two conditions
  that the rules state. A step that faults has no successor: the fault ends the run, and what happens after it is not described. And the departure times of
  the queued packets are near the counter: at most \<open>2^30\<close> microseconds (almost 18 minutes) before or after the time of each poll, and of some time at each insertion.
  Runs in which a departure is scheduled further ahead, or in which a queue is not polled for so long, are not described.
\<close>

definition jit_near :: "u32 \<Rightarrow> jit_queue_s \<Rightarrow> bool" where
  "jit_near t q \<longleftrightarrow> jit_window (t - 2 ^ 30) q"

inductive daemon_step :: "down_conf \<Rightarrow> nat \<Rightarrow> 'c daemon \<Rightarrow> 'c daemon \<Rightarrow> bool" for cf :: down_conf and rfu1 :: nat where
  submit: "startTransmitData data len (down_bridge (dm_down m)) = Inr b \<Longrightarrow>
    daemon_step cf rfu1 m (m\<lparr>dm_down := (dm_down m)\<lparr>down_bridge := b\<rparr>\<rparr>)"
| outer: "dm_beacon m = None \<Longrightarrow> down_outer cf (dm_down m) = Inr (r, d) \<Longrightarrow> \<forall>q\<in>set (down_queue d). \<exists>t. jit_near t q \<Longrightarrow>
    daemon_step cf rfu1 m (m\<lparr>dm_down := d\<rparr>)"
| fill: "dm_beacon m = None \<Longrightarrow>
    daemon_step cf rfu1 m (m\<lparr>dm_beacon := Some (JIT_NUM_BEACON_IN_QUEUE - num_beacon (down_queue (dm_down m) ! 0), 0)\<rparr>)"
| beacon: "dm_beacon m = Some (loop, retry) \<Longrightarrow> loop \<noteq> 0 \<Longrightarrow> beacon_period (conf_beacon cf) \<noteq> 0 \<Longrightarrow>
    beacon_turn cf rfu1 ts now (loop, retry) (dm_down m) = Inr (br, d) \<Longrightarrow> \<forall>q\<in>set (down_queue d). \<exists>t. jit_near t q \<Longrightarrow>
    daemon_step cf rfu1 m (m\<lparr>dm_down := d, dm_beacon := br\<rparr>)"
| filled: "dm_beacon m = Some (loop, retry) \<Longrightarrow> loop = 0 \<or> beacon_period (conf_beacon cf) = 0 \<Longrightarrow> daemon_step cf rfu1 m (m\<lparr>dm_beacon := None\<rparr>)"
| inner: "dm_beacon m = None \<Longrightarrow> down_inner cf now (dm_down m) = Inr (r, d) \<Longrightarrow> \<forall>q\<in>set (down_queue d). \<exists>t. jit_near t q \<Longrightarrow>
    daemon_step cf rfu1 m (m\<lparr>dm_down := d\<rparr>)"
| peek: "i < LGW_RF_CHAIN_NB \<Longrightarrow> dm_pending m ! i = None \<Longrightarrow> jit_near now (down_queue (dm_down m) ! i) \<Longrightarrow>
    jit_peek (down_queue (dm_down m) ! i) now True = Inr (e, q, k) \<Longrightarrow>
    daemon_step cf rfu1 m ((dm_set_queue i q m)\<lparr>dm_pending := (dm_pending m)[i :=
      (case k of Some j \<Rightarrow> if e = JIT_ERROR_OK \<and> -1 < j then Some j else None | None \<Rightarrow> None)]\<rparr>)"
| dequeue: "i < LGW_RF_CHAIN_NB \<Longrightarrow> dm_pending m ! i = Some k \<Longrightarrow> jit_dequeue (down_queue (dm_down m) ! i) k True = (e, q, x) \<Longrightarrow>
    daemon_step cf rfu1 m ((dm_set_queue i q m)\<lparr>dm_pending := (dm_pending m)[i := None]\<rparr>)"

inductive daemon_reachable :: "down_conf \<Rightarrow> nat \<Rightarrow> 'c daemon \<Rightarrow> bool" for cf :: down_conf and rfu1 :: nat where
  init: "thread_down_init cf lat lon junk buf t0 b = Inr (d, rfu1, rfu2) \<Longrightarrow> length buf = 256 \<Longrightarrow>
    daemon_reachable cf rfu1 \<lparr>dm_down = d, dm_beacon = None, dm_pending = [None, None]\<rparr>"
| step: "daemon_reachable cf rfu1 m \<Longrightarrow> daemon_step cf rfu1 m m' \<Longrightarrow> daemon_reachable cf rfu1 m'"

subsection \<open>The invariant of a queue\<close>

definition chain_inv :: "nat \<Rightarrow> jit_queue_s \<Rightarrow> bool" where
  "chain_inv i q \<longleftrightarrow> jit_wf q \<and> jit_separated q \<and> (\<exists>orig. jit_in_order orig q) \<and>
     (\<forall>n\<in>set (jit_active q). tx_rf_chain (pkt n) = of_nat i \<and> (i \<noteq> 0 \<longrightarrow> \<not> jit_is_beacon n))"

lemma num_beacon_subset:
  assumes "jit_wf q" and "jit_wf q'" and "mset (jit_active q') \<subseteq># mset (jit_active q)"
  shows "unat (num_beacon q') \<le> unat (num_beacon q)"
proof -
  have "size (filter_mset jit_is_beacon (mset (jit_active q'))) \<le> size (filter_mset jit_is_beacon (mset (jit_active q)))"
    by (rule size_mset_mono) (rule multiset_filter_mono [OF assms(3)])
  then show ?thesis using assms(1,2) by (simp add: jit_wf_def flip: mset_filter)
qed

lemma chain_inv_subset:
  assumes "chain_inv i q" and "jit_wf q'" and "mset (jit_active q') \<subseteq># mset (jit_active q)" and "jit_in_order orig q'"
  shows "chain_inv i q' \<and> unat (num_beacon q') \<le> unat (num_beacon q)"
proof -
  have "set (jit_active q') \<subseteq> set (jit_active q)" using assms(3) by (metis set_mset_mono set_mset_mset)
  then show ?thesis
    using assms num_beacon_subset [OF _ assms(2,3)] sorted_wrt_sym_subset [OF symp_jit_compat assms(3)]
    by (auto simp: chain_inv_def jit_separated_def)
qed

lemma chain_inv_remove:
  assumes "chain_inv i q" and "j < unat (num_pkt q)"
  shows "chain_inv i (jit_remove_at q j) \<and> unat (num_beacon (jit_remove_at q j)) \<le> unat (num_beacon q)"
proof -
  have wf: "jit_wf q" using assms(1) by (simp add: chain_inv_def)
  obtain orig where "jit_window orig q" using assms(1) by (auto simp: chain_inv_def jit_in_order_def)
  then show ?thesis
    using chain_inv_subset [OF assms(1) jit_remove_at_wf [OF wf assms(2)] _ jit_remove_in_order [OF wf assms(2)]]
      jit_slots.drop_subset [OF wf] assms(2) jit_wf_lengths(3) [OF wf] by simp
qed

lemma jit_peek_loop_in_order:
  assumes "jit_wf q" and "jit_in_order orig q" and "jit_peek_loop t q i idx = (q', k)"
  shows "jit_in_order orig q'"
  using assms
proof (induction t q i idx rule: jit_peek_loop.induct)
  case (1 t q i idx)
  show ?case
  proof (cases "i < unat (num_pkt q)")
    case False
    then show ?thesis using "1.prems" by (simp add: jit_peek_loop.simps [of t q i idx])
  next
    case True
    have "jit_in_order orig (jit_remove_at q i)" "jit_wf (jit_remove_at q i)"
      using jit_remove_in_order [OF "1.prems"(1) True] jit_remove_at_wf [OF "1.prems"(1) True] "1.prems"(2) by (simp_all add: jit_in_order_def)
    with 1 True show ?thesis
      by (subst (asm) jit_peek_loop.simps [of t q i idx]) (auto split: if_splits)
  qed
qed

lemma chain_inv_peek:
  assumes "chain_inv i q" and "jit_near t q" and "jit_peek q t True = Inr (e, q', k)"
  shows "chain_inv i q' \<and> unat (num_beacon q') \<le> unat (num_beacon q) \<and> (\<forall>j. k = Some j \<longrightarrow> -1 < j \<longrightarrow> nat j < unat (num_pkt q'))"
proof -
  obtain a where wf: "jit_wf q" and a: "jit_in_order a q" using assms(1) by (auto simp: chain_inv_def)
  have ord: "jit_in_order (t - 2 ^ 30) q" using jit_in_order_shift [OF a] assms(2) by (simp add: jit_near_def)
  have "jit_in_order (t - 2 ^ 30) q'"
    using assms(3) by (rule jit_peek_cases) (use ord jit_peek_loop_in_order [OF wf ord] in auto)
  then show ?thesis
    using chain_inv_subset [OF assms(1)] jit_peek_subset [OF wf assms(3)] jit_peek_index [OF wf ord] assms(3) by blast
qed

lemma chain_inv_enqueue:
  assumes "chain_inv i q" and "tx_rf_chain p = of_nat i" and "i \<noteq> 0 \<longrightarrow> ty \<noteq> JIT_PKT_TYPE_BEACON"
    and "jit_enqueue sws q t (Some p) ty = (e, q', x)" and "jit_near t' q'"
  shows "chain_inv i q' \<and> unat (num_pkt q) \<le> unat (num_pkt q') \<and>
    unat (num_beacon q') = unat (num_beacon q) + (if e = JIT_ERROR_OK \<and> ty = JIT_PKT_TYPE_BEACON then 1 else 0)"
proof (cases "e = JIT_ERROR_OK")
  case False
  then have "q' = q" using assms(4) by (auto simp: jit_enqueue_Some Let_def split: if_splits option.splits)
  with False assms(1) show ?thesis by simp
next
  case True
  define n where "n = jit_new_node sws q t p ty"
  have n: "tx_rf_chain (pkt n) = tx_rf_chain p" "jit_is_beacon n \<longleftrightarrow> ty = JIT_PKT_TYPE_BEACON"
    by (simp_all add: n_def jit_new_node_def Let_def jit_is_beacon_def)
  have wf: "jit_wf q" "jit_separated q" using assms(1) by (simp_all add: chain_inv_def)
  have q': "q' = jit_append q n" "\<not> jit_queue_is_full q" "\<forall>m\<in>set (jit_active q). \<not> jit_node_collides n m"
    using assms(4) unfolding True jit_enqueue_OK Let_def n_def [symmetric] by auto
  have wf': "jit_wf q'" "jit_separated q'" and m: "mset (jit_active q') = add_mset n (mset (jit_active q))"
    unfolding q'(1) by (rule jit_append_wf [OF wf(1) q'(2)] jit_append_separated [OF wf(1) q'(2) wf(2) q'(3)] jit_append_active [OF wf(1) q'(2)])+
  then have set': "set (jit_active q') = insert n (set (jit_active q))" by (metis set_mset_add_mset_insert set_mset_mset)
  have ord: "jit_in_order (t' - 2 ^ 30) q'"
    using assms(5) jit_append_in_order [OF wf(1) q'(2)] by (simp add: q'(1) jit_near_def)
  have "length (jit_active q') = Suc (length (jit_active q))" using m by (metis size_add_mset size_mset)
  then have np: "unat (num_pkt q) \<le> unat (num_pkt q')" using jit_wf_lengths(3) [OF wf(1)] jit_wf_lengths(3) [OF wf'(1)] by simp
  have "size (filter_mset jit_is_beacon (mset (jit_active q'))) =
      size (filter_mset jit_is_beacon (mset (jit_active q))) + (if ty = JIT_PKT_TYPE_BEACON then 1 else 0)"
    using m n(2) by simp
  then have "unat (num_beacon q') = unat (num_beacon q) + (if ty = JIT_PKT_TYPE_BEACON then 1 else 0)"
    using wf(1) wf'(1) by (simp add: jit_wf_def flip: mset_filter)
  then show ?thesis
    using wf' ord np set' n assms(1-3) True by (auto simp: chain_inv_def)
qed

subsection \<open>What a turn of the downstream thread changes\<close>

text \<open>At most one queue is changed, by one call of \<^verbatim>\<open>jit_enqueue\<close> with a packet for its chain.\<close>

definition enqueues :: "down_conf \<Rightarrow> jit_pkt_type_e \<Rightarrow> 'c down_state \<Rightarrow> jit_error_e \<Rightarrow> 'c down_state \<Rightarrow> nat \<Rightarrow> bool" where
  "enqueues cf ty s e d rf \<longleftrightarrow> rf < 2 \<and> tx_rf_chain (beacon_pkt d) = tx_rf_chain (beacon_pkt s) \<and>
     (\<exists>p t q x. tx_rf_chain p = of_nat rf \<and> jit_enqueue (conf_sync_word_size cf) (down_queue s ! rf) t (Some p) ty = (e, q, x) \<and>
        down_queue d = (down_queue s)[rf := q])"

lemma supported_power_chain: "supported_power txlut p = Inr p' \<Longrightarrow> tx_rf_chain p' = tx_rf_chain p"
  by (auto simp: supported_power_def res_bind_Inr_iff Let_def split: if_splits)

lemma down_outer_effect:
  assumes "down_outer cf s = Inr (r, d)"
  shows "down_queue d = down_queue s \<and> beacon_pkt d = beacon_pkt s \<or> (\<exists>e rf. enqueues cf JIT_PKT_TYPE_DOWNLINK_CLASS_C s e d rf)"
proof -
  obtain rc v b where pop: "cdp_bridge_pop_downlink (down_out s) (down_bridge s) = Inr (rc, v, b)"
    using assms by (cases "cdp_bridge_pop_downlink (down_out s) (down_bridge s)") (auto simp: down_outer_def)
  define rf where "rf = (if unat (the (out_rf_chain v)) < 2 then the (out_rf_chain v) else 0)"
  have rf: "unat rf < 2" by (simp add: rf_def)
  define p where "p = duck_txpkt v CDPCFG_RF_LORA_FREQ_HZ rf 0"
  have pc: "tx_rf_chain p = rf" by (simp add: p_def duck_txpkt_def)
  show ?thesis
  proof (cases "supported_power (conf_txlut cf) p")
    case (Inl err)
    with assms show ?thesis
      unfolding down_outer_def pop res_bind_simps prod.case Let_def rf_def [symmetric] p_def [symmetric] by (auto split: if_splits)
  next
    case (Inr p')
    obtain e q x where e: "jit_enqueue (conf_sync_word_size cf) (down_queue s ! unat rf) (down_time s) (Some p') JIT_PKT_TYPE_DOWNLINK_CLASS_C = (e, q, x)"
      by (metis prod_cases3)
    have "tx_rf_chain p' = of_nat (unat rf)" using supported_power_chain [OF Inr] pc by simp
    then have "down_queue d = (down_queue s)[unat rf := q] \<Longrightarrow> beacon_pkt d = beacon_pkt s \<Longrightarrow> enqueues cf JIT_PKT_TYPE_DOWNLINK_CLASS_C s e d (unat rf)"
      using rf e unfolding enqueues_def by metis
    with assms show ?thesis
      unfolding down_outer_def pop res_bind_simps prod.case Let_def rf_def [symmetric] p_def [symmetric] Inr e by (auto split: if_splits)
  qed
qed

lemma down_inner_effect:
  assumes "down_inner cf now s = Inr (r, d)"
  shows "down_queue d = down_queue s \<and> beacon_pkt d = beacon_pkt s \<or> (\<exists>e rf. enqueues cf JIT_PKT_TYPE_DOWNLINK_CLASS_C s e d rf)"
proof -
  obtain rc v b where pop: "cdp_bridge_pop_downlink (down_out s) (down_bridge s) = Inr (rc, v, b)"
    using assms by (cases "cdp_bridge_pop_downlink (down_out s) (down_bridge s)") (auto simp: down_inner_def)
  define p where "p = duck_txpkt v (if 0 < the (out_freq_hz v) then the (out_freq_hz v) else CDPCFG_RF_LORA_FREQ_HZ) 0 8"
  have pc: "tx_rf_chain p = of_nat 0" by (simp add: p_def duck_txpkt_def)
  obtain e q x where e: "jit_enqueue (conf_sync_word_size cf) (down_queue s ! 0) now (Some p) JIT_PKT_TYPE_DOWNLINK_CLASS_C = (e, q, x)"
    by (metis prod_cases3)
  then have "down_queue d = (down_queue s)[0 := q] \<Longrightarrow> beacon_pkt d = beacon_pkt s \<Longrightarrow> enqueues cf JIT_PKT_TYPE_DOWNLINK_CLASS_C s e d 0"
    using pc unfolding enqueues_def by (metis zero_less_numeral)
  with assms show ?thesis
    unfolding down_inner_def pop res_bind_simps prod.case Let_def p_def [symmetric] e by (auto split: if_splits)
qed

lemma beacon_turn_effect:
  assumes "beacon_turn cf rfu1 ts now (loop, retry) s = Inr (br, d)" and "tx_rf_chain (beacon_pkt s) = 0"
  shows "br = None \<and> d = s \<or>
    (\<exists>e. enqueues cf JIT_PKT_TYPE_BEACON s e d 0 \<and> br = Some (if e = JIT_ERROR_OK then (loop - 1, 0) else (loop, Suc retry)))"
  using assms(1)
proof (rule beacon_turn_cases)
  fix p0 e q x t
  assume p0: "tx_rf_chain p0 = tx_rf_chain (beacon_pkt s)"
    and e: "jit_enqueue (conf_sync_word_size cf) (down_queue s ! 0) now (Some (beacon_pkt_at (conf_beacon cf) rfu1 t p0)) JIT_PKT_TYPE_BEACON = (e, q, x)"
    and d: "down_queue d = (down_queue s)[0 := q]" "beacon_pkt d = beacon_pkt_at (conf_beacon cf) rfu1 t p0"
    and br: "br = Some (if e = JIT_ERROR_OK then (loop - 1, 0) else (loop, Suc retry))"
  have pc: "tx_rf_chain (beacon_pkt_at (conf_beacon cf) rfu1 t p0) = tx_rf_chain (beacon_pkt s)"
    by (simp add: beacon_pkt_at_def Let_def p0)
  have "enqueues cf JIT_PKT_TYPE_BEACON s e d 0"
    unfolding enqueues_def using d e pc assms(2)
    by (intro conjI exI [of _ "beacon_pkt_at (conf_beacon cf) rfu1 t p0"] exI [of _ now] exI [of _ q] exI [of _ x]) simp_all
  with br show ?thesis by blast
qed simp

subsection \<open>The invariant of the daemon\<close>

definition daemon_inv :: "'c daemon \<Rightarrow> bool" where
  "daemon_inv m \<longleftrightarrow> length (down_queue (dm_down m)) = 2 \<and> length (dm_pending m) = 2 \<and>
     (\<forall>i<2. chain_inv i (down_queue (dm_down m) ! i) \<and>
        (\<forall>k. dm_pending m ! i = Some k \<longrightarrow> 0 \<le> k \<and> nat k < unat (num_pkt (down_queue (dm_down m) ! i)))) \<and>
     unat (num_beacon (down_queue (dm_down m) ! 0)) + (case dm_beacon m of None \<Rightarrow> 0 | Some (loop, _) \<Rightarrow> unat loop) \<le> 3 \<and>
     tx_rf_chain (beacon_pkt (dm_down m)) = 0"

lemma daemon_inv_enqueues:
  assumes "daemon_inv m" and "enqueues cf ty (dm_down m) e d rf" and "ty = JIT_PKT_TYPE_BEACON \<longrightarrow> rf = 0"
    and "\<forall>q\<in>set (down_queue d). \<exists>t. jit_near t q"
    and b: "if e = JIT_ERROR_OK \<and> ty = JIT_PKT_TYPE_BEACON then \<exists>loop. map_option fst (dm_beacon m) = Some loop \<and> loop \<noteq> 0 \<and> map_option fst br = Some (loop - 1)
      else map_option fst br = map_option fst (dm_beacon m)"
  shows "daemon_inv (m\<lparr>dm_down := d, dm_beacon := br\<rparr>)"
proof -
  obtain p t q x where rf: "rf < 2" and bp: "tx_rf_chain (beacon_pkt d) = tx_rf_chain (beacon_pkt (dm_down m))"
    and p: "tx_rf_chain p = of_nat rf" and e: "jit_enqueue (conf_sync_word_size cf) (down_queue (dm_down m) ! rf) t (Some p) ty = (e, q, x)"
    and dq: "down_queue d = (down_queue (dm_down m))[rf := q]"
    using assms(2) unfolding enqueues_def by blast
  have len: "length (down_queue (dm_down m)) = 2" and ci: "chain_inv rf (down_queue (dm_down m) ! rf)"
    using assms(1) rf by (simp_all add: daemon_inv_def)
  have "q \<in> set (down_queue d)" using dq len rf by (simp add: set_update_memI)
  then obtain t' where "jit_near t' q" using assms(4) by blast
  from chain_inv_enqueue [OF ci p _ e this] assms(3)
  have new: "chain_inv rf q" "unat (num_pkt (down_queue (dm_down m) ! rf)) \<le> unat (num_pkt q)"
      "unat (num_beacon q) = unat (num_beacon (down_queue (dm_down m) ! rf)) + (if e = JIT_ERROR_OK \<and> ty = JIT_PKT_TYPE_BEACON then 1 else 0)"
    by auto
  have le: "(case dm_beacon m of None \<Rightarrow> 0 | Some (loop, _) \<Rightarrow> unat loop) = (case map_option fst (dm_beacon m) of None \<Rightarrow> 0 | Some loop \<Rightarrow> unat loop)" for m :: "'c daemon"
    by (simp split: option.split prod.split)
  have nb: "unat (num_beacon (down_queue d ! 0)) + (case map_option fst br of None \<Rightarrow> 0 | Some loop \<Rightarrow> unat loop) \<le> 3"
  proof -
    have old: "unat (num_beacon (down_queue (dm_down m) ! 0)) + (case map_option fst (dm_beacon m) of None \<Rightarrow> 0 | Some loop \<Rightarrow> unat loop) \<le> 3"
      using assms(1) le [of m] by (simp add: daemon_inv_def)
    show ?thesis
    proof (cases "e = JIT_ERROR_OK \<and> ty = JIT_PKT_TYPE_BEACON")
      case True
      then obtain loop where l: "map_option fst (dm_beacon m) = Some loop" "0 < unat loop" "map_option fst br = Some (loop - 1)"
        using b by (auto simp: unat_gt_0)
      have "unat (loop - 1) = unat loop - 1" by (rule unat_pred [OF l(2)])
      then show ?thesis using old l(2) new(3) True assms(3) dq len unfolding l(1,3) by simp
    next
      case False
      then have "map_option fst br = map_option fst (dm_beacon m)" using b by simp
      then show ?thesis using old new(3) False dq len rf by (cases "rf = 0") auto
    qed
  qed
  show ?thesis
    using assms(1) new dq len rf bp nb le [of "m\<lparr>dm_down := d, dm_beacon := br\<rparr>"]
    by (auto simp: daemon_inv_def nth_list_update)
qed

lemma daemon_inv_transmit:
  assumes "daemon_inv m" and "i < 2" and "chain_inv i q" and "unat (num_beacon q) \<le> unat (num_beacon (down_queue (dm_down m) ! i))"
    and "\<forall>k. pend = Some k \<longrightarrow> 0 \<le> k \<and> nat k < unat (num_pkt q)"
  shows "daemon_inv ((dm_set_queue i q m)\<lparr>dm_pending := (dm_pending m)[i := pend]\<rparr>)"
  using assms by (cases "i = 0") (auto simp: daemon_inv_def dm_set_queue_def nth_list_update)

lemma daemon_inv_step:
  assumes "daemon_inv m" and "daemon_step cf rfu1 m m'"
  shows "daemon_inv m'"
  using assms(2)
proof cases
  case (submit data len b)
  with assms(1) show ?thesis by (simp add: daemon_inv_def)
next
  case (outer r d)
  have "m\<lparr>dm_down := d\<rparr> = m\<lparr>dm_down := d, dm_beacon := dm_beacon m\<rparr>" by simp
  with down_outer_effect [OF outer(3)] outer(1,4) assms(1) show ?thesis
    by (auto simp: daemon_inv_def [of "m\<lparr>dm_down := d\<rparr>"] daemon_inv_def [of m] dest: daemon_inv_enqueues [OF assms(1), where br = "dm_beacon m"])
next
  case fill
  then have "unat (3 - num_beacon (down_queue (dm_down m) ! 0)) = 3 - unat (num_beacon (down_queue (dm_down m) ! 0))"
    using assms(1) by (simp add: daemon_inv_def unat_sub word_le_nat_alt)
  with fill assms(1) show ?thesis by (simp add: daemon_inv_def)
next
  case (beacon loop retry ts now br d)
  have c: "tx_rf_chain (beacon_pkt (dm_down m)) = 0" using assms(1) by (simp add: daemon_inv_def)
  from beacon_turn_effect [OF beacon(5) c] show ?thesis
  proof (elim disjE exE conjE)
    assume "br = None" "d = dm_down m"
    with beacon(1) assms(1) show ?thesis by (simp add: daemon_inv_def)
  next
    fix e
    assume "enqueues cf JIT_PKT_TYPE_BEACON (dm_down m) e d 0" "br = Some (if e = JIT_ERROR_OK then (loop - 1, 0) else (loop, Suc retry))"
    then show ?thesis
      unfolding beacon(1) using beacon(2,3,6) by (intro daemon_inv_enqueues [OF assms(1)]) auto
  qed
next
  case (filled loop retry)
  with assms(1) show ?thesis by (simp add: daemon_inv_def)
next
  case (inner now r d)
  have "m\<lparr>dm_down := d\<rparr> = m\<lparr>dm_down := d, dm_beacon := dm_beacon m\<rparr>" by simp
  with down_inner_effect [OF inner(3)] inner(1,4) assms(1) show ?thesis
    by (auto simp: daemon_inv_def [of "m\<lparr>dm_down := d\<rparr>"] daemon_inv_def [of m] dest: daemon_inv_enqueues [OF assms(1), where br = "dm_beacon m"])
next
  case (peek i now e q k)
  have ci: "chain_inv i (down_queue (dm_down m) ! i)" using assms(1) peek(2) by (simp add: daemon_inv_def)
  from chain_inv_peek [OF ci peek(4,5)] show ?thesis
    unfolding peek(1) by (intro daemon_inv_transmit [OF assms(1) peek(2)]) (auto split: option.splits if_splits)
next
  case (dequeue i k e q x)
  have ci: "chain_inv i (down_queue (dm_down m) ! i)" and k: "0 \<le> k" "nat k < unat (num_pkt (down_queue (dm_down m) ! i))"
    using assms(1) dequeue(2,3) by (auto simp: daemon_inv_def)
  have "q = down_queue (dm_down m) ! i \<or> q = jit_remove_at (down_queue (dm_down m) ! i) (nat k)"
    using jit_dequeue_inv [OF _ k(2) dequeue(4)] ci by (auto simp: chain_inv_def)
  then show ?thesis
    unfolding dequeue(1) using chain_inv_remove [OF ci k(2)] ci by (intro daemon_inv_transmit [OF assms(1) dequeue(2)]) auto
qed

lemma thread_down_init_state:
  assumes "thread_down_init cf lat lon junk buf t0 b = Inr (d, rfu1, rfu2)"
  shows "down_queue d = [jit_queue_init, jit_queue_init]" and "tx_rf_chain (beacon_pkt d) = 0" and "last_beacon_sec d = 0"
proof -
  obtain p where p: "beacon_pkt_init (conf_beacon cf) lat lon junk = Inr (p, rfu1, rfu2)" and d: "down_queue d = [jit_queue_init, jit_queue_init]"
      "beacon_pkt d = p" "last_beacon_sec d = 0"
    using assms by (auto simp: thread_down_init_def res_bind_Inr_iff)
  then show "down_queue d = [jit_queue_init, jit_queue_init]" "last_beacon_sec d = 0" by simp_all
  from p have "tx_rf_chain p = 0"
    by (rule beacon_pkt_init_cases) (use p in \<open>auto simp: beacon_pkt_init_def Let_def\<close>)
  with d show "tx_rf_chain (beacon_pkt d) = 0" by simp
qed

lemma chain_inv_init: "chain_inv i jit_queue_init"
proof -
  have "jit_active jit_queue_init = []" by (simp add: jit_active_def jit_queue_init_def)
  then show ?thesis using jit_wf_init by (simp add: chain_inv_def jit_separated_def jit_in_order_def jit_window_def)
qed

lemma daemon_reachable_inv: "daemon_reachable cf rfu1 m \<Longrightarrow> daemon_inv m"
proof (induction rule: daemon_reachable.induct)
  case (init lat lon junk buf t0 b d rfu2)
  then show ?case
    using thread_down_init_state [OF init(1)] chain_inv_init by (auto simp: daemon_inv_def less_Suc_eq numeral_2_eq_2 jit_queue_init_def)
next
  case (step m m')
  then show ?case using daemon_inv_step by blast
qed

subsection \<open>Properties\<close>

text \<open>
  C2. In every state of a run of the threads, whatever the order of their steps, as long as no step faults and the departures stay within \<open>2^30\<close> microseconds of the
  counter at each poll and insertion: both queues are well formed and free of collisions, a queue holds packets of its own chain only, there are
  never more than three beacons, all of them in the queue of chain 0, and the index of a poll stays valid until it is used, also when other packets are inserted
  in between: \<^verbatim>\<open>jit_dequeue\<close> hands out an active packet and removes it and nothing else, so no cleared slot is sent.
\<close>

theorem daemon_safe:
  assumes "daemon_reachable cf rfu1 m" and "i < LGW_RF_CHAIN_NB"
  shows "jit_wf (down_queue (dm_down m) ! i) \<and> jit_separated (down_queue (dm_down m) ! i) \<and>
    (\<forall>n\<in>set (jit_active (down_queue (dm_down m) ! i)). tx_rf_chain (pkt n) = of_nat i \<and> (i \<noteq> 0 \<longrightarrow> pkt_type n \<noteq> JIT_PKT_TYPE_BEACON)) \<and>
    num_beacon (down_queue (dm_down m) ! 0) \<le> JIT_NUM_BEACON_IN_QUEUE \<and>
    (\<forall>k. dm_pending m ! i = Some k \<longrightarrow>
      (\<exists>n\<in>set (jit_active (down_queue (dm_down m) ! i)). \<exists>q'.
        jit_dequeue (down_queue (dm_down m) ! i) k True = (JIT_ERROR_OK, q', Some (pkt n, pkt_type n)) \<and>
        mset (jit_active q') = mset (jit_active (down_queue (dm_down m) ! i)) - {#n#}))"
proof -
  define q where "q = down_queue (dm_down m) ! i"
  note inv = daemon_reachable_inv [OF assms(1)]
  have ci: "chain_inv i q" using inv assms(2) by (simp add: daemon_inv_def q_def)
  then have wf: "jit_wf q" by (simp add: chain_inv_def)
  have "num_beacon (down_queue (dm_down m) ! 0) \<le> 3" using inv by (simp add: daemon_inv_def word_le_nat_alt)
  moreover have "\<exists>n\<in>set (jit_active q). \<exists>q'. jit_dequeue q k True = (JIT_ERROR_OK, q', Some (pkt n, pkt_type n)) \<and>
      mset (jit_active q') = mset (jit_active q) - {#n#}" if "dm_pending m ! i = Some k" for k
  proof -
    have k: "0 \<le> k" "nat k < unat (num_pkt q)" using inv assms(2) that by (auto simp: daemon_inv_def q_def)
    then have "jit_dequeue q k True = (JIT_ERROR_OK, jit_remove_at q (nat k), Some (pkt (nodes q ! nat k), pkt_type (nodes q ! nat k)))"
      using jit_wf_lengths(2) [OF wf] by (simp add: jit_dequeue_def jit_is_empty_iff Let_def)
    then show ?thesis using jit_active_mem [OF wf k(2)] jit_remove_at_active [OF wf k(2)] by auto
  qed
  ultimately show ?thesis using ci by (auto simp: chain_inv_def jit_is_beacon_def q_def)
qed

text \<open>A run: the queue of chain 0 is filled with a beacon for 24 s on the counter, and a poll 10 ms earlier has selected it.\<close>

definition daemon_conf :: down_conf where
  "daemon_conf = down_conf_sample\<lparr>conf_beacon := beacon_conf_sample\<rparr>"

lemma jit_peek_single:
  assumes "jit_wf q" and "jit_active q = [n]" and "tx_count_us (pkt n) - t < TX_JIT_DELAY"
  shows "jit_peek q t True = Inr (JIT_ERROR_OK, q, Some 0)"
proof -
  have k: "unat (num_pkt q) = 1" using jit_wf_lengths(3) [OF assms(1)] assms(2) by simp
  then have n: "nodes q ! 0 = n" using jit_active_nth [OF assms(1), of 0] assms(2) by simp
  have "tx_count_us (pkt n) - t < 512000000" using assms(3) by (simp add: word_less_nat_alt)
  then have "jit_peek_loop t q 0 (-1) = (q, 0)"
    using k n by (simp add: jit_peek_loop.simps [of t q 0 "-1"] jit_peek_loop.simps [of t q "Suc 0" 0] flip: not_less)
  moreover have "\<not> jit_queue_is_empty q" using k by (simp add: jit_is_empty_iff)
  ultimately show ?thesis using n assms(3) by (simp add: jit_peek_def)
qed

theorem daemon_safe_witness:
  "\<exists>m p q'. daemon_reachable daemon_conf 2 (m :: nat daemon) \<and> dm_pending m = [Some 0, None] \<and>
    jit_dequeue (down_queue (dm_down m) ! 0) 0 True = (JIT_ERROR_OK, q', Some (p, JIT_PKT_TYPE_BEACON)) \<and> tx_count_us p = 24000000 \<and>
    jit_active q' = [] \<and> num_beacon (down_queue (dm_down m) ! 0) \<le> 3"
proof -
  have "beacon_coord 90 45 = Inr 4194304" "beacon_coord 180 (- 90) = Inr (- 4194304)" by code_simp+
  then obtain d :: "nat down_state" where d: "thread_down_init daemon_conf 45 (- 90) tx_pkt_zero (replicate 256 0) 0 g_bridge_init = Inr (d, 2, 0)"
    by (simp add: daemon_conf_def thread_down_init_def beacon_pkt_init_def beacon_conf_sample_def beacon_bandwidth_def beacon_rate_def Let_def)
  note d0 = thread_down_init_state [OF d]
  define m0 where "m0 = \<lparr>dm_down = d, dm_beacon = None, dm_pending = [None, None]\<rparr>"
  have r0: "daemon_reachable daemon_conf 2 m0"
    unfolding m0_def by (rule daemon_reachable.init [OF d]) simp
  define m1 where "m1 = m0\<lparr>dm_beacon := Some (3, 0)\<rparr>"
  have "num_beacon (down_queue (dm_down m0) ! 0) = 0" by (simp add: m0_def d0 jit_queue_init_def)
  then have r1: "daemon_reachable daemon_conf 2 m1"
    using daemon_reachable.step [OF r0 daemon_step.fill] by (simp add: m0_def m1_def)
  have t: "beacon_next_time (beacon_period (conf_beacon daemon_conf)) (last_beacon_sec d) (tv_sec (tref_gps (sync_ref (time_sync gps_sample)))) 0 = 1024"
    unfolding d0(3) by code_simp
  have g: "lgw_gps2cnt (sync_ref (time_sync gps_sample)) \<lparr>tv_sec = 1024, tv_nsec = 0\<rparr> = Inr (0, Some 24000000)" by code_simp
  define p where "p = beacon_pkt_at beacon_conf_sample 2 1024 ((beacon_pkt d)\<lparr>tx_count_us := 24000000\<rparr>)"
  have c: "tx_count_us p = 24000000" by (simp add: p_def beacon_pkt_at_def Let_def)
  have act: "jit_active jit_queue_init = []" "num_pkt jit_queue_init = 0" by (simp_all add: jit_active_def jit_queue_init_def)
  define n where "n = jit_new_node (conf_sync_word_size daemon_conf) jit_queue_init 0 p JIT_PKT_TYPE_BEACON"
  have n: "pkt n = p" "pkt_type n = JIT_PKT_TYPE_BEACON" by (simp_all add: n_def jit_new_node_def)
  define q where "q = jit_append jit_queue_init n"
  have e: "jit_enqueue (conf_sync_word_size daemon_conf) jit_queue_init 0 (Some p) JIT_PKT_TYPE_BEACON = (JIT_ERROR_OK, q, Some p)"
    unfolding jit_enqueue_OK Let_def n_def [symmetric] q_def
    by (simp add: act jit_queue_is_full_def jit_too_late_def jit_too_early_def n c)
  obtain d' where d': "beacon_turn daemon_conf 2 gps_sample 0 (3, 0) d = Inr (Some (2, 0), d')" "down_queue d' = [q, jit_queue_init]"
    using g e t by (simp add: beacon_turn_def Let_def gps_sample_def daemon_conf_def p_def [symmetric] d0)
  have nf: "\<not> jit_queue_is_full jit_queue_init" by (simp add: jit_queue_is_full_def act)
  have wf: "jit_wf q" unfolding q_def by (rule jit_append_wf [OF jit_wf_init nf])
  have "mset (jit_active q) = {#n#}" unfolding q_def using jit_append_active [OF jit_wf_init nf] act by simp
  then have a: "jit_active q = [n]" by simp
  have near: "jit_near t q" if "unat (24000000 - (t - 2 ^ 30)) < 2 ^ 31" for t
    using that by (simp add: jit_near_def jit_window_def a n c)
  define m2 where "m2 = m1\<lparr>dm_down := d', dm_beacon := Some (2, 0)\<rparr>"
  have "jit_near t jit_queue_init" for t by (simp add: jit_near_def jit_window_def act)
  then have nears: "\<forall>x\<in>set (down_queue d'). \<exists>t. jit_near t x"
    using near [of 0] by (auto simp: d'(2) unat_sub_if_size word_size)
  have r2: "daemon_reachable daemon_conf 2 m2"
    unfolding m2_def
    by (rule daemon_reachable.step [OF r1], rule daemon_step.beacon [of _ 3 0])
      (use d'(1) nears in \<open>simp_all add: m1_def m0_def daemon_conf_def beacon_conf_sample_def\<close>)
  have pk: "jit_peek q 23990000 True = Inr (JIT_ERROR_OK, q, Some 0)"
    by (rule jit_peek_single [OF wf a]) (simp add: n c)
  define m3 where "m3 = (dm_set_queue 0 q m2)\<lparr>dm_pending := [Some 0, None]\<rparr>"
  have q2: "down_queue (dm_down m2) ! 0 = q" by (simp add: m2_def d'(2))
  have "daemon_step daemon_conf 2 m2 ((dm_set_queue 0 q m2)\<lparr>dm_pending := (dm_pending m2)[0 :=
      (case Some 0 of Some j \<Rightarrow> if JIT_ERROR_OK = JIT_ERROR_OK \<and> -1 < j then Some j else None | None \<Rightarrow> None)]\<rparr>)"
    by (rule daemon_step.peek [where now = 23990000])
      (use near [of 23990000] pk in \<open>simp_all add: q2 d'(2) m2_def m1_def m0_def unat_sub_if_size word_size\<close>)
  then have r3: "daemon_reachable daemon_conf 2 m3"
    using daemon_reachable.step [OF r2] by (simp add: m3_def m2_def m1_def m0_def)
  have q3: "down_queue (dm_down m3) ! 0 = q" by (simp add: m3_def dm_set_queue_def m2_def d'(2))
  have p3: "dm_pending m3 = [Some 0, None]" by (simp add: m3_def)
  from daemon_safe [OF r3, of 0] obtain q' where "jit_dequeue q 0 True = (JIT_ERROR_OK, q', Some (p, JIT_PKT_TYPE_BEACON))" "jit_active q' = []"
      "num_beacon q \<le> 3"
    unfolding q3 p3 by (auto simp: a n)
  with r3 p3 c show ?thesis unfolding q3 [symmetric] by blast
qed

end
