(* ===== verification/GpsSerial.thy ===== *)
theory GpsSerial
  imports Gps
begin

text \<open>
  The serial link to the GPS receiver: the UBX and NMEA parsers and \<^verbatim>\<open>lgw_gps_get\<close> of \<^verbatim>\<open>libloragw/src/loragw_gps.c\<close>, and the thread that reassembles the frames,
  \<^verbatim>\<open>thread_gps\<close> with \<^verbatim>\<open>gps_process_sync\<close> and \<^verbatim>\<open>gps_process_coords\<close> of \<^verbatim>\<open>clusterduck/src/clusterduckd.c\<close>. What \<^verbatim>\<open>read\<close> delivers is an argument of a turn of the thread.

  A C \<^verbatim>\<open>short\<close> is an \<open>int\<close> reduced to 16 bits when it is stored. A floating-point variable is a \<open>rat option\<close>, \<open>None\<close> when it is infinite or not a number.
  Every byte a parser reads of the serial buffer is read through \<open>byte_at\<close> or \<open>bytes_at\<close>, which fail with \<open>OutOfBounds\<close> behind the end of the array; a copy of its own that a
  parser makes is checked in the same way. The thread moves the rest of the buffer with \<^verbatim>\<open>memcpy\<close> between regions that may overlap, which C leaves undefined: this is the fault
  \<open>OverlappingCopy\<close>, unless the platform's \<^verbatim>\<open>memcpy\<close> copies in ascending order, which is a parameter.
\<close>

subsection \<open>Scanning of the C library\<close>

text \<open>
  \<^verbatim>\<open>sscanf\<close> as the C standard has it for the directives in use: white space is skipped, the input item is the longest run of characters within the width that is or could
  become a matching sequence, the directive fails when the item does not match, and what was converted before a failure stays assigned.
\<close>

definition c_isspace :: "u8 \<Rightarrow> bool" where
  "c_isspace c \<longleftrightarrow> c = 32 \<or> 9 \<le> c \<and> c \<le> 13"

definition c_isdigit :: "u8 \<Rightarrow> bool" where
  "c_isdigit c \<longleftrightarrow> 48 \<le> c \<and> c \<le> 57"

definition c_isxdigit :: "u8 \<Rightarrow> bool" where
  "c_isxdigit c \<longleftrightarrow> c_isdigit c \<or> 65 \<le> c \<and> c \<le> 70 \<or> 97 \<le> c \<and> c \<le> 102"

definition c_isalnum :: "u8 \<Rightarrow> bool" where
  "c_isalnum c \<longleftrightarrow> c_isdigit c \<or> 65 \<le> c \<and> c \<le> 90 \<or> 97 \<le> c \<and> c \<le> 122"

definition c_tolower :: "u8 \<Rightarrow> u8" where
  "c_tolower c = (if 65 \<le> c \<and> c \<le> 90 then c + 32 else c)"

definition digit_val :: "u8 \<Rightarrow> int" where
  "digit_val c = (if c_isdigit c then uint c - 48 else uint (c_tolower c) - 87)"

definition digits_val :: "int \<Rightarrow> cstring \<Rightarrow> int" where
  "digits_val base ds = foldl (\<lambda>n c. n * base + digit_val c) 0 ds"

text \<open>A sign, and what is left behind it.\<close>

definition scan_sign :: "cstring \<Rightarrow> bool \<times> cstring" where
  "scan_sign s = (case s of [] \<Rightarrow> (False, []) | c # cs \<Rightarrow> if c = 45 then (True, cs) else if c = 43 then (False, cs) else (False, s))"

datatype scan_val = IntVal int | FloatVal "rat option"

text \<open>\<^verbatim>\<open>%wd\<close>; without a width the item may be as long as the input. The value saturates at the range of \<^verbatim>\<open>long\<close>, 64 bits.\<close>

definition scan_int :: "nat \<Rightarrow> cstring \<Rightarrow> (scan_val \<times> cstring) option" where
  "scan_int w s =
     (let (neg, r) = scan_sign (take w s); ds = takeWhile c_isdigit r; n = digits_val 10 ds; k = length (take w s) - length r + length ds
      in if ds = [] then None else Some (IntVal (max (- (2 ^ 63)) (min (2 ^ 63 - 1) (if neg then - n else n))), drop k s))"

text \<open>The matching sequences of \<^verbatim>\<open>%f\<close>, those of \<^verbatim>\<open>strtod\<close>, as an automaton.\<close>

datatype float_state =
    FStart | FSigned | FZero | FInt | FPoint | FFrac | FExp | FExpSign | FExpDigits
  | FHexPrefix | FHexInt | FHexPoint | FHexFrac | FInf nat | FNan nat | FNanSeq | FNanDone

definition float_start :: "u8 \<Rightarrow> float_state option" where
  "float_start c =
     (if c = 48 then Some FZero else if c_isdigit c then Some FInt else if c = 46 then Some FPoint
      else if c_tolower c = of_char (CHR ''i'') then Some (FInf 1) else if c_tolower c = of_char (CHR ''n'') then Some (FNan 1) else None)"

definition float_expchar :: "u8 \<Rightarrow> bool" where
  "float_expchar c \<longleftrightarrow> c_tolower c = of_char (CHR ''e'')"

definition float_hexexpchar :: "u8 \<Rightarrow> bool" where
  "float_hexexpchar c \<longleftrightarrow> c_tolower c = of_char (CHR ''p'')"

fun float_step :: "float_state \<Rightarrow> u8 \<Rightarrow> float_state option" where
  "float_step FStart c = (if c = 43 \<or> c = 45 then Some FSigned else float_start c)"
| "float_step FSigned c = float_start c"
| "float_step FZero c =
     (if c_tolower c = of_char (CHR ''x'') then Some FHexPrefix else if c_isdigit c then Some FInt else if c = 46 then Some FFrac
      else if float_expchar c then Some FExp else None)"
| "float_step FInt c = (if c_isdigit c then Some FInt else if c = 46 then Some FFrac else if float_expchar c then Some FExp else None)"
| "float_step FPoint c = (if c_isdigit c then Some FFrac else None)"
| "float_step FFrac c = (if c_isdigit c then Some FFrac else if float_expchar c then Some FExp else None)"
| "float_step FExp c = (if c = 43 \<or> c = 45 then Some FExpSign else if c_isdigit c then Some FExpDigits else None)"
| "float_step FExpSign c = (if c_isdigit c then Some FExpDigits else None)"
| "float_step FExpDigits c = (if c_isdigit c then Some FExpDigits else None)"
| "float_step FHexPrefix c = (if c_isxdigit c then Some FHexInt else if c = 46 then Some FHexPoint else None)"
| "float_step FHexInt c = (if c_isxdigit c then Some FHexInt else if c = 46 then Some FHexFrac else if float_hexexpchar c then Some FExp else None)"
| "float_step FHexPoint c = (if c_isxdigit c then Some FHexFrac else None)"
| "float_step FHexFrac c = (if c_isxdigit c then Some FHexFrac else if float_hexexpchar c then Some FExp else None)"
| "float_step (FInf k) c = (if k < 8 \<and> c_tolower c = cstr ''infinity'' ! k then Some (FInf (k + 1)) else None)"
| "float_step (FNan k) c =
     (if k < 3 then (if c_tolower c = cstr ''nan'' ! k then Some (FNan (k + 1)) else None) else if c = 40 then Some FNanSeq else None)"
| "float_step FNanSeq c = (if c = 41 then Some FNanDone else if c_isalnum c \<or> c = 95 then Some FNanSeq else None)"
| "float_step FNanDone c = None"

definition float_accepts :: "float_state \<Rightarrow> bool" where
  "float_accepts q \<longleftrightarrow> q \<in> {FZero, FInt, FFrac, FExpDigits, FHexInt, FHexFrac, FInf 3, FInf 8, FNan 3, FNanDone}"

fun float_item :: "float_state \<Rightarrow> cstring \<Rightarrow> float_state \<times> cstring" where
  "float_item q [] = (q, [])"
| "float_item q (c # cs) = (case float_step q c of None \<Rightarrow> (q, []) | Some q' \<Rightarrow> (let (q'', item) = float_item q' cs in (q'', c # item)))"

text \<open>The value of a matching sequence without its sign; \<open>None\<close> for infinities and for what is not a number.\<close>

definition positional_val :: "int \<Rightarrow> (u8 \<Rightarrow> bool) \<Rightarrow> (u8 \<Rightarrow> bool) \<Rightarrow> rat \<Rightarrow> cstring \<Rightarrow> rat" where
  "positional_val base isdig isexp expbase s =
     (let i = takeWhile isdig s; r = drop (length i) s;
          f = (case r of [] \<Rightarrow> [] | c # cs \<Rightarrow> if c = 46 then takeWhile isdig cs else []);
          x = (case dropWhile (\<lambda>c. \<not> isexp c) s of [] \<Rightarrow> 0 | c # cs \<Rightarrow> let (neg, ds) = scan_sign cs; n = digits_val 10 ds in if neg then - n else n)
      in of_int (digits_val base (i @ f)) / of_int base ^ length f * expbase powi x)"

definition unsigned_val :: "cstring \<Rightarrow> rat option" where
  "unsigned_val s =
     (case s of
        a # b # cs \<Rightarrow>
          if c_tolower a = of_char (CHR ''i'') \<or> c_tolower a = of_char (CHR ''n'') then None
          else if c_tolower b = of_char (CHR ''x'') then Some (positional_val 16 c_isxdigit float_hexexpchar 2 cs)
          else Some (positional_val 10 c_isdigit float_expchar 10 s)
      | _ \<Rightarrow> Some (positional_val 10 c_isdigit float_expchar 10 s))"

text \<open>Rounding to the type of the variable: \<open>limit\<close> is the least value that is rounded to infinity.\<close>

definition float_round :: "(rat \<Rightarrow> rat) \<Rightarrow> rat \<Rightarrow> rat \<Rightarrow> rat option" where
  "float_round rnd limit x = (if \<bar>x\<bar> < limit then Some (rnd x) else None)"

abbreviation (input) FLT_LIMIT :: rat where "FLT_LIMIT \<equiv> 2 ^ 128 - 2 ^ 103"
abbreviation (input) DBL_LIMIT :: rat where "DBL_LIMIT \<equiv> 2 ^ 1024 - 2 ^ 970"

definition scan_float :: "(rat \<Rightarrow> rat) \<Rightarrow> rat \<Rightarrow> nat \<Rightarrow> cstring \<Rightarrow> (scan_val \<times> cstring) option" where
  "scan_float rnd limit w s =
     (let (q, item) = float_item FStart (take w s); (neg, u) = scan_sign item
      in if float_accepts q
         then Some (FloatVal (Option.bind (unsigned_val u) (\<lambda>x. float_round rnd limit (if neg then - x else x))), drop (length item) s)
         else None)"

datatype scan_dir = Scan_d "nat option" | Scan_f nat | Scan_lf nat

fun scan_item :: "scan_dir \<Rightarrow> cstring \<Rightarrow> (scan_val \<times> cstring) option" where
  "scan_item (Scan_d None) s = scan_int (length s) s"
| "scan_item (Scan_d (Some w)) s = scan_int w s"
| "scan_item (Scan_f w) s = scan_float flt FLT_LIMIT w s"
| "scan_item (Scan_lf w) s = scan_float dbl DBL_LIMIT w s"

text \<open>The values converted, in order: their number is the result of \<^verbatim>\<open>sscanf\<close>, which is also negative when the input ends before the first item.\<close>

fun sscanf :: "scan_dir list \<Rightarrow> cstring \<Rightarrow> scan_val list" where
  "sscanf [] s = []"
| "sscanf (d # ds) s = (case scan_item d (dropWhile c_isspace s) of None \<Rightarrow> [] | Some (v, r) \<Rightarrow> v # sscanf ds r)"

text \<open>The variable behind the \<open>i\<close>-th directive after the call.\<close>

definition scan_short :: "scan_val list \<Rightarrow> nat \<Rightarrow> int \<Rightarrow> int" where
  "scan_short vs i old = (if i < length vs then case vs ! i of IntVal n \<Rightarrow> sint (of_int n :: u16) | FloatVal x \<Rightarrow> old else old)"

definition scan_real :: "scan_val list \<Rightarrow> nat \<Rightarrow> rat option \<Rightarrow> rat option" where
  "scan_real vs i old = (if i < length vs then case vs ! i of IntVal n \<Rightarrow> old | FloatVal x \<Rightarrow> x else old)"

subsection \<open>State of the parsers\<close>

datatype gps_msg =
    UNKNOWN | IGNORED | INVALID | INCOMPLETE | NMEA_RMC | NMEA_GGA | NMEA_GNS | NMEA_ZDA | NMEA_GBS | NMEA_GST
  | NMEA_GSA | NMEA_GSV | NMEA_GLL | NMEA_TXT | NMEA_VTG | UBX_NAV_TIMEGPS | UBX_NAV_TIMEUTC

record gps_vars =
  gps_yea :: int
  gps_mon :: int
  gps_day :: int
  gps_hou :: int
  gps_min :: int
  gps_sec :: int
  gps_fra :: "rat option"
  gps_time_ok :: bool
  gps_week :: u16
  gps_iTOW :: u32
  gps_fTOW :: u32
  gps_dla :: int
  gps_mla :: "rat option"
  gps_ola :: u8
  gps_dlo :: int
  gps_mlo :: "rat option"
  gps_olo :: u8
  gps_alt :: int
  gps_pos_ok :: bool
  gps_mod :: u8
  gps_sat :: int

definition gps_vars_init :: gps_vars where
  "gps_vars_init =
     \<lparr>gps_yea = 0, gps_mon = 0, gps_day = 0, gps_hou = 0, gps_min = 0, gps_sec = 0, gps_fra = Some 0, gps_time_ok = False,
      gps_week = 0, gps_iTOW = 0, gps_fTOW = 0, gps_dla = 0, gps_mla = Some 0, gps_ola = 0, gps_dlo = 0, gps_mlo = Some 0, gps_olo = 0,
      gps_alt = 0, gps_pos_ok = False, gps_mod = of_char (CHR ''N''), gps_sat = 0\<rparr>"

subsection \<open>NMEA sentences\<close>

definition nibble_to_hexchar :: "u8 \<Rightarrow> u8" where
  "nibble_to_hexchar a = (if a < 10 then 48 + a else if a < 16 then 65 + (a - 10) else 63)"

text \<open>Reading memory: \<open>s\<close> is what lies between the address and the end of its array.\<close>

definition byte_at :: "u8 list \<Rightarrow> nat \<Rightarrow> c_fault + u8" where
  "byte_at s i = (if i < length s then Inr (s ! i) else Inl OutOfBounds)"

definition bytes_at :: "u8 list \<Rightarrow> nat \<Rightarrow> nat \<Rightarrow> c_fault + u8 list" where
  "bytes_at s i n = (if i + n \<le> length s then Inr (take n (drop i s)) else Inl OutOfBounds)"

function nmea_xor :: "u8 list \<Rightarrow> nat \<Rightarrow> nat \<Rightarrow> u8 \<Rightarrow> c_fault + (u8 \<times> nat) option" where
  "nmea_xor s buff_size i check_num =
     (case byte_at s i of
        Inl e \<Rightarrow> Inl e
      | Inr c \<Rightarrow>
          if c = of_char (CHR ''*'') then Inr (Some (check_num, i))
          else if buff_size \<le> i + 1 then Inr None
          else nmea_xor s buff_size (i + 1) (check_num XOR c))"
  by pat_completeness auto
termination by (relation "measure (\<lambda>(s, n, i, c). n - i)") auto

declare nmea_xor.simps [simp del]

text \<open>The two characters of the checksum and its position; \<open>None\<close> stands for the result -1.\<close>

definition nmea_checksum :: "u8 list \<Rightarrow> nat \<Rightarrow> c_fault + (u8 \<times> u8 \<times> nat) option" where
  "nmea_checksum s buff_size =
     (if buff_size \<le> 1 then Inr None
      else res_bind (byte_at s 0) (\<lambda>c.
             res_bind (nmea_xor s buff_size (if c = of_char (CHR ''$'') then 1 else 0) 0) (\<lambda>r.
               Inr (map_option (\<lambda>(check_num, i). (nibble_to_hexchar (check_num div 16), nibble_to_hexchar (check_num mod 16), i + 1)) r))))"

definition validate_nmea_checksum :: "u8 list \<Rightarrow> nat \<Rightarrow> c_fault + bool" where
  "validate_nmea_checksum s buff_size =
     res_bind (nmea_checksum s buff_size) (\<lambda>r.
       case r of
         None \<Rightarrow> Inr False
       | Some (hi, lo, i) \<Rightarrow>
           if buff_size - 2 \<le> i then Inr False
           else res_bind (byte_at s i) (\<lambda>c. if c \<noteq> hi then Inr False else res_bind (byte_at s (i + 1)) (\<lambda>c'. Inr (c' = lo))))"

text \<open>The loop of \<^verbatim>\<open>match_label\<close> over the given positions.\<close>

fun match_positions :: "u8 list \<Rightarrow> cstring \<Rightarrow> u8 \<Rightarrow> nat list \<Rightarrow> c_fault + bool" where
  "match_positions s label wildcard [] = Inr True"
| "match_positions s label wildcard (i # is) =
     (if label ! i = wildcard then match_positions s label wildcard is
      else res_bind (byte_at s i) (\<lambda>c. if label ! i \<noteq> c then Inr False else match_positions s label wildcard is))"

definition match_label :: "u8 list \<Rightarrow> cstring \<Rightarrow> nat \<Rightarrow> u8 \<Rightarrow> c_fault + bool" where
  "match_label s label n wildcard = match_positions s label wildcard [0..<n]"

text \<open>
  The loop of \<^verbatim>\<open>str_chop\<close> at position \<open>i\<close>: the entries of \<^verbatim>\<open>idx_ary\<close> so far, and the characters from \<open>i\<close> on. Without a terminator it runs off the end.
\<close>

fun str_chop_loop :: "u8 \<Rightarrow> nat \<Rightarrow> nat \<Rightarrow> nat list \<Rightarrow> u8 list \<Rightarrow> c_fault + nat list \<times> u8 list" where
  "str_chop_loop separator max_idx i idx [] = Inl OutOfBounds"
| "str_chop_loop separator max_idx i idx (c # cs) =
     (if c = 0 then Inr (idx, c # cs)
      else if c = separator
      then if max_idx \<le> length idx then Inr (idx, 0 # cs)
           else res_bind (str_chop_loop separator max_idx (i + 1) (idx @ [i + 1]) cs) (\<lambda>(idx', cs'). Inr (idx', 0 # cs'))
      else res_bind (str_chop_loop separator max_idx (i + 1) idx cs) (\<lambda>(idx', cs'). Inr (idx', c # cs')))"

text \<open>The result and \<^verbatim>\<open>idx_ary\<close>, and the buffer with its separators replaced.\<close>

definition str_chop :: "u8 list \<Rightarrow> int \<Rightarrow> u8 \<Rightarrow> int \<Rightarrow> c_fault + int \<times> nat list \<times> u8 list" where
  "str_chop s buff_size separator max_idx =
     (if buff_size < 0 \<or> separator = 0 \<or> max_idx < 0 then Inr (-1, [], s)
      else if buff_size = 0 \<or> max_idx = 0 then Inr (0, [], s)
      else if int (length s) < buff_size then Inl OutOfBounds
      else res_bind (str_chop_loop separator (nat max_idx) 0 [0] (s[nat buff_size - 1 := 0])) (\<lambda>(idx, s'). Inr (int (length idx), idx, s')))"

text \<open>The C string at an address of a buffer.\<close>

definition cstr_at :: "u8 list \<Rightarrow> nat \<Rightarrow> c_fault + cstring" where
  "cstr_at buf i = (if 0 \<in> set (drop i buf) then Inr (takeWhile (\<lambda>c. c \<noteq> 0) (drop i buf)) else Inl OutOfBounds)"

text \<open>
  \<^verbatim>\<open>memcpy\<close> into \<^verbatim>\<open>parser_buf\<close>, an array of 256 characters, and the terminator, then the chopping. The rest of the array is not initialised, so that reading it counts as an
  access outside.
\<close>

definition nmea_fields :: "u8 list \<Rightarrow> nat \<Rightarrow> c_fault + int \<times> nat list \<times> u8 list" where
  "nmea_fields s buff_size =
     (if 256 \<le> buff_size then Inl OutOfBounds
      else res_bind (bytes_at s 0 buff_size) (\<lambda>b. str_chop (b @ [0]) (int buff_size) (of_char (CHR '','')) 30))"

definition parse_rmc :: "u8 list \<Rightarrow> nat \<Rightarrow> gps_vars \<Rightarrow> c_fault + gps_msg \<times> gps_vars" where
  "parse_rmc s buff_size g =
     res_bind (nmea_fields s buff_size) (\<lambda>(nb_fields, str_index, parser_buf).
       if nb_fields \<noteq> 13 then Inr (IGNORED, g)
       else res_bind (byte_at parser_buf (str_index ! 12)) (\<lambda>m.
              res_bind (cstr_at parser_buf (str_index ! 1)) (\<lambda>time.
                res_bind (cstr_at parser_buf (str_index ! 9)) (\<lambda>date.
                  let md = (if m \<noteq> of_char (CHR ''N'') \<and> m \<noteq> of_char (CHR ''A'') \<and> m \<noteq> of_char (CHR ''D'') then of_char (CHR ''N'') else m);
                      t = sscanf [Scan_d (Some 2), Scan_d (Some 2), Scan_d (Some 2), Scan_f 4] time;
                      d = sscanf [Scan_d (Some 2), Scan_d (Some 2), Scan_d (Some 2)] date
                  in Inr (NMEA_RMC,
                      g\<lparr>gps_mod := md,
                        gps_hou := scan_short t 0 (gps_hou g), gps_min := scan_short t 1 (gps_min g), gps_sec := scan_short t 2 (gps_sec g),
                        gps_fra := scan_real t 3 (gps_fra g),
                        gps_day := scan_short d 0 (gps_day g), gps_mon := scan_short d 1 (gps_mon g), gps_yea := scan_short d 2 (gps_yea g),
                        gps_time_ok := (length t = 4 \<and> length d = 3 \<and> (md = of_char (CHR ''A'') \<or> md = of_char (CHR ''D'')))\<rparr>)))))"

definition parse_gga :: "u8 list \<Rightarrow> nat \<Rightarrow> gps_vars \<Rightarrow> c_fault + gps_msg \<times> gps_vars" where
  "parse_gga s buff_size g =
     res_bind (nmea_fields s buff_size) (\<lambda>(nb_fields, str_index, parser_buf).
       if nb_fields \<noteq> 15 then Inr (IGNORED, g)
       else
         res_bind (cstr_at parser_buf (str_index ! 7)) (\<lambda>sat.
         res_bind (cstr_at parser_buf (str_index ! 2)) (\<lambda>lat.
         res_bind (byte_at parser_buf (str_index ! 3)) (\<lambda>ola.
         res_bind (cstr_at parser_buf (str_index ! 4)) (\<lambda>lon.
         res_bind (byte_at parser_buf (str_index ! 5)) (\<lambda>olo.
         res_bind (cstr_at parser_buf (str_index ! 9)) (\<lambda>alt.
           let n = sscanf [Scan_d None] sat;
               la = sscanf [Scan_d (Some 2), Scan_lf 10] lat;
               lo = sscanf [Scan_d (Some 3), Scan_lf 10] lon;
               al = sscanf [Scan_d None] alt
           in Inr (NMEA_GGA,
                g\<lparr>gps_sat := scan_short n 0 (gps_sat g),
                  gps_dla := scan_short la 0 (gps_dla g), gps_mla := scan_real la 1 (gps_mla g), gps_ola := ola,
                  gps_dlo := scan_short lo 0 (gps_dlo g), gps_mlo := scan_real lo 1 (gps_mlo g), gps_olo := olo,
                  gps_alt := scan_short al 0 (gps_alt g),
                  gps_pos_ok := (length la = 2 \<and> length lo = 2 \<and> length al = 1 \<and>
                    (ola = of_char (CHR ''N'') \<or> ola = of_char (CHR ''S'')) \<and> (olo = of_char (CHR ''E'') \<or> olo = of_char (CHR ''W'')))\<rparr>))))))))"

definition lgw_parse_nmea :: "u8 list \<Rightarrow> nat \<Rightarrow> gps_vars \<Rightarrow> c_fault + gps_msg \<times> gps_vars" where
  "lgw_parse_nmea s buff_size g =
     (if 255 < buff_size then Inr (INVALID, g)
      else if buff_size < 8 then Inr (UNKNOWN, g)
      else res_bind (validate_nmea_checksum s buff_size) (\<lambda>valid.
        if \<not> valid then Inr (INVALID, g)
        else res_bind (match_label s (cstr ''$G?RMC'') 6 (of_char (CHR ''?''))) (\<lambda>rmc.
          if rmc then parse_rmc s buff_size g
          else res_bind (match_label s (cstr ''$G?GGA'') 6 (of_char (CHR ''?''))) (\<lambda>gga.
            if gga then parse_gga s buff_size g else Inr (IGNORED, g)))))"

subsection \<open>UBX messages\<close>

text \<open>The two sums of the 8-bit Fletcher algorithm.\<close>

definition ubx_fletcher :: "u8 list \<Rightarrow> u8 \<times> u8" where
  "ubx_fletcher xs = foldl (\<lambda>(ck_a, ck_b) x. (ck_a + x, ck_b + (ck_a + x))) (0, 0) xs"

text \<open>
  Little-endian numbers. The shift of the highest byte by 24 leaves the range of \<^verbatim>\<open>int\<close> for a byte from 128 on; the result is the one of a compiler that, like gcc, gives this shift
  its two's complement meaning.
\<close>

definition le32 :: "u8 list \<Rightarrow> nat \<Rightarrow> c_fault + u32" where
  "le32 s i = res_bind (bytes_at s i 4) (\<lambda>b.
     Inr (ucast (b ! 0) OR push_bit 8 (ucast (b ! 1)) OR push_bit 16 (ucast (b ! 2)) OR push_bit 24 (ucast (b ! 3))))"

definition le16 :: "u8 list \<Rightarrow> nat \<Rightarrow> c_fault + u16" where
  "le16 s i = res_bind (bytes_at s i 2) (\<lambda>b. Inr (ucast (b ! 0) OR push_bit 8 (ucast (b ! 1))))"

text \<open>
  \<open>s\<close> is the memory from the sync character to the end of the array, \<open>buff_size\<close> the number of bytes received. The byte with the validity flags is read
  whatever the length of the message is.
\<close>

definition ubx_timegps :: "u8 list \<Rightarrow> gps_vars \<Rightarrow> c_fault + gps_vars" where
  "ubx_timegps s g =
     res_bind (byte_at s 17) (\<lambda>valid.
       if valid AND 3 \<noteq> 0
       then res_bind (le32 s 6) (\<lambda>iTOW. res_bind (le32 s 10) (\<lambda>fTOW. res_bind (le16 s 14) (\<lambda>week.
              Inr (g\<lparr>gps_iTOW := iTOW, gps_fTOW := fTOW, gps_week := week, gps_time_ok := True\<rparr>))))
       else Inr (g\<lparr>gps_time_ok := False\<rparr>))"

definition lgw_parse_ubx :: "u8 list \<Rightarrow> nat \<Rightarrow> gps_vars \<Rightarrow> c_fault + gps_msg \<times> nat \<times> gps_vars" where
  "lgw_parse_ubx s buff_size g =
     (if buff_size < 8 then Inr (IGNORED, 0, g)
      else res_bind (bytes_at s 0 2) (\<lambda>sync.
        if sync \<noteq> [0xB5, 0x62] then Inr (IGNORED, 0, g)
        else res_bind (bytes_at s 4 2) (\<lambda>len.
          let payload_length = unat (len ! 0) + 256 * unat (len ! 1); msg_size = 6 + payload_length + 2
          in if buff_size < msg_size then Inr (INCOMPLETE, msg_size, g)
             else res_bind (bytes_at s (msg_size - 2) 2) (\<lambda>ck_rcv.
               res_bind (bytes_at s 2 (4 + payload_length)) (\<lambda>body.
                 if ubx_fletcher body \<noteq> (ck_rcv ! 0, ck_rcv ! 1) then Inr (INVALID, msg_size, g)
                 else res_bind (bytes_at s 2 2) (\<lambda>class_id.
                   if class_id = [0x01, 0x20] then res_bind (ubx_timegps s g) (\<lambda>g'. Inr (UBX_NAV_TIMEGPS, msg_size, g'))
                   else Inr (IGNORED, msg_size, g)))))))"

subsection \<open>Time and position\<close>

text \<open>
  \<^verbatim>\<open>mktime\<close> of a broken-down time without daylight saving: the fields are brought into their ranges, and the time is taken as local time, \<open>tz\<close> seconds west of UTC.
\<close>

record c_tm =
  tm_year :: int
  tm_mon :: int
  tm_mday :: int
  tm_hour :: int
  tm_min :: int
  tm_sec :: int

definition leap_days :: "int \<Rightarrow> int" where
  "leap_days y = y div 4 - y div 100 + y div 400"

definition is_leap_year :: "int \<Rightarrow> bool" where
  "is_leap_year y \<longleftrightarrow> y mod 4 = 0 \<and> (y mod 100 \<noteq> 0 \<or> y mod 400 = 0)"

definition days_before_month :: "bool \<Rightarrow> int \<Rightarrow> int" where
  "days_before_month leap m = [0, 31, 59, 90, 120, 151, 181, 212, 243, 273, 304, 334] ! nat m + (if leap \<and> 2 \<le> m then 1 else 0)"

definition tm_days :: "c_tm \<Rightarrow> int" where
  "tm_days x =
     (let y = 1900 + tm_year x + tm_mon x div 12; m = tm_mon x mod 12
      in 365 * (y - 1970) + leap_days (y - 1) - leap_days 1969 + days_before_month (is_leap_year y) m + (tm_mday x - 1))"

definition mktime :: "int \<Rightarrow> c_tm \<Rightarrow> int" where
  "mktime tz x = ((tm_days x * 24 + tm_hour x) * 60 + tm_min x) * 60 + tm_sec x + tz"

record coord_s =
  coord_lat :: "rat option"
  coord_lon :: "rat option"
  coord_alt :: int

definition coord_zero :: coord_s where
  "coord_zero = \<lparr>coord_lat = Some 0, coord_lon = Some 0, coord_alt = 0\<rparr>"

text \<open>The part of \<^verbatim>\<open>lgw_gps_get\<close> for each of its out-parameters.\<close>

definition gps_get_utc :: "int \<Rightarrow> gps_vars \<Rightarrow> c_fault + timespec option" where
  "gps_get_utc tz g =
     (if \<not> gps_time_ok g then Inr None
      else let x = \<lparr>tm_year = (if gps_yea g < 100 then gps_yea g + 100 else gps_yea g - 1900), tm_mon = gps_mon g - 1, tm_mday = gps_day g,
                    tm_hour = gps_hou g, tm_min = gps_min g, tm_sec = gps_sec g\<rparr>;
               y = mktime tz x - tz
           in if y = -1 then Inr None
              else case gps_fra g of
                     None \<Rightarrow> Inl UndefinedConversion
                   | Some f \<Rightarrow> let n = c_trunc (dbl (f * 10 ^ 9))
                               in if - (2 ^ 31) \<le> n \<and> n < 2 ^ 31 then Inr (Some \<lparr>tv_sec = y, tv_nsec = n\<rparr>) else Inl UndefinedConversion)"

definition gps_get_time :: "gps_vars \<Rightarrow> timespec option" where
  "gps_get_time g =
     (if \<not> gps_time_ok g then None
      else let t = dbl (dbl (of_nat (unat (gps_iTOW g)) / 10 ^ 3) + dbl (of_int (sint (gps_fTOW g)) / 10 ^ 9));
               intpart = c_trunc t; fractpart = t - of_int intpart
           in Some \<lparr>tv_sec = intpart + sint (gps_week g) * 604800, tv_nsec = c_trunc (dbl (fractpart * 10 ^ 9))\<rparr>)"

definition gps_get_angle :: "int \<Rightarrow> rat option \<Rightarrow> bool \<Rightarrow> rat option" where
  "gps_get_angle deg mins positive =
     map_option (\<lambda>m. let a = dbl (of_int deg + dbl (m / 60)) in if positive then a else - a) mins"

definition gps_get_loc :: "gps_vars \<Rightarrow> coord_s option" where
  "gps_get_loc g =
     (if \<not> gps_pos_ok g then None
      else Some \<lparr>coord_lat = gps_get_angle (gps_dla g) (gps_mla g) (gps_ola g = of_char (CHR ''N'')),
                 coord_lon = gps_get_angle (gps_dlo g) (gps_mlo g) (gps_olo g = of_char (CHR ''E'')),
                 coord_alt = gps_alt g\<rparr>)"

record gps_answer =
  ans_utc :: "timespec option"
  ans_gps :: "timespec option"
  ans_loc :: "coord_s option"
  ans_err :: "coord_s option"

text \<open>Which of the out-parameters are given is an argument; each is written when everything before it succeeded.\<close>

definition lgw_gps_get :: "int \<Rightarrow> bool \<Rightarrow> bool \<Rightarrow> bool \<Rightarrow> bool \<Rightarrow> gps_vars \<Rightarrow> c_fault + int \<times> gps_answer" where
  "lgw_gps_get tz utc gps_time loc err g =
     (let a = \<lparr>ans_utc = None, ans_gps = None, ans_loc = None, ans_err = None\<rparr>
      in res_bind (if utc then gps_get_utc tz g else Inr None) (\<lambda>u.
         if utc \<and> u = None then Inr (LGW_GPS_ERROR, a)
         else let a1 = a\<lparr>ans_utc := u\<rparr>; t = (if gps_time then gps_get_time g else None)
              in if gps_time \<and> t = None then Inr (LGW_GPS_ERROR, a1)
                 else let a2 = a1\<lparr>ans_gps := t\<rparr>; l = (if loc then gps_get_loc g else None)
                      in if loc \<and> l = None then Inr (LGW_GPS_ERROR, a2)
                         else Inr (LGW_GPS_SUCCESS, a2\<lparr>ans_loc := l, ans_err := (if err then Some coord_zero else None)\<rparr>)))"

subsection \<open>The thread\<close>

text \<open>
  What the thread keeps and shares. \<open>sync_calls\<close> counts the calls of \<^verbatim>\<open>gps_process_sync\<close>; the environment gives the system clock and the captured counter at each of them,
  and says whether \<^verbatim>\<open>memcpy\<close> copies in ascending order.
\<close>

record gps_state =
  gpsvars :: gps_vars
  gpstime :: time_state
  sync_calls :: nat
  gps_coord_valid :: bool
  meas_gps_coord :: coord_s
  meas_gps_err :: coord_s

record gps_env =
  env_memcpy_up :: bool
  env_tz :: int
  env_now :: "nat \<Rightarrow> int"
  env_trig :: "nat \<Rightarrow> u32"

definition gps_sync_call :: "gps_env \<Rightarrow> gps_state \<Rightarrow> c_fault + gps_state" where
  "gps_sync_call env st =
     res_bind (lgw_gps_get (env_tz env) True True False False (gpsvars st)) (\<lambda>(r, a).
       let k = sync_calls st;
           gps = (if r = LGW_GPS_SUCCESS then (case (ans_utc a, ans_gps a) of (Some u, Some t) \<Rightarrow> Some (u, t) | _ \<Rightarrow> None) else None)
       in Inr (st\<lparr>gpstime := gps_process_sync (env_now env k) gps (env_trig env k) (gpstime st), sync_calls := k + 1\<rparr>))"

definition gps_process_coords :: "gps_env \<Rightarrow> gps_state \<Rightarrow> c_fault + gps_state" where
  "gps_process_coords env st =
     res_bind (lgw_gps_get (env_tz env) False False True True (gpsvars st)) (\<lambda>(r, a).
       if r = LGW_GPS_SUCCESS
       then Inr (st\<lparr>gps_coord_valid := True, meas_gps_coord := the (ans_loc a), meas_gps_err := the (ans_err a)\<rparr>)
       else Inr (st\<lparr>gps_coord_valid := False\<rparr>))"

text \<open>\<^verbatim>\<open>memchr\<close>.\<close>

fun memchr :: "u8 list \<Rightarrow> u8 \<Rightarrow> nat \<Rightarrow> c_fault + nat option" where
  "memchr s c 0 = Inr None"
| "memchr [] c (Suc n) = Inl OutOfBounds"
| "memchr (x # xs) c (Suc n) = (if x = c then Inr (Some 0) else res_bind (memchr xs c n) (\<lambda>r. Inr (map_option Suc r)))"

text \<open>What the loop does at one position: the size of the frame found there, 0 when there is none.\<close>

definition gps_try_frame :: "gps_env \<Rightarrow> u8 list \<Rightarrow> nat \<Rightarrow> gps_state \<Rightarrow> c_fault + nat \<times> gps_state" where
  "gps_try_frame env s n st =
     res_bind (byte_at s 0) (\<lambda>c.
       if c = 0xB5
       then res_bind (lgw_parse_ubx s n (gpsvars st)) (\<lambda>(latest_msg, frame_size, g).
              let st' = st\<lparr>gpsvars := g\<rparr>
              in if 0 < frame_size
                 then if latest_msg = INCOMPLETE \<or> latest_msg = INVALID then Inr (0, st')
                      else if latest_msg = UBX_NAV_TIMEGPS then res_bind (gps_sync_call env st') (\<lambda>st''. Inr (frame_size, st''))
                      else Inr (frame_size, st')
                 else Inr (frame_size, st'))
       else if c = 0x24
       then res_bind (memchr s 0x0a n) (\<lambda>nmea_end.
              case nmea_end of
                None \<Rightarrow> Inr (0, st)
              | Some e \<Rightarrow>
                  let frame_size = e + 1
                  in res_bind (lgw_parse_nmea s frame_size (gpsvars st)) (\<lambda>(latest_msg, g).
                       let st' = st\<lparr>gpsvars := g\<rparr>
                       in if latest_msg = INVALID \<or> latest_msg = UNKNOWN then Inr (0, st')
                          else if latest_msg = NMEA_RMC then res_bind (gps_process_coords env st') (\<lambda>st''. Inr (frame_size, st''))
                          else Inr (frame_size, st')))
       else Inr (0, st))"

text \<open>The inner loop; the result is \<^verbatim>\<open>frame_end_idx\<close>.\<close>

function gps_scan :: "gps_env \<Rightarrow> u8 list \<Rightarrow> nat \<Rightarrow> nat \<Rightarrow> nat \<Rightarrow> gps_state \<Rightarrow> c_fault + nat \<times> gps_state" where
  "gps_scan env buf wr_idx rd_idx frame_end_idx st =
     (if rd_idx < wr_idx
      then case gps_try_frame env (drop rd_idx buf) (wr_idx - rd_idx) st of
             Inl e \<Rightarrow> Inl e
           | Inr (frame_size, st') \<Rightarrow>
               if 0 < frame_size then gps_scan env buf wr_idx (rd_idx + frame_size) (rd_idx + frame_size) st'
               else gps_scan env buf wr_idx (rd_idx + 1) frame_end_idx st'
      else Inr (frame_end_idx, st))"
  by pat_completeness auto
termination by (relation "measure (\<lambda>(env, buf, w, r, f, st). w - r)") auto

declare gps_scan.simps [simp del]

record gps_serial =
  serial_buff :: "u8 list"
  wr_idx :: nat

definition gps_serial_init :: gps_serial where
  "gps_serial_init = \<lparr>serial_buff = replicate 128 0, wr_idx = 0\<rparr>"

abbreviation (input) LGW_GPS_MIN_MSG_SIZE :: nat where "LGW_GPS_MIN_MSG_SIZE \<equiv> 8"

text \<open>
  The two moves of the buffer after the scan, \<^verbatim>\<open>memcpy(serial_buff, &serial_buff[n], wr_idx - n)\<close>: the length is a \<^verbatim>\<open>size_t\<close>, so that it is huge when the index is below \<open>n\<close>; the
  regions overlap when more than \<open>n\<close> bytes are moved.
\<close>

definition gps_compact :: "gps_env \<Rightarrow> nat \<Rightarrow> gps_serial \<Rightarrow> c_fault + gps_serial" where
  "gps_compact env n b =
     (if wr_idx b < n \<or> length (serial_buff b) < wr_idx b then Inl OutOfBounds
      else if n < wr_idx b - n \<and> \<not> env_memcpy_up env then Inl OverlappingCopy
      else Inr \<lparr>serial_buff = mem_write (serial_buff b) (take (wr_idx b - n) (drop n (serial_buff b))), wr_idx = wr_idx b - n\<rparr>)"

text \<open>One turn of the thread; \<open>bytes\<close> is what \<^verbatim>\<open>read\<close> stored, nothing when it returned 0 or an error.\<close>

definition thread_gps_turn :: "gps_env \<Rightarrow> u8 list \<Rightarrow> gps_serial \<times> gps_state \<Rightarrow> c_fault + gps_serial \<times> gps_state" where
  "thread_gps_turn env bytes = (\<lambda>(b, st).
     if bytes = [] then Inr (b, st)
     else if 128 < wr_idx b + length bytes then Inl OutOfBounds
     else let buf = take (wr_idx b) (serial_buff b) @ bytes @ drop (wr_idx b + length bytes) (serial_buff b); wr = wr_idx b + length bytes;
              b1 = \<lparr>serial_buff = buf, wr_idx = wr\<rparr>
          in res_bind (gps_scan env buf wr 0 0 st) (\<lambda>(frame_end_idx, st').
               res_bind (if frame_end_idx \<noteq> 0 then gps_compact env frame_end_idx b1 else Inr b1) (\<lambda>b2.
                 res_bind (if 128 - wr_idx b2 < LGW_GPS_MIN_MSG_SIZE then gps_compact env LGW_GPS_MIN_MSG_SIZE b2 else Inr b2) (\<lambda>b3.
                   Inr (b3, st')))))"

fun thread_gps :: "gps_env \<Rightarrow> u8 list list \<Rightarrow> gps_serial \<times> gps_state \<Rightarrow> c_fault + gps_serial \<times> gps_state" where
  "thread_gps env [] s = Inr s"
| "thread_gps env (r # rs) s = res_bind (thread_gps_turn env r s) (thread_gps env rs)"

end
