(* ===== verification/GpsSerialProps.thy ===== *)
theory GpsSerialProps
  imports GpsSerial
begin

text \<open>
  Reassembly of the frames of the GPS receiver: the thread handles every frame of the stream once and in order, however the stream is cut into reads, and stays inside its buffer.
\<close>

subsection \<open>Reading memory\<close>

lemma byte_at_nth [simp]: "i < length s \<Longrightarrow> byte_at s i = Inr (s ! i)"
  by (simp add: byte_at_def)

lemma bytes_at_take [simp]: "i + n \<le> length s \<Longrightarrow> bytes_at s i n = Inr (take n (drop i s))"
  by (simp add: bytes_at_def)

lemma byte_at_append: "i < length s \<Longrightarrow> byte_at (s @ t) i = byte_at s i"
  by (simp add: nth_append)

lemma bytes_at_append: "i + n \<le> length s \<Longrightarrow> bytes_at (s @ t) i n = bytes_at s i n"
  by simp

lemma take_2_nth: "2 \<le> length s \<Longrightarrow> take 2 s = [a, b] \<longleftrightarrow> s ! 0 = a \<and> s ! 1 = b"
  by (cases s; cases "tl s") auto

subsection \<open>Frames in isolation\<close>

text \<open>A complete UBX message with a correct checksum, and a complete NMEA sentence with a correct checksum.\<close>

definition ubx_frame :: "u8 list \<Rightarrow> bool" where
  "ubx_frame f \<longleftrightarrow>
     8 \<le> length f \<and> f ! 0 = 0xB5 \<and> f ! 1 = 0x62 \<and> length f = 8 + (unat (f ! 4) + 256 * unat (f ! 5)) \<and>
     ubx_fletcher (take (length f - 4) (drop 2 f)) = (f ! (length f - 2), f ! (length f - 1)) \<and>
     (f ! 2 = 0x01 \<and> f ! 3 = 0x20 \<longrightarrow> 18 \<le> length f)"

definition nmea_frame :: "u8 list \<Rightarrow> bool" where
  "nmea_frame f \<longleftrightarrow>
     8 \<le> length f \<and> f ! 0 = 0x24 \<and> last f = 0x0a \<and> 0x0a \<notin> set (butlast f) \<and> validate_nmea_checksum f (length f) = Inr True"

text \<open>Nothing at the start of \<open>s\<close> looks like a message: not the two characters of UBX, and no complete NMEA sentence with a correct checksum.\<close>

definition inert_at :: "u8 list \<Rightarrow> bool" where
  "inert_at s \<longleftrightarrow> take 2 s \<noteq> [0xB5, 0x62] \<and>
     (take 1 s = [0x24] \<longrightarrow>
        (case memchr s 0x0a (length s) of
           Inr (Some e) \<Rightarrow> 7 \<le> e \<longrightarrow> validate_nmea_checksum s (e + 1) \<noteq> Inr True
         | _ \<Rightarrow> True))"

fun inert :: "u8 list \<Rightarrow> bool" where
  "inert [] \<longleftrightarrow> True"
| "inert (x # xs) \<longleftrightarrow> inert_at (x # xs) \<and> inert xs"

text \<open>Bytes between two messages: without the start of an NMEA sentence, and without the two characters of UBX.\<close>

fun quiet :: "u8 list \<Rightarrow> bool" where
  "quiet [] \<longleftrightarrow> True"
| "quiet (x # xs) \<longleftrightarrow> x \<noteq> 0x24 \<and> take 2 (x # xs) \<noteq> [0xB5, 0x62] \<and> quiet xs"

text \<open>
  A frame after some bytes that belong to none. The frame may contain sync characters as long as no part of it is a message itself.
\<close>

definition gps_segment :: "u8 list \<times> u8 list \<Rightarrow> bool" where
  "gps_segment = (\<lambda>(g, f). (ubx_frame f \<or> nmea_frame f) \<and> quiet g \<and> inert (tl (butlast f)) \<and> length g + length f \<le> 121)"

abbreviation segment_bytes :: "u8 list \<times> u8 list \<Rightarrow> u8 list" where
  "segment_bytes seg \<equiv> fst seg @ snd seg"

text \<open>What the frame alone, with nothing after it, makes of the state.\<close>

definition gps_handle :: "gps_env \<Rightarrow> u8 list \<Rightarrow> gps_state \<Rightarrow> c_fault + gps_state" where
  "gps_handle env f st = res_bind (gps_try_frame env f (length f) st) (\<lambda>(n, st'). Inr st')"

fun gps_handle_all :: "gps_env \<Rightarrow> (u8 list \<times> u8 list) list \<Rightarrow> gps_state \<Rightarrow> c_fault + gps_state" where
  "gps_handle_all env [] st = Inr st"
| "gps_handle_all env (seg # segs) st = res_bind (gps_handle env (snd seg) st) (gps_handle_all env segs)"

lemma memchr_total: "n \<le> length s \<Longrightarrow> \<exists>r. memchr s c n = Inr r"
  by (induction s c n rule: memchr.induct) auto

lemma memchr_prefix: "n \<le> length s \<Longrightarrow> memchr (s @ t) c n = memchr s c n"
  by (induction s c n rule: memchr.induct) auto

lemma memchr_None: "n \<le> length s \<Longrightarrow> c \<notin> set (take n s) \<Longrightarrow> memchr s c n = Inr None"
  by (induction s c n rule: memchr.induct) auto

lemma memchr_append: "c \<notin> set xs \<Longrightarrow> length xs < n \<Longrightarrow> memchr (xs @ c # ys) c n = Inr (Some (length xs))"
proof (induction xs arbitrary: n)
  case Nil
  then show ?case by (cases n) auto
next
  case (Cons x xs)
  then show ?case by (cases n) auto
qed

lemma memchr_less: "memchr s c n = Inr (Some i) \<Longrightarrow> i < n"
  by (induction s c n arbitrary: i rule: memchr.induct) (auto simp: res_bind_Inr_iff split: if_splits)

lemma memchr_more: "memchr s c n = Inr (Some i) \<Longrightarrow> n \<le> m \<Longrightarrow> memchr s c m = Inr (Some i)"
proof (induction s c n arbitrary: i m rule: memchr.induct)
  case (3 x xs c n)
  then obtain m' where m: "m = Suc m'" "n \<le> m'" by (cases m) auto
  show ?case
  proof (cases "x = c")
    case True
    then show ?thesis using "3.prems"(1) m by simp
  next
    case False
    then obtain j where "memchr xs c n = Inr (Some j)" "i = Suc j" using "3.prems"(1) by (cases "memchr xs c n") auto
    then show ?thesis using "3.IH" [OF False _ m(2)] False m by simp
  qed
qed auto

lemma nmea_frame_split:
  assumes "nmea_frame f"
  shows "f = butlast f @ [0x0a]" and "0x0a \<notin> set (butlast f)" and "length (butlast f) = length f - 1" and "f \<noteq> []"
proof -
  show f: "f \<noteq> []" using assms by (auto simp: nmea_frame_def)
  show "f = butlast f @ [0x0a]"
    using append_butlast_last_id [OF f] assms by (simp add: nmea_frame_def)
qed (use assms in \<open>simp_all add: nmea_frame_def\<close>)

text \<open>What the parsers read of a sentence lies inside it: bytes behind it play no role, and no access fails.\<close>

lemma nmea_xor_local:
  "i < n \<Longrightarrow> n \<le> length s \<Longrightarrow> nmea_xor (s @ t) n i c = nmea_xor s n i c \<and> (\<exists>r. nmea_xor s n i c = Inr r)"
proof (induction s n i c rule: nmea_xor.induct)
  case (1 s n i c)
  show ?case
  proof (cases "s ! i \<noteq> of_char (CHR ''*'') \<and> i + 1 < n")
    case True
    then have "nmea_xor (s @ t) n (i + 1) (c XOR s ! i) = nmea_xor s n (i + 1) (c XOR s ! i) \<and> (\<exists>r. nmea_xor s n (i + 1) (c XOR s ! i) = Inr r)"
      using "1.IH" "1.prems" by simp
    then show ?thesis using "1.prems" True
      by (simp add: nmea_xor.simps [of "s @ t" n i c] nmea_xor.simps [of s n i c] nth_append)
  next
    case False
    then show ?thesis using "1.prems"
      by (auto simp: nmea_xor.simps [of "s @ t" n i c] nmea_xor.simps [of s n i c] nth_append)
  qed
qed

lemma nmea_checksum_local:
  assumes "n \<le> length s"
  shows "nmea_checksum (s @ t) n = nmea_checksum s n \<and> (\<exists>r. nmea_checksum s n = Inr r)"
proof (cases "n \<le> 1")
  case False
  then have "s \<noteq> []" using assms by auto
  then have "byte_at (s @ t) 0 = Inr (s ! 0)" "byte_at s 0 = Inr (s ! 0)" by (simp_all add: nth_append)
  moreover have "(if s ! 0 = of_char (CHR ''$'') then 1 else 0) < n" using False by simp
  from nmea_xor_local [OF this assms, of t 0] obtain r where
    "nmea_xor (s @ t) n (if s ! 0 = of_char (CHR ''$'') then 1 else 0) 0 = Inr r"
    "nmea_xor s n (if s ! 0 = of_char (CHR ''$'') then 1 else 0) 0 = Inr r"
    by metis
  ultimately show ?thesis using False by (simp add: nmea_checksum_def del: of_char_of)
qed (simp add: nmea_checksum_def)

lemma validate_nmea_checksum_local:
  assumes "n \<le> length s"
  shows "validate_nmea_checksum (s @ t) n = validate_nmea_checksum s n \<and> (\<exists>b. validate_nmea_checksum s n = Inr b)"
proof -
  obtain r where r: "nmea_checksum s n = Inr r" "nmea_checksum (s @ t) n = Inr r"
    using nmea_checksum_local [OF assms] by metis
  then show ?thesis using assms
    by (cases r) (auto simp: validate_nmea_checksum_def nth_append split: prod.split)
qed

lemma match_positions_local:
  "\<forall>i\<in>set is. i < length s \<Longrightarrow> match_positions (s @ t) l w is = match_positions s l w is \<and> (\<exists>b. match_positions s l w is = Inr b)"
  by (induction "is") (auto simp: nth_append)

lemma match_label_local: "n \<le> length s \<Longrightarrow> match_label (s @ t) l n w = match_label s l n w \<and> (\<exists>b. match_label s l n w = Inr b)"
  unfolding match_label_def by (rule match_positions_local) auto

lemma nmea_fields_append: "n \<le> length s \<Longrightarrow> nmea_fields (s @ t) n = nmea_fields s n"
  by (simp add: nmea_fields_def)

text \<open>The chopping of a terminated buffer ends, keeps its terminator, and its indices lie in the buffer.\<close>

lemma str_chop_loop_total:
  assumes "0 \<in> set cs"
  obtains idx' cs' where "str_chop_loop sep mx i idx cs = Inr (idx', cs')" and "length cs' = length cs"
    and "\<forall>j<length cs. cs' ! j = cs ! j \<or> cs' ! j = 0" and "\<forall>x\<in>set idx'. x \<in> set idx \<or> x < i + length cs"
proof -
  have "\<exists>idx' cs'. str_chop_loop sep mx i idx cs = Inr (idx', cs') \<and> length cs' = length cs \<and>
    (\<forall>j<length cs. cs' ! j = cs ! j \<or> cs' ! j = 0) \<and> (\<forall>x\<in>set idx'. x \<in> set idx \<or> x < i + length cs)"
    using assms
  proof (induction sep mx i idx cs rule: str_chop_loop.induct)
    case (2 sep mx i idx c cs)
    consider "c = 0" | "c \<noteq> 0" "c = sep" "mx \<le> length idx" | "c \<noteq> 0" "c = sep" "\<not> mx \<le> length idx" | "c \<noteq> 0" "c \<noteq> sep" by blast
    then show ?case
    proof cases
      case 3
      then have z: "0 \<in> set cs" using "2.prems" by simp
      then have "cs \<noteq> []" by auto
      obtain idx' cs' where "str_chop_loop sep mx (i + 1) (idx @ [i + 1]) cs = Inr (idx', cs')" "length cs' = length cs"
        "\<forall>j<length cs. cs' ! j = cs ! j \<or> cs' ! j = 0" "\<forall>x\<in>set idx'. x \<in> set (idx @ [i + 1]) \<or> x < i + 1 + length cs"
        using "2.IH"(1) [OF 3 z] by blast
      with 3 \<open>cs \<noteq> []\<close> show ?thesis by (auto simp: nth_Cons split: nat.split)
    next
      case 4
      then have z: "0 \<in> set cs" using "2.prems" by simp
      obtain idx' cs' where "str_chop_loop sep mx (i + 1) idx cs = Inr (idx', cs')" "length cs' = length cs"
        "\<forall>j<length cs. cs' ! j = cs ! j \<or> cs' ! j = 0" "\<forall>x\<in>set idx'. x \<in> set idx \<or> x < i + 1 + length cs"
        using "2.IH"(2) [OF 4 z] by blast
      with 4 show ?thesis by (auto simp: nth_Cons split: nat.split)
    qed (auto simp: nth_Cons split: nat.split)
  qed simp
  then show thesis using that by blast
qed

lemma nmea_fields_total:
  assumes "n \<le> length s" and "0 < n" and "n < 256"
  obtains idx buf where "nmea_fields s n = Inr (int (length idx), idx, buf)"
    and "\<And>k. k < length idx \<Longrightarrow> \<exists>x. byte_at buf (idx ! k) = Inr x" and "\<And>k. k < length idx \<Longrightarrow> \<exists>x. cstr_at buf (idx ! k) = Inr x"
proof -
  define b where "b = (take n s @ [0])[n - 1 := 0]"
  have b: "length b = n + 1" "b ! n = 0" using assms by (simp_all add: b_def nth_append)
  then have "0 \<in> set b" by (metis less_add_one nth_mem)
  then obtain idx buf where l: "str_chop_loop 44 30 0 [0] b = Inr (idx, buf)" "length buf = n + 1"
    "\<forall>j<length b. buf ! j = b ! j \<or> buf ! j = 0" "\<forall>x\<in>set idx. x \<in> set [0] \<or> x < 0 + length b"
    by (rule str_chop_loop_total [of b 44 30 0 "[0]"]) (use b in simp)
  have "nmea_fields s n = Inr (int (length idx), idx, buf)"
    using assms l(1) by (simp add: nmea_fields_def str_chop_def b_def)
  moreover have x: "idx ! k < length buf" if "k < length idx" for k
    using that l(2,4) b(1) nth_mem [OF that] by fastforce
  moreover have "0 \<in> set (drop (idx ! k) buf)" if "k < length idx" for k
  proof -
    have "drop (idx ! k) buf ! (n - idx ! k) = buf ! n" using x [OF that] l(2) by simp
    also have "\<dots> = 0" using l(3) b by auto
    finally show ?thesis using x [OF that] l(2) by (metis diff_less_mono length_drop less_add_one nth_mem less_Suc_eq_le Suc_eq_plus1)
  qed
  ultimately show ?thesis using that by (simp add: byte_at_def cstr_at_def)
qed

lemma parse_rmc_total:
  assumes "n \<le> length s" and "0 < n" and "n < 256"
  shows "\<exists>m g'. parse_rmc s n g = Inr (m, g') \<and> (m = IGNORED \<or> m = NMEA_RMC)"
proof -
  obtain idx buf where f: "nmea_fields s n = Inr (int (length idx), idx, buf)"
    "\<And>k. k < length idx \<Longrightarrow> \<exists>x. byte_at buf (idx ! k) = Inr x" "\<And>k. k < length idx \<Longrightarrow> \<exists>x. cstr_at buf (idx ! k) = Inr x"
    by (rule nmea_fields_total [OF assms]) auto
  show ?thesis
  proof (cases "length idx = 13")
    case True
    then show ?thesis using f(1) f(2) [of 12] f(3) [of 1] f(3) [of 9] by (auto simp: parse_rmc_def Let_def)
  next
    case False
    then show ?thesis using f(1) by (simp add: parse_rmc_def)
  qed
qed

lemma parse_gga_total:
  assumes "n \<le> length s" and "0 < n" and "n < 256"
  shows "\<exists>m g'. parse_gga s n g = Inr (m, g') \<and> (m = IGNORED \<or> m = NMEA_GGA)"
proof -
  obtain idx buf where f: "nmea_fields s n = Inr (int (length idx), idx, buf)"
    "\<And>k. k < length idx \<Longrightarrow> \<exists>x. byte_at buf (idx ! k) = Inr x" "\<And>k. k < length idx \<Longrightarrow> \<exists>x. cstr_at buf (idx ! k) = Inr x"
    by (rule nmea_fields_total [OF assms]) auto
  show ?thesis
  proof (cases "length idx = 15")
    case True
    then show ?thesis
      using f(1) f(2) [of 3] f(2) [of 5] f(3) [of 7] f(3) [of 2] f(3) [of 4] f(3) [of 9] by (auto simp: parse_gga_def Let_def)
  next
    case False
    then show ?thesis using f(1) by (simp add: parse_gga_def)
  qed
qed

lemma lgw_parse_nmea_local:
  assumes "n \<le> length s"
  shows "lgw_parse_nmea (s @ t) n g = lgw_parse_nmea s n g" and "\<exists>r. lgw_parse_nmea s n g = Inr r"
proof -
  have "lgw_parse_nmea (s @ t) n g = lgw_parse_nmea s n g \<and> (\<exists>r. lgw_parse_nmea s n g = Inr r)"
  proof (cases "n < 8 \<or> 255 < n")
    case False
    then have six: "6 \<le> length s" using assms by simp
    obtain b1 where "validate_nmea_checksum s n = Inr b1" "validate_nmea_checksum (s @ t) n = Inr b1"
      using validate_nmea_checksum_local [OF assms, of t] by metis
    moreover obtain b2 where "match_label s (cstr ''$G?RMC'') 6 (of_char (CHR ''?'')) = Inr b2" "match_label (s @ t) (cstr ''$G?RMC'') 6 (of_char (CHR ''?'')) = Inr b2"
      using match_label_local [OF six] by metis
    moreover obtain b3 where "match_label s (cstr ''$G?GGA'') 6 (of_char (CHR ''?'')) = Inr b3" "match_label (s @ t) (cstr ''$G?GGA'') 6 (of_char (CHR ''?'')) = Inr b3"
      using match_label_local [OF six] by metis
    moreover have "parse_rmc (s @ t) n g = parse_rmc s n g" "parse_gga (s @ t) n g = parse_gga s n g"
      using assms by (simp_all add: parse_rmc_def parse_gga_def nmea_fields_append)
    ultimately show ?thesis
      using False assms parse_rmc_total [of n s g] parse_gga_total [of n s g] unfolding lgw_parse_nmea_def by auto
  qed (auto simp: lgw_parse_nmea_def)
  then show "lgw_parse_nmea (s @ t) n g = lgw_parse_nmea s n g" and "\<exists>r. lgw_parse_nmea s n g = Inr r" by simp_all
qed

lemma lgw_parse_nmea_valid:
  assumes "8 \<le> n" and "n \<le> 255" and "n \<le> length s" and "validate_nmea_checksum s n = Inr True"
  obtains m g' where "lgw_parse_nmea s n g = Inr (m, g')" and "m \<in> {IGNORED, NMEA_RMC, NMEA_GGA}"
proof -
  have "6 \<le> length s" using assms by simp
  then obtain b2 b3 where "match_label s (cstr ''$G?RMC'') 6 (of_char (CHR ''?'')) = Inr b2" "match_label s (cstr ''$G?GGA'') 6 (of_char (CHR ''?'')) = Inr b3"
    using match_label_local [of 6 s] by blast
  then have "\<exists>m g'. lgw_parse_nmea s n g = Inr (m, g') \<and> m \<in> {IGNORED, NMEA_RMC, NMEA_GGA}"
    using assms parse_rmc_total [of n s g] parse_gga_total [of n s g] by (auto simp: lgw_parse_nmea_def)
  then show ?thesis using that by blast
qed

definition ubx_time_vars :: "u8 list \<Rightarrow> gps_vars \<Rightarrow> gps_vars" where
  "ubx_time_vars f g =
     (if f ! 17 AND 3 \<noteq> 0
      then g\<lparr>gps_iTOW := projr (le32 f 6), gps_fTOW := projr (le32 f 10), gps_week := projr (le16 f 14), gps_time_ok := True\<rparr>
      else g\<lparr>gps_time_ok := False\<rparr>)"

lemma ubx_timegps_value: "18 \<le> length f \<Longrightarrow> ubx_timegps (f @ t) g = Inr (ubx_time_vars f g)"
  by (simp add: ubx_timegps_def ubx_time_vars_def le32_def le16_def nth_append)

lemma lgw_parse_ubx_value:
  assumes "ubx_frame f"
  shows "lgw_parse_ubx (f @ t) (length f + k) g =
    Inr (if f ! 2 = 0x01 \<and> f ! 3 = 0x20 then (UBX_NAV_TIMEGPS, length f, ubx_time_vars f g) else (IGNORED, length f, g))"
proof -
  define p where "p = unat (f ! 4) + 256 * unat (f ! 5)"
  have l: "length f = 8 + p" using assms by (simp add: ubx_frame_def p_def)
  have tk: "take n (drop i (f @ t)) = take n (drop i f)" if "i + n \<le> 8 + p" for i n using that l by simp
  have two: "take 2 (drop i f) = [f ! i, f ! (i + 1)]" if "i + 2 \<le> 8 + p" for i
    using that l by (subst take_2_nth) (simp_all add: add.commute)
  have ck0: "ubx_fletcher (take (length f - 4) (drop 2 f)) = (f ! (length f - 2), f ! (length f - 1))" and hd: "f ! 0 = 0xB5" "f ! 1 = 0x62"
    using assms unfolding ubx_frame_def by blast+
  have "length f - 2 = 6 + p" "length f - 1 = 7 + p" "length f - 4 = 4 + p" using l by simp_all
  then have ck: "ubx_fletcher (take (4 + p) (drop 2 f)) = (f ! (6 + p), f ! (7 + p))" using ck0 by metis
  have tm: "18 \<le> length f" if "f ! 2 = 0x01 \<and> f ! 3 = 0x20" using that assms by (simp add: ubx_frame_def)
  have sync: "bytes_at (f @ t) 0 2 = Inr [0xB5, 0x62]" using tk [of 0 2] two [of 0] l hd by simp
  have len: "bytes_at (f @ t) 4 2 = Inr [f ! 4, f ! 5]" using tk [of 4 2] two [of 4] l by simp
  have rcv: "bytes_at (f @ t) (6 + p) 2 = Inr [f ! (6 + p), f ! (7 + p)]" using tk [of "6 + p" 2] two [of "6 + p"] l by (simp add: add.commute)
  have body: "bytes_at (f @ t) 2 (4 + p) = Inr (take (4 + p) (drop 2 f))" using tk [of 2 "4 + p"] l by simp
  have ci: "bytes_at (f @ t) 2 2 = Inr [f ! 2, f ! 3]" using tk [of 2 2] two [of 2] l by simp
  have "unat (f ! 4) + 256 * unat (f ! 5) = p" by (simp add: p_def)
  then show ?thesis
    using tm l ubx_timegps_value [of f t g] ck unfolding lgw_parse_ubx_def sync len by (simp add: rcv body ci Let_def add.commute)
qed

lemmas lgw_parse_ubx_frame = lgw_parse_ubx_value [of _ "[]" 0, simplified]

lemma gps_try_frame_append:
  assumes "ubx_frame f \<or> nmea_frame f" and "length f \<le> 255"
  shows "gps_try_frame env (f @ t) (length f + k) st = gps_try_frame env f (length f) st"
    and "gps_try_frame env f (length f) st = res_bind (gps_handle env f st) (\<lambda>st'. Inr (length f, st'))"
proof -
  have "gps_try_frame env (f @ t) (length f + k) st = gps_try_frame env f (length f) st \<and>
        gps_try_frame env f (length f) st = res_bind (gps_handle env f st) (\<lambda>st'. Inr (length f, st'))"
  proof (cases "ubx_frame f")
    case True
    have ne: "f ! 0 = 0xB5" "f \<noteq> []" using True by (auto simp: ubx_frame_def)
    then have "byte_at f 0 = Inr 0xB5" "byte_at (f @ t) 0 = Inr 0xB5" by (simp_all add: nth_append)
    with ne show ?thesis
      by (cases "gps_sync_call env (st\<lparr>gpsvars := ubx_time_vars f (gpsvars st)\<rparr>)")
        (auto simp: gps_handle_def gps_try_frame_def lgw_parse_ubx_value [OF True] lgw_parse_ubx_frame [OF True] Let_def)
  next
    case False
    then have n: "nmea_frame f" using assms by blast
    note s = nmea_frame_split [OF n]
    have ne: "f ! 0 = 0x24" "f \<noteq> []" "8 \<le> length f" using n by (auto simp: nmea_frame_def)
    then have f: "byte_at f 0 = Inr 0x24" "byte_at (f @ t) 0 = Inr 0x24" "8 \<le> length f" by (simp_all add: nth_append)
    have mt: "memchr (f @ t) 0x0a (length f + k) = Inr (Some (length f - 1))" for t k
    proof -
      have "memchr (butlast f @ 0x0a # t) 0x0a (length f + k) = Inr (Some (length f - 1))"
        using memchr_append [OF s(2), of "length f + k" t] f(3) s(3) by simp
      moreover have "butlast f @ 0x0a # t = f @ t" using s(1) by (metis append.assoc append_Cons append_Nil)
      ultimately show ?thesis by simp
    qed
    have m: "memchr f 0x0a (length f) = Inr (Some (length f - 1))" using mt [of "[]" 0] by simp
    obtain msg g' where p: "lgw_parse_nmea f (length f) (gpsvars st) = Inr (msg, g')" "msg \<in> {IGNORED, NMEA_RMC, NMEA_GGA}"
      by (rule lgw_parse_nmea_valid [of "length f" f "gpsvars st"]) (use n assms(2) in \<open>auto simp: nmea_frame_def\<close>)
    moreover have "lgw_parse_nmea (f @ t) (length f) (gpsvars st) = Inr (msg, g')" using p by (simp add: lgw_parse_nmea_local)
    moreover have "Suc (length f - Suc 0) = length f" using f(3) by simp
    ultimately show ?thesis using f m mt
      by (cases "gps_process_coords env (st\<lparr>gpsvars := g'\<rparr>)") (auto simp: gps_handle_def gps_try_frame_def Let_def)
  qed
  then show "gps_try_frame env (f @ t) (length f + k) st = gps_try_frame env f (length f) st"
    and "gps_try_frame env f (length f) st = res_bind (gps_handle env f st) (\<lambda>st'. Inr (length f, st'))"
    by simp_all
qed

text \<open>The start of a frame is left alone, and so is what does not look like one.\<close>

lemma lgw_parse_ubx_no_sync:
  assumes "n \<le> length s" and "take 2 s \<noteq> [0xB5, 0x62] \<or> n < 8"
  shows "lgw_parse_ubx s n g = Inr (IGNORED, 0, g)"
  using assms by (cases "n < 8") (auto simp: lgw_parse_ubx_def)

lemma gps_try_frame_quiet:
  assumes "0 < n" and "n \<le> length s" and "s ! 0 \<noteq> 0x24" and "take 2 s \<noteq> [0xB5, 0x62] \<or> n < 8"
  shows "gps_try_frame env s n st = Inr (0, st)"
proof -
  have "0 < length s" using assms(1,2) by linarith
  then have "byte_at s 0 = Inr (s ! 0)" by (rule byte_at_nth)
  then show ?thesis using assms(3) lgw_parse_ubx_no_sync [OF assms(2,4)] by (simp add: gps_try_frame_def)
qed

lemma gps_try_frame_inert:
  assumes "inert_at (p @ r)" and "p \<noteq> []"
  shows "gps_try_frame env (p @ t) (length p) st = Inr (0, st)"
proof (cases "p ! 0 = 0x24")
  case False
  have "take 2 (p @ t) = take 2 (p @ r) \<or> length p < 8" by auto
  then have "take 2 (p @ t) \<noteq> [0xB5, 0x62] \<or> length p < 8" using assms(1) by (metis inert_at_def)
  then show ?thesis
    using assms(2) False by (intro gps_try_frame_quiet) (auto simp: nth_append simp del: take_append)
next
  case True
  then have c: "byte_at (p @ t) 0 = Inr 0x24" using assms(2) by (simp add: nth_append)
  have t1: "take 1 (p @ r) = [0x24]" using True assms(2) by (cases p) auto
  obtain e where e: "memchr p 0x0a (length p) = Inr e" using memchr_total by blast
  show ?thesis
  proof (cases e)
    case None
    then show ?thesis using c e by (simp add: gps_try_frame_def memchr_prefix)
  next
    case (Some i)
    have i: "i < length p" using memchr_less e Some by blast
    have "memchr (p @ r) 0x0a (length (p @ r)) = Inr (Some i)"
      using memchr_more [of "p @ r" "0x0a" "length p" i "length (p @ r)"] e Some by (simp add: memchr_prefix)
    then have "7 \<le> i \<longrightarrow> validate_nmea_checksum (p @ r) (i + 1) \<noteq> Inr True" using assms(1) t1 by (simp add: inert_at_def)
    moreover have v: "validate_nmea_checksum (p @ t') (i + 1) = validate_nmea_checksum p (i + 1)" for t'
      using validate_nmea_checksum_local [of "i + 1" p t'] i by simp
    obtain b where b: "validate_nmea_checksum p (i + 1) = Inr b" using validate_nmea_checksum_local [of "i + 1" p] i by auto
    ultimately have "\<not> (7 \<le> i \<and> b)" using v [of r] by auto
    then obtain m where "lgw_parse_nmea (p @ t) (i + 1) (gpsvars st) = Inr (m, gpsvars st)" "m = INVALID \<or> m = UNKNOWN"
      using v [of t] b by (cases "i < 7"; cases "255 < i + 1") (auto simp: lgw_parse_nmea_def)
    then show ?thesis using c e Some by (auto simp: gps_try_frame_def memchr_prefix Let_def)
  qed
qed

lemma gps_try_frame_partial:
  assumes "ubx_frame (p @ r) \<or> nmea_frame (p @ r)" and "p \<noteq> []" and "r \<noteq> []"
  shows "gps_try_frame env (p @ t) (length p) st = Inr (0, st)"
proof (cases "ubx_frame (p @ r)")
  case True
  have p0: "byte_at (p @ t) 0 = Inr 0xB5" using True assms(2) by (simp add: ubx_frame_def nth_append)
  show ?thesis
  proof (cases "length p < 8")
    case True
    then show ?thesis using p0 by (simp add: gps_try_frame_def lgw_parse_ubx_def)
  next
    case False
    then have l: "length p + length r = 8 + (unat (p ! 4) + 256 * unat (p ! 5))" and s: "p ! 0 = 0xB5" "p ! 1 = 0x62"
      using True assms(2) by (simp_all add: ubx_frame_def nth_append)
    have two: "take 2 (drop i p) = [p ! i, p ! (i + 1)]" if "i + 2 \<le> length p" for i
      using that by (subst take_2_nth) (simp_all add: add.commute)
    have "bytes_at (p @ t) 0 2 = Inr [0xB5, 0x62]" "bytes_at (p @ t) 4 2 = Inr [p ! 4, p ! 5]"
      using False two [of 0] two [of 4] s by simp_all
    moreover have "length p < 6 + (unat (p ! 4) + 256 * unat (p ! 5)) + 2" using l assms(3) by (cases r) auto
    ultimately show ?thesis using p0 False by (simp add: gps_try_frame_def lgw_parse_ubx_def Let_def)
  qed
next
  case False
  then have n: "nmea_frame (p @ r)" using assms by blast
  then have "0x0a \<notin> set p" and "p ! 0 = 0x24"
    using assms by (auto simp: nmea_frame_def butlast_append nth_append split: if_splits)
  then show ?thesis
    using assms(2) memchr_None [of "length p" "p @ t" "0x0a"] by (simp add: gps_try_frame_def nth_append)
qed


subsection \<open>Reassembly\<close>

lemma gps_scan_step:
  "pos < wr \<Longrightarrow> gps_try_frame env (drop pos buf) (wr - pos) st = Inr (0, st) \<Longrightarrow>
   gps_scan env buf wr pos fe st = gps_scan env buf wr (pos + 1) fe st"
  by (simp add: gps_scan.simps [of env buf wr pos])

lemma gps_scan_end: "gps_scan env buf wr wr fe st = Inr (fe, st)"
  by (simp add: gps_scan.simps [of env buf wr wr])

text \<open>Bytes between two frames, up to what has been received or to a byte that does not complete the sync characters.\<close>

lemma gps_scan_quiet:
  "quiet g \<Longrightarrow> wr = pos + length g \<or> pos + length g \<le> wr \<and> take 1 t \<noteq> [0x62] \<Longrightarrow> drop pos buf = g @ t \<Longrightarrow> wr \<le> length buf \<Longrightarrow>
   gps_scan env buf wr pos fe st = gps_scan env buf wr (pos + length g) fe st"
proof (induction g arbitrary: pos)
  case (Cons x g)
  have l: "wr - pos \<le> length (x # g @ t)" using Cons.prems(3,4) by (metis append_Cons diff_le_mono length_drop)
  have "take 2 (x # g @ t) \<noteq> [0xB5, 0x62] \<or> wr - pos < 8"
    using Cons.prems(1,2) by (cases g; cases t) auto
  then have "gps_try_frame env (drop pos buf) (wr - pos) st = Inr (0, st)"
    unfolding Cons.prems(3) using Cons.prems(1,2) l by (intro gps_try_frame_quiet) auto
  then have "gps_scan env buf wr pos fe st = gps_scan env buf wr (pos + 1) fe st"
    using Cons.prems(2) by (intro gps_scan_step) auto
  also have "\<dots> = gps_scan env buf wr (pos + 1 + length g) fe st"
    using Cons.prems by (intro Cons.IH) (auto simp: drop_Suc tl_drop [symmetric])
  finally show ?case by simp
qed simp

lemma gps_scan_inert:
  "inert (p @ r) \<Longrightarrow> drop pos buf = p @ t \<Longrightarrow> wr = pos + length p \<Longrightarrow> gps_scan env buf wr pos fe st = Inr (fe, st)"
proof (induction p arbitrary: pos)
  case Nil
  then show ?case using gps_scan_end by simp
next
  case (Cons x p)
  have "gps_try_frame env (drop pos buf) (wr - pos) st = Inr (0, st)"
    using Cons.prems gps_try_frame_inert [of "x # p" r env t st] by simp
  then have "gps_scan env buf wr pos fe st = gps_scan env buf wr (pos + 1) fe st"
    using Cons.prems(3) by (intro gps_scan_step) auto
  also have "\<dots> = Inr (fe, st)"
    using Cons.prems by (intro Cons.IH) (auto simp: drop_Suc tl_drop [symmetric])
  finally show ?case .
qed

lemma gps_scan_frame:
  assumes "ubx_frame f \<or> nmea_frame f" and "length f \<le> 255" and "drop pos buf = f @ t" and "pos + length f \<le> wr"
  shows "gps_scan env buf wr pos fe st =
    res_bind (gps_handle env f st) (\<lambda>st'. gps_scan env buf wr (pos + length f) (pos + length f) st')"
proof -
  obtain k where k: "wr - pos = length f + k" using assms(4) by (metis add_diff_cancel_left' diff_add_inverse le_Suc_ex add.assoc)
  have f: "0 < length f" using assms(1) by (auto simp: ubx_frame_def nmea_frame_def)
  moreover have "pos < wr" using f assms(4) by linarith
  ultimately show ?thesis
    using assms k gps_try_frame_append(1) [OF assms(1,2), of env t k st] gps_try_frame_append(2) [OF assms(1,2), of env st]
    by (cases "gps_handle env f st") (auto simp: gps_scan.simps [of env buf wr pos])
qed

text \<open>The bytes of segment \<open>seg\<close> so far, with something still to come.\<close>

definition gps_partial :: "u8 list \<Rightarrow> bool" where
  "gps_partial p \<longleftrightarrow> (\<exists>seg r. gps_segment seg \<and> segment_bytes seg = p @ r \<and> r \<noteq> [])"

lemma quiet_append: "quiet (xs @ ys) \<Longrightarrow> quiet xs"
proof (induction xs)
  case (Cons x xs)
  then show ?case by (cases xs) auto
qed simp

lemma segment_head:
  assumes "gps_segment (g, f)"
  shows "take 1 f \<noteq> [0x62]" and "f \<noteq> []" and "8 \<le> length f"
proof -
  have f: "f ! 0 = 0xB5 \<or> f ! 0 = 0x24" "8 \<le> length f" using assms by (auto simp: gps_segment_def ubx_frame_def nmea_frame_def)
  then show "f \<noteq> []" "8 \<le> length f" by auto
  then show "take 1 f \<noteq> [0x62]" using f(1) by (cases f) auto
qed

lemma gps_scan_partial:
  assumes "gps_partial p" and "drop pos buf = p @ t" and "wr = pos + length p" and "wr \<le> length buf"
  shows "gps_scan env buf wr pos fe st = Inr (fe, st)"
proof -
  obtain g f r where seg: "gps_segment (g, f)" and gf: "g @ f = p @ r" and r: "r \<noteq> []"
    using assms(1) unfolding gps_partial_def by auto
  from gf consider us where "g = p @ us" | q where "p = g @ q" "f = q @ r" by (auto simp: append_eq_append_conv2)
  then show ?thesis
  proof cases
    case 1
    then have "quiet p" using seg quiet_append [of p us] by (simp add: gps_segment_def)
    then show ?thesis using gps_scan_quiet [of p wr pos t] assms gps_scan_end by simp
  next
    case 2
    note f0 = segment_head [OF seg]
    show ?thesis
    proof (cases q)
      case Nil
      then show ?thesis
        using gps_scan_quiet [of g wr pos t] seg 2 assms gps_scan_end by (simp add: gps_segment_def)
    next
      case (Cons x q')
      have d: "drop (pos + length g) buf = q @ t" using assms 2 by (metis add.commute append.assoc append_eq_conv_conj drop_drop)
      have "gps_scan env buf wr pos fe st = gps_scan env buf wr (pos + length g) fe st"
        using seg 2 assms Cons f0(1) by (intro gps_scan_quiet [of _ _ _ "q @ t"]) (auto simp: gps_segment_def)
      moreover have "gps_try_frame env (drop (pos + length g) buf) (wr - (pos + length g)) st = Inr (0, st)"
        using gps_try_frame_partial [of q r env t st] seg 2 r assms(3) d Cons by (auto simp: gps_segment_def)
      then have "gps_scan env buf wr (pos + length g) fe st = gps_scan env buf wr (pos + length g + 1) fe st"
        using assms(3) 2 Cons by (intro gps_scan_step) auto
      moreover have "tl (butlast f) = q' @ butlast r" using 2 Cons r by (simp add: butlast_append)
      then have "gps_scan env buf wr (pos + length g + 1) fe st = Inr (fe, st)"
        using d Cons assms(3) 2 seg by (intro gps_scan_inert [of q' "butlast r" _ _ t]) (auto simp: gps_segment_def drop_Suc tl_drop [symmetric])
      ultimately show ?thesis by simp
    qed
  qed
qed

lemma gps_scan_segments:
  assumes "list_all gps_segment segs" and "gps_partial p" and "drop pos buf = concat (map segment_bytes segs) @ p @ t"
    and "wr = pos + length (concat (map segment_bytes segs)) + length p" and "wr \<le> length buf"
  shows "gps_scan env buf wr pos fe st =
    res_bind (gps_handle_all env segs st) (\<lambda>st'. Inr (if segs = [] then fe else pos + length (concat (map segment_bytes segs)), st'))"
  using assms
proof (induction segs arbitrary: pos fe st)
  case Nil
  then show ?case using gps_scan_partial by simp
next
  case (Cons seg segs)
  obtain g f where seg: "seg = (g, f)" by fastforce
  define rest where "rest = concat (map segment_bytes segs) @ p @ t"
  have s: "gps_segment (g, f)" using Cons.prems(1) seg by simp
  have d: "drop pos buf = g @ f @ rest" using Cons.prems(3) seg by (simp add: rest_def)
  then have df: "drop (pos + length g) buf = f @ rest" by (metis add.commute append_eq_conv_conj drop_drop)
  then have dr: "drop (pos + length g + length f) buf = rest" by (metis add.commute append_eq_conv_conj drop_drop)
  have "gps_scan env buf wr pos fe st = gps_scan env buf wr (pos + length g) fe st"
    using s d Cons.prems(4,5) seg segment_head [OF s] by (intro gps_scan_quiet [of _ _ _ "f @ rest"]) (auto simp: gps_segment_def neq_Nil_conv)
  also have "\<dots> = res_bind (gps_handle env f st)
      (\<lambda>st'. gps_scan env buf wr (pos + length g + length f) (pos + length g + length f) st')"
    using s df Cons.prems(4) seg by (intro gps_scan_frame) (auto simp: gps_segment_def)
  also have "\<dots> = res_bind (gps_handle env f st) (\<lambda>st'. res_bind (gps_handle_all env segs st')
      (\<lambda>st''. Inr (pos + length g + length f + length (concat (map segment_bytes segs)), st'')))"
  proof -
    have "gps_scan env buf wr (pos + length g + length f) (pos + length g + length f) st' =
      res_bind (gps_handle_all env segs st') (\<lambda>st''. Inr (pos + length g + length f + length (concat (map segment_bytes segs)), st''))" for st'
      using Cons.IH [of "pos + length g + length f" "pos + length g + length f" st'] Cons.prems dr seg
      by (cases "segs = []") (simp_all add: rest_def)
    then show ?thesis by simp
  qed
  finally show ?case using seg by (cases "gps_handle env f st") (simp_all add: add.assoc)
qed


text \<open>The buffer holds exactly the bytes \<open>p\<close>.\<close>

definition serial_holds :: "gps_serial \<Rightarrow> u8 list \<Rightarrow> bool" where
  "serial_holds b p \<longleftrightarrow> length (serial_buff b) = 128 \<and> wr_idx b = length p \<and> take (length p) (serial_buff b) = p"

lemma gps_partial_length: "gps_partial p \<Longrightarrow> length p \<le> 120"
proof -
  assume "gps_partial p"
  then obtain g f r where "gps_segment (g, f)" "g @ f = p @ r" "r \<noteq> []" unfolding gps_partial_def by auto
  moreover from this(2) have "length g + length f = length p + length r" by (metis length_append)
  ultimately have "length g + length f \<le> 121" "length g + length f = length p + length r" "0 < length r"
    by (simp_all add: gps_segment_def)
  then show ?thesis by linarith
qed

lemma gps_compact_holds:
  assumes "length (serial_buff b) = 128" and "wr_idx b \<le> 128" and "take (wr_idx b) (serial_buff b) = xs @ p" and "length xs = n" and "length p \<le> n"
  shows "\<exists>b'. gps_compact env n b = Inr b' \<and> serial_holds b' p"
proof -
  have "wr_idx b = n + length p" using assms by (metis length_append length_take min.absorb2)
  moreover have "take (wr_idx b - n) (drop n (serial_buff b)) = p" using assms by (metis append_eq_conv_conj drop_take)
  ultimately show ?thesis using assms by (simp add: serial_holds_def gps_compact_def mem_write_def)
qed

text \<open>The reads are so short that what follows the last frame is shorter than a frame: the copy to the front of the buffer does not overlap.\<close>

lemma thread_gps_turn_segments:
  assumes "serial_holds b p" and "p @ bytes = concat (map segment_bytes segs) @ p'"
    and "list_all gps_segment segs" and "gps_partial p'" and "length p \<le> 120" and "length bytes \<le> 8" and "bytes \<noteq> []"
    and "segs \<noteq> [] \<longrightarrow> length p < length (segment_bytes (hd segs))"
  shows "\<exists>b'. serial_holds b' p' \<and> thread_gps_turn env bytes (b, st) = res_bind (gps_handle_all env segs st) (\<lambda>st'. Inr (b', st'))"
proof -
  define dn where "dn = concat (map segment_bytes segs)"
  define buf where "buf = take (wr_idx b) (serial_buff b) @ bytes @ drop (wr_idx b + length bytes) (serial_buff b)"
  define b1 where "b1 = \<lparr>serial_buff = buf, wr_idx = wr_idx b + length bytes\<rparr>"
  have l: "wr_idx b + length bytes \<le> 128" "length buf = 128" using assms(1,5,6) by (simp_all add: serial_holds_def buf_def)
  have wr: "wr_idx b + length bytes = length dn + length p'" 
  proof -
    have "length (p @ bytes) = length (dn @ p')" unfolding dn_def by (rule arg_cong [OF assms(2)])
    then show ?thesis using assms(1) by (simp add: serial_holds_def)
  qed
  have "take (wr_idx b) (serial_buff b) @ bytes = dn @ p'"
    using assms(1,2) by (simp add: dn_def serial_holds_def)
  then have bf: "buf = dn @ p' @ drop (wr_idx b + length bytes) (serial_buff b)"
    unfolding buf_def by (metis append.assoc)
  have scan: "gps_scan env buf (wr_idx b + length bytes) 0 0 st = res_bind (gps_handle_all env segs st) (\<lambda>st'. Inr (length dn, st'))"
    using gps_scan_segments [OF assms(3,4), of 0 buf "drop (wr_idx b + length bytes) (serial_buff b)" "wr_idx b + length bytes" env 0 st] wr bf l
    by (auto simp: dn_def)
  obtain b2 where b2: "serial_holds b2 p'" and c: "(if length dn \<noteq> 0 then gps_compact env (length dn) b1 else Inr b1) = Inr b2"
  proof (cases "segs = []")
    case True
    then show ?thesis using that [of b1] wr bf l by (simp add: dn_def b1_def serial_holds_def)
  next
    case False
    then obtain g f segs' where sg: "segs = (g, f) # segs'" "gps_segment (g, f)" using assms(3) by (cases segs) auto
    then have dn: "8 \<le> length dn" "length p < length dn" using assms(8) segment_head(3) [OF sg(2)] by (auto simp: dn_def)
    then have "length p' \<le> length dn" using wr assms(1,6) by (simp add: serial_holds_def)
    then obtain b' where "gps_compact env (length dn) b1 = Inr b'" "serial_holds b' p'"
      using gps_compact_holds [of b1 dn p' "length dn" env] l wr bf by (auto simp: b1_def)
    moreover have "dn \<noteq> []" using dn(1) by auto
    ultimately show ?thesis using that [of b'] by simp
  qed
  then have w: "\<not> 128 - wr_idx b2 < 8" using gps_partial_length [OF assms(4)] by (simp add: serial_holds_def)
  have "thread_gps_turn env bytes (b, st) = res_bind (gps_scan env buf (wr_idx b + length bytes) 0 0 st) (\<lambda>(fe, st').
      res_bind (if fe \<noteq> 0 then gps_compact env fe b1 else Inr b1) (\<lambda>b2.
        res_bind (if 128 - wr_idx b2 < 8 then gps_compact env 8 b2 else Inr b2) (\<lambda>b3. Inr (b3, st'))))"
    using assms(7) l(1) unfolding b1_def buf_def by (simp add: thread_gps_turn_def Let_def)
  then have "thread_gps_turn env bytes (b, st) = res_bind (gps_handle_all env segs st) (\<lambda>st'. Inr (b2, st'))"
    using w c unfolding scan by (cases "gps_handle_all env segs st") simp_all
  then show ?thesis using b2 by blast
qed


text \<open>Where the bytes received so far end: after some segments, and inside the next.\<close>

lemma segments_prefix:
  assumes "list_all gps_segment segs" and "gps_partial q" and "concat (map segment_bytes segs) @ q = xs @ ys"
  shows "\<exists>segs1 segs2 p. segs = segs1 @ segs2 \<and> xs = concat (map segment_bytes segs1) @ p \<and> gps_partial p \<and>
    p @ ys = concat (map segment_bytes segs2) @ q \<and> (segs2 \<noteq> [] \<longrightarrow> length p < length (segment_bytes (hd segs2)))"
  using assms
proof (induction segs arbitrary: xs)
  case Nil
  then obtain seg r where "gps_segment seg" "segment_bytes seg = (xs @ ys) @ r" "r \<noteq> []" unfolding gps_partial_def by auto
  then have "gps_partial xs" unfolding gps_partial_def by (intro exI [of _ seg] exI [of _ "ys @ r"]) simp
  then show ?case using Nil.prems(3) by (intro exI [of _ "[]"] exI [of _ xs]) simp
next
  case (Cons seg segs)
  then have "segment_bytes seg @ (concat (map segment_bytes segs) @ q) = xs @ ys" by simp
  then consider zs where "xs = segment_bytes seg @ zs" "concat (map segment_bytes segs) @ q = zs @ ys"
    | zs where "segment_bytes seg = xs @ zs" "zs \<noteq> []" "zs @ concat (map segment_bytes segs) @ q = ys"
    unfolding append_eq_append_conv2 by (cases "length xs < length (segment_bytes seg)") fastforce+
  then show ?case
  proof cases
    case 1
    then obtain s1 s2 p where "segs = s1 @ s2" "zs = concat (map segment_bytes s1) @ p" "gps_partial p"
      "p @ ys = concat (map segment_bytes s2) @ q" "s2 \<noteq> [] \<longrightarrow> length p < length (segment_bytes (hd s2))"
      using Cons.IH [of zs] Cons.prems(1,2) by auto
    then show ?thesis using 1 by (intro exI [of _ "seg # s1"] exI [of _ s2] exI [of _ p]) simp
  next
    case 2
    have "gps_partial xs" using 2 Cons.prems(1) unfolding gps_partial_def by (intro exI [of _ seg] exI [of _ zs]) simp
    then show ?thesis using 2 by (intro exI [of _ "[]"] exI [of _ "seg # segs"] exI [of _ xs]) simp
  qed
qed

lemma gps_handle_all_append:
  "gps_handle_all env (segs1 @ segs2) st = res_bind (gps_handle_all env segs1 st) (gps_handle_all env segs2)"
proof (induction segs1 arbitrary: st)
  case (Cons seg segs1)
  then show ?case by (cases "gps_handle env (snd seg) st") simp_all
qed simp

lemma thread_gps_segments:
  assumes "serial_holds b p" and "gps_partial p" and "p @ concat reads = concat (map segment_bytes segs) @ q"
    and "list_all gps_segment segs" and "gps_partial q" and "list_all (\<lambda>r. length r \<le> 8) reads"
    and "segs \<noteq> [] \<longrightarrow> length p < length (segment_bytes (hd segs))"
  shows "\<exists>b'. serial_holds b' q \<and> thread_gps env reads (b, st) = res_bind (gps_handle_all env segs st) (\<lambda>st'. Inr (b', st'))"
  using assms
proof (induction reads arbitrary: b p segs st)
  case Nil
  then have "segs = []" by (cases segs) auto
  then show ?case using Nil by auto
next
  case (Cons r rs)
  show ?case
  proof (cases "r = []")
    case True
    then show ?thesis using Cons by (simp add: thread_gps_turn_def)
  next
    case False
    have "concat (map segment_bytes segs) @ q = (p @ r) @ concat rs" using Cons.prems(3) by simp
    from segments_prefix [OF Cons.prems(4,5) this] obtain s1 s2 p' where s: "segs = s1 @ s2" "p @ r = concat (map segment_bytes s1) @ p'" "gps_partial p'"
      "p' @ concat rs = concat (map segment_bytes s2) @ q" "s2 \<noteq> [] \<longrightarrow> length p' < length (segment_bytes (hd s2))"
      by blast
    obtain b1 where b1: "serial_holds b1 p'"
      "thread_gps_turn env r (b, st) = res_bind (gps_handle_all env s1 st) (\<lambda>st'. Inr (b1, st'))"
      using thread_gps_turn_segments [OF Cons.prems(1) s(2) _ s(3), of env st] Cons.prems s(1) False gps_partial_length by (cases s1) auto
    show ?thesis
    proof (cases "gps_handle_all env s1 st")
      case (Inl e)
      obtain b' where "serial_holds b' q" using Cons.IH [OF b1(1) s(3,4)] Cons.prems s(1,5) by auto
      then show ?thesis using Inl b1(2) s(1) by (auto simp: gps_handle_all_append)
    next
      case (Inr st1)
      have "\<exists>b'. serial_holds b' q \<and> thread_gps env rs (b1, st1) = res_bind (gps_handle_all env s2 st1) (\<lambda>st'. Inr (b', st'))"
        using Cons.IH [OF b1(1) s(3,4)] Cons.prems s(1,5) by auto
      then show ?thesis using Inr b1(2) s(1) by (auto simp: gps_handle_all_append)
    qed
  qed
qed


lemma segment_nonempty: "gps_segment seg \<Longrightarrow> segment_bytes seg \<noteq> []"
  by (auto simp: gps_segment_def ubx_frame_def nmea_frame_def)

text \<open>
  C30. The bytes of the GPS receiver are read in pieces of any size up to eight bytes. However they are cut, the thread handles exactly the frames of the stream, each once, in
  order and as if it had been alone in the buffer, and keeps the start of the frame that is still incomplete. This holds for streams of UBX messages and NMEA sentences with a correct
  checksum, NAV-TIMEGPS messages not being too short, with stray bytes in front of each: sync characters may occur inside a frame as long as no part of it is a message
  of its own, the stray bytes contain neither a dollar sign nor the two sync characters of UBX, and frame and stray bytes together have at most 121 bytes, what is sure to fit the buffer.
\<close>

theorem thread_gps_refines:
  assumes "list_all gps_segment segs" and "gps_partial q" and "concat reads = concat (map segment_bytes segs) @ q"
    and "list_all (\<lambda>r. length r \<le> 8) reads"
  shows "\<exists>b. serial_holds b q \<and>
    thread_gps env reads (gps_serial_init, st) = res_bind (gps_handle_all env segs st) (\<lambda>st'. Inr (b, st'))"
proof (rule thread_gps_segments [OF _ _ _ assms(1,2,4)])
  show "serial_holds gps_serial_init []" by (simp add: serial_holds_def gps_serial_init_def)
  show "gps_partial []" using assms(2) segment_nonempty unfolding gps_partial_def by fastforce
  show "[] @ concat reads = concat (map segment_bytes segs) @ q" using assms(3) by simp
  show "segs \<noteq> [] \<longrightarrow> length [] < length (segment_bytes (hd segs))"
    using assms(1) segment_nonempty [of "hd segs"] by (cases segs) auto
qed

definition example_sentence :: "u8 list" where
  "example_sentence = cstr ''$AB*03'' @ [13, 10]"

definition example_timegps :: "u8 list" where
  "example_timegps = [0xB5, 0x62, 0x01, 0x20, 16, 0, 0xE8, 0x03, 0, 0, 0, 0, 0, 0, 0x08, 0, 18, 7, 0, 0, 0, 0, 0x3d, 0x10]"

text \<open>A message with both sync characters and a line feed in its payload.\<close>

definition example_timegps_sync :: "u8 list" where
  "example_timegps_sync = [0xB5, 0x62, 0x01, 0x20, 16, 0, 0xB5, 0x24, 0xB5, 0x05, 0x24, 0x0A, 0xFF, 0xFF, 0xB5, 0x08, 18, 7, 0, 0, 0, 0, 0xC6, 0xA1]"

lemma example_segments: "gps_segment ([0, 1], example_sentence)" "gps_segment ([], example_timegps)" "gps_segment ([0xB5], example_timegps_sync)"
  by code_simp+

theorem thread_gps_refines_witness:
  "\<forall>env st. \<exists>b. serial_holds b [0xB5] \<and>
    thread_gps env [[0, 1, 36], [65, 66], [], [42, 48, 51, 13, 10, 0xB5], take 7 example_timegps_sync, take 8 (drop 7 example_timegps_sync),
        drop 15 (butlast example_timegps_sync), [0xA1, 0xB5]] (gps_serial_init, st) =
      res_bind (gps_handle_all env [([0, 1], example_sentence), ([0xB5], example_timegps_sync)] st) (\<lambda>st'. Inr (b, st'))"
proof (intro allI, rule thread_gps_refines)
  have "segment_bytes ([], example_timegps) = [0xB5] @ tl example_timegps" "tl example_timegps \<noteq> []" by code_simp+
  then show "gps_partial [0xB5]" using example_segments(2) unfolding gps_partial_def by blast
  show "concat [[0, 1, 36], [65, 66], [], [42, 48, 51, 13, 10, 0xB5], take 7 example_timegps_sync, take 8 (drop 7 example_timegps_sync),
      drop 15 (butlast example_timegps_sync), [0xA1, 0xB5]] =
    concat (map segment_bytes [([0, 1], example_sentence), ([0xB5], example_timegps_sync)]) @ [0xB5]" by code_simp
  show "list_all (\<lambda>r. length r \<le> 8) [[0, 1, 36], [65, 66], [], [42, 48, 51, 13, 10, 0xB5], take 7 example_timegps_sync, take 8 (drop 7 example_timegps_sync),
      drop 15 (butlast example_timegps_sync), [0xA1, 0xB5]]" by code_simp
qed (simp add: example_segments)


subsection \<open>Bounds\<close>

text \<open>The header of a NAV-TIMEGPS message that is too short for its validity flags.\<close>

definition short_timegps :: "u8 list \<Rightarrow> bool" where
  "short_timegps s \<longleftrightarrow> 6 \<le> length s \<and> take 4 s = [0xB5, 0x62, 0x01, 0x20] \<and> unat (s ! 4) + 256 * unat (s ! 5) < 10"

definition no_short_timegps :: "u8 list \<Rightarrow> bool" where
  "no_short_timegps s \<longleftrightarrow> list_all (\<lambda>i. \<not> short_timegps (drop i s)) [0..<length s]"

lemma ubx_timegps_fault: "ubx_timegps s g = Inl e \<Longrightarrow> length s \<le> 17 \<and> e = OutOfBounds"
  by (cases "17 < length s") (auto simp: ubx_timegps_def le32_def le16_def byte_at_def split: if_splits)

text \<open>Inside what has been received every read of the parser is in bounds, up to the validity flags.\<close>

lemma lgw_parse_ubx_cases:
  assumes "n \<le> length s"
  obtains (none) "lgw_parse_ubx s n g = Inr (IGNORED, 0, g)"
  | (other) m k where "lgw_parse_ubx s n g = Inr (m, k, g)" and "k \<le> n \<or> m = INCOMPLETE"
  | (time) k where "8 \<le> n" and "s ! 0 = 0xB5" and "s ! 1 = 0x62" and "s ! 2 = 0x01" and "s ! 3 = 0x20"
      and "k = 8 + (unat (s ! 4) + 256 * unat (s ! 5))" and "k \<le> n"
      and "lgw_parse_ubx s n g = res_bind (ubx_timegps s g) (\<lambda>g'. Inr (UBX_NAV_TIMEGPS, k, g'))"
proof (cases "n < 8 \<or> take 2 s \<noteq> [0xB5, 0x62]")
  case True
  then show ?thesis using none lgw_parse_ubx_no_sync [OF assms, of g] by blast
next
  case False
  define p where "p = unat (s ! 4) + 256 * unat (s ! 5)"
  have two: "bytes_at s i 2 = Inr [s ! i, s ! (i + 1)]" if "i + 2 \<le> length s" for i
  proof -
    have "take 2 (drop i s) = [s ! i, s ! (i + 1)]" using that by (subst take_2_nth) (simp_all add: add.commute)
    then show ?thesis using that by simp
  qed
  have l: "8 \<le> n" "8 \<le> length s" using False assms by simp_all
  then have hd: "s ! 0 = 0xB5" "s ! 1 = 0x62" "bytes_at s 0 2 = Inr [0xB5, 0x62]" using False take_2_nth [of s] by simp_all
  have e: "lgw_parse_ubx s n g =
    (if n < 8 + p then Inr (INCOMPLETE, 8 + p, g)
     else res_bind (bytes_at s (6 + p) 2) (\<lambda>ck. res_bind (bytes_at s 2 (4 + p)) (\<lambda>body.
       if ubx_fletcher body \<noteq> (ck ! 0, ck ! 1) then Inr (INVALID, 8 + p, g)
       else if [s ! 2, s ! 3] = [0x01, 0x20] then res_bind (ubx_timegps s g) (\<lambda>g'. Inr (UBX_NAV_TIMEGPS, 8 + p, g')) else Inr (IGNORED, 8 + p, g))))"
  proof -
    have b: "bytes_at s 4 2 = Inr [s ! 4, s ! 5]" "bytes_at s 2 2 = Inr [s ! 2, s ! 3]" using two [of 4] two [of 2] l by simp_all
    have n: "unat ([s ! 4, s ! 5] ! 0) + 256 * unat ([s ! 4, s ! 5] ! 1) = p" "6 + p + 2 = 8 + p" "8 + p - 2 = 6 + p" by (simp_all add: p_def)
    show ?thesis unfolding lgw_parse_ubx_def hd(3) b res_bind_simps Let_def n using l(1) by simp
  qed
  show ?thesis
  proof (cases "n < 8 + p")
    case True
    then show ?thesis using e other [of INCOMPLETE "8 + p"] by simp
  next
    case n: False
    then have r: "bytes_at s (6 + p) 2 = Inr [s ! (6 + p), s ! (7 + p)]" "bytes_at s 2 (4 + p) = Inr (take (4 + p) (drop 2 s))"
      using two [of "6 + p"] assms by (simp_all add: add.commute)
    consider "ubx_fletcher (take (4 + p) (drop 2 s)) \<noteq> (s ! (6 + p), s ! (7 + p))"
      | "ubx_fletcher (take (4 + p) (drop 2 s)) = (s ! (6 + p), s ! (7 + p))" "s ! 2 = 0x01 \<and> s ! 3 = 0x20"
      | "ubx_fletcher (take (4 + p) (drop 2 s)) = (s ! (6 + p), s ! (7 + p))" "\<not> (s ! 2 = 0x01 \<and> s ! 3 = 0x20)" by blast
    then show ?thesis
    proof cases
      case 1
      then show ?thesis using e r n other [of INVALID "8 + p"] by simp
    next
      case 2
      then show ?thesis using e r n l hd time [of "8 + p"] by (simp add: p_def)
    next
      case 3
      then show ?thesis using e r n other [of IGNORED "8 + p"] by auto
    qed
  qed
qed

lemma lgw_parse_ubx_fault:
  assumes "lgw_parse_ubx s n g = Inl e" and "n \<le> length s"
  shows "8 \<le> n" and "s ! 0 = 0xB5" and "s ! 1 = 0x62" and "s ! 2 = 0x01" and "s ! 3 = 0x20"
    and "8 + (unat (s ! 4) + 256 * unat (s ! 5)) \<le> n" and "length s \<le> 17" and "e = OutOfBounds"
  using assms(1) by (cases rule: lgw_parse_ubx_cases [OF assms(2), of g]; auto simp: res_bind_Inl_iff dest: ubx_timegps_fault)+

lemma lgw_parse_ubx_size: "lgw_parse_ubx s n g = Inr (m, k, g') \<Longrightarrow> n \<le> length s \<Longrightarrow> k \<le> n \<or> m = INCOMPLETE"
  by (cases rule: lgw_parse_ubx_cases [of n s g]) (auto simp: res_bind_Inr_iff)

lemma gps_get_utc_fault: "gps_get_utc tz g = Inl e \<Longrightarrow> e = UndefinedConversion"
  by (auto simp: gps_get_utc_def Let_def split: if_splits option.splits)

lemma lgw_gps_get_fault: "lgw_gps_get tz u t l er g = Inl e \<Longrightarrow> e = UndefinedConversion"
  by (auto simp: lgw_gps_get_def Let_def res_bind_Inl_iff gps_get_utc_fault split: if_splits)

lemma gps_sync_call_fault: "gps_sync_call env st = Inl e \<Longrightarrow> e = UndefinedConversion"
  by (auto simp: gps_sync_call_def Let_def res_bind_Inl_iff lgw_gps_get_fault)

lemma gps_process_coords_fault: "gps_process_coords env st = Inl e \<Longrightarrow> e = UndefinedConversion"
  by (auto simp: gps_process_coords_def Let_def res_bind_Inl_iff lgw_gps_get_fault split: if_splits)

lemma gps_try_frame_size:
  assumes "gps_try_frame env s n st = Inr (k, st')" and "n \<le> length s"
  shows "k \<le> n"
proof -
  obtain c where c: "byte_at s 0 = Inr c" using assms(1) by (cases "byte_at s 0") (auto simp: gps_try_frame_def)
  show ?thesis
  proof (cases "c = 0xB5")
    case True
    then obtain m k' g where p: "lgw_parse_ubx s n (gpsvars st) = Inr (m, k', g)"
      using assms(1) c by (cases "lgw_parse_ubx s n (gpsvars st)") (auto simp: gps_try_frame_def)
    have "k = 0 \<or> k = k' \<and> m \<noteq> INCOMPLETE"
      using assms(1) c True p by (auto simp: gps_try_frame_def Let_def res_bind_Inr_iff split: if_splits)
    then show ?thesis using lgw_parse_ubx_size [OF p assms(2)] by auto
  next
    case False
    obtain r where r: "memchr s 0x0a n = Inr r" using memchr_total [OF assms(2)] by blast
    have "k = 0 \<or> (\<exists>e. r = Some e \<and> k = e + 1)"
      using assms(1) c False r by (cases r) (auto simp: gps_try_frame_def Let_def res_bind_Inr_iff split: if_splits)
    then show ?thesis using memchr_less r by fastforce
  qed
qed

lemma gps_try_frame_fault:
  assumes "gps_try_frame env s n st = Inl e" and "n \<le> length s" and "0 < n"
  shows "e = UndefinedConversion \<or> lgw_parse_ubx s n (gpsvars st) = Inl e"
proof -
  have c: "byte_at s 0 = Inr (s ! 0)" using assms(2,3) by (intro byte_at_nth) linarith
  obtain r where r: "memchr s 0x0a n = Inr r" using memchr_total [OF assms(2)] by blast
  have nmea: "\<exists>m g. lgw_parse_nmea s (i + 1) (gpsvars st) = Inr (m, g)" if "r = Some i" for i
    using memchr_less [of s "0x0a" n i] r that assms(2) lgw_parse_nmea_local(2) [of "i + 1" s "gpsvars st"] by auto
  show ?thesis
  proof (cases r)
    case None
    then show ?thesis using assms(1) c r
      by (auto simp: gps_try_frame_def Let_def res_bind_Inl_iff dest: gps_sync_call_fault split: if_splits)
  next
    case (Some i)
    then show ?thesis using assms(1) c r nmea [OF Some]
      by (auto simp: gps_try_frame_def Let_def res_bind_Inl_iff dest: gps_sync_call_fault gps_process_coords_fault split: if_splits)
  qed
qed

text \<open>What the loop reads lies between the bounds; the only access beyond them is that of a short message.\<close>

lemma gps_scan_bounds:
  assumes "pos \<le> wr" and "wr \<le> length buf" and "fe \<le> wr"
  shows "gps_scan env buf wr pos fe st = Inr (k, st') \<Longrightarrow> k \<le> wr"
    and "gps_scan env buf wr pos fe st = Inl e \<Longrightarrow> e = UndefinedConversion \<or> \<not> no_short_timegps (take wr buf)"
proof -
  have "(\<forall>k st'. gps_scan env buf wr pos fe st = Inr (k, st') \<longrightarrow> k \<le> wr) \<and>
    (\<forall>e. gps_scan env buf wr pos fe st = Inl e \<longrightarrow> e = UndefinedConversion \<or> \<not> no_short_timegps (take wr buf))"
    using assms
  proof (induction env buf wr pos fe st rule: gps_scan.induct)
    case (1 env buf wr pos fe st)
    show ?case
    proof (cases "pos < wr")
      case False
      then have "pos = wr" using "1.prems" by simp
      then show ?thesis using "1.prems" by (simp add: gps_scan_end)
    next
      case True
      show ?thesis
      proof (cases "gps_try_frame env (drop pos buf) (wr - pos) st")
        case (Inl e)
        have ln: "wr - pos \<le> length (drop pos buf)" "0 < wr - pos" using True "1.prems" by simp_all
        have "\<not> no_short_timegps (take wr buf)" if "lgw_parse_ubx (drop pos buf) (wr - pos) (gpsvars st) = Inl e"
        proof -
          note f = lgw_parse_ubx_fault [OF that ln(1)]
          define d where "d = drop pos buf"
          have dl: "8 \<le> length d" "d ! 0 = 0xB5" "d ! 1 = 0x62" "d ! 2 = 0x01" "d ! 3 = 0x20" "length d \<le> 17"
            "8 + (unat (d ! 4) + 256 * unat (d ! 5)) \<le> wr - pos" "wr - pos \<le> length d"
            using f "1.prems" unfolding d_def by simp_all
          have n: "drop pos (take wr buf) = take (wr - pos) d" by (simp add: d_def drop_take)
          have "8 \<le> wr - pos" using f(1) .
          moreover have "take 4 d = [d ! 0, d ! 1, d ! 2, d ! 3]" using dl(1)
            by (auto simp: list_eq_iff_nth_eq less_Suc_eq numeral_eq_Suc)
          ultimately have "short_timegps (drop pos (take wr buf))" using dl unfolding n short_timegps_def
            by (simp add: min_def)
          moreover have "pos < length (take wr buf)" using True "1.prems" by simp
          ultimately show ?thesis by (auto simp: no_short_timegps_def list_all_iff)
        qed
        then show ?thesis using Inl True gps_try_frame_fault [OF Inl ln] by (auto simp: gps_scan.simps [of env buf wr pos])
      next
        case (Inr p)
        obtain k st1 where p: "p = (k, st1)" by fastforce
        have k: "k \<le> wr - pos" using gps_try_frame_size [of env "drop pos buf" "wr - pos" st k st1] Inr p "1.prems" by simp
        show ?thesis
        proof (cases "0 < k")
          case True
          then show ?thesis using "1.IH"(1) [OF \<open>pos < wr\<close> Inr p [symmetric] True] "1.prems" \<open>pos < wr\<close> k Inr p
            by (simp add: gps_scan.simps [of env buf wr pos])
        next
          case False
          then show ?thesis using "1.IH"(2) [OF \<open>pos < wr\<close> Inr p [symmetric] False] "1.prems" \<open>pos < wr\<close> k Inr p
            by (simp add: gps_scan.simps [of env buf wr pos])
        qed
      qed
    qed
  qed
  then show "gps_scan env buf wr pos fe st = Inr (k, st') \<Longrightarrow> k \<le> wr"
    and "gps_scan env buf wr pos fe st = Inl e \<Longrightarrow> e = UndefinedConversion \<or> \<not> no_short_timegps (take wr buf)"
    by blast+
qed


lemma short_timegps_append: "short_timegps s \<Longrightarrow> short_timegps (s @ t)"
  by (simp add: short_timegps_def nth_append)

lemma no_short_timegps_sub:
  assumes "no_short_timegps (xs @ s @ ys)"
  shows "no_short_timegps s"
  unfolding no_short_timegps_def list_all_iff
proof (intro ballI notI)
  fix i assume i: "i \<in> set [0..<length s]" and sh: "short_timegps (drop i s)"
  have "drop (length xs + i) (xs @ s @ ys) = drop i s @ ys" using i by simp
  then have "short_timegps (drop (length xs + i) (xs @ s @ ys))" using short_timegps_append [OF sh] by simp
  moreover have "length xs + i \<in> set [0..<length (xs @ s @ ys)]" using i by simp
  ultimately show False using assms unfolding no_short_timegps_def list_all_iff by blast
qed

text \<open>The buffer holds the last bytes of what was received, and has room for the next read.\<close>

definition serial_inv :: "u8 list \<Rightarrow> gps_serial \<Rightarrow> bool" where
  "serial_inv stream b \<longleftrightarrow>
     length (serial_buff b) = 128 \<and> wr_idx b \<le> 120 \<and> (\<exists>xs. stream = xs @ take (wr_idx b) (serial_buff b))"

lemma gps_compact_facts:
  assumes "length (serial_buff b) = 128" and "n \<le> wr_idx b" and "wr_idx b \<le> 128"
  shows "case gps_compact env n b of
      Inl e \<Rightarrow> e = OverlappingCopy \<and> \<not> env_memcpy_up env
    | Inr b' \<Rightarrow> length (serial_buff b') = 128 \<and> wr_idx b' = wr_idx b - n \<and> take (wr_idx b') (serial_buff b') = drop n (take (wr_idx b) (serial_buff b))"
  using assms by (simp add: gps_compact_def mem_write_def drop_take)

text \<open>The faults that are left: none of them is an access outside an array.\<close>

definition gps_fault_left :: "gps_env \<Rightarrow> c_fault \<Rightarrow> bool" where
  "gps_fault_left env e \<longleftrightarrow> e = UndefinedConversion \<or> e = OverlappingCopy \<and> \<not> env_memcpy_up env"

lemma gps_compact_inv:
  assumes "length (serial_buff b) = 128" and "wr_idx b \<le> 128" and "n \<le> wr_idx b" and "stream = xs @ take (wr_idx b) (serial_buff b)"
  shows "case gps_compact env n b of
      Inl e \<Rightarrow> gps_fault_left env e
    | Inr b' \<Rightarrow> length (serial_buff b') = 128 \<and> wr_idx b' = wr_idx b - n \<and> (\<exists>ys. stream = ys @ take (wr_idx b') (serial_buff b'))"
proof (cases "gps_compact env n b")
  case (Inl e)
  then show ?thesis using gps_compact_facts [OF assms(1,3,2), of env] by (simp add: gps_fault_left_def)
next
  case (Inr b')
  then have b': "length (serial_buff b') = 128" "wr_idx b' = wr_idx b - n" "take (wr_idx b') (serial_buff b') = drop n (take (wr_idx b) (serial_buff b))"
    using gps_compact_facts [OF assms(1,3,2), of env] unfolding Inr sum.case by blast+
  have "stream = (xs @ take n (take (wr_idx b) (serial_buff b))) @ take (wr_idx b') (serial_buff b')"
    unfolding b'(3) assms(4) by (metis append.assoc append_take_drop_id)
  then show ?thesis using Inr b' by auto
qed

lemma thread_gps_turn_inv:
  assumes "serial_inv stream b" and "length bytes \<le> 8" and "no_short_timegps (stream @ bytes)"
  shows "case thread_gps_turn env bytes (b, st) of
      Inl e \<Rightarrow> gps_fault_left env e
    | Inr (b', st') \<Rightarrow> serial_inv (stream @ bytes) b'"
proof (cases "bytes = []")
  case True
  then show ?thesis using assms by (simp add: thread_gps_turn_def)
next
  case False
  define buf where "buf = take (wr_idx b) (serial_buff b) @ bytes @ drop (wr_idx b + length bytes) (serial_buff b)"
  define wr where "wr = wr_idx b + length bytes"
  define b1 where "b1 = \<lparr>serial_buff = buf, wr_idx = wr\<rparr>"
  obtain xs where xs: "stream = xs @ take (wr_idx b) (serial_buff b)" and b: "length (serial_buff b) = 128" "wr_idx b \<le> 120"
    using assms(1) unfolding serial_inv_def by blast
  have l: "wr \<le> 128" "length buf = 128" using b assms(2) by (simp_all add: buf_def wr_def)
  have content: "take wr buf = take (wr_idx b) (serial_buff b) @ bytes" using b by (simp add: buf_def wr_def)
  have ns: "no_short_timegps (take wr buf)"
    using no_short_timegps_sub [of xs "take wr buf" "[]"] assms(3) xs content by simp
  have b1: "length (serial_buff b1) = 128" "wr_idx b1 \<le> 128" "stream @ bytes = xs @ take (wr_idx b1) (serial_buff b1)"
    using l content xs by (simp_all add: b1_def)
  have eq: "thread_gps_turn env bytes (b, st) = res_bind (gps_scan env buf wr 0 0 st) (\<lambda>(fe, st').
      res_bind (if fe \<noteq> 0 then gps_compact env fe b1 else Inr b1) (\<lambda>b2.
        res_bind (if 128 - wr_idx b2 < 8 then gps_compact env 8 b2 else Inr b2) (\<lambda>b3. Inr (b3, st'))))"
    using False l(1) unfolding b1_def buf_def wr_def by (simp add: thread_gps_turn_def Let_def)
  show ?thesis
  proof (cases "gps_scan env buf wr 0 0 st")
    case (Inl e)
    then show ?thesis using eq gps_scan_bounds(2) [of 0 wr buf 0 env st e] l ns by (simp add: gps_fault_left_def)
  next
    case (Inr p)
    obtain fe st' where p: "p = (fe, st')" by fastforce
    have fe: "fe \<le> wr_idx b1" using gps_scan_bounds(1) [of 0 wr buf 0 env st fe st'] Inr p l by (simp add: b1_def)
    show ?thesis
    proof (cases "if fe \<noteq> 0 then gps_compact env fe b1 else Inr b1")
      case (Inl e)
      then show ?thesis using gps_compact_inv [OF b1(1,2) fe b1(3), of env] eq Inr p by (auto split: if_splits)
    next
      case s2: (Inr b2)
      then obtain ys where b2: "length (serial_buff b2) = 128" "wr_idx b2 \<le> 128" "stream @ bytes = ys @ take (wr_idx b2) (serial_buff b2)"
        using gps_compact_inv [OF b1(1,2) fe b1(3), of env] b1 by (auto split: if_splits)
      show ?thesis
      proof (cases "128 - wr_idx b2 < 8")
        case True
        then have "8 \<le> wr_idx b2" by simp
        from gps_compact_inv [OF b2(1,2) this b2(3), of env] show ?thesis
          using eq Inr p s2 True b2(2) by (cases "gps_compact env 8 b2") (auto simp: serial_inv_def)
      next
        case False
        then show ?thesis using eq Inr p s2 b2 by (auto simp: serial_inv_def)
      qed
    qed
  qed
qed

lemma thread_gps_inv:
  assumes "serial_inv stream b" and "list_all (\<lambda>r. length r \<le> 8) reads" and "no_short_timegps (stream @ concat reads)"
  shows "case thread_gps env reads (b, st) of Inl e \<Rightarrow> gps_fault_left env e | Inr (b', st') \<Rightarrow> serial_inv (stream @ concat reads) b'"
  using assms
proof (induction reads arbitrary: stream b st)
  case (Cons r rs)
  have ns: "no_short_timegps (stream @ r)" using no_short_timegps_sub [of "[]" "stream @ r" "concat rs"] Cons.prems(3) by simp
  note t = thread_gps_turn_inv [OF Cons.prems(1) _ ns, of env st]
  show ?case
  proof (cases "thread_gps_turn env r (b, st)")
    case (Inl e)
    then show ?thesis using t Cons.prems(2) by simp
  next
    case (Inr p)
    obtain b1 st1 where p: "p = (b1, st1)" by fastforce
    then have "serial_inv (stream @ r) b1" using t Inr Cons.prems(2) by simp
    then show ?thesis using Cons.IH [of "stream @ r" b1 st1] Cons.prems Inr p
      by (cases "thread_gps env rs (b1, st1)") auto
  qed
qed simp

text \<open>
  C31. As long as the stream has no NAV-TIMEGPS message with a payload of less than ten bytes, no access of the GPS thread and of the parsers it calls leaves the serial buffer or the
  parser's copy of a sentence, whatever else is received, well formed or not: every byte the scan, the checksums, the comparison of labels, the chopping into fields and the fields themselves read, and every
  byte that \<^verbatim>\<open>read\<close> and the moves of the buffer write. After any sequence of reads the buffer holds the last bytes received, at most 120 of its 128, so that the next read
  fits. Two faults are left: the conversion of the fraction of a second to an integer is undefined for a fraction that is out of range; and the moves of the buffer may
  overlap, which is undefined unless the platform's \<^verbatim>\<open>memcpy\<close> copies in ascending order.
\<close>

theorem thread_gps_safe:
  assumes "list_all (\<lambda>r. length r \<le> 8) reads" and "no_short_timegps (concat reads)"
  shows "case thread_gps env reads (gps_serial_init, st) of
      Inl e \<Rightarrow> e = UndefinedConversion \<or> e = OverlappingCopy \<and> \<not> env_memcpy_up env
    | Inr (b, st') \<Rightarrow> length (serial_buff b) = 128 \<and> wr_idx b \<le> 120 \<and>
        (\<exists>xs. concat reads = xs @ take (wr_idx b) (serial_buff b))"
proof -
  have "serial_inv [] gps_serial_init" by (simp add: serial_inv_def gps_serial_init_def)
  then show ?thesis
    using thread_gps_inv [of "[]" gps_serial_init reads env st] assms
    by (cases "thread_gps env reads (gps_serial_init, st)") (auto simp: serial_inv_def gps_fault_left_def)
qed

theorem thread_gps_safe_witness:
  "\<forall>env st. case thread_gps env [[1, 2], [36, 10, 0xB5, 0x62, 1, 0x20, 16, 0]] (gps_serial_init, st) of
      Inl e \<Rightarrow> e = UndefinedConversion \<or> e = OverlappingCopy \<and> \<not> env_memcpy_up env
    | Inr (b, st') \<Rightarrow> length (serial_buff b) = 128 \<and> wr_idx b \<le> 120 \<and>
        (\<exists>xs. concat [[1, 2], [36, 10, 0xB5, 0x62, 1, 0x20, 16, 0]] = xs @ take (wr_idx b) (serial_buff b))"
proof (intro allI thread_gps_safe)
  show "no_short_timegps (concat [[1, 2], [36, 10, 0xB5, 0x62, 1, 0x20, 16, 0]])" by code_simp
qed simp


lemma thread_gps_append: "thread_gps env (rs @ rs') s = res_bind (thread_gps env rs s) (thread_gps env rs')"
proof (induction rs arbitrary: s)
  case (Cons r rs)
  then show ?case by (cases "thread_gps_turn env r s") simp_all
qed simp

lemma thread_gps_turn_quiet:
  assumes "serial_holds b p" and "quiet (p @ r)" and "length (p @ r) \<le> 128" and "r \<noteq> []"
  shows "\<exists>buf. length buf = 128 \<and> take (length (p @ r)) buf = p @ r \<and>
    thread_gps_turn env r (b, st) = res_bind (if 120 < length (p @ r) then gps_compact env 8 \<lparr>serial_buff = buf, wr_idx = length (p @ r)\<rparr>
      else Inr \<lparr>serial_buff = buf, wr_idx = length (p @ r)\<rparr>) (\<lambda>b'. Inr (b', st))"
proof -
  define buf where "buf = p @ r @ drop (length p + length r) (serial_buff b)"
  have l: "length buf = 128" "take (length (p @ r)) buf = p @ r" using assms(1,3) by (simp_all add: buf_def serial_holds_def)
  have "gps_scan env buf (length p + length r) 0 0 st = gps_scan env buf (length p + length r) (0 + length (p @ r)) 0 st"
    using assms(2) l by (intro gps_scan_quiet [of _ _ _ "drop (length p + length r) (serial_buff b)"]) (auto simp: buf_def)
  then have "thread_gps_turn env r (b, st) = res_bind (if 128 - length (p @ r) < 8 then gps_compact env 8 \<lparr>serial_buff = buf, wr_idx = length (p @ r)\<rparr>
      else Inr \<lparr>serial_buff = buf, wr_idx = length (p @ r)\<rparr>) (\<lambda>b'. Inr (b', st))"
    using assms by (auto simp: thread_gps_turn_def serial_holds_def buf_def [symmetric] gps_scan_end Let_def)
  then show ?thesis using l by (intro exI [of _ buf]) auto
qed

lemma thread_gps_quiet:
  assumes "serial_holds b p" and "quiet (p @ concat reads)" and "length (p @ concat reads) \<le> 120" and "[] \<notin> set reads"
  shows "\<exists>b'. serial_holds b' (p @ concat reads) \<and> thread_gps env reads (b, st) = Inr (b', st)"
  using assms
proof (induction reads arbitrary: b p)
  case (Cons r rs)
  have "quiet (p @ r)" using quiet_append [of "p @ r" "concat rs"] Cons.prems(2) by simp
  then obtain buf where buf: "length buf = 128" "take (length (p @ r)) buf = p @ r"
    "thread_gps_turn env r (b, st) = Inr (\<lparr>serial_buff = buf, wr_idx = length (p @ r)\<rparr>, st)"
    using thread_gps_turn_quiet [OF Cons.prems(1), of r env st] Cons.prems(3,4) by auto
  then have "serial_holds \<lparr>serial_buff = buf, wr_idx = length (p @ r)\<rparr> (p @ r)" by (simp add: serial_holds_def)
  then have "\<exists>b'. serial_holds b' ((p @ r) @ concat rs) \<and>
      thread_gps env rs (\<lparr>serial_buff = buf, wr_idx = length (p @ r)\<rparr>, st) = Inr (b', st)"
    using Cons.prems by (intro Cons.IH) auto
  then show ?case using buf(3) by simp
qed auto

lemma quiet_zeros: "quiet (replicate n 0)"
proof (induction n)
  case (Suc n)
  then show ?case by (cases n) simp_all
qed simp

lemma thread_gps_zeros:
  obtains b where "serial_holds b (replicate 120 0)" and "thread_gps env (replicate 15 (replicate 8 0)) (gps_serial_init, st) = Inr (b, st)"
proof -
  have "serial_holds gps_serial_init []" by (simp add: serial_holds_def gps_serial_init_def)
  moreover have "concat (replicate 15 (replicate 8 (0 :: u8))) = replicate 120 0" by code_simp
  ultimately show thesis
    using that thread_gps_quiet [of gps_serial_init "[]" "replicate 15 (replicate 8 0)" env st] quiet_zeros [of 120] by auto
qed

text \<open>
  A NAV-TIMEGPS message without payload, which is what a poll request looks like, makes the parser read the validity flags ten bytes behind the end of the message,
  and outside the buffer when the message ends at the end of the buffer.
\<close>

theorem thread_gps_overread:
  "thread_gps env (replicate 15 (replicate 8 0) @ [[0xB5, 0x62, 0x01, 0x20, 0, 0, 0x21, 0x64]]) (gps_serial_init, st) = Inl OutOfBounds"
proof -
  obtain b where b: "serial_holds b (replicate 120 0)" "thread_gps env (replicate 15 (replicate 8 0)) (gps_serial_init, st) = Inr (b, st)"
    by (rule thread_gps_zeros)
  define m :: "u8 list" where "m = [0xB5, 0x62, 0x01, 0x20, 0, 0, 0x21, 0x64]"
  have "length (serial_buff b) = 128" "wr_idx b = 120" "take 120 (serial_buff b) = replicate 120 0"
    using b(1) by (simp_all add: serial_holds_def)
  moreover have "gps_scan env (replicate 120 0 @ m) 128 0 0 st = gps_scan env (replicate 120 0 @ m) 128 (0 + length (replicate 120 (0 :: u8))) 0 st"
    by (rule gps_scan_quiet [of _ _ _ m]) (simp_all add: quiet_zeros m_def)
  moreover have "lgw_parse_ubx m 8 (gpsvars st) = Inl OutOfBounds"
    by (simp add: m_def lgw_parse_ubx_def ubx_timegps_def byte_at_def ubx_fletcher_def Let_def)
  then have "gps_scan env (replicate 120 0 @ m) 128 120 0 st = Inl OutOfBounds"
    by (simp add: gps_scan.simps [of env _ 128 120] gps_try_frame_def) (simp add: m_def)
  ultimately have "thread_gps_turn env m (b, st) = Inl OutOfBounds"
    by (simp add: thread_gps_turn_def Let_def m_def)
  then show ?thesis using b(2) by (simp add: thread_gps_append m_def)
qed

text \<open>When the buffer is almost full without a frame, the bytes are moved by less than their number, which C leaves undefined for \<^verbatim>\<open>memcpy\<close>.\<close>

theorem thread_gps_overlap:
  assumes "\<not> env_memcpy_up env"
  shows "thread_gps env (replicate 15 (replicate 8 0) @ [[0]]) (gps_serial_init, st) = Inl OverlappingCopy"
proof -
  obtain b where b: "serial_holds b (replicate 120 0)" "thread_gps env (replicate 15 (replicate 8 0)) (gps_serial_init, st) = Inr (b, st)"
    by (rule thread_gps_zeros)
  have "replicate 120 0 @ [0 :: u8] = replicate 121 0" by code_simp
  then have "quiet (replicate 120 0 @ [0])" using quiet_zeros by metis
  then have "thread_gps_turn env [0] (b, st) = Inl OverlappingCopy"
    using thread_gps_turn_quiet [OF b(1), of "[0]" env st] assms by (auto simp: gps_compact_def)
  then show ?thesis using b(2) by (simp add: thread_gps_append)
qed

theorem thread_gps_overlap_witness:
  "thread_gps \<lparr>env_memcpy_up = False, env_tz = 0, env_now = (\<lambda>_. 0), env_trig = (\<lambda>_. 0)\<rparr> (replicate 15 (replicate 8 0) @ [[0]]) (gps_serial_init, st) =
    Inl OverlappingCopy"
  by (rule thread_gps_overlap) simp

end
