(* ===== verification/GpsFix.thy ===== *)
theory GpsFix
  imports GpsSerialProps GpsProps
begin

text \<open>
  What the parsers make of a message: the GPS time of a NAV-TIMEGPS message is accurate to a nanosecond, the fields of an RMC sentence come back as they were written, and the
  UTC time is that of the last RMC sentence, or an arbitrary date when there was none.
\<close>

subsection \<open>GPS time\<close>

text \<open>
  For a time of week and a fraction in the ranges of the protocol, the GPS time delivered differs from the exact time of the message by at most a nanosecond. Only when
  the fraction would make the time of week negative are the nanoseconds negative.
\<close>

theorem gps_time_accurate:
  assumes "gps_time_ok g" and "unat (gps_iTOW g) \<le> 604800000" and "\<bar>sint (gps_fTOW g)\<bar> \<le> 500000"
    and "0 < unat (gps_iTOW g) \<or> 0 \<le> sint (gps_fTOW g)"
  shows "\<exists>t. gps_get_time g = Some t \<and> 0 \<le> tv_nsec t \<and> tv_nsec t \<le> 10 ^ 9 \<and>
    \<bar>tv_sec t * 10 ^ 9 + tv_nsec t - (sint (gps_week g) * 604800 * 10 ^ 9 + int (unat (gps_iTOW g)) * 10 ^ 6 + sint (gps_fTOW g))\<bar> \<le> 1"
proof -
  define i :: int where "i = int (unat (gps_iTOW g))"
  define f where "f = sint (gps_fTOW g)"
  define a :: rat where "a = dbl (of_int i / 10 ^ 3)"
  define b :: rat where "b = dbl (of_int f / 10 ^ 9)"
  define t where "t = dbl (a + b)"
  define s where "s = c_trunc t"
  define fr where "fr = t - of_int s"
  define n where "n = c_trunc (dbl (fr * 10 ^ 9))"
  define x :: rat where "x = of_int (i * 10 ^ 6 + f) / 10 ^ 9"
  have i: "0 \<le> i" "i \<le> 604800000" and f: "\<bar>f\<bar> \<le> 500000" and p: "0 < i \<or> 0 \<le> f"
    using assms unfolding i_def f_def by linarith+
  have xi: "x = of_int i / 10 ^ 3 + of_int f / 10 ^ 9" by (simp add: x_def add_divide_distrib)
  have x: "0 \<le> x" "x \<le> 604801" using i f p by (auto simp: x_def)
  have "\<bar>of_int i / 10 ^ 3\<bar> / 2 ^ 53 \<le> (604800 :: rat) / 2 ^ 53" using i by (intro divide_right_mono) auto
  then have a: "\<bar>a - of_int i / 10 ^ 3\<bar> \<le> 604800 / 2 ^ 53" using dbl_err_abs [of "of_int i / 10 ^ 3"] unfolding a_def by linarith
  have "\<bar>of_int f / 10 ^ 9\<bar> / 2 ^ 53 \<le> (1 :: rat) / 2 ^ 53" using f by (intro divide_right_mono) auto
  then have b: "\<bar>b - of_int f / 10 ^ 9\<bar> \<le> 1 / 2 ^ 53" using dbl_err_abs [of "of_int f / 10 ^ 9"] unfolding b_def by linarith
  have c: "(604800 :: rat) / 2 ^ 53 \<le> 1 / 10 ^ 10" "(1 :: rat) / 2 ^ 53 \<le> 1 / 10 ^ 15" "(604803 :: rat) / 2 ^ 53 \<le> 1 / 10 ^ 10"
    "(1 :: rat) / 10 ^ 10 \<le> 1" "(1 :: rat) / 10 ^ 15 \<le> 1" by simp_all
  have ab: "\<bar>a + b - x\<bar> \<le> 1 / 10 ^ 10 + 1 / 10 ^ 15" using a b c unfolding xi by linarith
  then have "\<bar>a + b\<bar> \<le> 604803" using x c by linarith
  then have "\<bar>a + b\<bar> / 2 ^ 53 \<le> 604803 / 2 ^ 53" by (intro divide_right_mono) auto
  then have t: "\<bar>t - x\<bar> \<le> 2 / 10 ^ 10 + 1 / 10 ^ 15" using dbl_err_abs [of "a + b"] ab c unfolding t_def by linarith
  have "0 \<le> a + b"
  proof (cases "0 < i")
    case True
    then have "(1 :: rat) \<le> of_int i" by simp
    then have "(1 :: rat) / 10 ^ 3 \<le> of_int i / 10 ^ 3" by (intro divide_right_mono) auto
    moreover have "\<bar>of_int f / 10 ^ 9\<bar> \<le> (500000 :: rat) / 10 ^ 9" using f by simp
    moreover have "(1 :: rat) / 10 ^ 10 + 1 / 10 ^ 15 \<le> 1 / 10 ^ 3 - 500000 / 10 ^ 9" by simp
    ultimately show ?thesis using ab unfolding xi by linarith
  next
    case False
    then show ?thesis using i p dbl_ge_0 [of "of_int f / 10 ^ 9"] by (simp add: a_def b_def)
  qed
  then have t0: "0 \<le> t" unfolding t_def by (rule dbl_ge_0)
  then have "s = \<lfloor>t\<rfloor>" by (simp add: s_def c_trunc_def)
  then have fr: "0 \<le> fr" "fr \<le> 1" unfolding fr_def by linarith+
  have "dbl (fr * 10 ^ 9) \<le> dbl (10 ^ 9)" using fr by (intro dbl_mono_nonneg) auto
  also have "dbl (10 ^ 9) = 10 ^ 9" using dbl_of_nat [of "10 ^ 9"] by simp
  finally have m: "0 \<le> dbl (fr * 10 ^ 9)" "dbl (fr * 10 ^ 9) \<le> 10 ^ 9" using fr by (auto intro: dbl_ge_0)
  then have n: "0 \<le> n" "n \<le> 10 ^ 9" by (simp_all add: n_def c_trunc_def floor_le_iff)
  have "\<bar>fr * 10 ^ 9\<bar> / 2 ^ 53 \<le> 10 ^ 9 / 2 ^ 53" using fr by (intro divide_right_mono) (auto simp: abs_mult)
  moreover have "(10 :: rat) ^ 9 / 2 ^ 53 \<le> 1 / 10 ^ 6" by simp
  ultimately have e: "\<bar>of_int n - fr * 10 ^ 9\<bar> < 1 + 1 / 10 ^ 6"
    using dbl_err_abs [of "fr * 10 ^ 9"] c_trunc_err [of "dbl (fr * 10 ^ 9)"] unfolding n_def by linarith
  have "\<bar>t * 10 ^ 9 - x * 10 ^ 9\<bar> = \<bar>t - x\<bar> * 10 ^ 9" by (simp only: left_diff_distrib [symmetric] abs_mult) simp
  also have "\<dots> \<le> (2 / 10 ^ 10 + 1 / 10 ^ 15) * 10 ^ 9" using t by (intro mult_right_mono) auto
  also have "\<dots> \<le> 1 / 4" by simp
  finally have "\<bar>t * 10 ^ 9 - x * 10 ^ 9\<bar> \<le> 1 / 4" .
  moreover have "of_int (s * 10 ^ 9 + n - (i * 10 ^ 6 + f)) = (t * 10 ^ 9 - x * 10 ^ 9) + (of_int n - fr * 10 ^ 9)"
    by (simp add: x_def fr_def algebra_simps)
  moreover have "(1 :: rat) / 4 + (1 + 1 / 10 ^ 6) < 2" by simp
  ultimately have "\<bar>of_int (s * 10 ^ 9 + n - (i * 10 ^ 6 + f)) :: rat\<bar> < 2" using e by linarith
  then have d: "\<bar>s * 10 ^ 9 + n - (i * 10 ^ 6 + f)\<bar> \<le> 1" by linarith
  have "gps_get_time g = Some \<lparr>tv_sec = s + sint (gps_week g) * 604800, tv_nsec = n\<rparr>"
    using assms(1) unfolding gps_get_time_def Let_def n_def fr_def s_def t_def a_def b_def i_def f_def by simp
  then show ?thesis using d n unfolding i_def [symmetric] f_def [symmetric] by (simp add: algebra_simps)
qed

theorem gps_time_accurate_witness:
  "\<exists>t. gps_get_time (ubx_time_vars example_timegps gps_vars_init) = Some t \<and> 0 \<le> tv_nsec t \<and> tv_nsec t \<le> 10 ^ 9 \<and>
    \<bar>tv_sec t * 10 ^ 9 + tv_nsec t - (8 * 604800 * 10 ^ 9 + 1000 * 10 ^ 6 + 0)\<bar> \<le> 1"
proof -
  have "gps_time_ok (ubx_time_vars example_timegps gps_vars_init)"
    "unat (gps_iTOW (ubx_time_vars example_timegps gps_vars_init)) = 1000"
    "sint (gps_fTOW (ubx_time_vars example_timegps gps_vars_init)) = 0"
    "sint (gps_week (ubx_time_vars example_timegps gps_vars_init)) = 8"
    by code_simp+
  then show ?thesis using gps_time_accurate [of "ubx_time_vars example_timegps gps_vars_init"] by simp
qed


subsection \<open>Fields of a sentence\<close>

text \<open>Fields joined by a separator, and where each of them starts.\<close>

fun join_fields :: "u8 \<Rightarrow> u8 list list \<Rightarrow> u8 list" where
  "join_fields sep [] = []"
| "join_fields sep [f] = f"
| "join_fields sep (f # g # fs) = f @ sep # join_fields sep (g # fs)"

definition field_start :: "u8 list list \<Rightarrow> nat \<Rightarrow> nat" where
  "field_start fs k = sum_list (map length (take k fs)) + k"

lemma field_start_simps [simp]: "field_start fs 0 = 0" "field_start (f # fs) (Suc k) = length f + 1 + field_start fs k"
  by (simp_all add: field_start_def)

lemma str_chop_loop_token:
  "sep \<notin> set f \<Longrightarrow> 0 \<notin> set f \<Longrightarrow>
   str_chop_loop sep mx i idx (f @ r) = res_bind (str_chop_loop sep mx (i + length f) idx r) (\<lambda>(idx', r'). Inr (idx', f @ r'))"
proof (induction f arbitrary: i)
  case Nil
  then show ?case by (cases "str_chop_loop sep mx i idx r") auto
next
  case (Cons x f)
  then show ?case by (cases "str_chop_loop sep mx (Suc (i + length f)) idx r") auto
qed

lemma str_chop_loop_fields:
  assumes "\<forall>x\<in>set (f # fs). sep \<notin> set x \<and> 0 \<notin> set x" and "length idx + length fs \<le> mx" and "sep \<noteq> 0"
  shows "str_chop_loop sep mx i idx (join_fields sep (f # fs) @ 0 # t) =
    Inr (idx @ map (\<lambda>k. i + field_start (f # fs) (Suc k)) [0..<length fs], join_fields 0 (f # fs) @ 0 # t)"
  using assms
proof (induction fs arbitrary: f i idx)
  case Nil
  then show ?case using str_chop_loop_token [of sep f mx i idx "0 # t"] by simp
next
  case (Cons g fs)
  have "str_chop_loop sep mx (i + length f + 1) (idx @ [i + length f + 1]) (join_fields sep (g # fs) @ 0 # t) =
    Inr ((idx @ [i + length f + 1]) @ map (\<lambda>k. i + length f + 1 + field_start (g # fs) (Suc k)) [0..<length fs], join_fields 0 (g # fs) @ 0 # t)"
    using Cons.prems by (intro Cons.IH) auto
  moreover have "[0..<length (g # fs)] = 0 # map Suc [0..<length fs]" by (simp add: map_Suc_upt upt_conv_Cons del: upt_Suc)
  ultimately show ?case
    using Cons.prems str_chop_loop_token [of sep f mx i idx "sep # join_fields sep (g # fs) @ 0 # t"]
    by (simp add: add.assoc comp_def del: upt_Suc)
qed

lemma drop_field:
  "k < length fs \<Longrightarrow> \<exists>r. drop (field_start fs k) (join_fields 0 fs @ 0 # t) = fs ! k @ 0 # r"
proof (induction fs arbitrary: k rule: join_fields.induct [of "\<lambda>_. _" 0])
  case (2 sep f)
  then show ?case by auto
next
  case (3 sep f g fs)
  show ?case
  proof (cases k)
    case 0
    then show ?thesis by auto
  next
    case (Suc k')
    then show ?thesis using 3 by auto
  qed
qed simp

text \<open>
  \<^verbatim>\<open>str_chop\<close> cuts a sentence of up to thirty fields at its commas: it counts the fields, and the C string at the index of each is that field. The last character,
  the line feed, is overwritten.
\<close>

theorem str_chop_fields:
  assumes "fs \<noteq> []" and "length fs \<le> 30" and "\<forall>f\<in>set fs. 44 \<notin> set f \<and> 0 \<notin> set f" and "length (join_fields 44 fs) < 255"
  shows "\<exists>idx buf. nmea_fields (join_fields 44 fs @ [lf]) (length (join_fields 44 fs) + 1) = Inr (int (length fs), idx, buf) \<and>
    (\<forall>k<length fs. cstr_at buf (idx ! k) = Inr (fs ! k) \<and> byte_at buf (idx ! k) = Inr (hd (fs ! k @ [0])))"
proof -
  obtain f fs' where fs: "fs = f # fs'" using assms(1) by (cases fs) auto
  define n where "n = length (join_fields 44 fs)"
  define idx where "idx = map (field_start fs) [0..<length fs]"
  define buf where "buf = join_fields 0 fs @ [0, 0 :: u8]"
  have "str_chop_loop 44 30 0 [0] (join_fields 44 fs @ [0, 0]) = Inr (idx, buf)"
  proof -
    have "[0..<length fs] = 0 # map Suc [0..<length fs']" using fs by (simp add: map_Suc_upt upt_conv_Cons del: upt_Suc)
    then show ?thesis
      using str_chop_loop_fields [of f fs' 44 "[0]" 30 0 "[0]"] assms fs by (simp add: idx_def buf_def comp_def del: upt_Suc)
  qed
  moreover have "(join_fields 44 fs @ [lf, 0])[n := 0] = join_fields 44 fs @ [0, 0]" by (simp add: n_def list_update_append)
  ultimately have "nmea_fields (join_fields 44 fs @ [lf]) (n + 1) = Inr (int (length fs), idx, buf)"
    using assms(4) by (simp add: nmea_fields_def str_chop_def n_def [symmetric] idx_def nat_add_distrib)
  moreover have "cstr_at buf (idx ! k) = Inr (fs ! k) \<and> byte_at buf (idx ! k) = Inr (hd (fs ! k @ [0]))" if k: "k < length fs" for k
  proof -
    obtain r where r: "drop (field_start fs k) (join_fields 0 fs @ 0 # [0]) = fs ! k @ 0 # r" using drop_field [OF k] by blast
    have "0 \<notin> set (fs ! k)" using assms(3) k by auto
    then have "cstr_at buf (idx ! k) = Inr (fs ! k)" using k r by (simp add: cstr_at_def idx_def buf_def takeWhile_append)
    moreover have "drop (idx ! k) buf \<noteq> []" using k r by (simp add: idx_def buf_def)
    then have "idx ! k < length buf" by (metis drop_eq_Nil not_le)
    moreover have "buf ! (idx ! k) = hd (fs ! k @ 0 # r)"
      using k r by (metis append_is_Nil_conv buf_def drop_eq_Nil hd_drop_conv_nth idx_def length_map length_upt list.discI nat_le_linear
          not_le nth_map_upt minus_nat.diff_0 plus_nat.add_0)
    moreover have "hd (fs ! k @ 0 # r) = hd (fs ! k @ [0])" by (cases "fs ! k") auto
    ultimately show ?thesis by simp
  qed
  ultimately show ?thesis unfolding n_def by blast
qed


subsection \<open>Time and date of an RMC sentence\<close>

text \<open>What \<^verbatim>\<open>%02d\<close> prints for a number below 100.\<close>

definition two_digits :: "nat \<Rightarrow> u8 list" where
  "two_digits n = [48 + of_nat (n div 10), 48 + of_nat (n mod 10)]"

lemma digit_char:
  assumes "n < 10"
  shows "c_isdigit (48 + of_nat n)" and "digit_val (48 + of_nat n) = int n" and "\<not> c_isspace (48 + of_nat n)"
    and "48 + of_nat n \<noteq> (45 :: u8)" and "48 + of_nat n \<noteq> (43 :: u8)" and "48 + of_nat n \<noteq> (44 :: u8)" and "48 + of_nat n \<noteq> (0 :: u8)"
    and "c_tolower (48 + of_nat n) \<noteq> 120" and "\<not> float_expchar (48 + of_nat n)"
proof -
  have n: "n = 0 \<or> n = 1 \<or> n = 2 \<or> n = 3 \<or> n = 4 \<or> n = 5 \<or> n = 6 \<or> n = 7 \<or> n = 8 \<or> n = 9" using assms by presburger
  show "c_isdigit (48 + of_nat n)" using n by (auto simp: c_isdigit_def)
  show "digit_val (48 + of_nat n) = int n" using n by (auto simp: c_isdigit_def digit_val_def)
  show "\<not> c_isspace (48 + of_nat n)" using n by (auto simp: c_isspace_def)
  show "48 + of_nat n \<noteq> (45 :: u8)" "48 + of_nat n \<noteq> (43 :: u8)" "48 + of_nat n \<noteq> (44 :: u8)" "48 + of_nat n \<noteq> (0 :: u8)" using n by auto
  show "c_tolower (48 + of_nat n) \<noteq> 120" "\<not> float_expchar (48 + of_nat n)" using n by (auto simp: c_tolower_def float_expchar_def)
qed

lemma two_digits_val:
  assumes "n < 100"
  shows "digits_val 10 (two_digits n) = int n" and "n div 10 < 10" and "n mod 10 < 10"
proof -
  show d: "n div 10 < 10" "n mod 10 < 10" using assms by auto
  have "int n = int (n div 10) * 10 + int (n mod 10)" by presburger
  then show "digits_val 10 (two_digits n) = int n"
    using d by (simp add: digits_val_def two_digits_def digit_char)
qed

lemma sscanf_two_digits:
  assumes "n < 100"
  shows "sscanf (Scan_d (Some 2) # ds) (two_digits n @ r) = IntVal (int n) # sscanf ds r"
proof -
  note d = two_digits_val [OF assms]
  have "scan_int 2 (two_digits n @ r) = Some (IntVal (int n), r)" using d assms
    by (simp add: scan_int_def scan_sign_def digit_char Let_def two_digits_def)
  then show ?thesis using d by (simp add: two_digits_def digit_char)
qed

lemma sscanf_fraction:
  assumes "n < 100"
  shows "sscanf [Scan_f 4] (46 # two_digits n) = [FloatVal (Some (flt (of_nat n / 100)))]"
proof -
  note d = two_digits_val [OF assms]
  have "positional_val 10 c_isdigit float_expchar 10 (46 # two_digits n) = of_nat n / 100"
    using d by (simp add: positional_val_def two_digits_def digit_char Let_def c_isdigit_def [of 46] float_expchar_def [of 46] c_tolower_def)
  then have "unsigned_val (46 # two_digits n) = Some (of_nat n / 100)" if "unsigned_val (46 # two_digits n) = Some (positional_val 10 c_isdigit float_expchar 10 (46 # two_digits n))"
    using that by (simp only:)
  then have "unsigned_val (46 # two_digits n) = Some (of_nat n / 100)"
    using d by (simp add: unsigned_val_def two_digits_def digit_char c_tolower_def [of 46])
  moreover have "float_round flt FLT_LIMIT (of_nat n / 100) = Some (flt (of_nat n / 100))"
    using assms by (simp add: float_round_def)
  moreover have "float_item FStart (46 # two_digits n) = (FFrac, 46 # two_digits n)"
    using d by (simp add: two_digits_def digit_char float_start_def c_isdigit_def [of 46])
  moreover have "take 4 (46 # two_digits n) = 46 # two_digits n" by (simp add: two_digits_def)
  ultimately have "scan_float flt FLT_LIMIT 4 (46 # two_digits n) = Some (FloatVal (Some (flt (of_nat n / 100))), [])"
    by (simp add: scan_float_def scan_sign_def float_accepts_def del: float_item.simps)
  then show ?thesis by (simp add: c_isspace_def)
qed

lemma fraction_nanoseconds:
  assumes "n < 100"
  shows "\<bar>c_trunc (dbl (flt (of_nat n / 100) * 10 ^ 9)) - int n * 10 ^ 7\<bar> \<le> 61"
proof -
  define x where "x = flt (of_nat n / 100)"
  define m where "m = c_trunc (dbl (x * 10 ^ 9))"
  have "(of_nat n :: rat) \<le> 99" using assms by (simp add: of_nat_le_iff [of n 99, symmetric, where ?'a = rat, simplified])
  then have n: "(of_nat n :: rat) / 100 \<le> 1" by simp
  then have "(of_nat n :: rat) / 100 / 2 ^ 24 \<le> 1 / 2 ^ 24" by (intro divide_right_mono) auto
  then have x: "\<bar>x - of_nat n / 100\<bar> \<le> 1 / 2 ^ 24" using flt_err [of "of_nat n / 100"] unfolding x_def by linarith
  have "\<bar>x * 10 ^ 9 - of_nat n / 100 * 10 ^ 9\<bar> = \<bar>x - of_nat n / 100\<bar> * 10 ^ 9" by (simp only: left_diff_distrib [symmetric] abs_mult) simp
  also have "\<dots> \<le> 1 / 2 ^ 24 * 10 ^ 9" using x by (rule mult_right_mono) simp
  also have "\<dots> \<le> 60" by simp
  finally have e: "\<bar>x * 10 ^ 9 - of_nat n * 10 ^ 7\<bar> \<le> 60" by simp
  have "(0 :: rat) \<le> of_nat n / 100" by simp
  moreover have "(1 :: rat) / 2 ^ 24 \<le> 1" by simp
  ultimately have "\<bar>x\<bar> \<le> 2" using x n by linarith
  then have "\<bar>x * 10 ^ 9\<bar> / 2 ^ 53 \<le> 2 * 10 ^ 9 / 2 ^ 53" by (intro divide_right_mono) (auto simp: abs_mult)
  moreover have "(2 :: rat) * 10 ^ 9 / 2 ^ 53 \<le> 1 / 10 ^ 6" by simp
  moreover have "(1 :: rat) / 10 ^ 6 + 1 + 60 < 62" by simp
  ultimately have "\<bar>of_int m - of_nat n * 10 ^ 7 :: rat\<bar> < 62"
    using dbl_err_abs [of "x * 10 ^ 9"] c_trunc_err [of "dbl (x * 10 ^ 9)"] e unfolding m_def by linarith
  then have "\<bar>of_int (m - int n * 10 ^ 7) :: rat\<bar> < of_int 62" by simp
  then have "\<bar>m - int n * 10 ^ 7\<bar> < 62" by linarith
  then show ?thesis unfolding m_def x_def by simp
qed


lemma days_before_month_ge_0: "0 \<le> m \<Longrightarrow> m < 12 \<Longrightarrow> 0 \<le> days_before_month leap m"
proof -
  assume "0 \<le> m" "m < 12"
  then have "m = 0 \<or> m = 1 \<or> m = 2 \<or> m = 3 \<or> m = 4 \<or> m = 5 \<or> m = 6 \<or> m = 7 \<or> m = 8 \<or> m = 9 \<or> m = 10 \<or> m = 11" by presburger
  then show ?thesis by (auto simp: days_before_month_def)
qed

lemma leap_days_ge:
  assumes "1998 \<le> z" and "z \<le> 2199"
  shows "482 \<le> leap_days z"
proof -
  have "1998 div 4 \<le> z div 4" "z div 100 \<le> 2199 div 100" "1998 div 400 \<le> z div 400"
    using assms by (auto intro!: zdiv_mono1)
  then show ?thesis by (simp add: leap_days_def)
qed

text \<open>The dates of this century are after the epoch, whatever the two digits of the month and of the day are.\<close>

lemma century_after_epoch:
  assumes "h < 100" and "mi < 100" and "se < 100" and "d < 100" and "mo < 100" and "y < 100"
  shows "0 \<le> mktime 0 \<lparr>tm_year = int y + 100, tm_mon = int mo - 1, tm_mday = int d, tm_hour = int h, tm_min = int mi, tm_sec = int se\<rparr>"
proof -
  define x where "x = \<lparr>tm_year = int y + 100, tm_mon = int mo - 1, tm_mday = int d, tm_hour = int h, tm_min = int mi, tm_sec = int se\<rparr>"
  define yy where "yy = 1900 + (int y + 100) + (int mo - 1) div 12"
  have "-1 \<le> (int mo - 1) div 12" "(int mo - 1) div 12 \<le> 8" using assms by auto
  then have yy: "1999 \<le> yy" "yy \<le> 2199" using assms by (auto simp: yy_def)
  define l where "l = leap_days (yy - 1)"
  define m where "m = days_before_month (is_leap_year yy) ((int mo - 1) mod 12)"
  have "482 \<le> l" unfolding l_def using yy by (intro leap_days_ge) auto
  moreover have "0 \<le> m" unfolding m_def by (rule days_before_month_ge_0) auto
  moreover have "tm_days x = 365 * (yy - 1970) + l - leap_days 1969 + m + (int d - 1)"
    unfolding tm_days_def Let_def x_def yy_def l_def m_def by simp
  moreover have "leap_days 1969 = 477" by (simp add: leap_days_def)
  ultimately have "0 \<le> tm_days x" using yy(1) by simp
  then show ?thesis unfolding mktime_def x_def [symmetric] by (simp add: x_def)
qed

text \<open>
  C32. An RMC sentence with a correct checksum and a fix, whose time field is hhmmss.cc and whose date field is ddmmyy, sets the clock of the parser so that the UTC time delivered is
  that of the sentence: the seconds are those of the date in the years 2000 to 2099 in every time zone of a fixed offset, the nanoseconds are at most 61 off.
\<close>

theorem rmc_utc_decoded:
  assumes "length fs = 13" and "\<forall>f\<in>set fs. 44 \<notin> set f \<and> 0 \<notin> set f"
    and "fs ! 1 = two_digits h @ two_digits mi @ two_digits se @ 46 # two_digits c"
    and "fs ! 9 = two_digits d @ two_digits mo @ two_digits y"
    and "fs ! 12 = md # r" and "md = of_char (CHR ''A'') \<or> md = of_char (CHR ''D'')"
    and "\<forall>n\<in>{h, mi, se, c, d, mo, y}. n < 100"
    and "s = join_fields 44 fs @ [10]" and "8 \<le> length s" and "length s \<le> 255"
    and "validate_nmea_checksum s (length s) = Inr True" and "match_label s (cstr ''$G?RMC'') 6 (of_char (CHR ''?'')) = Inr True"
  shows "\<exists>g' t. lgw_parse_nmea s (length s) g = Inr (NMEA_RMC, g') \<and> gps_get_utc tz g' = Inr (Some t) \<and>
    tv_sec t = mktime 0 \<lparr>tm_year = int y + 100, tm_mon = int mo - 1, tm_mday = int d, tm_hour = int h, tm_min = int mi, tm_sec = int se\<rparr> \<and>
    \<bar>tv_nsec t - int c * 10 ^ 7\<bar> \<le> 61"
proof -
  have fs: "fs \<noteq> []" "length fs \<le> 30" using assms(1) by auto
  have n: "length (join_fields 44 fs) < 255" using assms(8,10) by simp
  obtain idx buf where nf: "nmea_fields s (length s) = Inr (13, idx, buf)"
    and f: "\<And>k. k < 13 \<Longrightarrow> cstr_at buf (idx ! k) = Inr (fs ! k)" "\<And>k. k < 13 \<Longrightarrow> byte_at buf (idx ! k) = Inr (hd (fs ! k @ [0]))"
    using str_chop_fields [OF fs assms(2) n, of 10] assms(1,8) by auto
  have b: "h < 100" "mi < 100" "se < 100" "c < 100" "d < 100" "mo < 100" "y < 100" using assms(7) by auto
  have t: "sscanf [Scan_d (Some 2), Scan_d (Some 2), Scan_d (Some 2), Scan_f 4] (fs ! 1) =
    [IntVal (int h), IntVal (int mi), IntVal (int se), FloatVal (Some (flt (of_nat c / 100)))]"
    using b by (simp only: assms(3) sscanf_two_digits sscanf_fraction)
  have dt: "sscanf [Scan_d (Some 2), Scan_d (Some 2), Scan_d (Some 2)] (fs ! 9) = [IntVal (int d), IntVal (int mo), IntVal (int y)]"
    using b sscanf_two_digits [of y "[]" "[]"] by (simp only: assms(4) sscanf_two_digits append_Nil2 sscanf.simps(1))
  have md: "byte_at buf (idx ! 12) = Inr md" "cstr_at buf (idx ! 1) = Inr (fs ! 1)" "cstr_at buf (idx ! 9) = Inr (fs ! 9)"
    using f(1) [of 1] f(1) [of 9] f(2) [of 12] assms(5) by simp_all
  have short: "sint (of_int (int n) :: u16) = int n" if "n < 100" for n
    using that by (subst signed_of_int, subst signed_take_bit_int_eq_self) auto
  define fra where "fra = flt (of_nat c / 100)"
  define g' where "g' = snd (projr (parse_rmc s (length s) g))"
  have rmc: "parse_rmc s (length s) g = Inr (NMEA_RMC,
      g\<lparr>gps_mod := md, gps_hou := int h, gps_min := int mi, gps_sec := int se, gps_fra := Some fra,
        gps_day := int d, gps_mon := int mo, gps_yea := int y, gps_time_ok := True\<rparr>)"
    using assms(6) b unfolding parse_rmc_def nf res_bind_simps Let_def prod.case md t dt
    by (auto simp: scan_short_def scan_real_def short [simplified] fra_def)
  then have p: "lgw_parse_nmea s (length s) g = Inr (NMEA_RMC, g')"
    using assms(9-12) by (simp add: lgw_parse_nmea_def g'_def)
  define n where "n = c_trunc (dbl (fra * 10 ^ 9))"
  have n: "\<bar>n - int c * 10 ^ 7\<bar> \<le> 61" unfolding n_def fra_def by (rule fraction_nanoseconds [OF b(4)])
  then have nr: "- (2 ^ 31) \<le> n" "n < 2 ^ 31" using b(4) by simp_all
  define x where "x = \<lparr>tm_year = int y + 100, tm_mon = int mo - 1, tm_mday = int d, tm_hour = int h, tm_min = int mi, tm_sec = int se\<rparr>"
  have x: "0 \<le> mktime 0 x" using century_after_epoch b unfolding x_def by blast
  have tz: "mktime tz x - tz = mktime 0 x" by (simp add: mktime_def)
  have nn: "c_trunc (dbl (fra * 1000000000)) = n" by (simp add: n_def)
  have "gps_get_utc tz g' = Inr (Some \<lparr>tv_sec = mktime 0 x, tv_nsec = n\<rparr>)"
    using rmc b(7) x tz nr by (simp add: gps_get_utc_def g'_def x_def [symmetric] nn Let_def)
  then show ?thesis using p n unfolding x_def by auto
qed


definition example_rmc :: "u8 list list" where
  "example_rmc = map cstr [''$GPRMC'', ''083559.34'', ''A'', [], [], [], [], [], [], ''091202'', [], []] @ [cstr ''A*68'' @ [13]]"

theorem rmc_utc_decoded_witness:
  "\<exists>g' t. lgw_parse_nmea (join_fields 44 example_rmc @ [10]) (length (join_fields 44 example_rmc @ [10])) gps_vars_init = Inr (NMEA_RMC, g') \<and>
    gps_get_utc 3600 g' = Inr (Some t) \<and> tv_sec t = 1039422959 \<and> \<bar>tv_nsec t - 34 * 10 ^ 7\<bar> \<le> 61"
proof -
  have "mktime 0 \<lparr>tm_year = int 2 + 100, tm_mon = int 12 - 1, tm_mday = int 9, tm_hour = int 8, tm_min = int 35, tm_sec = int 59\<rparr> = 1039422959"
    by code_simp
  moreover have "length example_rmc = 13" "\<forall>f\<in>set example_rmc. 44 \<notin> set f \<and> 0 \<notin> set f"
    "example_rmc ! 1 = two_digits 8 @ two_digits 35 @ two_digits 59 @ 46 # two_digits 34"
    "example_rmc ! 9 = two_digits 9 @ two_digits 12 @ two_digits 2"
    "example_rmc ! 12 = of_char (CHR ''A'') # (cstr ''*68'' @ [13])"
    "8 \<le> length (join_fields 44 example_rmc @ [10])" "length (join_fields 44 example_rmc @ [10]) \<le> 255"
    "match_label (join_fields 44 example_rmc @ [10]) (cstr ''$G?RMC'') 6 (of_char (CHR ''?'')) = Inr True"
    "validate_nmea_checksum (join_fields 44 example_rmc @ [10]) (length (join_fields 44 example_rmc @ [10])) = Inr True"
    by code_simp+
  ultimately show ?thesis
    using rmc_utc_decoded [of example_rmc 8 35 59 34 9 12 2 "of_char (CHR ''A'')" "cstr ''*68'' @ [13]"
        "join_fields 44 example_rmc @ [10]" gps_vars_init 3600] by simp
qed

subsection \<open>A time without a date\<close>

text \<open>
  The parsers share one flag for the time of the NMEA and of the UBX messages. A valid NAV-TIMEGPS message that arrives before the first RMC sentence therefore synchronises the
  time reference with the UTC date of the initial zeros, the 30th of November 1999.
\<close>

theorem gps_sync_without_date:
  assumes "ubx_frame f" and "f ! 2 = 0x01" and "f ! 3 = 0x20" and "f ! 17 AND 3 \<noteq> 0" and "gpsvars st = gps_vars_init"
  shows "\<exists>t. gps_get_time (ubx_time_vars f gps_vars_init) = Some t \<and>
    gps_handle env f st = Inr (st\<lparr>gpsvars := ubx_time_vars f gps_vars_init,
      gpstime := gps_process_sync (env_now env (sync_calls st)) (Some (\<lparr>tv_sec = 943920000, tv_nsec = 0\<rparr>, t)) (env_trig env (sync_calls st)) (gpstime st),
      sync_calls := sync_calls st + 1\<rparr>)"
proof -
  define g where "g = ubx_time_vars f gps_vars_init"
  have g: "gps_time_ok g" using assms(4) by (simp add: g_def ubx_time_vars_def)
  then obtain t where t: "gps_get_time g = Some t" by (simp add: gps_get_time_def Let_def)
  have m: "mktime tz \<lparr>tm_year = 100, tm_mon = - 1, tm_mday = 0, tm_hour = 0, tm_min = 0, tm_sec = 0\<rparr> = 943920000 + tz" for tz
    by (simp add: mktime_def tm_days_def leap_days_def is_leap_year_def days_before_month_def Let_def)
  have u: "gps_get_utc (env_tz env) g = Inr (Some \<lparr>tv_sec = 943920000, tv_nsec = 0\<rparr>)"
    using assms(4) by (simp add: gps_get_utc_def g_def ubx_time_vars_def gps_vars_init_def m c_trunc_def)
  have "f ! 0 = 0xB5" "f \<noteq> []" using assms(1) by (auto simp: ubx_frame_def)
  then have f0: "byte_at f 0 = Inr 0xB5" "f \<noteq> []" by simp_all
  have sync: "gps_sync_call env (st\<lparr>gpsvars := g\<rparr>) = Inr (st\<lparr>gpsvars := g,
      gpstime := gps_process_sync (env_now env (sync_calls st)) (Some (\<lparr>tv_sec = 943920000, tv_nsec = 0\<rparr>, t)) (env_trig env (sync_calls st)) (gpstime st),
      sync_calls := sync_calls st + 1\<rparr>)"
    by (simp add: gps_sync_call_def lgw_gps_get_def u t Let_def)
  show ?thesis
    using t f0 assms(2,3,5) sync
    by (simp add: gps_handle_def gps_try_frame_def lgw_parse_ubx_frame [OF assms(1)] g_def [symmetric] Let_def)
qed

theorem gps_sync_without_date_witness:
  "\<exists>t. gps_get_time (ubx_time_vars example_timegps gps_vars_init) = Some t \<and>
    gps_handle \<lparr>env_memcpy_up = False, env_tz = 0, env_now = (\<lambda>_. 100), env_trig = (\<lambda>_. 5)\<rparr> example_timegps
      \<lparr>gpsvars = gps_vars_init, gpstime = time_state_init, sync_calls = 0, gps_coord_valid = False, meas_gps_coord = coord_zero, meas_gps_err = coord_zero\<rparr> =
    Inr \<lparr>gpsvars = ubx_time_vars example_timegps gps_vars_init,
      gpstime = gps_process_sync 100 (Some (\<lparr>tv_sec = 943920000, tv_nsec = 0\<rparr>, t)) 5 time_state_init,
      sync_calls = 1, gps_coord_valid = False, meas_gps_coord = coord_zero, meas_gps_err = coord_zero\<rparr>"
proof -
  have "ubx_frame example_timegps" "example_timegps ! 2 = 0x01" "example_timegps ! 3 = 0x20" "example_timegps ! 17 AND 3 \<noteq> 0"
    by code_simp+
  from gps_sync_without_date [OF this, of
      "\<lparr>gpsvars = gps_vars_init, gpstime = time_state_init, sync_calls = 0, gps_coord_valid = False, meas_gps_coord = coord_zero, meas_gps_err = coord_zero\<rparr>"
      "\<lparr>env_memcpy_up = False, env_tz = 0, env_now = (\<lambda>_. 100), env_trig = (\<lambda>_. 5)\<rparr>"]
  show ?thesis by simp
qed

end
