(* ===== verification/Cdp.thy ===== *)
theory Cdp
  imports Prelude
begin

text \<open>
  The packets of the mesh protocol: the checksum \<^verbatim>\<open>CRC32\<close> of \<^verbatim>\<open>clusterduck/src/utils/CRC32.cpp\<close>, the class \<^verbatim>\<open>CdpPacket\<close> of \<^verbatim>\<open>CdpPacket.h\<close> and \<^verbatim>\<open>CdpPacket.cpp\<close>, and the
  conversions of \<^verbatim>\<open>utils/DuckUtils.h\<close> that the protocol uses. A \<^verbatim>\<open>std::array\<close> is a list of its length, a \<^verbatim>\<open>std::vector\<close> and a \<^verbatim>\<open>std::string\<close> are lists.
\<close>

type_synonym duid = "u8 list"
type_synonym muid = "u8 list"

subsection \<open>Error codes and constants\<close>

abbreviation (input) DUCK_ERR_NONE :: int where "DUCK_ERR_NONE \<equiv> 0"
abbreviation (input) DUCKPACKET_ERR_SIZE_INVALID :: int where "DUCKPACKET_ERR_SIZE_INVALID \<equiv> -4000"
abbreviation (input) DUCKPACKET_ERR_TOPIC_INVALID :: int where "DUCKPACKET_ERR_TOPIC_INVALID \<equiv> -4001"
abbreviation (input) DUCKLORA_ERR_NOT_INITIALIZED :: int where "DUCKLORA_ERR_NOT_INITIALIZED \<equiv> -1054"
abbreviation (input) HEADER_LENGTH :: nat where "HEADER_LENGTH \<equiv> 27"
abbreviation (input) MAX_DATA_LENGTH :: nat where "MAX_DATA_LENGTH \<equiv> 229"
abbreviation (input) DATA_CRC_POS :: nat where "DATA_CRC_POS \<equiv> 23"

definition PAPADUCK_DUID :: duid where
  "PAPADUCK_DUID = replicate 8 0"

definition BROADCAST_DUID :: duid where
  "BROADCAST_DUID = replicate 8 0xFF"

text \<open>The topics that the protocol itself handles.\<close>

abbreviation (input) topic_ping :: u8 where "topic_ping \<equiv> 0x01"
abbreviation (input) topic_pong :: u8 where "topic_pong \<equiv> 0x02"
abbreviation (input) topic_cmd :: u8 where "topic_cmd \<equiv> 0x05"
abbreviation (input) topic_rreq :: u8 where "topic_rreq \<equiv> 0x06"
abbreviation (input) topic_rrep :: u8 where "topic_rrep \<equiv> 0x07"
abbreviation (input) topic_max_reserved :: u8 where "topic_max_reserved \<equiv> 0x0F"

subsection \<open>CRC32\<close>

definition crc32_table :: "u32 list" where
  "crc32_table =
     [0x00000000, 0x1db71064, 0x3b6e20c8, 0x26d930ac,
      0x76dc4190, 0x6b6b51f4, 0x4db26158, 0x5005713c,
      0xedb88320, 0xf00f9344, 0xd6d6a3e8, 0xcb61b38c,
      0x9b64c2b0, 0x86d3d2d4, 0xa00ae278, 0xbdbdf21c]"

text \<open>The table is indexed with the low nibble of the state and of the data, which \<^verbatim>\<open>tbl_idx\<close> holds in a byte.\<close>

definition crc32_nibble :: "u32 \<Rightarrow> u8 \<Rightarrow> u32" where
  "crc32_nibble state d =
     (let tbl_idx = ucast state XOR d :: u8
      in crc32_table ! unat (tbl_idx AND 0x0f) XOR drop_bit 4 state)"

definition crc32_update :: "u32 \<Rightarrow> u8 \<Rightarrow> u32" where
  "crc32_update state d = crc32_nibble (crc32_nibble state d) (drop_bit 4 d)"

definition crc32_calculate :: "u8 list \<Rightarrow> u32" where
  "crc32_calculate data = NOT (foldl crc32_update (- 1) data)"

subsection \<open>Conversions\<close>

definition toUint32 :: "u8 list \<Rightarrow> u32" where
  "toUint32 d = push_bit 24 (ucast (d ! 0)) OR push_bit 16 (ucast (d ! 1)) OR push_bit 8 (ucast (d ! 2)) OR ucast (d ! 3)"

definition c_isprint :: "u8 \<Rightarrow> bool" where
  "c_isprint c \<longleftrightarrow> 32 \<le> c \<and> c \<le> 126"

text \<open>\<^verbatim>\<open>duckutils::toString\<close> of a container.\<close>

definition duck_toString :: "u8 list \<Rightarrow> cstring" where
  "duck_toString xs = (if list_all c_isprint xs then xs else cstr ''ERROR: Non-printable character'')"

definition hexDigit :: "u8 \<Rightarrow> int" where
  "hexDigit c =
     (if 48 \<le> c \<and> c \<le> 57 then uint c - 48
      else if 65 \<le> c \<and> c \<le> 70 then uint c - 65 + 10
      else if 97 \<le> c \<and> c \<le> 102 then uint c - 97 + 10
      else -1)"

definition hex_chars :: "cstring" where
  "hex_chars = cstr ''0123456789ABCDEF''"

definition arrayToHexString :: "u8 list \<Rightarrow> cstring" where
  "arrayToHexString arr = concat (map (\<lambda>val. [hex_chars ! unat (drop_bit 4 val AND 0x0F), hex_chars ! unat (val AND 0x0F)]) arr)"

text \<open>The loop: the bytes decoded before the first character that is no digit.\<close>

fun hex_bytes :: "cstring \<Rightarrow> u8 list" where
  "hex_bytes (a # b # cs) =
     (let hi = hexDigit a; lo = hexDigit b
      in if hi < 0 \<or> lo < 0 then [] else of_int (hi * 16 + lo) # hex_bytes cs)"
| "hex_bytes _ = []"

definition hexStringToArray :: "nat \<Rightarrow> cstring \<Rightarrow> u8 list" where
  "hexStringToArray n hex = (let bs = hex_bytes (take (2 * n) hex) in bs @ replicate (n - length bs) 0)"

text \<open>\<^verbatim>\<open>getRandomBytes\<close>; \<open>rnd k\<close> is the \<open>k\<close>-th value of \<^verbatim>\<open>random()\<close> from now on.\<close>

definition random_digits :: "cstring" where
  "random_digits = cstr ''0123456789ABCDEFGHIJKLMNOPQRSTUVWXYZ''"

definition getRandomBytes :: "nat \<Rightarrow> (nat \<Rightarrow> nat) \<Rightarrow> u8 list" where
  "getRandomBytes n rnd = map (\<lambda>i. random_digits ! (rnd i mod 36)) [0..<n]"

subsection \<open>Packets\<close>

text \<open>\<^verbatim>\<open>timeReceived\<close> is left out: it is written only.\<close>

record cdp_packet =
  sduid :: duid
  dduid :: duid
  cdp_muid :: muid
  cdp_topic :: u8
  cdp_duckType :: u8
  hopCount :: u8
  dcrc :: u32
  cdp_data :: "u8 list"
  cdp_buffer :: "u8 list"

text \<open>The constructor from received bytes.\<close>

definition cdp_from_buffer :: "u8 list \<Rightarrow> c_fault + cdp_packet" where
  "cdp_from_buffer b =
     (if length b < HEADER_LENGTH then Inl OutOfBounds
      else Inr \<lparr>sduid = take 8 b, dduid = take 8 (drop 8 b), cdp_muid = take 4 (drop 16 b), cdp_topic = b ! 20, cdp_duckType = b ! 21,
                hopCount = b ! 22, dcrc = toUint32 (drop DATA_CRC_POS b), cdp_data = drop HEADER_LENGTH b, cdp_buffer = b\<rparr>)"

text \<open>The constructor for new data; \<^verbatim>\<open>muid\<close> and \<^verbatim>\<open>dcrc\<close> have no value yet and are not read before they get one.\<close>

definition cdp_new :: "duid \<Rightarrow> u8 \<Rightarrow> u8 list \<Rightarrow> duid \<Rightarrow> u8 \<Rightarrow> cdp_packet" where
  "cdp_new dd t d sd dt =
     \<lparr>sduid = sd, dduid = dd, cdp_muid = replicate 4 0, cdp_topic = t, cdp_duckType = dt, hopCount = 0, dcrc = 0, cdp_data = d, cdp_buffer = []\<rparr>"

definition crc_bytes :: "u32 \<Rightarrow> u8 list" where
  "crc_bytes v = [ucast (drop_bit 24 v AND 0xFF), ucast (drop_bit 16 v AND 0xFF), ucast (drop_bit 8 v AND 0xFF), ucast (v AND 0xFF)]"

definition prepareForSending :: "cdp_packet \<Rightarrow> int \<times> cdp_packet" where
  "prepareForSending p =
     (let data_length = of_nat (length (cdp_data p)) :: u8
      in if cdp_data p = [] \<or> MAX_DATA_LENGTH < unat data_length then (DUCKPACKET_ERR_SIZE_INVALID, p\<lparr>cdp_buffer := []\<rparr>)
         else (DUCK_ERR_NONE,
               p\<lparr>cdp_buffer := sduid p @ dduid p @ cdp_muid p @ [cdp_topic p, cdp_duckType p, hopCount p] @
                   crc_bytes (crc32_calculate (cdp_data p)) @ cdp_data p\<rparr>))"

definition topicToString :: "cdp_packet \<Rightarrow> cstring" where
  "topicToString p =
     (case map_of
        [(0x06, ''rreq''), (0x07, ''rrep''), (0x10, ''status''), (0x11, ''cpm''), (0xEA, ''gps''), (0x13, ''sensor''), (0x14, ''alert''),
         (0x15, ''health''), (0x16, ''dcmd''), (0xEF, ''mq7''), (0xFA, ''gp2y''), (0xFB, ''bmp280''), (0xFC, ''dht11''), (0xFD, ''pir''),
         (0xFE, ''bmp180''), (0x01, ''ping''), (0x02, ''pong''), (0x1B, ''encrypted_cmd''), (0x1C, ''sealed_uplink''),
         (0x1D, ''identity_announce''), (0x1E, ''encrypted_data''), (0x1F, ''group_broadcast'')] (cdp_topic p) of
        Some s \<Rightarrow> cstr s
      | None \<Rightarrow> cstr ''unknown'')"

end
