(* ===== verification/CdpProps.thy ===== *)
theory CdpProps
  imports Cdp
begin

text \<open>
  A packet that is serialised is parsed back field by field and passes the check of its checksum; the checksum is the usual CRC-32 and detects every error within four
  consecutive bytes of the data; the length check of the serialisation is done modulo 256.
\<close>

subsection \<open>The checksum\<close>

text \<open>One bit of the reflected CRC-32 with the polynomial \<open>0xEDB88320\<close>.\<close>

definition crc32_bit :: "u32 \<Rightarrow> u32" where
  "crc32_bit s = drop_bit 1 s XOR (if bit s 0 then 0xEDB88320 else 0)"

text \<open>The reference: the byte is added to the low end, then eight bits are shifted out.\<close>

definition crc32_reference :: "u8 list \<Rightarrow> u32" where
  "crc32_reference data = NOT (foldl (\<lambda>s d. (crc32_bit ^^ 8) (s XOR ucast d)) (- 1) data)"

lemma xor_right_cancel: "a XOR c = b XOR c \<Longrightarrow> a = b" for a b c :: u32
  by (auto simp: bit_eq_iff bit_simps)

lemma crc32_bit_xor: "crc32_bit (a XOR b) = crc32_bit a XOR crc32_bit b"
  by (rule bit_word_eqI) (auto simp: crc32_bit_def bit_simps)

lemma crc32_bit_pow_xor: "(crc32_bit ^^ n) (a XOR b) = (crc32_bit ^^ n) a XOR (crc32_bit ^^ n) b"
  by (induction n) (simp_all add: crc32_bit_xor)

lemma crc32_bit_pow_low: "take_bit n s = 0 \<Longrightarrow> (crc32_bit ^^ n) s = drop_bit n s"
proof (induction n arbitrary: s)
  case (Suc n)
  have b: "\<not> bit s i" if "i < Suc n" for i
    using that Suc.prems by (metis bit_take_bit_iff bit_0_eq bot_apply bot_bool_def)
  then have "crc32_bit s = drop_bit 1 s" by (simp add: crc32_bit_def)
  moreover have "take_bit n (drop_bit 1 s) = 0" by (rule bit_word_eqI) (use b in \<open>auto simp: bit_simps\<close>)
  ultimately show ?case using Suc.IH [of "drop_bit 1 s"] by (simp add: funpow_swap1 drop_bit_drop_bit)
qed simp

lemma crc32_table_step: "x < 16 \<Longrightarrow> (crc32_bit ^^ 4) x = crc32_table ! unat x"
proof -
  have "list_all (\<lambda>n. (crc32_bit ^^ 4) (of_nat n) = crc32_table ! n) [0..<16]" by code_simp
  moreover assume "x < 16"
  then have "unat x < 16" by (simp add: word_less_nat_alt)
  ultimately have "(crc32_bit ^^ 4) (of_nat (unat x)) = crc32_table ! unat x" unfolding list_all_iff by (metis atLeastLessThan_iff le0 set_upt)
  then show ?thesis by simp
qed

lemma split_low: "s = take_bit n s XOR (s AND NOT (mask n))" for s :: u32
  by (rule bit_word_eqI) (auto simp: bit_simps)

lemma crc32_nibble_bits: "crc32_nibble s d = (crc32_bit ^^ 4) (s XOR ucast (d AND 0x0f))"
proof -
  define x where "x = s XOR ucast (d AND 0x0f)"
  have m: "(0x0f :: u8) = mask 4" by (simp add: mask_eq_exp_minus_1)
  have lo: "take_bit 4 x < 16" using take_bit_nat_less_exp [of 4 "unat x"] by (simp add: word_less_nat_alt unsigned_take_bit_eq)
  have "(crc32_bit ^^ 4) x = (crc32_bit ^^ 4) (take_bit 4 x) XOR (crc32_bit ^^ 4) (x AND NOT (mask 4))"
    using crc32_bit_pow_xor split_low by metis
  also have "(crc32_bit ^^ 4) (take_bit 4 x) = crc32_table ! unat (take_bit 4 x)" by (rule crc32_table_step [OF lo])
  also have "(crc32_bit ^^ 4) (x AND NOT (mask 4)) = drop_bit 4 (x AND NOT (mask 4))"
    by (rule crc32_bit_pow_low, rule bit_word_eqI) (auto simp: bit_simps)
  also have "drop_bit 4 (x AND NOT (mask 4)) = drop_bit 4 s"
    by (rule bit_word_eqI) (auto simp: x_def m bit_simps dest: bit_imp_le_length)
  also have "unat (take_bit 4 x) = unat ((ucast s XOR d :: u8) AND 0x0f)"
  proof -
    have "take_bit 4 x = ucast ((ucast s XOR d :: u8) AND 0x0f)"
      by (rule bit_word_eqI) (auto simp: x_def m bit_simps)
    moreover have "unat ((ucast s XOR d :: u8) AND 0x0f) < 2 ^ LENGTH(8)" by (rule unsigned_less)
    ultimately show ?thesis by (simp add: unsigned_ucast_eq take_bit_nat_eq_self_iff)
  qed
  finally show ?thesis by (simp add: crc32_nibble_def x_def Let_def)
qed


lemma crc32_update_bits: "crc32_update s d = (crc32_bit ^^ 8) (s XOR ucast d)"
proof -
  have m: "(0x0f :: u8) = mask 4" by (simp add: mask_eq_exp_minus_1)
  have dd: "(ucast d :: u32) = ucast (d AND 0x0f) XOR push_bit 4 (ucast (drop_bit 4 d))"
    by (rule bit_word_eqI) (auto simp: m bit_simps)
  have hi: "drop_bit 4 d AND 0x0f = drop_bit 4 d"
    by (rule bit_word_eqI) (auto simp: m bit_simps dest: bit_imp_le_length)
  have "(crc32_bit ^^ 4) (push_bit 4 (ucast (drop_bit 4 d))) = drop_bit 4 (push_bit 4 (ucast (drop_bit 4 d) :: u32))"
    by (rule crc32_bit_pow_low, rule bit_word_eqI) (auto simp: bit_simps)
  also have "\<dots> = ucast (drop_bit 4 d)"
    by (rule bit_word_eqI) (auto simp: bit_simps dest: bit_imp_le_length)
  finally have p: "(crc32_bit ^^ 4) (push_bit 4 (ucast (drop_bit 4 d))) = (ucast (drop_bit 4 d) :: u32)" .
  have "(crc32_bit ^^ 8) (s XOR ucast d) = (crc32_bit ^^ 4) ((crc32_bit ^^ 4) (s XOR ucast d))"
    by (simp only: funpow_add [symmetric, THEN fun_cong, unfolded comp_def]) simp
  also have "(crc32_bit ^^ 4) (s XOR ucast d) = (crc32_bit ^^ 4) ((s XOR ucast (d AND 0x0f)) XOR push_bit 4 (ucast (drop_bit 4 d)))"
    by (simp only: dd xor.assoc)
  also have "\<dots> = crc32_nibble s d XOR ucast (drop_bit 4 d)"
    by (simp only: crc32_bit_pow_xor p crc32_nibble_bits)
  finally show ?thesis by (simp only: crc32_update_def crc32_nibble_bits [of "crc32_nibble s d"] hi)
qed

text \<open>
  The table-driven computation with two nibbles per byte is the bitwise CRC-32.
\<close>

theorem crc32_table_correct: "crc32_calculate data = crc32_reference data"
  by (simp add: crc32_calculate_def crc32_reference_def crc32_update_bits [abs_def])

text \<open>Each step can be undone, so a difference never disappears again.\<close>

lemma crc32_bit_inj: "crc32_bit a = crc32_bit b \<Longrightarrow> a = b"
proof -
  have z: "c = 0" if "crc32_bit c = 0" for c
  proof -
    have top: "\<not> bit (drop_bit 1 c) 31" by (auto simp: bit_simps dest: bit_imp_le_length)
    have "\<not> bit c 0"
    proof
      assume "bit c 0"
      then have "drop_bit 1 c XOR 0xEDB88320 = 0" using that by (simp add: crc32_bit_def)
      then have "bit (drop_bit 1 c) 31 = bit (0xEDB88320 :: u32) 31" by (metis bit_xor_iff bit_0_eq bot_apply bot_bool_def)
      moreover have "bit (0xEDB88320 :: u32) 31" by code_simp
      ultimately show False using top by simp
    qed
    then have d: "drop_bit 1 c = 0" using that by (simp add: crc32_bit_def)
    show "c = 0"
    proof (rule bit_word_eqI)
      fix n
      show "bit c n \<longleftrightarrow> bit (0 :: u32) n"
      proof (cases n)
        case 0
        then show ?thesis using \<open>\<not> bit c 0\<close> by simp
      next
        case (Suc m)
        have "\<not> bit (drop_bit 1 c) m" using d by simp
        then show ?thesis using Suc by (simp add: bit_drop_bit_eq)
      qed
    qed
  qed
  assume "crc32_bit a = crc32_bit b"
  then have "crc32_bit (a XOR b) = 0" by (simp add: crc32_bit_xor)
  then have "a XOR b = 0" by (rule z)
  then show ?thesis by (intro xor_right_cancel [of a b b]) simp
qed

lemma crc32_pow_inj: "(crc32_bit ^^ n) a = (crc32_bit ^^ n) b \<Longrightarrow> a = b"
  by (induction n) (auto dest: crc32_bit_inj)

lemma crc32_update_inj: "crc32_update s d = crc32_update s' d \<Longrightarrow> s = s'"
proof -
  assume "crc32_update s d = crc32_update s' d"
  then have "s XOR ucast d = s' XOR ucast d" unfolding crc32_update_bits by (rule crc32_pow_inj)
  then show ?thesis by (rule xor_right_cancel)
qed

lemma crc32_foldl_inj: "foldl crc32_update s ds = foldl crc32_update s' ds \<Longrightarrow> s = s'"
proof (induction ds arbitrary: s s')
  case (Cons d ds)
  then show ?case by (metis crc32_update_inj foldl_Cons)
qed simp


text \<open>Up to four bytes as a word, the first at the low end.\<close>

fun le_word :: "u8 list \<Rightarrow> u32" where
  "le_word [] = 0"
| "le_word (d # ds) = ucast d XOR push_bit 8 (le_word ds)"

lemma bit_le_word_less: "bit (le_word ds) n \<Longrightarrow> n < 8 * length ds"
proof (induction ds arbitrary: n)
  case (Cons d ds)
  then have "bit d n \<and> n < 32 \<or> 8 \<le> n \<and> bit (le_word ds) (n - 8)" by (auto simp: bit_simps)
  then show ?case
  proof
    assume "bit d n \<and> n < 32"
    then have "n < 8" using bit_imp_le_length [of d n] by simp
    then show ?thesis by simp
  next
    assume "8 \<le> n \<and> bit (le_word ds) (n - 8)"
    then show ?thesis using Cons.IH [of "n - 8"] by simp
  qed
qed simp

lemma push_drop_le_word: "length ds \<le> 3 \<Longrightarrow> drop_bit 8 (push_bit 8 (le_word ds)) = le_word ds"
  by (rule bit_word_eqI) (auto simp: bit_simps dest: bit_le_word_less)

lemma crc32_foldl_word:
  "length ds \<le> 4 \<Longrightarrow> foldl crc32_update s ds = (crc32_bit ^^ (8 * length ds)) (s XOR le_word ds)"
proof (induction ds arbitrary: s)
  case (Cons d ds)
  define w where "w = le_word ds"
  have "(crc32_bit ^^ 8) (push_bit 8 w) = drop_bit 8 (push_bit 8 w)"
    by (rule crc32_bit_pow_low, rule bit_word_eqI) (auto simp: bit_simps)
  then have w: "(crc32_bit ^^ 8) (push_bit 8 w) = w" using push_drop_le_word [of ds] Cons.prems by (simp add: w_def)
  have "foldl crc32_update s (d # ds) = (crc32_bit ^^ (8 * length ds)) ((crc32_bit ^^ 8) (s XOR ucast d) XOR w)"
    using Cons.IH [of "crc32_update s d"] Cons.prems by (simp add: crc32_update_bits [of s d] w_def)
  also have "(crc32_bit ^^ 8) (s XOR ucast d) XOR w = (crc32_bit ^^ 8) ((s XOR ucast d) XOR push_bit 8 w)"
    by (simp only: crc32_bit_pow_xor [of 8 "s XOR ucast d"] w)
  also have "(crc32_bit ^^ (8 * length ds)) \<dots> = (crc32_bit ^^ (8 * length (d # ds))) ((s XOR ucast d) XOR push_bit 8 w)"
    by (simp only: funpow_add [symmetric, THEN fun_cong, unfolded comp_def]) (simp add: add.commute)
  finally show ?case by (simp add: w_def xor.assoc)
qed simp

lemma le_word_inj: "length ds = length ds' \<Longrightarrow> length ds \<le> 4 \<Longrightarrow> le_word ds = le_word ds' \<Longrightarrow> ds = ds'"
proof (induction ds ds' rule: list_induct2)
  case (Cons d ds d' ds')
  have b: "bit d n = bit d' n" if "n < 8" for n
  proof -
    have "bit (le_word (d # ds)) n = bit (le_word (d' # ds')) n" using Cons.prems by simp
    then show ?thesis using that by (simp add: bit_simps)
  qed
  then have dd: "d = d'" by (intro bit_word_eqI) simp
  then have "push_bit 8 (le_word ds) = push_bit 8 (le_word ds')"
    using Cons.prems(2) xor_right_cancel [of "push_bit 8 (le_word ds)" "ucast d" "push_bit 8 (le_word ds')"] by (simp add: xor.commute)
  moreover have "length ds \<le> 3" "length ds' \<le> 3" using Cons.prems(1) Cons.hyps by auto
  ultimately have "le_word ds = le_word ds'" by (metis push_drop_le_word)
  then show ?case using Cons dd by simp
qed simp

text \<open>
  Two data sections of the same length that differ only within four consecutive bytes have different checksums, so that such an error is always detected.
\<close>

lemma crc32_burst:
  assumes "length mid = length mid'" and "length mid \<le> 4" and "mid \<noteq> mid'"
  shows "crc32_calculate (pre @ mid @ post) \<noteq> crc32_calculate (pre @ mid' @ post)"
proof
  define s where "s = foldl crc32_update (- 1) pre"
  assume "crc32_calculate (pre @ mid @ post) = crc32_calculate (pre @ mid' @ post)"
  then have "foldl crc32_update (foldl crc32_update s mid) post = foldl crc32_update (foldl crc32_update s mid') post"
    by (simp add: crc32_calculate_def s_def)
  then have "foldl crc32_update s mid = foldl crc32_update s mid'" by (rule crc32_foldl_inj)
  then have "s XOR le_word mid = s XOR le_word mid'"
    using assms crc32_pow_inj by (metis crc32_foldl_word)
  then have "le_word mid = le_word mid'" using xor_right_cancel [of "le_word mid" s "le_word mid'"] by (simp add: xor.commute)
  then show False using assms le_word_inj by blast
qed

subsection \<open>Serialisation\<close>

definition cdp_wf :: "cdp_packet \<Rightarrow> bool" where
  "cdp_wf p \<longleftrightarrow> length (sduid p) = 8 \<and> length (dduid p) = 8 \<and> length (cdp_muid p) = 4"

lemma toUint32_crc_bytes: "toUint32 (crc_bytes v @ r) = v"
proof (rule bit_word_eqI)
  fix n assume n: "n < LENGTH(32)"
  have m: "(0xFF :: u32) = mask 8" by (simp add: mask_eq_exp_minus_1)
  consider "n < 8" | "8 \<le> n" "n < 16" | "16 \<le> n" "n < 24" | "24 \<le> n" "n < 32" using n by fastforce
  then show "bit (toUint32 (crc_bytes v @ r)) n \<longleftrightarrow> bit v n"
    by cases (auto simp: toUint32_def crc_bytes_def m bit_simps)
qed

lemma prepare_ok:
  assumes "cdp_data p \<noteq> []" and "length (cdp_data p) \<le> MAX_DATA_LENGTH"
  shows "prepareForSending p = (DUCK_ERR_NONE,
    p\<lparr>cdp_buffer := sduid p @ dduid p @ cdp_muid p @ [cdp_topic p, cdp_duckType p, hopCount p] @
        crc_bytes (crc32_calculate (cdp_data p)) @ cdp_data p\<rparr>)"
proof -
  have "unat (of_nat (length (cdp_data p)) :: u8) = length (cdp_data p)" using assms(2) by (simp add: unat_of_nat)
  then show ?thesis using assms by (simp add: prepareForSending_def)
qed

lemma cdp_from_buffer_header:
  assumes "length a = 8" and "length b = 8" and "length c = 4"
  shows "cdp_from_buffer (a @ b @ c @ [t, dt, h] @ crc_bytes v @ d) =
    Inr \<lparr>sduid = a, dduid = b, cdp_muid = c, cdp_topic = t, cdp_duckType = dt, hopCount = h, dcrc = v, cdp_data = d,
         cdp_buffer = a @ b @ c @ [t, dt, h] @ crc_bytes v @ d\<rparr>"
proof -
  have l: "length (crc_bytes v) = 4" by (simp add: crc_bytes_def)
  have "drop 23 (a @ b @ c @ [t, dt, h] @ crc_bytes v @ d) = crc_bytes v @ d" using assms by simp
  moreover have "drop 27 (a @ b @ c @ [t, dt, h] @ crc_bytes v @ d) = d" using assms l by simp
  moreover have "(a @ b @ c @ [t, dt, h] @ crc_bytes v @ d) ! 20 = t" "(a @ b @ c @ [t, dt, h] @ crc_bytes v @ d) ! 21 = dt"
    "(a @ b @ c @ [t, dt, h] @ crc_bytes v @ d) ! 22 = h" using assms by (simp_all add: nth_append)
  ultimately show ?thesis
    using assms l unfolding cdp_from_buffer_def by (simp add: toUint32_crc_bytes)
qed

text \<open>
  C15. A packet with 1 to 229 bytes of data is serialised to at most 256 bytes, and the constructor recovers every field from them; the checksum it reads is that of the data.
\<close>

theorem cdp_packet_roundtrip:
  assumes "cdp_wf p" and "0 < length (cdp_data p)" and "length (cdp_data p) \<le> 229"
  shows "\<exists>p'. prepareForSending p = (DUCK_ERR_NONE, p') \<and> length (cdp_buffer p') = 27 + length (cdp_data p) \<and>
    cdp_from_buffer (cdp_buffer p') = Inr (p\<lparr>dcrc := crc32_calculate (cdp_data p), cdp_buffer := cdp_buffer p'\<rparr>)"
proof -
  define buf where "buf = sduid p @ dduid p @ cdp_muid p @ [cdp_topic p, cdp_duckType p, hopCount p] @
        crc_bytes (crc32_calculate (cdp_data p)) @ cdp_data p"
  have "prepareForSending p = (DUCK_ERR_NONE, p\<lparr>cdp_buffer := buf\<rparr>)"
    using assms(2,3) prepare_ok [of p] by (simp add: buf_def)
  moreover have "length buf = 27 + length (cdp_data p)" using assms(1) by (simp add: buf_def cdp_wf_def crc_bytes_def)
  moreover have "cdp_from_buffer buf = Inr (p\<lparr>dcrc := crc32_calculate (cdp_data p), cdp_buffer := buf\<rparr>)"
    using assms(1) unfolding buf_def cdp_wf_def by (subst cdp_from_buffer_header) auto
  ultimately show ?thesis by simp
qed

theorem cdp_packet_roundtrip_witness:
  "\<exists>p'. prepareForSending (cdp_new BROADCAST_DUID 0x10 [1, 2, 3] PAPADUCK_DUID 1) = (DUCK_ERR_NONE, p') \<and> length (cdp_buffer p') = 27 + 3 \<and>
    cdp_from_buffer (cdp_buffer p') = Inr ((cdp_new BROADCAST_DUID 0x10 [1, 2, 3] PAPADUCK_DUID 1)\<lparr>dcrc := crc32_calculate [1, 2, 3], cdp_buffer := cdp_buffer p'\<rparr>)"
  using cdp_packet_roundtrip [of "cdp_new BROADCAST_DUID 0x10 [1, 2, 3] PAPADUCK_DUID 1"]
  by (simp add: cdp_wf_def cdp_new_def BROADCAST_DUID_def PAPADUCK_DUID_def)

text \<open>
  The length is converted to a byte before it is compared: data of 256 to 485 bytes are accepted, and give a packet that is longer than the protocol allows.
\<close>

lemma prepare_length_wraps:
  assumes "256 \<le> length (cdp_data p)" and "length (cdp_data p) \<le> 485" and "cdp_wf p"
  shows "\<exists>p'. prepareForSending p = (DUCK_ERR_NONE, p') \<and> length (cdp_buffer p') = 27 + length (cdp_data p)"
proof -
  have "unat (of_nat (length (cdp_data p)) :: u8) = length (cdp_data p) mod 256" by (simp add: unat_of_nat)
  also have "\<dots> = length (cdp_data p) - 256" using assms(1,2) by (simp add: mod_if)
  finally have "unat (of_nat (length (cdp_data p)) :: u8) \<le> 229" using assms(2) by simp
  then show ?thesis using assms by (auto simp: prepareForSending_def cdp_wf_def crc_bytes_def)
qed

subsection \<open>Hexadecimal text\<close>

lemma hexDigit_char: "n < 16 \<Longrightarrow> hexDigit (hex_chars ! n) = int n"
proof -
  have "list_all (\<lambda>n. hexDigit (hex_chars ! n) = int n) [0..<16]" by code_simp
  then show "n < 16 \<Longrightarrow> ?thesis" by (simp add: list_all_iff)
qed

lemma nibbles:
  fixes v :: u8
  shows "unat (drop_bit 4 v AND 0x0F) = unat v div 16" and "unat (v AND 0x0F) = unat v mod 16"
proof -
  have m: "(0x0F :: u8) = mask 4" by (simp add: mask_eq_exp_minus_1)
  have "unat v < 2 ^ LENGTH(8)" by (rule unsigned_less)
  then have d: "unat v div 16 < 16" by simp
  show "unat (drop_bit 4 v AND 0x0F) = unat v div 16"
    using d by (simp add: m take_bit_eq_mask [symmetric] unsigned_take_bit_eq drop_bit_eq_div unat_div_distrib take_bit_nat_eq_self_iff)
  show "unat (v AND 0x0F) = unat v mod 16"
    by (simp add: m take_bit_eq_mask [symmetric] unsigned_take_bit_eq take_bit_eq_mod unat_mod_distrib)
qed

lemma hex_pair:
  fixes v :: u8
  shows "of_int (hexDigit (hex_chars ! unat (drop_bit 4 v AND 0x0F)) * 16 + hexDigit (hex_chars ! unat (v AND 0x0F))) = v"
    and "\<not> hexDigit (hex_chars ! unat (drop_bit 4 v AND 0x0F)) < 0" and "\<not> hexDigit (hex_chars ! unat (v AND 0x0F)) < 0"
proof -
  have "unat v < 2 ^ LENGTH(8)" by (rule unsigned_less)
  then have hi: "hexDigit (hex_chars ! unat (drop_bit 4 v AND 0x0F)) = int (unat v div 16)" by (simp add: nibbles(1) hexDigit_char)
  have lo: "hexDigit (hex_chars ! unat (v AND 0x0F)) = int (unat v mod 16)" by (simp add: nibbles(2) hexDigit_char)
  have "int (unat v div 16) * 16 + int (unat v mod 16) = int (unat v)" by presburger
  then show "of_int (hexDigit (hex_chars ! unat (drop_bit 4 v AND 0x0F)) * 16 + hexDigit (hex_chars ! unat (v AND 0x0F))) = v"
    unfolding hi lo by simp
  show "\<not> hexDigit (hex_chars ! unat (drop_bit 4 v AND 0x0F)) < 0" "\<not> hexDigit (hex_chars ! unat (v AND 0x0F)) < 0"
    unfolding hi lo by simp_all
qed

lemma hex_bytes_of_array: "hex_bytes (arrayToHexString arr) = arr"
proof (induction arr)
  case (Cons v arr)
  then show ?case by (simp only: arrayToHexString_def list.map concat.simps append.simps hex_bytes.simps Let_def hex_pair) simp
qed (simp add: arrayToHexString_def)

lemma length_arrayToHexString: "length (arrayToHexString arr) = 2 * length arr"
  by (induction arr) (simp_all add: arrayToHexString_def)

text \<open>An address written into a route document is read back.\<close>

lemma hex_roundtrip: "length d = n \<Longrightarrow> hexStringToArray n (arrayToHexString d) = d"
  using length_arrayToHexString [of d] by (simp add: hexStringToArray_def hex_bytes_of_array)

end
