(* ===== verification/Bloom.thy ===== *)
theory Bloom
  imports Cdp
begin

text \<open>
  The two-phase Bloom filter with which a duck recognises the messages it has seen, \<^verbatim>\<open>clusterduck/src/routing/bloomfilter.cpp\<close>. The members that are set once by the constructor,
  the seeds among them, are a configuration. The integers are natural numbers: with the values of the constructor none of them leaves its range.
\<close>

record bloom_conf =
  numSectors :: nat
  numHashes :: nat
  bitsPerSector :: nat
  maxMsgs :: nat
  Seeds :: "u32 list"

record bloom =
  bconf :: bloom_conf
  filter1 :: "u32 list"
  filter2 :: "u32 list"
  activeFilter :: nat
  nMsg :: nat

text \<open>The constructor; the seeds are the values of \<^verbatim>\<open>rand()\<close> it ends up with.\<close>

definition bloom_init :: "bloom_conf \<Rightarrow> bloom" where
  "bloom_init c = \<lparr>bconf = c, filter1 = replicate (numSectors c) 0, filter2 = replicate (numSectors c) 0, activeFilter = 1, nMsg = 0\<rparr>"

definition bloom_default_conf :: "u32 list \<Rightarrow> bloom_conf" where
  "bloom_default_conf seeds = \<lparr>numSectors = 312, numHashes = 2, bitsPerSector = 32, maxMsgs = 100, Seeds = seeds\<rparr>"

definition djb2Hash :: "u8 list \<Rightarrow> u32 \<Rightarrow> u32" where
  "djb2Hash str seed = foldl (\<lambda>hash c. (push_bit 5 hash + hash) + ucast c) seed str"

text \<open>The \<^verbatim>\<open>do\<close> loop: the next free position.\<close>

partial_function (option) bloom_probe :: "nat \<Rightarrow> nat list \<Rightarrow> nat \<Rightarrow> nat option" where
  [code]: "bloom_probe totalBitSize hashResults hashResult =
     (if hashResult \<in> set hashResults then bloom_probe totalBitSize hashResults ((hashResult + 1) mod totalBitSize) else Some hashResult)"

fun bloom_hash_loop :: "bloom_conf \<Rightarrow> u8 list \<Rightarrow> u32 list \<Rightarrow> nat list \<Rightarrow> nat list option" where
  "bloom_hash_loop c msg [] hashResults = Some hashResults"
| "bloom_hash_loop c msg (seed # seeds) hashResults =
     (let totalBitSize = numSectors c * bitsPerSector c
      in case bloom_probe totalBitSize hashResults (unat (djb2Hash msg seed) mod totalBitSize) of
           None \<Rightarrow> None
         | Some h \<Rightarrow> bloom_hash_loop c msg seeds (hashResults @ [h]))"

text \<open>\<^verbatim>\<open>set_hash_results\<close>; \<open>None\<close> when the loop does not end.\<close>

definition set_hash_results :: "bloom_conf \<Rightarrow> u8 list \<Rightarrow> nat list option" where
  "set_hash_results c msg = bloom_hash_loop c msg (take (numHashes c) (Seeds c)) []"

definition bloom_slot :: "bloom_conf \<Rightarrow> nat \<Rightarrow> nat \<times> u32" where
  "bloom_slot c h = (h div bitsPerSector c, drop_bit (h mod bitsPerSector c) (2 ^ (bitsPerSector c - 1)))"

definition set_sectors_and_slots :: "bloom_conf \<Rightarrow> nat list \<Rightarrow> (nat \<times> u32) list" where
  "set_sectors_and_slots c hashResults = map (bloom_slot c) hashResults"

definition is_collision :: "u32 list \<Rightarrow> (nat \<times> u32) list \<Rightarrow> bool" where
  "is_collision f ss = list_all (\<lambda>(sector, slot). f ! sector AND slot \<noteq> 0) ss"

definition bloom_check :: "bloom \<Rightarrow> u8 list \<Rightarrow> bool option" where
  "bloom_check b msg =
     (case set_hash_results (bconf b) msg of
        None \<Rightarrow> None
      | Some hs \<Rightarrow> let ss = set_sectors_and_slots (bconf b) hs in Some (is_collision (filter1 b) ss \<or> is_collision (filter2 b) ss))"

definition filter_set :: "u32 list \<Rightarrow> (nat \<times> u32) list \<Rightarrow> u32 list" where
  "filter_set f ss = foldl (\<lambda>f (sector, slot). f[sector := f ! sector OR slot]) f ss"

definition bloom_add :: "bloom \<Rightarrow> u8 list \<Rightarrow> bloom option" where
  "bloom_add b msg =
     (case set_hash_results (bconf b) msg of
        None \<Rightarrow> None
      | Some hs \<Rightarrow>
          let ss = set_sectors_and_slots (bconf b) hs;
              b1 = b\<lparr>nMsg := nMsg b + 1\<rparr>;
              b2 = (if activeFilter b1 = 1 then b1\<lparr>filter1 := filter_set (filter1 b1) ss\<rparr> else b1\<lparr>filter2 := filter_set (filter2 b1) ss\<rparr>)
          in Some
            (if maxMsgs (bconf b2) \<le> nMsg b2
             then if activeFilter b2 = 1
                  then b2\<lparr>filter2 := replicate (numSectors (bconf b2)) 0, activeFilter := 2, nMsg := 0\<rparr>
                  else b2\<lparr>filter1 := replicate (numSectors (bconf b2)) 0, activeFilter := 1, nMsg := 0\<rparr>
             else b2))"

text \<open>
  \<^verbatim>\<open>assignUniqueMessageId\<close>: the message id, the filter, and the number of calls of \<^verbatim>\<open>random()\<close>. The loop gives up after 101 attempts; \<open>attempts\<close> counts those that are left.
\<close>

fun muid_loop :: "nat \<Rightarrow> (nat \<Rightarrow> nat) \<Rightarrow> nat \<Rightarrow> bloom \<Rightarrow> (muid \<times> nat) option" where
  "muid_loop attempts rnd used b =
     (let m = getRandomBytes 4 (\<lambda>i. rnd (used + i))
      in case bloom_check b m of
           None \<Rightarrow> None
         | Some False \<Rightarrow> Some (m, used + 4)
         | Some True \<Rightarrow> (case attempts of 0 \<Rightarrow> Some (m, used + 4) | Suc a \<Rightarrow> muid_loop a rnd (used + 4) b))"

declare muid_loop.simps [simp del]

definition assignUniqueMessageId :: "(nat \<Rightarrow> nat) \<Rightarrow> bloom \<Rightarrow> cdp_packet \<Rightarrow> (cdp_packet \<times> bloom \<times> nat) option" where
  "assignUniqueMessageId rnd b p =
     (case muid_loop 100 rnd 0 b of
        None \<Rightarrow> None
      | Some (m, used) \<Rightarrow> map_option (\<lambda>b'. (p\<lparr>cdp_muid := m\<rparr>, b', used)) (bloom_add b m))"

end
