(* ===== verification/BloomProps.thy ===== *)
theory BloomProps
  imports Bloom
begin

text \<open>
  The filter recognises the messages added last, and its loops end. The contract that the ducks rely on is the locale \<open>seen_filter\<close>.
\<close>

subsection \<open>Positions\<close>

definition bloom_conf_ok :: "bloom_conf \<Rightarrow> bool" where
  "bloom_conf_ok c \<longleftrightarrow>
     0 < numSectors c \<and> 0 < bitsPerSector c \<and> bitsPerSector c \<le> 32 \<and> numHashes c = length (Seeds c) \<and>
     numHashes c \<le> numSectors c * bitsPerSector c \<and> 0 < maxMsgs c"

lemma bloom_probe_finds:
  "(h + k) mod n \<notin> set prev \<Longrightarrow> h < n \<Longrightarrow> \<exists>h'. bloom_probe n prev h = Some h' \<and> h' < n \<and> h' \<notin> set prev"
proof (induction k arbitrary: h)
  case 0
  then show ?case by (simp add: bloom_probe.simps [of n prev h])
next
  case (Suc k)
  show ?case
  proof (cases "h \<in> set prev")
    case True
    have "((h + 1) mod n + k) mod n \<notin> set prev" using Suc.prems(1) by (simp add: mod_add_left_eq)
    moreover have "(h + 1) mod n < n" using Suc.prems(2) by simp
    ultimately show ?thesis using Suc.IH True by (simp add: bloom_probe.simps [of n prev h])
  next
    case False
    then show ?thesis using Suc.prems by (simp add: bloom_probe.simps [of n prev h])
  qed
qed

lemma free_position:
  fixes h n :: nat
  assumes "length prev < n"
  shows "\<exists>k. (h + k) mod n \<notin> set prev"
proof (rule ccontr)
  assume "\<not> ?thesis"
  then have s: "(\<lambda>k. (h + k) mod n) ` {..<n} \<subseteq> set prev" by auto
  have "inj_on (\<lambda>k. (h + k) mod n) {..<n}"
  proof (rule inj_onI)
    fix i j assume ij: "i \<in> {..<n}" "j \<in> {..<n}" "(h + i) mod n = (h + j) mod n"
    have "i mod n = j mod n" using ij(3) by (simp add: mod_add_left_eq nat_mod_eq_iff)
    then show "i = j" using ij by simp
  qed
  then have "n = card ((\<lambda>k. (h + k) mod n) ` {..<n})" by (simp add: card_image)
  also have "\<dots> \<le> card (set prev)" using s by (intro card_mono) auto
  also have "\<dots> \<le> length prev" by (rule card_length)
  finally show False using assms by simp
qed

lemma bloom_hash_loop_total:
  assumes "length prev + length seeds \<le> numSectors c * bitsPerSector c" and "0 < numSectors c * bitsPerSector c"
    and "distinct prev" and "\<forall>h\<in>set prev. h < numSectors c * bitsPerSector c"
  shows "\<exists>hs. bloom_hash_loop c msg seeds prev = Some hs \<and> distinct hs \<and> length hs = length prev + length seeds \<and>
    (\<forall>h\<in>set hs. h < numSectors c * bitsPerSector c)"
  using assms
proof (induction seeds arbitrary: prev)
  case (Cons seed seeds)
  define n where "n = numSectors c * bitsPerSector c"
  have "length prev < n" "unat (djb2Hash msg seed) mod n < n" using Cons.prems by (simp_all add: n_def)
  then obtain h where h: "bloom_probe n prev (unat (djb2Hash msg seed) mod n) = Some h" "h < n" "h \<notin> set prev"
    using free_position bloom_probe_finds by metis
  have "\<exists>hs. bloom_hash_loop c msg seeds (prev @ [h]) = Some hs \<and> distinct hs \<and> length hs = length (prev @ [h]) + length seeds \<and>
    (\<forall>h\<in>set hs. h < numSectors c * bitsPerSector c)"
    using Cons.prems h by (intro Cons.IH) (auto simp: n_def)
  then show ?case using h by (simp add: n_def Let_def)
qed auto

text \<open>
  The search for distinct positions ends for every message: the filter gets as many different positions as there are hash functions, all within its bits.
\<close>

theorem bloom_hash_terminates:
  assumes "bloom_conf_ok c"
  shows "\<exists>hs. set_hash_results c msg = Some hs \<and> distinct hs \<and> length hs = numHashes c \<and> (\<forall>h\<in>set hs. h < numSectors c * bitsPerSector c)"
  using assms bloom_hash_loop_total [of "[]" "Seeds c" c msg] by (simp add: set_hash_results_def bloom_conf_ok_def)

lemma default_conf_ok: "length seeds = 2 \<Longrightarrow> bloom_conf_ok (bloom_default_conf seeds)"
  by (simp add: bloom_conf_ok_def bloom_default_conf_def)

theorem bloom_hash_terminates_witness:
  "\<exists>hs. set_hash_results (bloom_default_conf [7, 7]) [1, 2, 3, 4] = Some hs \<and> distinct hs \<and> length hs = 2 \<and> (\<forall>h\<in>set hs. h < 9984)"
  using bloom_hash_terminates [OF default_conf_ok [of "[7, 7]"], of "[1, 2, 3, 4]"] by (simp add: bloom_default_conf_def)

definition bloom_slots :: "bloom_conf \<Rightarrow> u8 list \<Rightarrow> (nat \<times> u32) list" where
  "bloom_slots c msg = set_sectors_and_slots c (the (set_hash_results c msg))"

lemma bloom_slot_bounds:
  assumes "bloom_conf_ok c" and "h < numSectors c * bitsPerSector c"
  shows "fst (bloom_slot c h) < numSectors c" and "snd (bloom_slot c h) \<noteq> 0"
proof -
  have "h < bitsPerSector c * numSectors c" using assms(2) by (simp add: mult.commute)
  then show "fst (bloom_slot c h) < numSectors c" by (simp add: bloom_slot_def less_mult_imp_div_less mult.commute)
  define o' where "o' = h mod bitsPerSector c"
  have "o' < bitsPerSector c" using assms(1) by (simp add: o'_def bloom_conf_ok_def)
  then have o': "o' \<le> bitsPerSector c - 1" by simp
  have "bit (drop_bit o' (2 ^ (bitsPerSector c - 1)) :: u32) (bitsPerSector c - 1 - o')"
    using o' assms(1) by (auto simp: bit_simps bloom_conf_ok_def)
  then show "snd (bloom_slot c h) \<noteq> 0" unfolding bloom_slot_def o'_def [symmetric] by force
qed

lemma bloom_slots_facts:
  assumes "bloom_conf_ok c"
  shows "set_hash_results c msg \<noteq> None" and "\<forall>(s, x)\<in>set (bloom_slots c msg). s < numSectors c \<and> x \<noteq> 0"
proof -
  obtain hs where hs: "set_hash_results c msg = Some hs" "\<forall>h\<in>set hs. h < numSectors c * bitsPerSector c"
    using bloom_hash_loop_total [of "[]" "Seeds c" c msg] assms by (auto simp: set_hash_results_def bloom_conf_ok_def)
  then show "set_hash_results c msg \<noteq> None" by simp
  have "\<forall>p\<in>set (bloom_slots c msg). fst p < numSectors c \<and> snd p \<noteq> 0"
    using hs bloom_slot_bounds [OF assms] by (simp add: bloom_slots_def set_sectors_and_slots_def)
  then show "\<forall>(s, x)\<in>set (bloom_slots c msg). s < numSectors c \<and> x \<noteq> 0" by (simp add: case_prod_beta)
qed

subsection \<open>Setting and testing bits\<close>

lemma filter_set_Nil [simp]: "filter_set f [] = f"
  and filter_set_Cons [simp]: "filter_set f ((s, x) # ss) = filter_set (f[s := f ! s OR x]) ss"
  by (simp_all add: filter_set_def)

lemma length_filter_set [simp]: "length (filter_set f ss) = length f"
  by (induction ss arbitrary: f) auto

lemma and_nonzero_iff: "a AND y \<noteq> 0 \<longleftrightarrow> (\<exists>n<32. bit a n \<and> bit y n)" for a y :: u32
  by (auto simp: bit_word_eqI bit_and_iff bit_eq_iff dest: bit_imp_le_length)

lemma filter_set_mono: "f ! t AND y \<noteq> 0 \<Longrightarrow> filter_set f ss ! t AND y \<noteq> 0"
proof (induction ss arbitrary: f)
  case (Cons p ss)
  obtain s x where p: "p = (s, x)" by fastforce
  have "f[s := f ! s OR x] ! t AND y \<noteq> 0"
  proof (cases "s = t \<and> s < length f")
    case True
    then show ?thesis using Cons.prems unfolding and_nonzero_iff by (auto simp: bit_or_iff)
  next
    case False
    then have "f[s := f ! s OR x] ! t = f ! t" by (cases "s = t") (simp_all add: list_update_beyond)
    then show ?thesis using Cons.prems by simp
  qed
  then show ?case using Cons.IH p by simp
qed simp

lemma filter_set_sets:
  assumes "\<forall>(s, x)\<in>set ss. s < length f \<and> x \<noteq> 0"
  shows "is_collision (filter_set f ss) ss"
  using assms
proof (induction ss arbitrary: f)
  case (Cons p ss)
  obtain s x where p: "p = (s, x)" by fastforce
  have "(f[s := f ! s OR x]) ! s AND x \<noteq> 0"
    using Cons.prems p by (simp add: bit.conj_disj_distrib2)
  then have "filter_set (f[s := f ! s OR x]) ss ! s AND x \<noteq> 0" by (rule filter_set_mono)
  moreover have "is_collision (filter_set (f[s := f ! s OR x]) ss) ss" using Cons by (intro Cons.IH) auto
  ultimately show ?case using p by (simp add: is_collision_def)
qed (simp add: is_collision_def)

lemma is_collision_mono: "is_collision f ss \<Longrightarrow> is_collision (filter_set f ss') ss"
  by (auto simp: is_collision_def list_all_iff dest: filter_set_mono)

subsection \<open>The contract of a filter for seen messages\<close>

text \<open>The last \<open>n\<close> entries of a history, the newest last.\<close>

definition recent :: "nat \<Rightarrow> 'a list \<Rightarrow> 'a list" where
  "recent n h = drop (length h - n) h"

lemma recent_mid: "length k < n \<Longrightarrow> m \<in> set (recent n (h @ m # k))"
proof -
  assume "length k < n"
  then have "length (h @ m # k) - n \<le> length h" by simp
  then obtain h' where "recent n (h @ m # k) = h' @ m # k" unfolding recent_def by simp
  then show ?thesis by simp
qed

fun add_all :: "('f \<Rightarrow> 'm \<Rightarrow> 'f option) \<Rightarrow> 'f \<Rightarrow> 'm list \<Rightarrow> 'f option" where
  "add_all add f [] = Some f"
| "add_all add f (m # ms) = (case add f m of None \<Rightarrow> None | Some f' \<Rightarrow> add_all add f' ms)"

text \<open>
  \<open>inv f h\<close> says that \<open>f\<close> is in order and that the messages \<open>h\<close> were added to it in this order. Both operations end, and the last \<open>window\<close> messages are recognised.
\<close>

locale seen_filter =
  fixes inv :: "'f \<Rightarrow> 'm list \<Rightarrow> bool" and add :: "'f \<Rightarrow> 'm \<Rightarrow> 'f option" and check :: "'f \<Rightarrow> 'm \<Rightarrow> bool option" and window :: nat
  assumes add_total: "inv f h \<Longrightarrow> \<exists>f'. add f m = Some f' \<and> inv f' (h @ [m])"
    and check_total: "inv f h \<Longrightarrow> check f m \<noteq> None"
    and check_recent: "inv f h \<Longrightarrow> m \<in> set (recent window h) \<Longrightarrow> check f m = Some True"
begin

lemma remembered: "inv f (h @ m # k) \<Longrightarrow> length k < window \<Longrightarrow> check f m = Some True"
  by (rule check_recent) (auto intro: recent_mid)

lemma add_all_total: "inv f h \<Longrightarrow> \<exists>f'. add_all add f ms = Some f' \<and> inv f' (h @ ms)"
proof (induction ms arbitrary: f h)
  case (Cons m ms)
  obtain f1 where f1: "add f m = Some f1" "inv f1 (h @ [m])" using add_total Cons.prems by blast
  then show ?case using Cons.IH [OF f1(2)] by simp
qed simp

lemma add_all_remembers: "inv f [] \<Longrightarrow> \<exists>f'. add_all add f ms = Some f' \<and> (\<forall>m\<in>set (recent window ms). check f' m = Some True)"
  using add_all_total [of f "[]" ms] check_recent by auto

end

subsection \<open>What the filter remembers\<close>

text \<open>The messages since the last switch are in the active filter, those of the phase before in the other one.\<close>

definition bloom_holds :: "bloom \<Rightarrow> u8 list list \<Rightarrow> bool" where
  "bloom_holds b hist \<longleftrightarrow>
     bloom_conf_ok (bconf b) \<and> activeFilter b \<in> {1, 2} \<and>
     length (filter1 b) = numSectors (bconf b) \<and> length (filter2 b) = numSectors (bconf b) \<and> nMsg b < maxMsgs (bconf b) \<and>
     (\<exists>old prev act. hist = old @ prev @ act \<and> length act = nMsg b \<and> (old = [] \<or> length prev = maxMsgs (bconf b)) \<and>
        (\<forall>m\<in>set act. is_collision (if activeFilter b = 1 then filter1 b else filter2 b) (bloom_slots (bconf b) m)) \<and>
        (\<forall>m\<in>set prev. is_collision (if activeFilter b = 1 then filter2 b else filter1 b) (bloom_slots (bconf b) m)))"

lemma bloom_holds_init: "bloom_conf_ok c \<Longrightarrow> bloom_holds (bloom_init c) []"
  by (auto simp: bloom_holds_def bloom_init_def bloom_conf_ok_def)

lemma bloom_check_total:
  assumes "bloom_conf_ok (bconf b)"
  shows "bloom_check b m = Some (is_collision (filter1 b) (bloom_slots (bconf b) m) \<or> is_collision (filter2 b) (bloom_slots (bconf b) m))"
  using bloom_slots_facts(1) [OF assms, of m] by (auto simp: bloom_check_def bloom_slots_def Let_def)

lemma bloom_check_recent:
  assumes "bloom_holds b hist" and "m \<in> set (recent (maxMsgs (bconf b)) hist)"
  shows "bloom_check b m = Some True"
proof -
  obtain old prev act where h: "hist = old @ prev @ act" "old = [] \<or> length prev = maxMsgs (bconf b)"
    "\<forall>m\<in>set act. is_collision (if activeFilter b = 1 then filter1 b else filter2 b) (bloom_slots (bconf b) m)"
    "\<forall>m\<in>set prev. is_collision (if activeFilter b = 1 then filter2 b else filter1 b) (bloom_slots (bconf b) m)"
    using assms(1) unfolding bloom_holds_def by blast
  have "m \<in> set (prev @ act)"
    using h(2)
  proof
    assume "old = []"
    then show ?thesis using assms(2) h(1) by (auto simp: recent_def dest: in_set_dropD)
  next
    assume "length prev = maxMsgs (bconf b)"
    then have "recent (maxMsgs (bconf b)) hist = drop (length act) (prev @ act)" using h(1) by (simp add: recent_def)
    then show ?thesis using assms(2) by (metis in_set_dropD)
  qed
  then show ?thesis using h(3,4) bloom_check_total assms(1) by (auto simp: bloom_holds_def split: if_splits)
qed

lemma bloom_add_holds:
  assumes "bloom_holds b hist"
  shows "\<exists>b'. bloom_add b m = Some b' \<and> bloom_holds b' (hist @ [m]) \<and> bconf b' = bconf b"
proof -
  define c where "c = bconf b"
  define ss where "ss = bloom_slots c m"
  have c: "bloom_conf_ok c" and act: "activeFilter b = 1 \<or> activeFilter b = 2"
    and len: "length (filter1 b) = numSectors c" "length (filter2 b) = numSectors c" "nMsg b < maxMsgs c"
    using assms by (auto simp: bloom_holds_def c_def)
  obtain old prev cur where h: "hist = old @ prev @ cur" "length cur = nMsg b" "old = [] \<or> length prev = maxMsgs c"
    and cur: "\<forall>m\<in>set cur. is_collision (if activeFilter b = 1 then filter1 b else filter2 b) (bloom_slots c m)"
    and prev: "\<forall>m\<in>set prev. is_collision (if activeFilter b = 1 then filter2 b else filter1 b) (bloom_slots c m)"
    using assms unfolding bloom_holds_def c_def by blast
  define f where "f = filter_set (if activeFilter b = 1 then filter1 b else filter2 b) ss"
  have fl: "length f = numSectors c" using len by (simp add: f_def)
  have fm: "\<forall>m'\<in>set (cur @ [m]). is_collision f (bloom_slots c m')"
    using cur filter_set_sets [of ss "if activeFilter b = 1 then filter1 b else filter2 b"] bloom_slots_facts(2) [OF c, of m] len
    by (auto simp: f_def ss_def intro: is_collision_mono)
  obtain hs where hs: "set_hash_results c m = Some hs" using bloom_slots_facts(1) [OF c] by blast
  then have sl: "set_sectors_and_slots c hs = ss" by (simp add: ss_def bloom_slots_def)
  define b' where "b' =
    (if maxMsgs c \<le> nMsg b + 1
     then if activeFilter b = 1 then b\<lparr>filter1 := f, filter2 := replicate (numSectors c) 0, activeFilter := 2, nMsg := 0\<rparr>
          else b\<lparr>filter2 := f, filter1 := replicate (numSectors c) 0, activeFilter := 1, nMsg := 0\<rparr>
     else if activeFilter b = 1 then b\<lparr>filter1 := f, nMsg := nMsg b + 1\<rparr> else b\<lparr>filter2 := f, nMsg := nMsg b + 1\<rparr>)"
  have "bloom_add b m = Some b'"
    using hs sl unfolding bloom_add_def b'_def f_def c_def [symmetric] by (auto simp: Let_def c_def)
  moreover have "bloom_holds b' (hist @ [m])"
  proof (cases "maxMsgs c \<le> nMsg b + 1")
    case True
    then have n: "length (cur @ [m]) = maxMsgs c" using len(3) h(2) by simp
    have e: "hist @ [m] = (old @ prev) @ (cur @ [m]) @ []" using h(1) by simp
    have a': "activeFilter b' = (if activeFilter b = 1 then 2 else 1)" "nMsg b' = 0" "bconf b' = c"
      "length (filter1 b') = numSectors c" "length (filter2 b') = numSectors c"
      "(if activeFilter b' = 1 then filter2 b' else filter1 b') = f"
      using True act fl by (auto simp: b'_def c_def)
    have "0 < maxMsgs c" using c by (simp add: bloom_conf_ok_def)
    then show ?thesis unfolding bloom_holds_def a'(2,3,4,5,6)
      by (intro conjI exI [of _ "old @ prev"] exI [of _ "cur @ [m]"] exI [of _ "[]"]) (use c n e fm a'(1) in simp_all)
  next
    case False
    have e: "hist @ [m] = old @ prev @ (cur @ [m])" using h(1) by simp
    have a': "activeFilter b' = activeFilter b" "nMsg b' = nMsg b + 1" "bconf b' = c"
      "length (filter1 b') = numSectors c" "length (filter2 b') = numSectors c"
      "(if activeFilter b = 1 then filter1 b' else filter2 b') = f"
      "(if activeFilter b = 1 then filter2 b' else filter1 b') = (if activeFilter b = 1 then filter2 b else filter1 b)"
      using False act fl len by (auto simp: b'_def c_def)
    show ?thesis unfolding bloom_holds_def a'
      by (intro conjI exI [of _ old] exI [of _ prev] exI [of _ "cur @ [m]"]) (use c act False h e fm prev in simp_all)
  qed
  moreover have "bconf b' = bconf b" by (simp add: b'_def)
  ultimately show ?thesis by blast
qed

text \<open>The filter of a duck keeps the contract with a window of 100 messages.\<close>

definition duck_filter :: "bloom \<Rightarrow> u8 list list \<Rightarrow> bool" where
  "duck_filter b h \<longleftrightarrow> bloom_holds b h \<and> maxMsgs (bconf b) = 100"

interpretation bloom: seen_filter duck_filter bloom_add bloom_check 100
proof unfold_locales
  fix b h m
  assume b: "duck_filter b h"
  then show "\<exists>b'. bloom_add b m = Some b' \<and> duck_filter b' (h @ [m])"
    using bloom_add_holds [of b h m] by (auto simp: duck_filter_def)
  show "bloom_check b m \<noteq> None"
    using b bloom_check_total [of b m] by (simp add: duck_filter_def bloom_holds_def)
  show "m \<in> set (recent 100 h) \<Longrightarrow> bloom_check b m = Some True"
    using b bloom_check_recent [of b h m] by (simp add: duck_filter_def)
qed

lemma duck_filter_init: "length seeds = 2 \<Longrightarrow> duck_filter (bloom_init (bloom_default_conf seeds)) []"
  using bloom_holds_init [OF default_conf_ok [of seeds]] by (simp add: duck_filter_def bloom_init_def bloom_default_conf_def)

lemma bloom_init_empty:
  assumes "length seeds = 2"
  shows "bloom_check (bloom_init (bloom_default_conf seeds)) m = Some False"
proof -
  define c where "c = bloom_default_conf seeds"
  have c: "bloom_conf_ok c" using default_conf_ok assms by (simp add: c_def)
  have "length (bloom_slots c m) = 2"
    using bloom_hash_loop_total [of "[]" "Seeds c" c m] c assms
    by (auto simp: bloom_slots_def set_sectors_and_slots_def set_hash_results_def bloom_conf_ok_def c_def bloom_default_conf_def)
  then obtain s x ss where ss: "bloom_slots c m = (s, x) # ss" by (cases "bloom_slots c m") auto
  then have "s < 312" using bloom_slots_facts(2) [OF c, of m] by (simp add: c_def bloom_default_conf_def)
  then have "\<not> is_collision (replicate 312 0) (bloom_slots c m)" by (simp add: ss is_collision_def)
  then show ?thesis
    using bloom_check_total [of "bloom_init c" m] c by (simp add: bloom_init_def c_def [symmetric]) (simp add: c_def bloom_default_conf_def)
qed

text \<open>
  C18. Whatever messages are added to a new filter and however many, every addition ends, and afterwards the last 100 of them are recognised as seen; a new filter recognises none.
\<close>

theorem bloom_remembers_recent:
  assumes "length seeds = 2"
  shows "\<exists>b. add_all bloom_add (bloom_init (bloom_default_conf seeds)) ms = Some b \<and> (\<forall>m\<in>set (recent 100 ms). bloom_check b m = Some True) \<and>
    (\<forall>m. bloom_check (bloom_init (bloom_default_conf seeds)) m = Some False)"
  using bloom.add_all_remembers [OF duck_filter_init [OF assms], of ms] bloom_init_empty [OF assms] by blast

theorem bloom_remembers_recent_witness:
  "\<exists>b. add_all bloom_add (bloom_init (bloom_default_conf [7, 11])) [[1, 2, 3, 4], [5, 6, 7, 8]] = Some b \<and> bloom_check b [1, 2, 3, 4] = Some True \<and>
    bloom_check (bloom_init (bloom_default_conf [7, 11])) [1, 2, 3, 4] = Some False"
proof -
  have "recent 100 [[1, 2, 3, 4], [5, 6, 7, 8]] = [[1, 2, 3, 4], [5, 6, 7, 8 :: u8]]" by (simp add: recent_def)
  then show ?thesis using bloom_remembers_recent [of "[7, 11]" "[[1, 2, 3, 4], [5, 6, 7, 8]]"] by auto
qed

subsection \<open>Message ids\<close>

lemma getRandomBytes_printable: "list_all c_isprint (getRandomBytes n rnd)"
proof -
  have "list_all c_isprint random_digits" by code_simp
  moreover have "length random_digits = 36" by code_simp
  ultimately show ?thesis by (simp add: getRandomBytes_def list_all_iff list_all_length)
qed

lemma muid_loop_ends:
  assumes "duck_filter b h"
  shows "\<exists>m used'. muid_loop a rnd used b = Some (m, used') \<and> length m = 4 \<and> used' \<le> used + 4 * (a + 1) \<and> (bloom_check b m = Some False \<or> used' = used + 4 * (a + 1))"
proof (induction a arbitrary: used)
  case 0
  show ?case
    by (subst muid_loop.simps) (use bloom.check_total [OF assms] in \<open>auto simp: Let_def getRandomBytes_def split: option.splits bool.splits\<close>)
next
  case (Suc a)
  define m where "m = getRandomBytes 4 (\<lambda>i. rnd (used + i))"
  obtain v where v: "bloom_check b m = Some v" using bloom.check_total [OF assms] by fastforce
  show ?case
  proof (cases v)
    case True
    then have "muid_loop (Suc a) rnd used b = muid_loop a rnd (used + 4) b"
      using v by (subst muid_loop.simps) (simp add: m_def)
    then show ?thesis using Suc.IH [of "used + 4"] by (auto simp: algebra_simps)
  next
    case False
    then show ?thesis using v by (subst muid_loop.simps) (auto simp: m_def getRandomBytes_def)
  qed
qed

text \<open>
  The choice of a message id always ends; unless 101 attempts failed, the id is one that the filter does not know yet, and from now on it does.
\<close>

lemma muid_assigned:
  assumes "duck_filter b h"
  shows "\<exists>m b' used. assignUniqueMessageId rnd b p = Some (p\<lparr>cdp_muid := m\<rparr>, b', used) \<and> length m = 4 \<and> duck_filter b' (h @ [m]) \<and>
    (bloom_check b m = Some False \<or> used = 404)"
proof -
  obtain m used where m: "muid_loop 100 rnd 0 b = Some (m, used)" "length m = 4" "bloom_check b m = Some False \<or> used = 404"
    using muid_loop_ends [OF assms, of 100 rnd 0] by auto
  obtain b' where "bloom_add b m = Some b'" "duck_filter b' (h @ [m])" using bloom.add_total [OF assms] by blast
  then show ?thesis
    using m by (intro exI [of _ m] exI [of _ b'] exI [of _ used]) (simp add: assignUniqueMessageId_def)
qed

end
