(* ===== verification/Router.thy ===== *)
theory Router
  imports Cdp CDouble
begin

text \<open>
  The routing table and the network state of a duck, \<^verbatim>\<open>clusterduck/src/routing/DuckRouter.cpp\<close>, \<^verbatim>\<open>DuckRouter.h\<close>, \<^verbatim>\<open>Neighbor.h\<close> and \<^verbatim>\<open>SignalScore.h\<close>. The
  \<^verbatim>\<open>std::unordered_map\<close> from the text of a device to its records is a map, a \<^verbatim>\<open>std::list\<close> is a list. The readings of the clock are arguments; the differences of
  times are taken modulo \<open>2 ^ 64\<close>, as for \<^verbatim>\<open>unsigned long\<close>. The Bloom filter that the router also holds is a separate component.
\<close>

subsection \<open>Signal quality\<close>

record SignalScore =
  ss_rssi :: rat
  ss_snr :: rat
  ss_signalScore :: rat
  ss_freq_hz :: u32
  ss_sf :: u8

text \<open>\<^verbatim>\<open>Duck::getSignalScore\<close>, in single precision, of the values that the radio reports. The differences of the constants are exact.\<close>

definition getSignalScore :: "rat \<Rightarrow> rat \<Rightarrow> u32 \<Rightarrow> u8 \<Rightarrow> SignalScore" where
  "getSignalScore rssi snr freq_hz sf =
     (let r = flt (flt (rssi - (-131)) / 111);
          q = flt (flt (snr - (-23 / 2)) / 23)
      in \<lparr>ss_rssi = r, ss_snr = q, ss_signalScore = flt (flt (r + q) / 2), ss_freq_hz = freq_hz, ss_sf = sf\<rparr>)"

subsection \<open>Neighbours\<close>

record Neighbor =
  DeviceId :: duid
  lastSeen :: u64
  nb_snr :: rat
  nb_rssi :: rat
  routingScore :: rat
  nb_freq_hz :: u32
  nb_sf :: u8

text \<open>The constructor does not keep its argument \<open>nextHop\<close>.\<close>

definition neighbor_new :: "duid \<Rightarrow> duid \<Rightarrow> SignalScore \<Rightarrow> u64 \<Rightarrow> Neighbor" where
  "neighbor_new devId nextHop signalInfo seen =
     \<lparr>DeviceId = devId, lastSeen = seen, nb_snr = ss_snr signalInfo, nb_rssi = ss_rssi signalInfo, routingScore = ss_signalScore signalInfo,
      nb_freq_hz = ss_freq_hz signalInfo, nb_sf = ss_sf signalInfo\<rparr>"

definition getDeviceId :: "Neighbor \<Rightarrow> cstring" where
  "getDeviceId n = duck_toString (DeviceId n)"

subsection \<open>Network state\<close>

datatype NetworkState = SEARCHING | PUBLIC | DISCONNECTED

definition networkTransition :: "NetworkState \<Rightarrow> NetworkState \<Rightarrow> NetworkState \<Rightarrow> NetworkState" where
  "networkTransition oldState newState networkState =
     (if oldState = SEARCHING \<and> newState = PUBLIC then newState
      else if oldState = PUBLIC \<and> newState = DISCONNECTED then newState
      else if oldState = PUBLIC \<and> newState = SEARCHING then newState
      else if oldState = DISCONNECTED \<and> newState = SEARCHING then newState
      else networkState)"

definition setNetworkState :: "NetworkState \<Rightarrow> NetworkState \<Rightarrow> NetworkState" where
  "setNetworkState newState networkState = (if networkState \<noteq> newState then networkTransition networkState newState networkState else networkState)"

subsection \<open>The routing table\<close>

type_synonym routing_table = "cstring \<rightharpoonup> Neighbor list"

abbreviation (input) ROUTE_TTL :: u64 where "ROUTE_TTL \<equiv> 300000"

definition evictStaleEntries :: "u64 \<Rightarrow> u64 \<Rightarrow> routing_table \<Rightarrow> routing_table" where
  "evictStaleEntries ttl_ms now rt =
     (\<lambda>k. case rt k of
            None \<Rightarrow> None
          | Some ns \<Rightarrow> let ns' = filter (\<lambda>n. \<not> ttl_ms < now - lastSeen n) ns in if ns' = [] then None else Some ns')"

text \<open>\<open>now\<close> is the reading of the eviction, \<open>seen\<close> the one of the new record.\<close>

definition insertIntoRoutingTable :: "u64 \<Rightarrow> u64 \<Rightarrow> duid \<Rightarrow> duid \<Rightarrow> SignalScore \<Rightarrow> routing_table \<Rightarrow> routing_table" where
  "insertIntoRoutingTable now seen deviceID nextHop signalInfo rt =
     (let rt1 = evictStaleEntries ROUTE_TTL now rt;
          neighborRecord = neighbor_new deviceID nextHop signalInfo seen
      in case rt1 (duck_toString deviceID) of
           None \<Rightarrow> rt1(getDeviceId neighborRecord \<mapsto> [neighborRecord])
         | Some ns \<Rightarrow>
             rt1(duck_toString deviceID \<mapsto>
               filter (\<lambda>n. \<not> (lastSeen n < lastSeen neighborRecord \<and> getDeviceId n = getDeviceId neighborRecord)) ns @ [neighborRecord]))"

text \<open>\<^verbatim>\<open>std::list::sort\<close> with \<^verbatim>\<open>operator>\<close>: stable, the highest score first.\<close>

definition sort_neighbors :: "Neighbor list \<Rightarrow> Neighbor list" where
  "sort_neighbors ns = sort_key (\<lambda>n. - routingScore n) ns"

text \<open>
  The text of the best neighbour is copied into an array of 8 bytes; a longer text is written behind its end. The bytes that a shorter text would leave as they were
  are 0 here; the text of a device has at least 8 bytes. The list in the table stays sorted.
\<close>

definition getBestNextHop :: "duid \<Rightarrow> routing_table \<Rightarrow> c_fault + (duid option \<times> routing_table)" where
  "getBestNextHop target rt =
     (case rt (duck_toString target) of
        None \<Rightarrow> Inr (None, rt)
      | Some ns \<Rightarrow>
          (case sort_neighbors ns of
             [] \<Rightarrow> Inl OutOfBounds
           | n # ns' \<Rightarrow>
               let nextHopStr = getDeviceId n
               in if 8 < length nextHopStr then Inl OutOfBounds
                  else Inr (Some (nextHopStr @ replicate (8 - length nextHopStr) 0), rt(duck_toString target \<mapsto> n # ns'))))"

end
