(* ===== verification/RouterProps.thy ===== *)
theory RouterProps
  imports Router
begin

text \<open>
  What the routing table promises: its invariant, that a device that was heard of stays known until its time is over and is forgotten then, and which next hop a lookup gives.
\<close>

definition printable :: "duid \<Rightarrow> bool" where
  "printable d \<longleftrightarrow> list_all c_isprint d"

lemma toString_printable [simp]: "printable d \<Longrightarrow> duck_toString d = d"
  by (simp add: duck_toString_def printable_def)

lemma toString_error: "\<not> printable d \<Longrightarrow> duck_toString d = cstr ''ERROR: Non-printable character''"
  by (simp add: duck_toString_def printable_def)

lemma length_error_text: "length (cstr ''ERROR: Non-printable character'') = 30"
  by (simp add: cstr_def)

lemma broadcast_not_printable: "\<not> printable BROADCAST_DUID" and papaduck_not_printable: "\<not> printable PAPADUCK_DUID"
  by (simp_all add: printable_def BROADCAST_DUID_def PAPADUCK_DUID_def c_isprint_def list_all_iff)

subsection \<open>The invariant\<close>

text \<open>Every key has records, and these are records of the device whose text is the key.\<close>

definition route_wf :: "routing_table \<Rightarrow> bool" where
  "route_wf rt \<longleftrightarrow> (\<forall>k ns. rt k = Some ns \<longrightarrow> ns \<noteq> [] \<and> (\<forall>n\<in>set ns. getDeviceId n = k \<and> length (DeviceId n) = 8))"

lemma route_wf_empty: "route_wf Map.empty"
  by (simp add: route_wf_def)

lemma route_wfD:
  assumes "route_wf rt" and "rt k = Some ns"
  shows "ns \<noteq> []" and "n \<in> set ns \<Longrightarrow> getDeviceId n = k" and "n \<in> set ns \<Longrightarrow> length (DeviceId n) = 8"
  using assms by (auto simp: route_wf_def)

lemma evict_SomeD:
  assumes "evictStaleEntries ttl now rt k = Some ns"
  obtains ns0 where "rt k = Some ns0" and "ns = filter (\<lambda>n. \<not> ttl < now - lastSeen n) ns0" and "ns \<noteq> []"
  using assms by (auto simp: evictStaleEntries_def Let_def split: option.splits if_splits)

lemma evict_wf: "route_wf rt \<Longrightarrow> route_wf (evictStaleEntries ttl now rt)"
  unfolding route_wf_def by (auto elim!: evict_SomeD)

lemma neighbor_new_simps [simp]:
  "DeviceId (neighbor_new d nh s t) = d" "lastSeen (neighbor_new d nh s t) = t" "getDeviceId (neighbor_new d nh s t) = duck_toString d"
  by (simp_all add: neighbor_new_def getDeviceId_def)

text \<open>The list that an insertion leaves for the device: what is kept of the old records, and the new one.\<close>

lemma insert_lookup:
  "insertIntoRoutingTable now seen d nh s rt =
     (evictStaleEntries ROUTE_TTL now rt)(duck_toString d \<mapsto>
        filter (\<lambda>n. \<not> (lastSeen n < seen \<and> getDeviceId n = duck_toString d))
          (case evictStaleEntries ROUTE_TTL now rt (duck_toString d) of None \<Rightarrow> [] | Some ns \<Rightarrow> ns) @ [neighbor_new d nh s seen])"
  by (simp add: insertIntoRoutingTable_def Let_def split: option.splits)

lemma insert_wf:
  assumes "route_wf rt" and "length d = 8"
  shows "route_wf (insertIntoRoutingTable now seen d nh s rt)"
proof -
  have "route_wf (evictStaleEntries ROUTE_TTL now rt)" using assms(1) by (rule evict_wf)
  then show ?thesis
    using assms(2) unfolding route_wf_def insert_lookup
    by (cases "evictStaleEntries ROUTE_TTL now rt (duck_toString d)") (auto split: if_splits)
qed

lemma set_sort_neighbors [simp]: "set (sort_neighbors ns) = set ns"
  by (simp add: sort_neighbors_def)

lemma sort_neighbors_Nil [simp]: "sort_neighbors ns = [] \<longleftrightarrow> ns = []"
  by (metis set_empty set_sort_neighbors)

lemma next_hop_wf:
  assumes "route_wf rt" and "getBestNextHop t rt = Inr (nh, rt')"
  shows "route_wf rt'"
proof (cases "rt (duck_toString t)")
  case None
  then show ?thesis using assms by (simp add: getBestNextHop_def)
next
  case (Some ns)
  obtain n ns' where s: "sort_neighbors ns = n # ns'" using route_wfD(1) [OF assms(1) Some] by (metis list.exhaust sort_neighbors_Nil)
  have "rt' = rt(duck_toString t \<mapsto> n # ns')"
    using assms(2) Some s by (auto simp: getBestNextHop_def Let_def split: if_splits)
  moreover have "set (n # ns') = set ns" using s by (metis set_sort_neighbors)
  ultimately show ?thesis using assms(1) Some unfolding route_wf_def by (auto split: if_splits)
qed

subsection \<open>The next hop\<close>

text \<open>The text of a printable address is the address, and all records under it are records of the device itself.\<close>

lemma next_hop_printable:
  assumes "route_wf rt" and "printable t" and "length t = 8"
  shows "\<exists>rt'. getBestNextHop t rt = Inr (if rt t = None then None else Some t, rt') \<and> dom rt' = dom rt"
proof (cases "rt t")
  case None
  then show ?thesis using assms by (simp add: getBestNextHop_def)
next
  case (Some ns)
  obtain n ns' where s: "sort_neighbors ns = n # ns'" using route_wfD(1) [OF assms(1) Some] by (metis list.exhaust sort_neighbors_Nil)
  have "n \<in> set ns" using s by (metis list.set_intros(1) set_sort_neighbors)
  then have "getDeviceId n = t" using route_wfD(2) [OF assms(1) Some] by blast
  then show ?thesis using assms Some s by (auto simp: getBestNextHop_def Let_def)
qed

text \<open>
  The lookup of a device gives no other next hop than the device itself: for an address of printable characters it returns this address if the table has a record, and
  nothing otherwise. The next hop with which a record was entered plays no role.
\<close>

theorem next_hop_is_destination:
  assumes "route_wf rt" and "printable t" and "length t = 8"
  shows "\<exists>rt'. getBestNextHop t rt = Inr (if rt t = None then None else Some t, rt') \<and> dom rt' = dom rt"
  by (rule next_hop_printable [OF assms])

text \<open>
  An address with a character that is not printable has the text of an error message, which is longer than the array it is copied into. As soon as one such address
  was entered, the lookup of any such address, the broadcast address among them, writes behind the array.
\<close>

lemma next_hop_overflow:
  assumes "route_wf rt" and "\<not> printable t" and "rt (duck_toString t) \<noteq> None"
  shows "getBestNextHop t rt = Inl OutOfBounds"
proof -
  obtain ns where ns: "rt (duck_toString t) = Some ns" using assms(3) by blast
  obtain n ns' where s: "sort_neighbors ns = n # ns'" using route_wfD(1) [OF assms(1) ns] by (metis list.exhaust sort_neighbors_Nil)
  have "n \<in> set ns" using s by (metis list.set_intros(1) set_sort_neighbors)
  then have "getDeviceId n = cstr ''ERROR: Non-printable character''" using route_wfD(2) [OF assms(1) ns] toString_error [OF assms(2)] by simp
  then show ?thesis using ns s by (simp add: getBestNextHop_def Let_def length_error_text)
qed

lemma next_hop_total:
  assumes "route_wf rt" and "\<forall>k\<in>dom rt. length k \<le> 8"
  shows "\<exists>nh rt'. getBestNextHop t rt = Inr (nh, rt') \<and> route_wf rt' \<and> dom rt' = dom rt \<and> (nh = None \<longleftrightarrow> rt (duck_toString t) = None)"
proof (cases "rt (duck_toString t)")
  case None
  then show ?thesis using assms by (simp add: getBestNextHop_def)
next
  case (Some ns)
  obtain n ns' where s: "sort_neighbors ns = n # ns'" using route_wfD(1) [OF assms(1) Some] by (metis list.exhaust sort_neighbors_Nil)
  have "n \<in> set ns" using s by (metis list.set_intros(1) set_sort_neighbors)
  then have "getDeviceId n = duck_toString t" using route_wfD(2) [OF assms(1) Some] by blast
  moreover have "length (duck_toString t) \<le> 8" using assms(2) Some by blast
  ultimately obtain nh rt' where "getBestNextHop t rt = Inr (Some nh, rt')" "dom rt' = dom rt"
    using Some s by (auto simp: getBestNextHop_def Let_def)
  then show ?thesis using next_hop_wf [OF assms(1)] Some by blast
qed

subsection \<open>Life time of the records\<close>

text \<open>A sequence of insertions: the two readings of the clock, the device, the next hop and the signal.\<close>

type_synonym route_event = "u64 \<times> u64 \<times> duid \<times> duid \<times> SignalScore"

fun insert_all :: "route_event list \<Rightarrow> routing_table \<Rightarrow> routing_table" where
  "insert_all [] rt = rt"
| "insert_all ((now, seen, d, nh, s) # es) rt = insert_all es (insertIntoRoutingTable now seen d nh s rt)"

definition has_record :: "routing_table \<Rightarrow> cstring \<Rightarrow> u64 \<Rightarrow> bool" where
  "has_record rt k seen \<longleftrightarrow> (\<exists>ns. rt k = Some ns \<and> (\<exists>n\<in>set ns. lastSeen n = seen))"

lemma evict_keeps: "has_record rt k seen \<Longrightarrow> now - seen \<le> ttl \<Longrightarrow> has_record (evictStaleEntries ttl now rt) k seen"
proof -
  assume "has_record rt k seen" "now - seen \<le> ttl"
  then obtain ns n where n: "rt k = Some ns" "n \<in> set ns" "\<not> ttl < now - lastSeen n" by (auto simp: has_record_def)
  then have "filter (\<lambda>n. \<not> ttl < now - lastSeen n) ns \<noteq> []" by (auto simp: filter_empty_conv)
  then show ?thesis using n \<open>has_record rt k seen\<close> \<open>now - seen \<le> ttl\<close> by (auto simp: has_record_def evictStaleEntries_def Let_def)
qed

lemma insert_keeps:
  assumes "has_record rt k seen" and "now - seen \<le> ROUTE_TTL"
  shows "\<exists>seen2. has_record (insertIntoRoutingTable now t d nh s rt) k seen2 \<and> (seen2 = seen \<or> seen2 = t \<and> duck_toString d = k)"
proof -
  have e: "has_record (evictStaleEntries ROUTE_TTL now rt) k seen" using evict_keeps assms by blast
  then show ?thesis
  proof (cases "duck_toString d = k")
    case True
    then have "has_record (insertIntoRoutingTable now t d nh s rt) k t" unfolding insert_lookup has_record_def by auto
    then show ?thesis using True by blast
  next
    case False
    then have "insertIntoRoutingTable now t d nh s rt k = evictStaleEntries ROUTE_TTL now rt k" unfolding insert_lookup by simp
    then show ?thesis using e by (auto simp: has_record_def)
  qed
qed

lemma insert_all_keeps:
  assumes "has_record rt k seen" and "\<forall>(now, t, d, r)\<in>set es. now - seen \<le> ROUTE_TTL \<and> duck_toString d \<noteq> k"
  shows "has_record (insert_all es rt) k seen"
  using assms
proof (induction es arbitrary: rt)
  case (Cons e es)
  obtain now t d nh s where e: "e = (now, t, d, nh, s)" by (cases e) auto
  have "has_record (insertIntoRoutingTable now t d nh s rt) k seen"
    using insert_keeps [OF Cons.prems(1), of now t d nh s] Cons.prems(2) e by auto
  then show ?case using Cons.IH Cons.prems(2) e by auto
qed simp

lemma insert_all_wf: "route_wf rt \<Longrightarrow> \<forall>(now, t, d, r)\<in>set es. length d = 8 \<Longrightarrow> route_wf (insert_all es rt)"
proof (induction es arbitrary: rt)
  case (Cons e es)
  then show ?case by (cases e) (auto intro: insert_wf)
qed simp

text \<open>
  C19. A device with a printable address of eight characters that was entered stays reachable for five minutes: whatever devices with other addresses of eight bytes are entered meanwhile, a lookup finds it,
  as long as the clock of its own and of each later
  insertion is at most 300000 ms after the time of the record, also across a wrap-around of the clock. For an unprintable address the lookup faults.
\<close>

theorem route_stays_known:
  assumes "route_wf rt" and "printable d" and "length d = 8"
    and "\<forall>(now, t, d', r)\<in>set es. now - seen \<le> ROUTE_TTL \<and> duck_toString d' \<noteq> d \<and> length d' = 8"
  shows "\<exists>rt'. getBestNextHop d (insert_all ((now, seen, d, nh, s) # es) rt) = Inr (Some d, rt')"
proof -
  define rt1 where "rt1 = insertIntoRoutingTable now seen d nh s rt"
  have "has_record rt1 d seen" using assms(2) unfolding rt1_def insert_lookup has_record_def by auto
  then have "has_record (insert_all es rt1) d seen" using assms(4) by (intro insert_all_keeps) auto
  moreover have "route_wf (insert_all es rt1)" using assms by (intro insert_all_wf) (auto simp: rt1_def intro: insert_wf)
  ultimately show ?thesis
    using next_hop_printable [of "insert_all es rt1" d] assms(2,3) by (auto simp: rt1_def has_record_def)
qed

text \<open>
  After an insertion the table holds no record that is older than five minutes, and no other device than those it held before and the new one.
\<close>

theorem route_table_bounded:
  assumes "insertIntoRoutingTable now seen d nh s rt k = Some ns" and "n \<in> set ns"
  shows "(now - lastSeen n \<le> ROUTE_TTL \<or> n = neighbor_new d nh s seen) \<and> k \<in> insert (duck_toString d) (dom rt)"
  using assms by (auto simp: insert_lookup split: if_splits option.splits elim!: evict_SomeD)

text \<open>
  When the clock has moved on since the older records of the device, an insertion leaves the new record only: an alternative path, entered with another next hop, is not kept.
\<close>

lemma insert_replaces:
  assumes "route_wf rt" and "\<forall>ns n. rt (duck_toString d) = Some ns \<longrightarrow> n \<in> set ns \<longrightarrow> lastSeen n < seen"
  shows "insertIntoRoutingTable now seen d nh s rt (duck_toString d) = Some [neighbor_new d nh s seen]"
proof -
  have "filter (\<lambda>n. \<not> (lastSeen n < seen \<and> getDeviceId n = duck_toString d)) ns = []"
    if e: "evictStaleEntries ROUTE_TTL now rt (duck_toString d) = Some ns" for ns
  proof -
    obtain ns0 where ns0: "rt (duck_toString d) = Some ns0" "set ns \<subseteq> set ns0" by (rule evict_SomeD [OF e]) auto
    then show ?thesis using assms route_wfD(2) [OF assms(1) ns0(1)] by (auto simp: filter_empty_conv)
  qed
  then show ?thesis unfolding insert_lookup by (auto split: option.splits)
qed

subsection \<open>Network state\<close>

lemma network_state_edges:
  "setNetworkState new old = (if (old, new) \<in> {(SEARCHING, PUBLIC), (PUBLIC, DISCONNECTED), (PUBLIC, SEARCHING), (DISCONNECTED, SEARCHING)} then new else old)"
  by (cases old; cases new) (simp_all add: setNetworkState_def networkTransition_def)

subsection \<open>Witnesses\<close>

definition sample_signal :: SignalScore where
  "sample_signal = \<lparr>ss_rssi = 1 / 2, ss_snr = 1 / 2, ss_signalScore = 1 / 2, ss_freq_hz = 922800000, ss_sf = 7\<rparr>"

definition sample_device :: duid where
  "sample_device = cstr ''MAMA0001''"

lemma sample_device_facts: "printable sample_device" "length sample_device = 8"
  by (simp_all add: sample_device_def printable_def cstr_def c_isprint_def)

theorem next_hop_is_destination_witness:
  "\<exists>rt'. getBestNextHop sample_device (insertIntoRoutingTable 5 6 sample_device PAPADUCK_DUID sample_signal Map.empty) = Inr (Some sample_device, rt')"
  using next_hop_is_destination [OF insert_wf [OF route_wf_empty sample_device_facts(2)] sample_device_facts, of 5 6 PAPADUCK_DUID sample_signal]
  by (auto simp: insert_lookup evictStaleEntries_def sample_device_facts)

theorem route_stays_known_witness:
  "\<exists>rt'. getBestNextHop sample_device
      (insert_all [(5, -100, sample_device, sample_device, sample_signal), (299900, 299901, PAPADUCK_DUID, sample_device, sample_signal)] Map.empty) =
    Inr (Some sample_device, rt')"
proof (rule route_stays_known [OF route_wf_empty sample_device_facts])
  have "duck_toString PAPADUCK_DUID \<noteq> sample_device"
    using toString_error [OF papaduck_not_printable] length_error_text sample_device_facts(2) by (metis numeral_eq_iff semiring_norm(87,88,89))
  then show "\<forall>(now, t, d', r)\<in>set [(299900, 299901, PAPADUCK_DUID, sample_device, sample_signal)].
      now - (-100) \<le> ROUTE_TTL \<and> duck_toString d' \<noteq> sample_device \<and> length d' = 8"
    by (simp add: PAPADUCK_DUID_def)
qed

theorem route_table_bounded_witness:
  "(5 - lastSeen (neighbor_new sample_device PAPADUCK_DUID sample_signal 6) \<le> ROUTE_TTL \<or>
    neighbor_new sample_device PAPADUCK_DUID sample_signal 6 = neighbor_new sample_device PAPADUCK_DUID sample_signal 6) \<and>
   sample_device \<in> insert (duck_toString sample_device) (dom (Map.empty :: routing_table))"
  by (rule route_table_bounded [of 5 6 sample_device PAPADUCK_DUID sample_signal Map.empty sample_device "[neighbor_new sample_device PAPADUCK_DUID sample_signal 6]"])
    (simp_all add: insert_lookup evictStaleEntries_def sample_device_facts)

end
