(* ===== verification/Duck.thy ===== *)
theory Duck
  imports Bloom Router Bridge
begin

text \<open>
  The nodes of the mesh protocol: the route documents of \<^verbatim>\<open>clusterduck/src/routing/RouteJSON.h\<close>, the radio of \<^verbatim>\<open>radio/DuckLoRa.cpp\<close>, which is the bridge to the daemon,
  the base class of \<^verbatim>\<open>Ducks/Duck.h\<close> and the gateway of \<^verbatim>\<open>Ducks/PapaDuck.h\<close> with its C interface in \<^verbatim>\<open>Init.cpp\<close>. The JSON library is the record \<open>json_lib\<close>, the
  values of \<^verbatim>\<open>random()\<close> and of \<^verbatim>\<open>millis()\<close> are sequences of which the state counts the used ones. The log macros are empty: no log level is defined by the build.
\<close>

subsection \<open>Route documents\<close>

text \<open>
  What the protocol uses of the JSON library, on documents of type \<open>'j\<close>: a document without content, reading and writing text, the text under a key (\<open>None\<close> is the null
  pointer that \<^verbatim>\<open>as<const char*>\<close> gives when there is none), and the array under a key as a list of texts.
\<close>

record 'j json_lib =
  json_null :: 'j
  deserializeJson :: "cstring \<Rightarrow> 'j"
  serializeJson :: "'j \<Rightarrow> cstring"
  json_get :: "'j \<Rightarrow> cstring \<Rightarrow> cstring option"
  json_set :: "'j \<Rightarrow> cstring \<Rightarrow> cstring \<Rightarrow> 'j"
  json_get_array :: "'j \<Rightarrow> cstring \<Rightarrow> cstring list"
  json_set_array :: "'j \<Rightarrow> cstring \<Rightarrow> cstring list \<Rightarrow> 'j"

record 'j RouteJSON =
  rj_json :: 'j
  objPath :: "cstring list"
  rj_origin :: cstring
  rj_destination :: cstring

text \<open>The constructor from two addresses; the members \<^verbatim>\<open>origin\<close> and \<^verbatim>\<open>destination\<close> stay empty.\<close>

definition route_new :: "'j json_lib \<Rightarrow> duid \<Rightarrow> duid \<Rightarrow> 'j RouteJSON" where
  "route_new J targetDevice sourceDevice =
     \<lparr>rj_json = json_set J (json_set J (json_null J) (cstr ''origin'') (arrayToHexString sourceDevice)) (cstr ''destination'') (arrayToHexString targetDevice),
      objPath = [], rj_origin = [], rj_destination = []\<rparr>"

text \<open>The constructor from received data. A string is assigned from each of the two pointers, also when it is null.\<close>

definition route_parse :: "'j json_lib \<Rightarrow> u8 list \<Rightarrow> c_fault + 'j RouteJSON" where
  "route_parse J packetData =
     (let json = deserializeJson J packetData
      in case json_get J json (cstr ''origin'') of
           None \<Rightarrow> Inl NullPointer
         | Some orig \<Rightarrow>
             (case json_get J json (cstr ''destination'') of
                None \<Rightarrow> Inl NullPointer
              | Some dest \<Rightarrow>
                  Inr \<lparr>rj_json = json, objPath = json_get_array J json (cstr ''path''), rj_origin = orig, rj_destination = dest\<rparr>))"

definition route_asString :: "'j json_lib \<Rightarrow> 'j RouteJSON \<Rightarrow> cstring" where
  "route_asString J r = serializeJson J (rj_json r)"

definition convertReqToRep :: "'j json_lib \<Rightarrow> 'j RouteJSON \<Rightarrow> 'j RouteJSON" where
  "convertReqToRep J r =
     r\<lparr>rj_origin := rj_destination r, rj_destination := rj_origin r,
       rj_json := json_set J (json_set J (rj_json r) (cstr ''origin'') (rj_destination r)) (cstr ''destination'') (rj_origin r)\<rparr>"

definition getOrigin :: "'j RouteJSON \<Rightarrow> duid" where
  "getOrigin r = hexStringToArray 8 (rj_origin r)"

definition getDestination :: "'j RouteJSON \<Rightarrow> duid" where
  "getDestination r = hexStringToArray 8 (rj_destination r)"

definition updateJsonPath :: "'j json_lib \<Rightarrow> 'j RouteJSON \<Rightarrow> 'j RouteJSON" where
  "updateJsonPath J r = r\<lparr>rj_json := json_set_array J (rj_json r) (cstr ''path'') (objPath r)\<rparr>"

definition addToPath :: "'j json_lib \<Rightarrow> duid \<Rightarrow> 'j RouteJSON \<Rightarrow> 'j RouteJSON" where
  "addToPath J deviceId r = updateJsonPath J (r\<lparr>objPath := objPath r @ [arrayToHexString deviceId]\<rparr>)"

definition getlastInPath :: "'j RouteJSON \<Rightarrow> duid option" where
  "getlastInPath r = (if objPath r \<noteq> [] then Some (hexStringToArray 8 (last (objPath r))) else None)"

text \<open>\<^verbatim>\<open>pop_back\<close> on an empty vector is undefined.\<close>

definition popFromPath :: "'j json_lib \<Rightarrow> 'j RouteJSON \<Rightarrow> c_fault + 'j RouteJSON" where
  "popFromPath J r = (if objPath r = [] then Inl OutOfBounds else Inr (updateJsonPath J (r\<lparr>objPath := butlast (objPath r)\<rparr>)))"

subsection \<open>State\<close>

datatype DuckType = UNKNOWN | PAPA | MAMA | LINK | DETECTOR

fun duckType_code :: "DuckType \<Rightarrow> u8" where
  "duckType_code UNKNOWN = 0"
| "duckType_code PAPA = 1"
| "duckType_code MAMA = 2"
| "duckType_code LINK = 3"
| "duckType_code DETECTOR = 4"

text \<open>The members of \<^verbatim>\<open>DuckLoRa\<close> and the variables of its file.\<close>

record duck_radio =
  isSetup :: bool
  receivedFlag :: bool
  lastReceiveTime :: u64
  last_rx_freq_hz :: u32
  last_rx_sf :: u8
  last_rx_rssi :: int
  last_rx_snr :: rat

record duck =
  duck_duid :: duid
  duck_type :: DuckType
  duckRadio :: duck_radio
  routingTable :: routing_table
  networkState :: NetworkState
  duck_filter_state :: bloom
  lastRreqTime :: u64
  duck_bridge :: "unit g_bridge"
  delivered :: "cdp_packet list"
  rnd_used :: nat
  ms_used :: nat

record duck_env =
  env_random :: "nat \<Rightarrow> nat"
  env_millis :: "nat \<Rightarrow> u64"

definition duck_millis :: "duck_env \<Rightarrow> duck \<Rightarrow> u64 \<times> duck" where
  "duck_millis env s = (env_millis env (ms_used s), s\<lparr>ms_used := ms_used s + 1\<rparr>)"

text \<open>The operations of the filter on the state of a duck.\<close>

definition seen_check :: "muid \<Rightarrow> duck \<Rightarrow> c_fault + bool" where
  "seen_check m s = (case bloom_check (duck_filter_state s) m of None \<Rightarrow> Inl Diverges | Some v \<Rightarrow> Inr v)"

definition seen_add :: "muid \<Rightarrow> duck \<Rightarrow> c_fault + duck" where
  "seen_add m s = (case bloom_add (duck_filter_state s) m of None \<Rightarrow> Inl Diverges | Some b \<Rightarrow> Inr (s\<lparr>duck_filter_state := b\<rparr>))"

definition seen_assign :: "duck_env \<Rightarrow> cdp_packet \<Rightarrow> duck \<Rightarrow> c_fault + (cdp_packet \<times> duck)" where
  "seen_assign env p s =
     (case assignUniqueMessageId (\<lambda>i. env_random env (rnd_used s + i)) (duck_filter_state s) p of
        None \<Rightarrow> Inl Diverges
      | Some (p', b, used) \<Rightarrow> Inr (p', s\<lparr>duck_filter_state := b, rnd_used := rnd_used s + used\<rparr>))"

text \<open>The lookup of a next hop and the entry of a neighbour with the signal of the last packet, on the state of a duck.\<close>

definition duck_next_hop :: "duid \<Rightarrow> duck \<Rightarrow> c_fault + (duid option \<times> duck)" where
  "duck_next_hop d s = res_bind (getBestNextHop d (routingTable s)) (\<lambda>(nh, rt). Inr (nh, s\<lparr>routingTable := rt\<rparr>))"

definition radio_getRSSI :: "duck_radio \<Rightarrow> rat" where
  "radio_getRSSI r = (if \<not> isSetup r then of_int DUCKLORA_ERR_NOT_INITIALIZED else flt (of_int (last_rx_rssi r)))"

definition radio_getSNR :: "duck_radio \<Rightarrow> rat" where
  "radio_getSNR r = (if \<not> isSetup r then of_int DUCKLORA_ERR_NOT_INITIALIZED else last_rx_snr r)"

definition duck_insert_route :: "duck_env \<Rightarrow> duid \<Rightarrow> duid \<Rightarrow> duck \<Rightarrow> duck" where
  "duck_insert_route env d nh s =
     (let r = duckRadio s;
          score = getSignalScore (radio_getRSSI r) (radio_getSNR r) (last_rx_freq_hz r) (last_rx_sf r);
          (now, s1) = duck_millis env s;
          (seen, s2) = duck_millis env s1
      in s2\<lparr>routingTable := insertIntoRoutingTable now seen d nh score (routingTable s2)\<rparr>)"

subsection \<open>The radio\<close>

text \<open>The parameters of the LoRa radio; \<open>func_set\<close> says that the interrupt function is given. The power is a signed byte.\<close>

record LoRaConfigParams =
  cfg_band :: rat
  cfg_txPower :: int
  cfg_bw :: rat
  cfg_sf :: u8
  cfg_gain :: u8
  cfg_func_set :: bool

abbreviation (input) DUCK_ERR_INVALID_ARGUMENT :: int where "DUCK_ERR_INVALID_ARGUMENT \<equiv> -5101"

definition defaultRadioParams :: LoRaConfigParams where
  "defaultRadioParams = \<lparr>cfg_band = flt (9228 / 10), cfg_txPower = 14, cfg_bw = 125, cfg_sf = 7, cfg_gain = 0, cfg_func_set = True\<rparr>"

definition checkLoRaParameters :: "LoRaConfigParams \<Rightarrow> int" where
  "checkLoRaParameters c =
     (if \<not> cfg_func_set c then DUCK_ERR_INVALID_ARGUMENT
      else if cfg_sf c < 6 \<or> 12 < cfg_sf c then DUCK_ERR_INVALID_ARGUMENT
      else if cfg_band c < 150 \<or> 960 < cfg_band c then DUCK_ERR_INVALID_ARGUMENT
      else if cfg_txPower c < -9 \<or> 22 < cfg_txPower c then DUCK_ERR_INVALID_ARGUMENT
      else if cfg_bw c < dbl (78 / 10) \<or> 500 < cfg_bw c then DUCK_ERR_INVALID_ARGUMENT
      else if 6 < cfg_gain c then DUCK_ERR_INVALID_ARGUMENT
      else DUCK_ERR_NONE)"

definition setupRadio :: "LoRaConfigParams \<Rightarrow> duck \<Rightarrow> int \<times> duck" where
  "setupRadio c s =
     (let rc = checkLoRaParameters c
      in if rc \<noteq> DUCK_ERR_NONE then (rc, s)
         else let s1 = s\<lparr>duck_bridge := cdp_bridge_register_rx_callback (Some ()) (duck_bridge s)\<rparr>
              in if isSetup (duckRadio s1) then (DUCK_ERR_NONE, s1) else (DUCK_ERR_NONE, s1\<lparr>duckRadio := (duckRadio s1)\<lparr>isSetup := True\<rparr>\<rparr>))"

text \<open>The callback that the daemon calls for each received packet.\<close>

definition duck_rx_from_forwarder_cb :: "uplink \<Rightarrow> duck \<Rightarrow> c_fault + duck" where
  "duck_rx_from_forwarder_cb u s =
     (if length (up_payload u) < unat (up_size u) then Inl OutOfBounds
      else Inr (s\<lparr>duck_bridge := push_uplink_packet
                   \<lparr>upk_payload = take (unat (up_size u)) (up_payload u), upk_freq_hz = up_freq_hz u, upk_datarate_sf = up_datarate_sf u,
                    upk_rf_chain = up_rf_chain u, upk_rssi = up_rssi u, upk_snr = up_snr u\<rparr> (duck_bridge s),
                 duckRadio := (duckRadio s)\<lparr>receivedFlag := True\<rparr>\<rparr>))"

definition rx_stamp :: "duck_env \<Rightarrow> duck \<Rightarrow> duck" where
  "rx_stamp env s = (let (now, s1) = duck_millis env s in s1\<lparr>duckRadio := (duckRadio s1)\<lparr>lastReceiveTime := now\<rparr>\<rparr>)"

definition rx_take :: "duck \<Rightarrow> u8 list \<times> duck" where
  "rx_take s =
     (case pop_uplink_packet (duck_bridge s) of
        (None, b) \<Rightarrow> ([], s\<lparr>duck_bridge := b\<rparr>)
      | (Some pkt, b) \<Rightarrow>
          let r = (duckRadio s)\<lparr>last_rx_freq_hz := upk_freq_hz pkt, last_rx_sf := upk_datarate_sf pkt, last_rx_rssi := upk_rssi pkt,
                                last_rx_snr := upk_snr pkt\<rparr>
          in (upk_payload pkt, s\<lparr>duck_bridge := b, duckRadio := (if \<not> has_uplink_packet b then r\<lparr>receivedFlag := False\<rparr> else r)\<rparr>))"

definition readReceivedData :: "duck_env \<Rightarrow> duck \<Rightarrow> u8 list option \<times> duck" where
  "readReceivedData env s =
     (if \<not> isSetup (duckRadio s) then (None, s)
      else let (bytes, s1) = rx_take s
           in if length bytes \<le> DATA_CRC_POS then (None, rx_stamp env s1)
              else if length bytes < HEADER_LENGTH then (None, rx_stamp env s1)
              else let packet_data_crc = toUint32 (drop DATA_CRC_POS bytes);
                       computed_data_crc = crc32_calculate (drop HEADER_LENGTH bytes);
                       s2 = rx_stamp env s1
                   in if computed_data_crc \<noteq> packet_data_crc then (None, s2) else (Some bytes, s2))"

text \<open>Sending reads the clock for a delay that is only logged.\<close>

definition radio_sendData :: "duck_env \<Rightarrow> u8 list \<Rightarrow> duck \<Rightarrow> c_fault + (int \<times> duck)" where
  "radio_sendData env data s =
     (if \<not> isSetup (duckRadio s) then Inr (DUCKLORA_ERR_NOT_INITIALIZED, s)
      else let (_, s1) = duck_millis env s
           in res_bind (startTransmitData (Some data) (int (length data)) (duck_bridge s1)) (\<lambda>b. Inr (DUCK_ERR_NONE, s1\<lparr>duck_bridge := b\<rparr>)))"

subsection \<open>Sending packets\<close>

definition sendToRadio :: "duck_env \<Rightarrow> cdp_packet \<Rightarrow> duck \<Rightarrow> c_fault + (int \<times> duck)" where
  "sendToRadio env txPacket s =
     (let (err, p) = prepareForSending txPacket
      in if err \<noteq> DUCK_ERR_NONE then Inr (err, s)
         else res_bind (seen_add (cdp_muid p) s) (\<lambda>s1. radio_sendData env (cdp_buffer p) s1))"

definition broadcastPacket :: "duck_env \<Rightarrow> cdp_packet \<Rightarrow> duck \<Rightarrow> c_fault + (int \<times> duck)" where
  "broadcastPacket env p s =
     res_bind (seen_check (cdp_muid p) s) (\<lambda>alreadySeen.
       if alreadySeen then Inr (DUCK_ERR_NONE, s) else sendToRadio env (p\<lparr>hopCount := hopCount p + 1\<rparr>) s)"

definition forwardPacket :: "duck_env \<Rightarrow> cdp_packet \<Rightarrow> duck \<Rightarrow> c_fault + (int \<times> duck)" where
  "forwardPacket env p s =
     res_bind (duck_next_hop (dduid p) s) (\<lambda>(nextHop, s1).
       if nextHop \<noteq> None \<or> dduid p = PAPADUCK_DUID then broadcastPacket env p s1 else Inr (DUCK_ERR_NONE, s1))"

definition sendReservedTopicData :: "duck_env \<Rightarrow> duid \<Rightarrow> u8 \<Rightarrow> u8 list \<Rightarrow> duck \<Rightarrow> c_fault + (int \<times> duck)" where
  "sendReservedTopicData env targetDevice topic data s =
     (if networkState s = PUBLIC \<or> networkState s = SEARCHING \<and> topic = topic_rreq
      then res_bind (seen_assign env (cdp_new targetDevice topic data (duck_duid s) (duckType_code (duck_type s))) s) (\<lambda>(txPacket, s1).
             let (err, p) = prepareForSending txPacket
             in if err \<noteq> DUCK_ERR_NONE then Inr (err, s1) else radio_sendData env (cdp_buffer p) s1)
      else Inr (DUCK_ERR_NONE, s))"

definition sendPing :: "duck_env \<Rightarrow> duid \<Rightarrow> duck \<Rightarrow> c_fault + (int \<times> duck)" where
  "sendPing env targetDevice s = sendReservedTopicData env targetDevice topic_ping [0] s"

definition sendPong :: "duck_env \<Rightarrow> duid \<Rightarrow> duck \<Rightarrow> c_fault + (int \<times> duck)" where
  "sendPong env targetDevice s = sendReservedTopicData env targetDevice topic_pong [0] s"

definition sendRouteRequest :: "'j json_lib \<Rightarrow> duck_env \<Rightarrow> duid \<Rightarrow> 'j RouteJSON \<Rightarrow> duck \<Rightarrow> c_fault + (int \<times> duck)" where
  "sendRouteRequest J env targetDevice json s = sendReservedTopicData env targetDevice topic_rreq (route_asString J json) s"

definition sendRouteResponse :: "duck_env \<Rightarrow> duid \<Rightarrow> cstring \<Rightarrow> duck \<Rightarrow> c_fault + (int \<times> duck)" where
  "sendRouteResponse env targetDevice data s = sendReservedTopicData env targetDevice topic_rrep data s"

text \<open>The request for a route that both versions of \<^verbatim>\<open>sendData\<close> send at most every 30 seconds.\<close>

definition send_rreq_for :: "'j json_lib \<Rightarrow> duck_env \<Rightarrow> duid \<Rightarrow> duck \<Rightarrow> c_fault + duck" where
  "send_rreq_for J env target s =
     (let (now, s1) = duck_millis env s
      in if 30000 < now - lastRreqTime s1
         then res_bind (sendRouteRequest J env target (addToPath J (duck_duid s1) (route_new J target (duck_duid s1))) s1) (\<lambda>(_, s2).
                let (now2, s3) = duck_millis env s2 in Inr (s3\<lparr>lastRreqTime := now2\<rparr>))
         else Inr s1)"

text \<open>\<^verbatim>\<open>sendData\<close> with a string.\<close>

definition sendData_string :: "'j json_lib \<Rightarrow> duck_env \<Rightarrow> u8 \<Rightarrow> cstring \<Rightarrow> duid \<Rightarrow> duck \<Rightarrow> c_fault + (int \<times> duck)" where
  "sendData_string J env topic data targetDevice s =
     (if topic < topic_max_reserved then Inr (DUCKPACKET_ERR_TOPIC_INVALID, s)
      else if networkState s = PUBLIC
      then let txPacket = cdp_new targetDevice topic data (duck_duid s) (duckType_code (duck_type s))
           in res_bind (duck_next_hop targetDevice s) (\<lambda>(nextHop, s1).
                if nextHop \<noteq> None \<or> targetDevice = PAPADUCK_DUID \<or> targetDevice = BROADCAST_DUID
                then res_bind (seen_assign env txPacket s1) (\<lambda>(p, s2). sendToRadio env p s2)
                else res_bind (send_rreq_for J env targetDevice s1) (\<lambda>s2. Inr (DUCK_ERR_NONE, s2)))
      else Inr (DUCK_ERR_NONE, s))"

text \<open>\<^verbatim>\<open>sendData\<close> with a pointer and a length; \<open>data\<close> is what is behind the pointer. The gateway sends without a route.\<close>

definition sendData_bytes :: "'j json_lib \<Rightarrow> duck_env \<Rightarrow> u8 \<Rightarrow> u8 list \<Rightarrow> nat \<Rightarrow> duid \<Rightarrow> duck \<Rightarrow> c_fault + (int \<times> duck)" where
  "sendData_bytes J env topic data len targetDevice s =
     (if topic < topic_max_reserved then Inr (DUCKPACKET_ERR_TOPIC_INVALID, s)
      else if networkState s = PUBLIC
      then if length data < len then Inl OutOfBounds
           else let txPacket = cdp_new targetDevice topic (take len data) (duck_duid s) (duckType_code (duck_type s))
                in res_bind (duck_next_hop targetDevice s) (\<lambda>(nextHop, s1).
                     if duck_type s = PAPA \<or> nextHop \<noteq> None \<or> targetDevice = PAPADUCK_DUID \<or> targetDevice = BROADCAST_DUID
                     then res_bind (seen_assign env txPacket s1) (\<lambda>(p, s2). sendToRadio env p s2)
                     else res_bind (send_rreq_for J env targetDevice s1) (\<lambda>s2. Inr (DUCK_ERR_NONE, s2)))
      else Inr (DUCK_ERR_NONE, s))"

subsection \<open>Joining a network\<close>

definition checkForNetworks :: "duck_env \<Rightarrow> duck \<Rightarrow> c_fault + (cdp_packet option \<times> duck)" where
  "checkForNetworks env s =
     (if receivedFlag (duckRadio s)
      then (case readReceivedData env s of
              (None, s1) \<Rightarrow> Inr (None, s1)
            | (Some rxData, s1) \<Rightarrow>
                res_bind (cdp_from_buffer rxData) (\<lambda>rxPacket.
                  Inr (if cdp_topic rxPacket = topic_rrep \<and> dduid rxPacket = duck_duid s1 then Some rxPacket else None, s1)))
      else Inr (None, s))"

abbreviation (input) NET_JOIN_DELAY :: u64 where "NET_JOIN_DELAY \<equiv> 15000"

definition attemptNetworkJoin :: "'j json_lib \<Rightarrow> duck_env \<Rightarrow> duck \<Rightarrow> c_fault + duck" where
  "attemptNetworkJoin J env s =
     res_bind (checkForNetworks env s) (\<lambda>(cdpNode, s1).
       case cdpNode of
         Some n \<Rightarrow>
           let s2 = duck_insert_route env (sduid n) (sduid n) s1
           in Inr (s2\<lparr>networkState := setNetworkState PUBLIC (networkState s2)\<rparr>)
       | None \<Rightarrow>
           let (now, s2) = duck_millis env s1
           in if NET_JOIN_DELAY < now - lastRreqTime s2
              then res_bind (sendRouteRequest J env BROADCAST_DUID (addToPath J (duck_duid s2) (route_new J BROADCAST_DUID (duck_duid s2))) s2) (\<lambda>(_, s3).
                     let (now2, s4) = duck_millis env s3 in Inr (s4\<lparr>lastRreqTime := now2\<rparr>))
              else Inr s2)"

text \<open>\<^verbatim>\<open>Duck::main\<close>; the virtual \<^verbatim>\<open>handleReceivedPacket\<close> is an argument. The time of the last condition is a signed comparison with 80 seconds.\<close>

definition duck_main :: "'j json_lib \<Rightarrow> (duck \<Rightarrow> c_fault + duck) \<Rightarrow> duck_env \<Rightarrow> duck \<Rightarrow> c_fault + duck" where
  "duck_main J handleReceivedPacket env s =
     (if networkState s = PUBLIC
      then if receivedFlag (duckRadio s) then handleReceivedPacket s else Inr s
      else if duck_type s = DETECTOR then Inr (s\<lparr>networkState := setNetworkState PUBLIC (networkState s)\<rparr>)
      else res_bind (attemptNetworkJoin J env s) (\<lambda>s1.
             if networkState s1 = SEARCHING
             then let (now, s2) = duck_millis env s1
                  in Inr (if 80000 < sint now then s2\<lparr>networkState := setNetworkState PUBLIC (networkState s2)\<rparr> else s2)
             else Inr s1))"

end
