(* ===== verification/Papa.thy ===== *)
theory Papa
  imports Duck
begin

text \<open>
  The kinds of ducks: the gateway of \<^verbatim>\<open>clusterduck/src/Ducks/PapaDuck.h\<close> with its C interface in \<^verbatim>\<open>Init.cpp\<close>, the relay of \<^verbatim>\<open>MamaDuck.h\<close>, the end node of \<^verbatim>\<open>DuckLink.h\<close>
  and \<^verbatim>\<open>DetectorDuck.h\<close>. The callback of the gateway is an argument; the packets it was called with are appended to \<open>delivered\<close>. It does not reach into the duck.
\<close>

subsection \<open>Setting up\<close>

abbreviation (input) DUCKLORA_ERR_BEGIN :: int where "DUCKLORA_ERR_BEGIN \<equiv> -1000"
abbreviation (input) DUCKLORA_ERR_SETUP :: int where "DUCKLORA_ERR_SETUP \<equiv> -1001"
abbreviation (input) DUCKLORA_ERR_RECEIVE :: int where "DUCKLORA_ERR_RECEIVE \<equiv> -1002"

text \<open>Every other error of the radio is lost.\<close>

definition setupLoRaRadio :: "LoRaConfigParams \<Rightarrow> duck \<Rightarrow> int \<times> duck" where
  "setupLoRaRadio c s =
     (let (err, s1) = setupRadio c s
      in if err = DUCKLORA_ERR_BEGIN \<or> err = DUCKLORA_ERR_SETUP \<or> err = DUCKLORA_ERR_RECEIVE then (err, s1) else (DUCK_ERR_NONE, s1))"

definition papa_begin :: "LoRaConfigParams \<Rightarrow> duck \<Rightarrow> int \<times> duck" where
  "papa_begin c s =
     (let (err, s1) = setupLoRaRadio c s
      in if err = DUCK_ERR_NONE then (err, s1\<lparr>networkState := setNetworkState PUBLIC (networkState s1)\<rparr>) else (err, s1))"

text \<open>\<^verbatim>\<open>hub_init_and_setup\<close>: whether the hub is returned. Before, the members have their initial values; the members \<^verbatim>\<open>Seeds\<close> of the filter are an argument.\<close>

definition hub_new :: "u32 list \<Rightarrow> duck" where
  "hub_new seeds =
     \<lparr>duck_duid = cstr ''PAPADUCK'', duck_type = PAPA,
      duckRadio = \<lparr>isSetup = False, receivedFlag = False, lastReceiveTime = 0, last_rx_freq_hz = 922800000, last_rx_sf = 7, last_rx_rssi = 0, last_rx_snr = 0\<rparr>,
      routingTable = Map.empty, networkState = SEARCHING, duck_filter_state = bloom_init (bloom_default_conf seeds), lastRreqTime = 0,
      duck_bridge = g_bridge_init, delivered = [], rnd_used = 0, ms_used = 0\<rparr>"

definition hub_init_and_setup :: "duck \<Rightarrow> bool \<times> duck" where
  "hub_init_and_setup s = (let (err, s1) = papa_begin defaultRadioParams s in (err = DUCK_ERR_NONE, s1))"

subsection \<open>The gateway\<close>

text \<open>The route documents that the handlers build and change.\<close>

definition own_route :: "'j json_lib \<Rightarrow> duid \<Rightarrow> duid \<Rightarrow> cstring" where
  "own_route J target self = route_asString J (addToPath J self (route_new J target self))"

definition papa_ifBroadcast :: "'j json_lib \<Rightarrow> duck_env \<Rightarrow> cdp_packet \<Rightarrow> duck \<Rightarrow> c_fault + duck" where
  "papa_ifBroadcast J env rxPacket s =
     (if cdp_topic rxPacket = topic_rreq
      then if sduid rxPacket = duck_duid s then Inr s
           else if hopCount rxPacket \<le> 0
           then res_bind (sendRouteResponse env (sduid rxPacket) (own_route J (sduid rxPacket) (duck_duid s)) s) (\<lambda>(_, s1).
                  Inr (duck_insert_route env (sduid rxPacket) (sduid rxPacket) s1))
           else Inr s
      else if cdp_topic rxPacket = topic_ping then res_bind (sendPong env BROADCAST_DUID s) (\<lambda>(_, s1). Inr s1)
      else if cdp_topic rxPacket = topic_pong then Inr s
      else res_bind (broadcastPacket env rxPacket s) (\<lambda>(_, s1). Inr s1))"

text \<open>The part of the handlers for a route request; the gateway and the relay share it.\<close>

definition answer_rreq :: "'j json_lib \<Rightarrow> duck_env \<Rightarrow> bool \<Rightarrow> cdp_packet \<Rightarrow> duck \<Rightarrow> c_fault + duck" where
  "answer_rreq J env relay rxPacket s =
     res_bind (route_parse J (cdp_data rxPacket)) (\<lambda>rreqDoc.
       let lastInPath = (case getlastInPath rreqDoc of Some d \<Rightarrow> d | None \<Rightarrow> sduid rxPacket)
       in if \<not> relay
          then res_bind (sendRouteResponse env lastInPath (route_asString J (convertReqToRep J rreqDoc)) s) (\<lambda>(_, s1). Inr s1)
          else res_bind (forwardPacket env (rxPacket\<lparr>cdp_data := route_asString J (addToPath J (duck_duid s) rreqDoc)\<rparr>) s) (\<lambda>(_, s1). Inr s1))"

text \<open>The part for a route response after the document was read.\<close>

definition take_rrep :: "'j json_lib \<Rightarrow> duck_env \<Rightarrow> cdp_packet \<Rightarrow> 'j RouteJSON \<Rightarrow> duck \<Rightarrow> c_fault + duck" where
  "take_rrep J env rxPacket rrepDoc s =
     (let lastInPath = (case getlastInPath rrepDoc of Some d \<Rightarrow> d | None \<Rightarrow> sduid rxPacket)
      in res_bind (duck_next_hop (getDestination rrepDoc) s) (\<lambda>(nextHop, s1).
           if getDestination rrepDoc \<noteq> duck_duid s \<and> nextHop \<noteq> None \<and> nextHop \<noteq> Some (sduid rxPacket)
           then res_bind (popFromPath J rrepDoc) (\<lambda>doc1.
                  let doc2 = addToPath J (duck_duid s) doc1
                  in res_bind (sendRouteResponse env (getDestination doc2) (route_asString J doc2) s1) (\<lambda>(_, s2).
                       Inr (duck_insert_route env (sduid rxPacket) lastInPath s2)))
           else Inr (duck_insert_route env (getOrigin rrepDoc) lastInPath s1)))"

definition papa_ifNotBroadcast :: "'j json_lib \<Rightarrow> duck_env \<Rightarrow> bool \<Rightarrow> cdp_packet \<Rightarrow> duck \<Rightarrow> c_fault + duck" where
  "papa_ifNotBroadcast J env relay rxPacket s =
     (if cdp_topic rxPacket = topic_rreq then answer_rreq J env relay rxPacket s
      else if cdp_topic rxPacket = topic_rrep
      then res_bind (route_parse J (cdp_data rxPacket)) (\<lambda>rrepDoc.
             if sduid rxPacket = duck_duid s then Inr s else take_rrep J env rxPacket rrepDoc s)
      else if cdp_topic rxPacket = topic_ping then res_bind (sendPong env BROADCAST_DUID s) (\<lambda>(_, s1). Inr s1)
      else if cdp_topic rxPacket = topic_pong then Inr s
      else if relay then res_bind (forwardPacket env rxPacket s) (\<lambda>(_, s1). Inr s1)
      else Inr s)"

definition papa_dispatch :: "'j json_lib \<Rightarrow> duck_env \<Rightarrow> cdp_packet \<Rightarrow> duck \<Rightarrow> c_fault + duck" where
  "papa_dispatch J env rxPacket s =
     (if dduid rxPacket = BROADCAST_DUID then papa_ifBroadcast J env rxPacket s
      else if dduid rxPacket = duck_duid s \<or> dduid rxPacket = PAPADUCK_DUID then papa_ifNotBroadcast J env False rxPacket s
      else papa_ifNotBroadcast J env True rxPacket s)"

definition papa_handleReceivedPacket :: "'j json_lib \<Rightarrow> (cdp_packet \<Rightarrow> c_fault + unit) \<Rightarrow> duck_env \<Rightarrow> duck \<Rightarrow> c_fault + duck" where
  "papa_handleReceivedPacket J recvDataCallback env s =
     (case readReceivedData env s of
        (None, s1) \<Rightarrow> Inr s1
      | (Some rxData, s1) \<Rightarrow>
          res_bind (cdp_from_buffer rxData) (\<lambda>rxPacket.
          res_bind (seen_check (cdp_muid rxPacket) s1) (\<lambda>alreadySeen.
            if alreadySeen then Inr s1
            else res_bind (seen_add (cdp_muid rxPacket) s1) (\<lambda>s2.
                 res_bind (recvDataCallback rxPacket) (\<lambda>_.
                 papa_dispatch J env rxPacket (s2\<lparr>delivered := delivered s2 @ [rxPacket]\<rparr>))))))"

definition processPackets :: "'j json_lib \<Rightarrow> (cdp_packet \<Rightarrow> c_fault + unit) \<Rightarrow> duck_env \<Rightarrow> duck \<Rightarrow> c_fault + duck" where
  "processPackets J recvDataCallback env s =
     (if receivedFlag (duckRadio s) \<or> has_uplink_packet (duck_bridge s) then papa_handleReceivedPacket J recvDataCallback env s else Inr s)"

text \<open>The C interface for commands; a target that is NULL means all ducks.\<close>

definition hub_send :: "'j json_lib \<Rightarrow> duck_env \<Rightarrow> u8 \<Rightarrow> u8 list option \<Rightarrow> int \<Rightarrow> duid option \<Rightarrow> duck \<Rightarrow> c_fault + (int \<times> duck)" where
  "hub_send J env topic message len targetDevice s =
     (case message of
        None \<Rightarrow> Inr (-1, s)
      | Some bs \<Rightarrow>
          if len \<le> 0 \<or> 256 < len then Inr (-1, s)
          else res_bind (sendData_bytes J env topic bs (nat len) (case targetDevice of Some d \<Rightarrow> take 8 d | None \<Rightarrow> replicate 8 0xFF) s) (\<lambda>(err, s1).
                 if err \<noteq> DUCK_ERR_NONE then Inr (err, s1) else Inr (0, s1)))"

subsection \<open>The relay\<close>

definition mama_ifBroadcast :: "'j json_lib \<Rightarrow> duck_env \<Rightarrow> cdp_packet \<Rightarrow> duck \<Rightarrow> c_fault + duck" where
  "mama_ifBroadcast J env rxPacket s =
     (if cdp_topic rxPacket = topic_rreq
      then if hopCount rxPacket \<le> 0
           then res_bind (sendRouteResponse env (sduid rxPacket) (own_route J (sduid rxPacket) (duck_duid s)) s) (\<lambda>(_, s1).
                  Inr (duck_insert_route env (sduid rxPacket) (sduid rxPacket) s1))
           else Inr s
      else if cdp_topic rxPacket = topic_ping then res_bind (sendPong env BROADCAST_DUID s) (\<lambda>(_, s1). Inr s1)
      else if cdp_topic rxPacket = topic_pong then Inr s
      else res_bind (broadcastPacket env rxPacket s) (\<lambda>(_, s1). Inr s1))"

definition mama_ifNotBroadcast :: "'j json_lib \<Rightarrow> duck_env \<Rightarrow> bool \<Rightarrow> cdp_packet \<Rightarrow> duck \<Rightarrow> c_fault + duck" where
  "mama_ifNotBroadcast J env relay rxPacket s =
     (if cdp_topic rxPacket = topic_rreq then answer_rreq J env relay rxPacket s
      else if cdp_topic rxPacket = topic_rrep then res_bind (route_parse J (cdp_data rxPacket)) (\<lambda>rrepDoc. take_rrep J env rxPacket rrepDoc s)
      else if cdp_topic rxPacket = topic_ping then res_bind (sendPong env BROADCAST_DUID s) (\<lambda>(_, s1). Inr s1)
      else if cdp_topic rxPacket = topic_pong then Inr s
      else if cdp_topic rxPacket = topic_cmd then res_bind (broadcastPacket env rxPacket s) (\<lambda>(_, s1). Inr s1)
      else if relay then res_bind (forwardPacket env rxPacket s) (\<lambda>(_, s1). Inr s1)
      else Inr s)"

definition mama_dispatch :: "'j json_lib \<Rightarrow> duck_env \<Rightarrow> cdp_packet \<Rightarrow> duck \<Rightarrow> c_fault + duck" where
  "mama_dispatch J env rxPacket s =
     (if dduid rxPacket = BROADCAST_DUID then mama_ifBroadcast J env rxPacket s
      else mama_ifNotBroadcast J env (dduid rxPacket \<noteq> duck_duid s) rxPacket s)"

definition mama_handleReceivedPacket :: "'j json_lib \<Rightarrow> duck_env \<Rightarrow> duck \<Rightarrow> c_fault + duck" where
  "mama_handleReceivedPacket J env s =
     (case readReceivedData env s of
        (None, s1) \<Rightarrow> Inr s1
      | (Some rxData, s1) \<Rightarrow>
          res_bind (cdp_from_buffer rxData) (\<lambda>rxPacket.
          res_bind (mama_dispatch J env rxPacket s1) (\<lambda>s2. seen_add (cdp_muid rxPacket) s2)))"

subsection \<open>End nodes\<close>

definition link_ifBroadcast :: "'j json_lib \<Rightarrow> duck_env \<Rightarrow> cdp_packet \<Rightarrow> duck \<Rightarrow> c_fault + duck" where
  "link_ifBroadcast J env rxPacket s =
     (if cdp_topic rxPacket = topic_rreq
      then if hopCount rxPacket \<le> 0
           then let rrepDoc = route_new J (sduid rxPacket) (duck_duid s)
                in res_bind (sendRouteResponse env (sduid rxPacket) (route_asString J rrepDoc) s) (\<lambda>(_, s1).
                     let lastInPath = (case getlastInPath rrepDoc of Some d \<Rightarrow> d | None \<Rightarrow> sduid rxPacket)
                     in Inr (duck_insert_route env (sduid rxPacket) lastInPath s1))
           else Inr s
      else if cdp_topic rxPacket = topic_ping then res_bind (sendPong env BROADCAST_DUID s) (\<lambda>(_, s1). Inr s1)
      else if cdp_topic rxPacket = topic_cmd then res_bind (broadcastPacket env rxPacket s) (\<lambda>(_, s1). Inr s1)
      else Inr s)"

text \<open>A response without a path ends the process: \<^verbatim>\<open>value()\<close> of an empty optional throws, and nothing catches it.\<close>

definition link_ifNotBroadcast :: "'j json_lib \<Rightarrow> duck_env \<Rightarrow> bool \<Rightarrow> cdp_packet \<Rightarrow> duck \<Rightarrow> c_fault + duck" where
  "link_ifNotBroadcast J env relay rxPacket s =
     (if cdp_topic rxPacket = topic_rreq
      then res_bind (route_parse J (cdp_data rxPacket)) (\<lambda>rreqDoc.
             if \<not> relay
             then let lastInPath = (case getlastInPath rreqDoc of Some d \<Rightarrow> d | None \<Rightarrow> sduid rxPacket)
                  in res_bind (sendRouteResponse env lastInPath (route_asString J (convertReqToRep J rreqDoc)) s) (\<lambda>(_, s1).
                       Inr (duck_insert_route env (sduid rxPacket) lastInPath s1))
             else Inr s)
      else if cdp_topic rxPacket = topic_rrep
      then res_bind (route_parse J (cdp_data rxPacket)) (\<lambda>rrepDoc.
             case getlastInPath rrepDoc of
               None \<Rightarrow> Inl ExitFailure
             | Some lastInPath \<Rightarrow> Inr (duck_insert_route env (getOrigin rrepDoc) lastInPath s))
      else Inr s)"

definition link_handleReceivedPacket :: "'j json_lib \<Rightarrow> duck_env \<Rightarrow> duck \<Rightarrow> c_fault + duck" where
  "link_handleReceivedPacket J env s =
     (if receivedFlag (duckRadio s)
      then (case readReceivedData env s of
              (None, s1) \<Rightarrow> Inr s1
            | (Some rxData, s1) \<Rightarrow>
                res_bind (cdp_from_buffer rxData) (\<lambda>rxPacket.
                res_bind
                  (if dduid rxPacket = BROADCAST_DUID then link_ifBroadcast J env rxPacket s1
                   else link_ifNotBroadcast J env (dduid rxPacket \<noteq> duck_duid s1) rxPacket s1)
                  (\<lambda>s2. seen_add (cdp_muid rxPacket) s2)))
      else Inr s)"

text \<open>The detector reports the signal strength of an answer to its ping through a callback.\<close>

definition detector_handleReceivedPacket :: "duck_env \<Rightarrow> duck \<Rightarrow> c_fault + (int option \<times> duck)" where
  "detector_handleReceivedPacket env s =
     (case readReceivedData env s of
        (None, s1) \<Rightarrow> Inr (None, s1)
      | (Some rxData, s1) \<Rightarrow>
          res_bind (cdp_from_buffer rxData) (\<lambda>rxPacket.
            Inr (if cdp_topic rxPacket = topic_pong then Some (c_trunc (radio_getRSSI (duckRadio s1))) else None, s1)))"

end
