(* ===== verification/Event.thy ===== *)
theory Event
  imports Papa Base64
begin

text \<open>
  What the gateway makes of a delivered packet: the texts for binary payloads of \<^verbatim>\<open>clusterduck/src/payloads/DuckPayloads.cpp\<close> and the event of \<^verbatim>\<open>processMessageFromDucks\<close> in
  \<^verbatim>\<open>Init.cpp\<close>. The generated protobuf classes are records with the fields of \<^verbatim>\<open>duck_payloads.proto\<close>; their parsers are the record \<open>pb_lib\<close>. The JSON document is a
  record of the members that are set; its constant members \<^verbatim>\<open>from\<close>, \<^verbatim>\<open>to\<close> and \<^verbatim>\<open>RE\<close> are left out.
\<close>

subsection \<open>Formatted output\<close>

text \<open>\<^verbatim>\<open>%.<d>f\<close>: the exact value of the argument, rounded to \<open>d\<close> decimals, ties to even.\<close>

definition zero_pad :: "nat \<Rightarrow> nat \<Rightarrow> cstring" where
  "zero_pad d n = replicate (d - length (dec_nat n)) 48 @ dec_nat n"

definition fixed_text :: "nat \<Rightarrow> bool \<Rightarrow> nat \<Rightarrow> cstring" where
  "fixed_text d neg n = (if neg then [45] else []) @ dec_nat (n div 10 ^ d) @ [46] @ zero_pad d (n mod 10 ^ d)"

definition printf_fixed :: "nat \<Rightarrow> rat \<Rightarrow> cstring" where
  "printf_fixed d x = fixed_text d (x < 0) (nat (round_half_even (\<bar>x\<bar> * 10 ^ d)))"

text \<open>\<^verbatim>\<open>snprintf\<close> into a buffer of \<open>n\<close> bytes: the text that the buffer then holds.\<close>

definition c_snprintf :: "nat \<Rightarrow> cstring \<Rightarrow> cstring" where
  "c_snprintf n s = take (n - 1) s"

text \<open>\<^verbatim>\<open>c_str()\<close> read as a C string: everything before the first null character.\<close>

definition c_str :: "cstring \<Rightarrow> cstring" where
  "c_str s = takeWhile (\<lambda>c. c \<noteq> 0) s"

subsection \<open>Messages\<close>

text \<open>An enumeration is its number, since a received message may hold any.\<close>

record GpsReading =
  gps_has_fix :: bool
  gps_source :: int
  gps_no_fix_reason :: int
  gps_lat_e7 :: u32
  gps_lng_e7 :: u32
  gps_alt_m :: u32
  gps_spd_dkmh :: u32
  gps_hdg_deg :: u32
  gps_sats :: u32
  gps_batt_pct :: u32
  gps_rssi_dbm :: u32

record SosAlert =
  sos_origin :: int
  sos_gps_source :: int
  sos_has_gps :: bool
  sos_lat_e7 :: u32
  sos_lng_e7 :: u32
  sos_alt_m :: u32
  sos_spd_dkmh :: u32
  sos_hdg_deg :: u32
  sos_batt_pct :: u32
  sos_rssi_dbm :: u32
  sos_sats :: u32

record HealthStatus =
  hs_counter :: u32
  hs_free_memory :: u32

record MTalk =
  mt_kind :: int
  mt_mid :: cstring
  mt_text :: cstring

record StatusMsg =
  sm_src :: int
  sm_urgency :: cstring
  sm_has_gps :: bool
  sm_lat_e7 :: u32
  sm_lng_e7 :: u32
  sm_text :: cstring

datatype StatusReport = ReportSos SosAlert | ReportMsg StatusMsg | ReportNone

record pb_lib =
  parse_GpsReading :: "u8 list \<Rightarrow> GpsReading option"
  parse_SosAlert :: "u8 list \<Rightarrow> SosAlert option"
  parse_HealthStatus :: "u8 list \<Rightarrow> HealthStatus option"
  parse_MTalk :: "u8 list \<Rightarrow> MTalk option"
  parse_StatusReport :: "u8 list \<Rightarrow> StatusReport option"
  parse_OpText :: "u8 list \<Rightarrow> cstring option"

subsection \<open>Texts\<close>

definition gpsSourceToString :: "int \<Rightarrow> cstring" where
  "gpsSourceToString src = cstr (if src = 1 then ''DEVICE'' else if src = 2 then ''PHONE'' else ''NONE'')"

definition noFixReasonToString :: "int \<Rightarrow> cstring" where
  "noFixReasonToString r = cstr (if r = 1 then ''NO_SIGNAL'' else if r = 2 then ''NO_RESPONSE'' else ''NONE'')"

definition sosOriginToString :: "int \<Rightarrow> cstring" where
  "sosOriginToString o' = cstr (if o' = 1 then ''DEVICE'' else if o' = 2 then ''PHONE'' else ''UNKNOWN'')"

definition isProtobuf :: "u8 list \<Rightarrow> bool" where
  "isProtobuf data \<longleftrightarrow> 0 < length data \<and> data ! 0 = 1"

definition decodeWithMarker :: "(u8 list \<Rightarrow> 'm option) \<Rightarrow> u8 list \<Rightarrow> 'm option" where
  "decodeWithMarker parse data = (if data = [] \<or> data ! 0 \<noteq> 1 then None else parse (drop 1 data))"

text \<open>A coordinate: the integer is divided in double precision.\<close>

definition coord_text :: "u32 \<Rightarrow> cstring" where
  "coord_text e7 = printf_fixed 7 (dbl (of_int (sint e7) / 10000000))"

definition speed_text :: "u32 \<Rightarrow> cstring" where
  "speed_text dkmh = printf_fixed 1 (dbl (of_int (uint dkmh) / 10))"

definition opt_field :: "bool \<Rightarrow> cstring \<Rightarrow> cstring" where
  "opt_field present text = (if present then c_snprintf 160 text else [])"

definition gpsToLegacyText :: "GpsReading \<Rightarrow> cstring" where
  "gpsToLegacyText r =
     (if \<not> gps_has_fix r
      then c_snprintf 160 (cstr ''GPS,FIX:0,SRC:'' @ gpsSourceToString (gps_source r) @ cstr '',REASON:'' @ noFixReasonToString (gps_no_fix_reason r) @
             cstr '',BATT:'' @ dec_int (sint (gps_batt_pct r)))
      else cstr ''GPS,SRC:'' @ gpsSourceToString (gps_source r) @
           c_snprintf 160 (cstr '',LAT:'' @ coord_text (gps_lat_e7 r) @ cstr '',LNG:'' @ coord_text (gps_lng_e7 r)) @
           opt_field (gps_alt_m r \<noteq> 0) (cstr '',ALT:'' @ dec_int (sint (gps_alt_m r))) @
           opt_field (gps_spd_dkmh r \<noteq> 0) (cstr '',SPD:'' @ speed_text (gps_spd_dkmh r)) @
           opt_field (gps_hdg_deg r \<noteq> 0) (cstr '',HDG:'' @ dec_nat (unat (gps_hdg_deg r))) @
           opt_field (gps_sats r \<noteq> 0) (cstr '',SATS:'' @ dec_nat (unat (gps_sats r))) @
           opt_field (gps_rssi_dbm r \<noteq> 0) (cstr '',RSSI:'' @ dec_int (sint (gps_rssi_dbm r))) @
           c_snprintf 160 (cstr '',BATT:'' @ dec_int (sint (gps_batt_pct r))))"

definition sosToLegacyText :: "SosAlert \<Rightarrow> cstring" where
  "sosToLegacyText a =
     cstr ''SOS,SRC:'' @ sosOriginToString (sos_origin a) @
     (if sos_has_gps a
      then c_snprintf 160 (cstr '',LAT:'' @ coord_text (sos_lat_e7 a) @ cstr '',LNG:'' @ coord_text (sos_lng_e7 a)) @
           opt_field (sos_alt_m a \<noteq> 0) (cstr '',ALT:'' @ dec_int (sint (sos_alt_m a))) @
           opt_field (sos_spd_dkmh a \<noteq> 0) (cstr '',SPD:'' @ speed_text (sos_spd_dkmh a)) @
           opt_field (sos_hdg_deg a \<noteq> 0) (cstr '',HDG:'' @ dec_nat (unat (sos_hdg_deg a))) @
           opt_field (sos_sats a \<noteq> 0) (cstr '',SATS:'' @ dec_nat (unat (sos_sats a))) @
           cstr '',GPS:'' @ gpsSourceToString (sos_gps_source a)
      else []) @
     opt_field (sos_rssi_dbm a \<noteq> 0) (cstr '',RSSI:'' @ dec_int (sint (sos_rssi_dbm a))) @
     c_snprintf 160 (cstr '',BATT:'' @ dec_int (sint (sos_batt_pct a)))"

definition healthToLegacyText :: "HealthStatus \<Rightarrow> cstring" where
  "healthToLegacyText h = c_snprintf 64 (cstr ''C:'' @ dec_nat (unat (hs_counter h)) @ cstr ''|FM:'' @ dec_int (sint (hs_free_memory h)))"

definition mtalkToLegacyText :: "MTalk \<Rightarrow> cstring" where
  "mtalkToLegacyText m =
     (if mt_kind m = 1 then cstr ''[MACK:'' @ mt_mid m @ cstr '']''
      else mt_text m @ (if mt_mid m \<noteq> [] then cstr '',MID:'' @ mt_mid m else []))"

definition statusMsgToLegacyText :: "StatusMsg \<Rightarrow> cstring" where
  "statusMsgToLegacyText m =
     (if sm_src m = 2 then cstr ''MSG,SRC:DEVICE,TEXT:'' @ sm_text m
      else let lat = (if sm_has_gps m then c_snprintf 32 (coord_text (sm_lat_e7 m)) else []);
               lng = (if sm_has_gps m then c_snprintf 32 (coord_text (sm_lng_e7 m)) else [])
           in cstr ''MSG,URGENCY:'' @ sm_urgency m @ cstr '',LAT:'' @ lat @ cstr '',LNG:'' @ lng @ cstr '',TEXT:'' @ sm_text m)"

definition statusReportToLegacyText :: "StatusReport \<Rightarrow> cstring" where
  "statusReportToLegacyText r = (case r of ReportSos a \<Rightarrow> sosToLegacyText a | ReportMsg m \<Rightarrow> statusMsgToLegacyText m | ReportNone \<Rightarrow> [])"

subsection \<open>Events\<close>

record event_doc =
  ev_eventType :: cstring
  ev_MessageID :: cstring
  ev_hops :: u8
  ev_duckType :: u8
  ev_DeviceID :: cstring
  ev_origin :: "cstring option"
  ev_destination :: "cstring option"
  ev_path :: "cstring list option"
  ev_transport :: "cstring option"
  ev_Message :: "cstring option"
  ev_encoding :: "cstring option"

abbreviation (input) topic_status :: u8 where "topic_status \<equiv> 0x10"
abbreviation (input) topic_alert :: u8 where "topic_alert \<equiv> 0x14"
abbreviation (input) topic_health :: u8 where "topic_health \<equiv> 0x15"
abbreviation (input) topic_gps :: u8 where "topic_gps \<equiv> 0xEA"
abbreviation (input) topic_sealed_uplink :: u8 where "topic_sealed_uplink \<equiv> 0x1C"
abbreviation (input) topic_encrypted_data :: u8 where "topic_encrypted_data \<equiv> 0x1E"

definition event_new :: "cdp_packet \<Rightarrow> event_doc" where
  "event_new p = \<lparr>ev_eventType = c_str (topicToString p), ev_MessageID = c_str (cdp_muid p), ev_hops = hopCount p, ev_duckType = cdp_duckType p,
     ev_DeviceID = c_str (sduid p), ev_origin = None, ev_destination = None, ev_path = None, ev_transport = None, ev_Message = None, ev_encoding = None\<rparr>"

text \<open>The part for route packets. The surrounding \<^verbatim>\<open>try\<close> cannot catch an access through a null pointer.\<close>

definition event_route :: "'j json_lib \<Rightarrow> cdp_packet \<Rightarrow> event_doc \<Rightarrow> c_fault + event_doc" where
  "event_route J p doc =
     res_bind (route_parse J (cdp_data p)) (\<lambda>routeDoc.
       Inr (doc\<lparr>ev_origin := Some (c_str (duck_toString (getOrigin routeDoc))), ev_destination := Some (c_str (duck_toString (getDestination routeDoc))),
                ev_path := Some (if objPath routeDoc = [] then [c_str (sduid p)] else objPath routeDoc)\<rparr>))"

text \<open>The text for a payload that starts with the marker of the binary format; any other stays as it is.\<close>

definition event_text :: "pb_lib \<Rightarrow> u8 \<Rightarrow> u8 list \<Rightarrow> cstring" where
  "event_text pb topic raw =
     (if topic = topic_gps then case decodeWithMarker (parse_GpsReading pb) raw of Some m \<Rightarrow> gpsToLegacyText m | None \<Rightarrow> raw
         else if topic = topic_alert then case decodeWithMarker (parse_SosAlert pb) raw of Some m \<Rightarrow> sosToLegacyText m | None \<Rightarrow> raw
         else if topic = topic_status then case decodeWithMarker (parse_StatusReport pb) raw of Some m \<Rightarrow> statusReportToLegacyText m | None \<Rightarrow> raw
         else if topic = topic_health then case decodeWithMarker (parse_HealthStatus pb) raw of Some m \<Rightarrow> healthToLegacyText m | None \<Rightarrow> raw
         else if topic = 26 then case decodeWithMarker (parse_MTalk pb) raw of Some m \<Rightarrow> mtalkToLegacyText m | None \<Rightarrow> raw
         else if topic = 22 \<or> topic = 23 \<or> topic = 24 \<or> topic = 25 then case decodeWithMarker (parse_OpText pb) raw of Some t \<Rightarrow> t | None \<Rightarrow> raw
         else raw)"

text \<open>The message as text of the document, or in base64 when it is not safe there.\<close>

definition event_message :: "cstring \<Rightarrow> event_doc \<Rightarrow> event_doc" where
  "event_message message doc =
     (if is_safe_json_text (Some message) then doc\<lparr>ev_Message := Some (c_str message)\<rparr>
      else case safe_b64_encode (Some message) (Some (replicate (safe_b64_encoded_len (length message) + 1) 0)) of
             (encodedLen, Some encoded) \<Rightarrow>
               if encodedLen < 0 then doc\<lparr>ev_Message := Some []\<rparr>
               else doc\<lparr>ev_Message := Some (c_str encoded), ev_encoding := Some (cstr ''base64'')\<rparr>
           | (_, None) \<Rightarrow> doc\<lparr>ev_Message := Some []\<rparr>)"

definition event_data :: "pb_lib \<Rightarrow> cdp_packet \<Rightarrow> event_doc \<Rightarrow> event_doc" where
  "event_data pb p doc =
     (let payload = cdp_data p;
          sealed = (cdp_topic p = topic_sealed_uplink \<or> cdp_topic p = topic_encrypted_data) \<and> payload \<noteq> [];
          doc1 = (if sealed
                  then doc\<lparr>ev_eventType := c_str (topicToString (p\<lparr>cdp_topic := payload ! 0\<rparr>)), ev_transport := Some (c_str (topicToString p))\<rparr>
                  else doc);
          message = (if sealed then drop 1 payload else payload);
          message1 = (if isProtobuf message then event_text pb (cdp_topic p) message else message)
      in event_message message1 doc1)"

text \<open>The event that is serialised and handed to \<^verbatim>\<open>mqtt_publish_message\<close>.\<close>

definition processMessageFromDucks :: "'j json_lib \<Rightarrow> pb_lib \<Rightarrow> cdp_packet \<Rightarrow> c_fault + event_doc" where
  "processMessageFromDucks J pb p =
     (if cdp_topic p = topic_rreq \<or> cdp_topic p = topic_rrep then event_route J p (event_new p) else Inr (event_data pb p (event_new p)))"

text \<open>The callback of the gateway.\<close>

definition handleDuckData :: "'j json_lib \<Rightarrow> pb_lib \<Rightarrow> cdp_packet \<Rightarrow> c_fault + unit" where
  "handleDuckData J pb p = res_bind (processMessageFromDucks J pb p) (\<lambda>_. Inr ())"

end
