(* ===== verification/DuckProps.thy ===== *)
theory DuckProps
  imports Duck CdpProps BloomProps RouterProps
begin

text \<open>
  What the operations of a duck leave unchanged, what they send and what they add to the filter, as one relation between the states before and after; and that a packet
  that was sent by one duck is read by another one as it was.
\<close>

subsection \<open>The radio\<close>

text \<open>What a duck queues for transmission under its own address: the first bytes are its address, as far as the packet reaches.\<close>

definition own_frame :: "duid \<Rightarrow> downlink_packet \<Rightarrow> bool" where
  "own_frame d x \<longleftrightarrow> take 8 (dl_payload x) = take (length (dl_payload x)) d"

lemma startTransmitData_cases:
  assumes "startTransmitData (Some data) (int (length data)) b = Inr b'"
  obtains "b' = b" | x where "downlink_queue b' = downlink_queue b @ [x]" and "dl_payload x = take (length data mod 65536) data" and "uplink_queue b' = uplink_queue b"
proof -
  have u: "unat (word_of_nat (length data) :: u16) = length data mod 65536" by (simp add: unat_of_nat)
  show thesis
    using assms that unfolding startTransmitData_def cdp_bridge_enqueue_downlink_ext_def by (auto simp: u split: if_splits)
qed

lemma startTransmitData_total: "\<exists>b'. startTransmitData (Some data) (int (length data)) b = Inr b'"
proof -
  have "unat (word_of_int (int (length data)) :: u16) \<le> length data" by (simp add: unat_of_nat)
  then show ?thesis unfolding startTransmitData_def cdp_bridge_enqueue_downlink_ext_def by auto
qed

lemma startTransmitData_queues:
  assumes "0 < length data" and "length data < 65536"
  shows "startTransmitData (Some data) (int (length data)) b = Inr (b\<lparr>downlink_queue := downlink_queue b @
    [\<lparr>dl_payload = data, dl_freq_hz = 922800000, dl_tmst = 0, dl_tx_power_dbm = 14, dl_bw_hz = 125000, dl_sf = 7, dl_cr = 1, dl_rf_chain = 0\<rparr>],
    downlink_count := downlink_count b + 1\<rparr>)"
proof -
  have u: "unat (word_of_int (int (length data)) :: u16) = length data" using assms(2) by (simp add: unat_of_nat)
  then have "(word_of_int (int (length data)) :: u16) \<noteq> 0" using assms(1) by auto
  then show ?thesis using u by (simp add: startTransmitData_def cdp_bridge_enqueue_downlink_ext_def)
qed

subsection \<open>What an operation changes\<close>

text \<open>
  The filter holds at most \<open>n\<close> more messages than before; the queue has at most \<open>n\<close> more packets, all under the address \<open>d\<close>; and the duck keeps its identity, the packets it
  delivered and a routing table in order. \<open>grows f q s s'\<close> combines the three.
\<close>

definition filter_grows :: "nat \<Rightarrow> bloom \<Rightarrow> bloom \<Rightarrow> bool" where
  "filter_grows n b b' \<longleftrightarrow> (\<forall>h. duck_filter b h \<longrightarrow> (\<exists>k. length k \<le> n \<and> duck_filter b' (h @ k)))"

definition queue_grows :: "duid \<Rightarrow> nat \<Rightarrow> downlink_packet list \<Rightarrow> downlink_packet list \<Rightarrow> bool" where
  "queue_grows d n q q' \<longleftrightarrow> (\<exists>new. q' = q @ new \<and> length new \<le> n \<and> (\<forall>x\<in>set new. own_frame d x))"

definition duck_frame :: "duck \<Rightarrow> duck \<Rightarrow> bool" where
  "duck_frame s s' \<longleftrightarrow>
     duck_duid s' = duck_duid s \<and> duck_type s' = duck_type s \<and> isSetup (duckRadio s') = isSetup (duckRadio s) \<and> networkState s' = networkState s \<and>
     delivered s' = delivered s \<and> (route_wf (routingTable s) \<longrightarrow> route_wf (routingTable s'))"

definition grows :: "nat \<Rightarrow> nat \<Rightarrow> duck \<Rightarrow> duck \<Rightarrow> bool" where
  "grows f q s s' \<longleftrightarrow> duck_frame s s' \<and> filter_grows f (duck_filter_state s) (duck_filter_state s') \<and>
     (length (duck_duid s) = 8 \<longrightarrow> queue_grows (duck_duid s) q (downlink_queue (duck_bridge s)) (downlink_queue (duck_bridge s')))"

lemma filter_grows_refl [simp]: "filter_grows n b b"
  unfolding filter_grows_def by (metis append_Nil2 list.size(3) zero_le)

lemma filter_grows_trans: "filter_grows n b b1 \<Longrightarrow> filter_grows m b1 b2 \<Longrightarrow> filter_grows (n + m) b b2"
  unfolding filter_grows_def
proof (intro allI impI)
  fix h
  assume a: "\<forall>h. duck_filter b h \<longrightarrow> (\<exists>k. length k \<le> n \<and> duck_filter b1 (h @ k))" "\<forall>h. duck_filter b1 h \<longrightarrow> (\<exists>k. length k \<le> m \<and> duck_filter b2 (h @ k))"
    "duck_filter b h"
  then obtain k where k: "length k \<le> n" "duck_filter b1 (h @ k)" by blast
  then obtain l where l: "length l \<le> m" "duck_filter b2 ((h @ k) @ l)" using a(2) by blast
  show "\<exists>k. length k \<le> n + m \<and> duck_filter b2 (h @ k)" using k(1) l by (intro exI [of _ "k @ l"]) simp
qed

lemma filter_grows_add: "bloom_add b m = Some b' \<Longrightarrow> filter_grows 1 b b'"
  unfolding filter_grows_def using bloom.add_total by (metis One_nat_def eq_imp_le length_Cons list.size(3) option.inject)

lemma queue_grows_refl [simp]: "queue_grows d n q q"
  by (simp add: queue_grows_def)

lemma queue_grows_trans: "queue_grows d n q q1 \<Longrightarrow> queue_grows d m q1 q2 \<Longrightarrow> queue_grows d (n + m) q q2"
  unfolding queue_grows_def
proof (elim exE conjE)
  fix x y
  assume "q1 = q @ x" "length x \<le> n" "\<forall>z\<in>set x. own_frame d z" "q2 = q1 @ y" "length y \<le> m" "\<forall>z\<in>set y. own_frame d z"
  then show "\<exists>new. q2 = q @ new \<and> length new \<le> n + m \<and> (\<forall>z\<in>set new. own_frame d z)" by (intro exI [of _ "x @ y"]) auto
qed

lemma duck_frame_refl [simp]: "duck_frame s s"
  by (simp add: duck_frame_def)

lemma duck_frame_trans: "duck_frame s s1 \<Longrightarrow> duck_frame s1 s2 \<Longrightarrow> duck_frame s s2"
  by (simp add: duck_frame_def)

lemma grows_refl [simp]: "grows f q s s"
  by (simp add: grows_def)

lemma grows_trans: "grows f q s s1 \<Longrightarrow> grows f' q' s1 s2 \<Longrightarrow> grows (f + f') (q + q') s s2"
  unfolding grows_def by (auto intro: duck_frame_trans filter_grows_trans queue_grows_trans simp: duck_frame_def)

lemma grows_mono: "grows f q s s' \<Longrightarrow> f \<le> f' \<Longrightarrow> q \<le> q' \<Longrightarrow> grows f' q' s s'"
  using grows_trans [of f q s s' "f' - f" "q' - q" s'] by simp

lemma grows_trans0: "grows 0 0 s s1 \<Longrightarrow> grows f q s1 s2 \<Longrightarrow> grows f q s s2"
  and grows_trans0': "grows f q s s1 \<Longrightarrow> grows 0 0 s1 s2 \<Longrightarrow> grows f q s s2"
  using grows_trans [of 0 0 s s1 f q s2] grows_trans [of f q s s1 0 0 s2] by simp_all

lemmas grows_defs = grows_def duck_frame_def

lemma millis_grows: "duck_millis env s = (t, s') \<Longrightarrow> grows 0 0 s s'"
  by (auto simp: duck_millis_def grows_defs)

lemma seen_add_shape:
  assumes "seen_add m s = Inr s'"
  obtains b where "bloom_add (duck_filter_state s) m = Some b" and "s' = s\<lparr>duck_filter_state := b\<rparr>"
  using assms by (auto simp: seen_add_def split: option.splits)

lemma seen_add_total: "duck_filter (duck_filter_state s) h \<Longrightarrow> \<exists>s'. seen_add m s = Inr s'"
  using bloom.add_total [of "duck_filter_state s" h m] by (auto simp: seen_add_def)

lemma seen_add_grows: "seen_add m s = Inr s' \<Longrightarrow> grows 1 0 s s'"
  by (erule seen_add_shape) (auto simp: grows_defs simp del: One_nat_def intro: filter_grows_add)

lemma seen_assign_grows:
  assumes "seen_assign env p s = Inr (p', s')"
  obtains m where "p' = p\<lparr>cdp_muid := m\<rparr>" and "grows 1 0 s s'" and "routingTable s' = routingTable s"
proof -
  obtain m b used where b: "bloom_add (duck_filter_state s) m = Some b" "p' = p\<lparr>cdp_muid := m\<rparr>" "s' = s\<lparr>duck_filter_state := b, rnd_used := used\<rparr>"
    using assms by (auto simp: seen_assign_def assignUniqueMessageId_def split: option.splits)
  then have "grows 1 0 s s'" by (auto simp: grows_defs simp del: One_nat_def intro: filter_grows_add)
  then show thesis using that b by simp
qed

lemma radio_send_grows:
  assumes "radio_sendData env data s = Inr (err, s')" and "\<exists>r. data = duck_duid s @ r"
  shows "grows 0 1 s s'"
proof (cases "isSetup (duckRadio s)")
  case False
  then show ?thesis using assms by (simp add: radio_sendData_def)
next
  case True
  then obtain b where b: "startTransmitData (Some data) (int (length data)) (duck_bridge s) = Inr b" "s' = s\<lparr>ms_used := ms_used s + 1, duck_bridge := b\<rparr>"
    using assms(1) by (auto simp: radio_sendData_def duck_millis_def res_bind_Inr_iff)
  obtain r where r: "data = duck_duid s @ r" using assms(2) by blast
  show ?thesis
    using b(1)
  proof (cases rule: startTransmitData_cases)
    case 1
    then show ?thesis using b(2) by (simp add: grows_defs)
  next
    case (2 x)
    have "own_frame (duck_duid s) x" if "length (duck_duid s) = 8"
      using that 2(2) r by (auto simp: own_frame_def min_def)
    then show ?thesis using b(2) 2 by (auto simp: grows_defs queue_grows_def)
  qed
qed

lemma prepare_shape:
  "fst (prepareForSending p) = DUCK_ERR_NONE \<Longrightarrow>
   snd (prepareForSending p) = p\<lparr>cdp_buffer := sduid p @ dduid p @ cdp_muid p @ [cdp_topic p, cdp_duckType p, hopCount p] @
     crc_bytes (crc32_calculate (cdp_data p)) @ cdp_data p\<rparr>"
  by (auto simp: prepareForSending_def Let_def split: if_splits)

text \<open>Sending a packet that was made by the duck itself.\<close>

lemma send_prepared_grows:
  assumes "(let (err, p') = prepareForSending p in if err \<noteq> DUCK_ERR_NONE then Inr (err, s) else radio_sendData env (cdp_buffer p') s) = Inr (err', s')"
    and "sduid p = duck_duid s"
  shows "grows 0 1 s s'"
proof (cases "fst (prepareForSending p) = DUCK_ERR_NONE")
  case False
  then show ?thesis using assms(1) by (auto simp: case_prod_beta Let_def)
next
  case True
  have "\<exists>t. cdp_buffer (snd (prepareForSending p)) = duck_duid s @ t" using prepare_shape [OF True] assms(2) by simp
  then show ?thesis
    using radio_send_grows [of env "cdp_buffer (snd (prepareForSending p))" s err' s'] assms(1) True by (simp add: case_prod_beta Let_def)
qed

lemma reserved_grows:
  assumes "sendReservedTopicData env target topic data s = Inr (err, s')"
  shows "grows 1 1 s s'"
proof (cases "networkState s = PUBLIC \<or> networkState s = SEARCHING \<and> topic = topic_rreq")
  case False
  then show ?thesis using assms unfolding sendReservedTopicData_def by (metis grows_refl prod.inject sum.inject(2))
next
  case True
  define p0 where "p0 = cdp_new target topic data (duck_duid s) (duckType_code (duck_type s))"
  obtain p s1 where a: "seen_assign env p0 s = Inr (p, s1)" and
    r: "(let (err, p') = prepareForSending p in if err \<noteq> DUCK_ERR_NONE then Inr (err, s1) else radio_sendData env (cdp_buffer p') s1) = Inr (err, s')"
    using assms True unfolding sendReservedTopicData_def by (auto simp: res_bind_Inr_iff p0_def [symmetric])
  obtain m where m: "p = p0\<lparr>cdp_muid := m\<rparr>" "grows 1 0 s s1" using seen_assign_grows [OF a] by blast
  then have "sduid p = duck_duid s1" by (simp add: grows_defs p0_def cdp_new_def)
  then show ?thesis using grows_trans [OF m(2) send_prepared_grows [OF r]] by simp
qed

lemma route_response_grows: "sendRouteResponse env target data s = Inr (err, s') \<Longrightarrow> grows 1 1 s s'"
  and pong_grows: "sendPong env target s = Inr (err, s') \<Longrightarrow> grows 1 1 s s'"
  unfolding sendRouteResponse_def sendPong_def by (rule reserved_grows; assumption)+

lemma next_hop_grows:
  assumes "duck_next_hop d s = Inr (nh, s')"
  shows "grows 0 0 s s'" and "duck_filter_state s' = duck_filter_state s"
proof -
  obtain rt where "getBestNextHop d (routingTable s) = Inr (nh, rt)" "s' = s\<lparr>routingTable := rt\<rparr>"
    using assms by (auto simp: duck_next_hop_def res_bind_Inr_iff)
  then show "grows 0 0 s s'" "duck_filter_state s' = duck_filter_state s" using next_hop_wf by (auto simp: grows_defs)
qed

lemma insert_route_grows: "length d = 8 \<Longrightarrow> grows 0 0 s (duck_insert_route env d nh s)"
  by (simp add: duck_insert_route_def duck_millis_def grows_defs insert_wf Let_def)

lemma length_hexStringToArray [simp]: "length (hexStringToArray n h) = n"
proof -
  have "length (hex_bytes xs) \<le> length xs div 2" for xs by (induction xs rule: hex_bytes.induct) (auto simp: Let_def)
  from this [of "take (2 * n) h"] have "length (hex_bytes (take (2 * n) h)) \<le> n" by simp
  then show ?thesis by (simp add: hexStringToArray_def Let_def)
qed

text \<open>A packet that the filter knows is not relayed.\<close>

lemma broadcast_seen: "bloom_check (duck_filter_state s) (cdp_muid p) = Some True \<Longrightarrow> broadcastPacket env p s = Inr (DUCK_ERR_NONE, s)"
  by (simp add: broadcastPacket_def seen_check_def)

lemma forward_seen:
  assumes "bloom_check (duck_filter_state s) (cdp_muid p) = Some True" and "forwardPacket env p s = Inr (err, s')"
  shows "grows 0 0 s s'"
proof -
  obtain nh s1 where n: "duck_next_hop (dduid p) s = Inr (nh, s1)"
    and r: "(if nh \<noteq> None \<or> dduid p = PAPADUCK_DUID then broadcastPacket env p s1 else Inr (DUCK_ERR_NONE, s1)) = Inr (err, s')"
    using assms(2) by (auto simp: forwardPacket_def res_bind_Inr_iff)
  then have "s' = s1" using broadcast_seen [of s1 p env] next_hop_grows(2) [OF n] assms(1) by (auto split: if_splits)
  then show ?thesis using next_hop_grows(1) [OF n] by simp
qed

subsection \<open>Receiving\<close>

lemma rx_take_frame: "rx_take s = (bytes, s1) \<Longrightarrow> grows 0 0 s s1 \<and> duck_filter_state s1 = duck_filter_state s \<and> routingTable s1 = routingTable s"
  by (auto simp: rx_take_def pop_uplink_packet_def grows_defs Let_def split: prod.splits option.splits list.splits if_splits)

lemma rx_stamp_frame: "grows 0 0 s (rx_stamp env s) \<and> duck_filter_state (rx_stamp env s) = duck_filter_state s \<and> routingTable (rx_stamp env s) = routingTable s"
  by (simp add: rx_stamp_def duck_millis_def grows_defs)

lemma read_frame:
  assumes "readReceivedData env s = (r, s1)"
  shows "grows 0 0 s s1" and "duck_filter_state s1 = duck_filter_state s" and "routingTable s1 = routingTable s"
proof -
  obtain bytes s0 where t: "rx_take s = (bytes, s0)" by fastforce
  have "s1 = s \<or> s1 = rx_stamp env s0" using assms t by (auto simp: readReceivedData_def Let_def split: if_splits)
  then show "grows 0 0 s s1" "duck_filter_state s1 = duck_filter_state s" "routingTable s1 = routingTable s"
    using rx_take_frame [OF t] rx_stamp_frame [of s0 env] grows_trans0 grows_refl by (metis, metis, metis)
qed

text \<open>What is accepted has a whole header and the checksum of its data.\<close>

lemma read_accepts:
  "readReceivedData env s = (Some bytes, s1) \<Longrightarrow> HEADER_LENGTH \<le> length bytes \<and> toUint32 (drop DATA_CRC_POS bytes) = crc32_calculate (drop HEADER_LENGTH bytes)"
  by (auto simp: readReceivedData_def Let_def split: if_splits prod.splits)

lemma read_accepts_parses:
  assumes "readReceivedData env s = (Some bytes, s1)"
  obtains p where "cdp_from_buffer bytes = Inr p" and "length (sduid p) = 8" and "length (dduid p) = 8" and "length (cdp_muid p) = 4"
proof -
  have l: "27 \<le> length bytes" using read_accepts [OF assms] by simp
  then obtain p where p: "cdp_from_buffer bytes = Inr p" "sduid p = take 8 bytes" "dduid p = take 8 (drop 8 bytes)" "cdp_muid p = take 4 (drop 16 bytes)"
    by (simp add: cdp_from_buffer_def)
  show thesis by (rule that [OF p(1)]) (use l p in simp_all)
qed

end
