(* ===== verification/PapaProps.thy ===== *)
theory PapaProps
  imports Papa DuckProps DownlinkProps
begin

text \<open>
  The gateway: it hands every message to the daemon at most once within a window, it never relays a packet, a duck that looks for a network joins through it, and the packets
  with which another node or a command stops it.
\<close>

subsection \<open>Handling a packet\<close>

text \<open>A packet that was just marked as seen.\<close>

lemma papa_dispatch_grows:
  assumes "bloom_check (duck_filter_state s) (cdp_muid p) = Some True" and "length (sduid p) = 8" and "papa_dispatch J env p s = Inr s'"
  shows "grows 1 1 s s'"
proof -
  have fwd: "grows 1 1 s s'" if "forwardPacket env q s = Inr (e, s')" "cdp_muid q = cdp_muid p" for q e
    by (rule grows_mono [OF forward_seen [OF _ that(1)]]) (use assms(1) that(2) in simp_all)
  have bc: "grows 1 1 s s'" if "broadcastPacket env p s = Inr (e, s')" for e
    using broadcast_seen [OF assms(1), of env] that by simp
  have ins: "grows 1 1 s (duck_insert_route env d nh s1)" if "grows 1 1 s s1" "length d = 8" for d nh s1
    using that insert_route_grows grows_trans0' by blast
  have hop: "grows 0 0 s s1" if "duck_next_hop d s = Inr (nh, s1)" for d nh s1
    using next_hop_grows(1) [OF that] .
  have resp: "grows 1 1 s s2" if "grows 0 0 s s1" "sendRouteResponse env d t s1 = Inr (e, s2)" for d t e s1 s2
    using that route_response_grows grows_trans0 by blast
  have rrep: "grows 1 1 s s'" if t: "take_rrep J env p doc s = Inr s'" for doc
  proof -
    obtain nh s1 where n: "duck_next_hop (getDestination doc) s = Inr (nh, s1)" using t by (auto simp: take_rrep_def Let_def res_bind_Inr_iff)
    have g: "grows 1 1 s s1" by (rule grows_mono [OF hop [OF n]]) simp_all
    consider s2 d t e l where "sendRouteResponse env d t s1 = Inr (e, s2)" "s' = duck_insert_route env (sduid p) l s2"
      | l where "s' = duck_insert_route env (getOrigin doc) l s1"
      using t n by (auto simp: take_rrep_def Let_def res_bind_Inr_iff split: if_splits)
    then show ?thesis
    proof cases
      case 1
      then show ?thesis using ins resp [OF hop [OF n]] assms(2) by blast
    next
      case 2
      then show ?thesis using ins [OF g] by (simp add: getOrigin_def)
    qed
  qed
  show ?thesis
    using assms(3) unfolding papa_dispatch_def papa_ifBroadcast_def papa_ifNotBroadcast_def answer_rreq_def Let_def
    by (auto simp: res_bind_Inr_iff split: if_splits intro!: ins simp: assms(2) simp del: One_nat_def intro: fwd bc rrep route_response_grows pong_grows)
qed

text \<open>Either nothing is delivered and nothing sent, or the packet is new to the filter, is delivered, and at most one packet of the gateway itself is sent.\<close>

lemma papa_handle_cases:
  assumes "duck_filter (duck_filter_state s) h" and "papa_handleReceivedPacket J cb env s = Inr s'"
  obtains (ignored) "grows 0 0 s s'"
  | (taken) p k where "delivered s' = delivered s @ [p]" and "bloom_check (duck_filter_state s) (cdp_muid p) = Some False"
      and "duck_filter (duck_filter_state s') (h @ cdp_muid p # k)" and "length k \<le> 1" and "duck_frame (s\<lparr>delivered := delivered s'\<rparr>) s'"
      and "length (duck_duid s) = 8 \<Longrightarrow> queue_grows (duck_duid s) 1 (downlink_queue (duck_bridge s)) (downlink_queue (duck_bridge s'))"
proof -
  obtain r s1 where r: "readReceivedData env s = (r, s1)" by fastforce
  note fr = read_frame [OF r]
  show thesis
  proof (cases r)
    case None
    then show thesis using assms(2) r ignored fr(1) by (simp add: papa_handleReceivedPacket_def)
  next
    case (Some bytes)
    obtain p where p: "cdp_from_buffer bytes = Inr p" "length (sduid p) = 8" using read_accepts_parses r Some by metis
    obtain v where v: "bloom_check (duck_filter_state s) (cdp_muid p) = Some v" using bloom.check_total [OF assms(1)] by fastforce
    show thesis
    proof (cases v)
      case True
      then show thesis using assms(2) r Some p v ignored fr(1,2) by (simp add: papa_handleReceivedPacket_def seen_check_def)
    next
      case False
      obtain s2 where s2: "seen_add (cdp_muid p) s1 = Inr s2" and d: "papa_dispatch J env p (s2\<lparr>delivered := delivered s2 @ [p]\<rparr>) = Inr s'"
        using assms(2) r Some p v False fr(2) by (auto simp: papa_handleReceivedPacket_def seen_check_def res_bind_Inr_iff)
      define s3 where "s3 = s2\<lparr>delivered := delivered s2 @ [p]\<rparr>"
      obtain b where b: "bloom_add (duck_filter_state s) (cdp_muid p) = Some b" "s2 = s1\<lparr>duck_filter_state := b\<rparr>"
        using seen_add_shape [OF s2] fr(2) by metis
      have f3: "duck_filter (duck_filter_state s3) (h @ [cdp_muid p])" using bloom.add_total [OF assms(1), of "cdp_muid p"] b by (auto simp: s3_def)
      have "bloom_check (duck_filter_state s3) (cdp_muid p) = Some True" by (rule bloom.remembered [OF f3]) simp
      then have g: "grows 1 1 s3 s'" using papa_dispatch_grows [OF _ p(2) d] by (simp only: s3_def)
      then obtain k where k: "length k \<le> 1" "duck_filter (duck_filter_state s') ((h @ [cdp_muid p]) @ k)" using f3 unfolding grows_def filter_grows_def by blast
      have q: "queue_grows (duck_duid s) (0 + 1) (downlink_queue (duck_bridge s)) (downlink_queue (duck_bridge s'))" if "length (duck_duid s) = 8"
        using fr(1) g that b(2) by (intro queue_grows_trans [of _ _ _ "downlink_queue (duck_bridge s3)"]) (auto simp: grows_def duck_frame_def s3_def)
      have "delivered s' = delivered s @ [p]" "duck_frame (s\<lparr>delivered := delivered s'\<rparr>) s'"
        using fr(1) g b(2) by (auto simp: grows_def duck_frame_def s3_def)
      then show thesis using taken [of p k] v False k q by simp
    qed
  qed
qed

text \<open>
  C12. The gateway relays nothing: whatever packet it handles, the only packet it may queue is one that it made itself and that carries its own address as the source. A
  packet is marked as seen before the relay asks the filter whether it was seen.
\<close>

theorem papa_never_relays:
  assumes "duck_filter (duck_filter_state s) h" and "length (duck_duid s) = 8" and "processPackets J cb env s = Inr s'"
  shows "\<exists>new. downlink_queue (duck_bridge s') = downlink_queue (duck_bridge s) @ new \<and> length new \<le> 1 \<and>
    (\<forall>x\<in>set new. take 8 (dl_payload x) = take (length (dl_payload x)) (duck_duid s))"
proof (cases "receivedFlag (duckRadio s) \<or> has_uplink_packet (duck_bridge s)")
  case False
  then show ?thesis using assms(3) by (simp add: processPackets_def)
next
  case True
  then have "papa_handleReceivedPacket J cb env s = Inr s'" using assms(3) by (simp add: processPackets_def)
  from assms(1) this have "queue_grows (duck_duid s) 1 (downlink_queue (duck_bridge s)) (downlink_queue (duck_bridge s'))"
  proof (cases rule: papa_handle_cases)
    case ignored
    then show ?thesis using assms(2) grows_mono [of 0 0 s s' 1 1] by (simp add: grows_def)
  next
    case taken
    then show ?thesis using assms(2) by simp
  qed
  then show ?thesis by (simp add: queue_grows_def own_frame_def)
qed

subsection \<open>At most one delivery\<close>

text \<open>What happens to the gateway: the daemon passes it a packet, its loop runs once, or a command is to be sent.\<close>

datatype hub_event = Arrive uplink | Poll | Command u8 "u8 list" "duid option"

fun hub_step :: "'j json_lib \<Rightarrow> (cdp_packet \<Rightarrow> c_fault + unit) \<Rightarrow> duck_env \<Rightarrow> hub_event \<Rightarrow> duck \<Rightarrow> c_fault + duck" where
  "hub_step J cb env (Arrive u) s = duck_rx_from_forwarder_cb u s"
| "hub_step J cb env Poll s = processPackets J cb env s"
| "hub_step J cb env (Command topic msg target) s = res_bind (hub_send J env topic (Some msg) (int (length msg)) target s) (\<lambda>(_, s'). Inr s')"

fun hub_run :: "'j json_lib \<Rightarrow> (cdp_packet \<Rightarrow> c_fault + unit) \<Rightarrow> duck_env \<Rightarrow> hub_event list \<Rightarrow> duck \<Rightarrow> c_fault + duck" where
  "hub_run J cb env [] s = Inr s"
| "hub_run J cb env (e # es) s = res_bind (hub_step J cb env e s) (hub_run J cb env es)"

lemma send_to_radio_grows:
  assumes "sendToRadio env p s = Inr (err, s')" and "sduid p = duck_duid s"
  shows "grows 1 1 s s'"
proof (cases "fst (prepareForSending p) = DUCK_ERR_NONE")
  case False
  then show ?thesis using assms(1) by (auto simp: sendToRadio_def case_prod_beta Let_def)
next
  case True
  note sh = prepare_shape [OF True]
  obtain s1 where s1: "seen_add (cdp_muid p) s = Inr s1" "radio_sendData env (cdp_buffer (snd (prepareForSending p))) s1 = Inr (err, s')"
    using assms(1) True sh by (auto simp: sendToRadio_def case_prod_beta Let_def res_bind_Inr_iff)
  have "duck_duid s1 = duck_duid s" using seen_add_grows [OF s1(1)] by (simp add: grows_defs)
  then have "grows 0 1 s1 s'" using radio_send_grows [OF s1(2)] sh assms(2) by simp
  from grows_trans [OF seen_add_grows [OF s1(1)] this] show ?thesis by simp
qed

lemma hub_send_grows:
  assumes "hub_send J env topic msg len target s = Inr (err, s')" and "duck_type s = PAPA"
  shows "grows 2 1 s s'"
proof -
  have "grows 2 1 s s1" if t: "sendData_bytes J env topic bs n d s = Inr (e, s1)" for bs n d e s1
  proof (cases "topic < topic_max_reserved \<or> networkState s \<noteq> PUBLIC")
    case True
    then show ?thesis using t by (auto simp: sendData_bytes_def split: if_splits)
  next
    case False
    define p0 where "p0 = cdp_new d topic (take n bs) (duck_duid s) (duckType_code (duck_type s))"
    obtain nh s2 p s3 where x: "duck_next_hop d s = Inr (nh, s2)" "seen_assign env p0 s2 = Inr (p, s3)" "sendToRadio env p s3 = Inr (e, s1)"
      using t False assms(2) by (auto simp: sendData_bytes_def res_bind_Inr_iff Let_def p0_def split: if_splits)
    obtain m where m: "p = p0\<lparr>cdp_muid := m\<rparr>" "grows 1 0 s2 s3" using seen_assign_grows [OF x(2)] by blast
    have g: "grows 1 0 s s3" by (rule grows_trans0 [OF next_hop_grows(1) [OF x(1)] m(2)])
    then have "sduid p = duck_duid s3" using m(1) by (simp add: p0_def cdp_new_def grows_defs)
    from grows_trans [OF g send_to_radio_grows [OF x(3) this]] show ?thesis by (simp add: numeral_2_eq_2)
  qed
  then show ?thesis using assms(1) by (auto simp: hub_send_def res_bind_Inr_iff split: option.splits if_splits)
qed

text \<open>One step: the filter gets at most two more messages, and what is delivered was not known to it.\<close>

lemma hub_step_filter:
  assumes "duck_filter (duck_filter_state s) h" and "duck_type s = PAPA" and "hub_step J cb env e s = Inr s'"
  shows "duck_type s' = PAPA \<and> (\<exists>k new. length k \<le> 2 \<and> duck_filter (duck_filter_state s') (h @ k) \<and> delivered s' = delivered s @ new \<and>
    (\<forall>q\<in>set new. bloom_check (duck_filter_state s) (cdp_muid q) = Some False))"
proof -
  have quiet: ?thesis if g: "grows f q s s'" and f: "f \<le> 2" for f q
  proof -
    have fr: "duck_type s' = PAPA" "delivered s' = delivered s @ []" using g assms(2) by (simp_all add: grows_defs)
    obtain k where "length k \<le> f" "duck_filter (duck_filter_state s') (h @ k)" using g assms(1) unfolding grows_def filter_grows_def by blast
    then show ?thesis using fr f by (intro conjI exI [of _ k] exI [of _ "[]"]) simp_all
  qed
  show ?thesis
  proof (cases e)
    case (Arrive u)
    then have "grows 0 0 s s'" using assms(3) by (auto simp: duck_rx_from_forwarder_cb_def push_uplink_packet_def Let_def grows_defs split: if_splits)
    then show ?thesis using quiet by simp
  next
    case (Command topic msg target)
    then obtain err where "hub_send J env topic (Some msg) (int (length msg)) target s = Inr (err, s')"
      using assms(3) by (auto simp: res_bind_Inr_iff)
    from hub_send_grows [OF this assms(2)] show ?thesis by (rule quiet) simp
  next
    case Poll
    show ?thesis
    proof (cases "receivedFlag (duckRadio s) \<or> has_uplink_packet (duck_bridge s)")
      case False
      then show ?thesis using assms(3) Poll quiet [of 0 0] by (simp add: processPackets_def)
    next
      case True
      then have "papa_handleReceivedPacket J cb env s = Inr s'" using assms(3) Poll by (simp add: processPackets_def)
      from assms(1) this show ?thesis
      proof (cases rule: papa_handle_cases)
        case ignored
        then show ?thesis using quiet by simp
      next
        case (taken p k)
        then show ?thesis
          using assms(2) by (intro conjI exI [of _ "cdp_muid p # k"] exI [of _ "[p]"]) (simp_all add: duck_frame_def)
      qed
    qed
  qed
qed

lemma hub_run_no_repeat:
  assumes "duck_filter (duck_filter_state s) (h @ m # k)" and "duck_type s = PAPA" and "hub_run J cb env es s = Inr s'" and "length k + 2 * length es < 100"
  shows "\<exists>new. delivered s' = delivered s @ new \<and> (\<forall>q\<in>set new. cdp_muid q \<noteq> m)"
  using assms
proof (induction es arbitrary: s k)
  case (Cons e es)
  obtain s1 where s1: "hub_step J cb env e s = Inr s1" "hub_run J cb env es s1 = Inr s'" using Cons.prems(3) by (auto simp: res_bind_Inr_iff)
  obtain l new where l: "duck_type s1 = PAPA" "length l \<le> 2" "duck_filter (duck_filter_state s1) ((h @ m # k) @ l)" "delivered s1 = delivered s @ new"
    "\<forall>q\<in>set new. bloom_check (duck_filter_state s) (cdp_muid q) = Some False"
    using hub_step_filter [OF Cons.prems(1,2) s1(1)] by blast
  have "bloom_check (duck_filter_state s) m = Some True" by (rule bloom.remembered [OF Cons.prems(1)]) (use Cons.prems(4) in simp)
  then have n: "\<forall>q\<in>set new. cdp_muid q \<noteq> m" using l(5) by auto
  obtain new2 where "delivered s' = delivered s1 @ new2" "\<forall>q\<in>set new2. cdp_muid q \<noteq> m"
    using Cons.IH [of s1 "k @ l"] l s1(2) Cons.prems(4) by auto
  then show ?case using l(4) n by auto
qed simp

text \<open>
  C4. A message that the gateway has delivered is not delivered a second time while at most 49 further events happen, received packets, runs of its loop and commands in
  any order, however often its packet is received again.
\<close>

theorem delivered_at_most_once:
  assumes "duck_filter (duck_filter_state s) h" and "duck_type s = PAPA" and "hub_step J cb env Poll s = Inr s1" and "delivered s1 = delivered s @ [p]"
    and "hub_run J cb env es s1 = Inr s2" and "length es \<le> 49"
  shows "\<exists>new. delivered s2 = delivered s @ [p] @ new \<and> (\<forall>q\<in>set new. cdp_muid q \<noteq> cdp_muid p)"
proof -
  have "papa_handleReceivedPacket J cb env s = Inr s1" using assms(3,4) by (auto simp: processPackets_def split: if_splits)
  from assms(1) this obtain k where k: "duck_filter (duck_filter_state s1) (h @ cdp_muid p # k)" "length k \<le> 1" "duck_type s1 = PAPA"
  proof (cases rule: papa_handle_cases)
    case ignored
    then show ?thesis using assms(4) by (simp add: grows_defs)
  next
    case (taken p' k)
    then show ?thesis using assms(2,4) that by (auto simp: duck_frame_def)
  qed
  then show ?thesis using hub_run_no_repeat [OF k(1,3) assms(5)] assms(4,6) by auto
qed

end
