(* ===== verification/HubProps.thy ===== *)
theory HubProps
  imports PapaProps
begin

text \<open>
  Runs across several nodes and components: a duck joins through the gateway, a request with an unprintable source address stops the gateway at its next broadcast, and a
  command of 256 bytes blocks the downlink of the daemon.
\<close>

subsection \<open>Sending and receiving a packet\<close>

definition packet_bytes :: "cdp_packet \<Rightarrow> u8 list" where
  "packet_bytes p = cdp_buffer (snd (prepareForSending p))"

text \<open>A packet on the way from one node to another: the bytes and their number.\<close>

definition carries :: "uplink \<Rightarrow> u8 list \<Rightarrow> bool" where
  "carries u bs \<longleftrightarrow> up_payload u = bs \<and> up_size u = of_nat (length bs)"

definition sendable :: "cdp_packet \<Rightarrow> bool" where
  "sendable p \<longleftrightarrow> cdp_wf p \<and> 0 < length (cdp_data p) \<and> length (cdp_data p) \<le> MAX_DATA_LENGTH"

lemma packet_bytes_facts:
  assumes "sendable p"
  shows "prepareForSending p = (DUCK_ERR_NONE, p\<lparr>cdp_buffer := packet_bytes p\<rparr>)" and "length (packet_bytes p) = 27 + length (cdp_data p)"
    and "cdp_from_buffer (packet_bytes p) = Inr (p\<lparr>dcrc := crc32_calculate (cdp_data p), cdp_buffer := packet_bytes p\<rparr>)"
    and "toUint32 (drop 23 (packet_bytes p)) = crc32_calculate (drop 27 (packet_bytes p))"
proof -
  define buf where "buf = sduid p @ dduid p @ cdp_muid p @ [cdp_topic p, cdp_duckType p, hopCount p] @ crc_bytes (crc32_calculate (cdp_data p)) @ cdp_data p"
  have pr: "prepareForSending p = (DUCK_ERR_NONE, p\<lparr>cdp_buffer := buf\<rparr>)" using assms prepare_ok [of p] by (simp add: buf_def sendable_def)
  then have b: "packet_bytes p = buf" by (simp add: packet_bytes_def)
  show "prepareForSending p = (DUCK_ERR_NONE, p\<lparr>cdp_buffer := packet_bytes p\<rparr>)" using pr b by simp
  have l: "length (sduid p) = 8" "length (dduid p) = 8" "length (cdp_muid p) = 4" using assms by (simp_all add: sendable_def cdp_wf_def)
  then show "length (packet_bytes p) = 27 + length (cdp_data p)" by (simp add: b buf_def crc_bytes_def)
  have d: "drop 23 buf = crc_bytes (crc32_calculate (cdp_data p)) @ cdp_data p" "drop 27 buf = cdp_data p" using l by (simp_all add: buf_def crc_bytes_def)
  show "cdp_from_buffer (packet_bytes p) = Inr (p\<lparr>dcrc := crc32_calculate (cdp_data p), cdp_buffer := packet_bytes p\<rparr>)"
    unfolding b unfolding buf_def using l by (subst cdp_from_buffer_header) auto
  show "toUint32 (drop 23 (packet_bytes p)) = crc32_calculate (drop 27 (packet_bytes p))" unfolding b d by (rule toUint32_crc_bytes)
qed

lemma from_buffer_muid: "cdp_from_buffer b = Inr q \<Longrightarrow> cdp_muid q = take 4 (drop 16 b)"
  by (auto simp: cdp_from_buffer_def split: if_splits)

lemma from_buffer_data: "cdp_from_buffer b = Inr q \<Longrightarrow> cdp_data q = drop 27 b"
  by (auto simp: cdp_from_buffer_def split: if_splits)

text \<open>A packet that arrives when no other is waiting is read as it was sent.\<close>

lemma packet_arrives:
  assumes "sendable p" and "carries u (packet_bytes p)" and "isSetup (duckRadio s)" and "uplink_queue (duck_bridge s) = []"
  obtains s1 s2 where "duck_rx_from_forwarder_cb u s = Inr s1" and "receivedFlag (duckRadio s1)" and "readReceivedData env s1 = (Some (packet_bytes p), s2)"
    and "grows 0 0 s s2" and "duck_filter_state s2 = duck_filter_state s" and "routingTable s2 = routingTable s"
    and "networkState s1 = networkState s" and "downlink_queue (duck_bridge s2) = downlink_queue (duck_bridge s)"
proof -
  note pb = packet_bytes_facts [OF assms(1)]
  have n: "length (packet_bytes p) \<le> 256" using pb(2) assms(1) by (simp add: sendable_def)
  have u: "up_payload u = packet_bytes p" "unat (up_size u) = length (packet_bytes p)" using assms(2) n by (simp_all add: carries_def unat_of_nat)
  define pk where "pk = \<lparr>upk_payload = packet_bytes p, upk_freq_hz = up_freq_hz u, upk_datarate_sf = up_datarate_sf u, upk_rf_chain = up_rf_chain u, upk_rssi = up_rssi u, upk_snr = up_snr u\<rparr>"
  define s1 where "s1 = s\<lparr>duck_bridge := (duck_bridge s)\<lparr>uplink_queue := [pk]\<rparr>, duckRadio := (duckRadio s)\<lparr>receivedFlag := True\<rparr>\<rparr>"
  have a: "duck_rx_from_forwarder_cb u s = Inr s1"
    using u assms(4) by (simp add: duck_rx_from_forwarder_cb_def push_uplink_packet_def s1_def pk_def)
  obtain s2 where s2: "readReceivedData env s1 = (Some (packet_bytes p), s2)" "downlink_queue (duck_bridge s2) = downlink_queue (duck_bridge s)"
    using assms(3) pb(2,4) by (auto simp: readReceivedData_def rx_take_def pop_uplink_packet_def s1_def pk_def Let_def rx_stamp_def duck_millis_def)
  have "grows 0 0 s s1" by (simp add: s1_def grows_defs)
  then have g: "grows 0 0 s s2" using read_frame(1) [OF s2(1)] by (rule grows_trans0)
  show thesis
    by (rule that [OF a _ s2(1) g]) (use read_frame(2,3) [OF s2(1)] s2(2) in \<open>simp_all add: s1_def\<close>)
qed

text \<open>A reserved packet of the duck itself is queued as soon as the network state allows it.\<close>

lemma reserved_sends:
  assumes "duck_filter (duck_filter_state s) h" and "length (duck_duid s) = 8" and "length target = 8" and "isSetup (duckRadio s)"
    and "networkState s = PUBLIC \<or> networkState s = SEARCHING \<and> topic = topic_rreq" and "0 < length data" and "length data \<le> MAX_DATA_LENGTH"
  obtains m s' x where "sendReservedTopicData env target topic data s = Inr (DUCK_ERR_NONE, s')" and "length m = 4"
    and "downlink_queue (duck_bridge s') = downlink_queue (duck_bridge s) @ [x]" and "uplink_queue (duck_bridge s') = uplink_queue (duck_bridge s)"
    and "sendable ((cdp_new target topic data (duck_duid s) (duckType_code (duck_type s)))\<lparr>cdp_muid := m\<rparr>)"
    and "dl_payload x = packet_bytes ((cdp_new target topic data (duck_duid s) (duckType_code (duck_type s)))\<lparr>cdp_muid := m\<rparr>)"
    and "routingTable s' = routingTable s" and "duckRadio s' = duckRadio s"
proof -
  define p0 where "p0 = cdp_new target topic data (duck_duid s) (duckType_code (duck_type s))"
  obtain m b used where m: "assignUniqueMessageId (\<lambda>i. env_random env (rnd_used s + i)) (duck_filter_state s) p0 = Some (p0\<lparr>cdp_muid := m\<rparr>, b, used)" "length m = 4"
    using muid_assigned [OF assms(1)] by blast
  define p where "p = p0\<lparr>cdp_muid := m\<rparr>"
  have sp: "sendable p" using assms(2,3,6,7) m(2) by (simp add: sendable_def cdp_wf_def p_def p0_def cdp_new_def)
  note pb = packet_bytes_facts [OF sp]
  define s1 where "s1 = s\<lparr>duck_filter_state := b, rnd_used := rnd_used s + used\<rparr>"
  have "seen_assign env p0 s = Inr (p, s1)" using m(1) by (simp add: seen_assign_def p_def s1_def)
  moreover have pos: "0 < length (packet_bytes p)" "length (packet_bytes p) < 65536" using pb(2) sp by (simp_all add: sendable_def)
  ultimately have "sendReservedTopicData env target topic data s = res_bind (startTransmitData (Some (packet_bytes p)) (int (length (packet_bytes p))) (duck_bridge s1))
      (\<lambda>b. Inr (DUCK_ERR_NONE, s1\<lparr>ms_used := ms_used s1 + 1, duck_bridge := b\<rparr>))"
    using assms(4,5) pb(1) unfolding sendReservedTopicData_def p0_def [symmetric] by (auto simp: radio_sendData_def duck_millis_def s1_def)
  note r = this [unfolded startTransmitData_queues [OF pos] res_bind_simps]
  show thesis
    by (rule that [OF r m(2)]) (use sp in \<open>simp add: s1_def p_def p0_def; fail\<close>)+
qed

lemma reserved_total:
  assumes "duck_filter (duck_filter_state s) h"
  shows "\<exists>err s'. sendReservedTopicData env target topic data s = Inr (err, s')"
proof (cases "networkState s = PUBLIC \<or> networkState s = SEARCHING \<and> topic = topic_rreq")
  case False
  then show ?thesis unfolding sendReservedTopicData_def by (subst if_not_P) auto
next
  case True
  obtain p s1 where "seen_assign env (cdp_new target topic data (duck_duid s) (duckType_code (duck_type s))) s = Inr (p, s1)"
    using muid_assigned [OF assms, of "\<lambda>i. env_random env (rnd_used s + i)" "cdp_new target topic data (duck_duid s) (duckType_code (duck_type s))"]
    by (auto simp: seen_assign_def)
  moreover have "\<exists>err s'. radio_sendData env bs s1 = Inr (err, s')" for bs
    using startTransmitData_total [of bs "duck_bridge s1"] by (auto simp: radio_sendData_def duck_millis_def)
  ultimately show ?thesis using True by (auto simp: sendReservedTopicData_def Let_def case_prod_beta)
qed

subsection \<open>A route request at the gateway\<close>

definition hub_ok :: "duck \<Rightarrow> bool" where
  "hub_ok g \<longleftrightarrow> (\<exists>h. duck_filter (duck_filter_state g) h) \<and> length (duck_duid g) = 8 \<and> duck_type g = PAPA \<and> isSetup (duckRadio g) \<and> networkState g = PUBLIC \<and>
     route_wf (routingTable g) \<and> uplink_queue (duck_bridge g) = [] \<and> downlink_queue (duck_bridge g) = []"

text \<open>The gateway answers a request of a direct neighbour and enters it into its table.\<close>

lemma hub_rreq:
  assumes "hub_ok g" and "sendable p" and "carries u (packet_bytes p)" and "cdp_topic p = topic_rreq" and "dduid p = BROADCAST_DUID" and "hopCount p = 0"
    and "sduid p \<noteq> duck_duid g" and "bloom_check (duck_filter_state g) (cdp_muid p) = Some False" and "\<forall>q. cdp_data q = cdp_data p \<longrightarrow> cb q = Inr ()"
  obtains g1 h err g2 where "duck_filter (duck_filter_state g1) h" and "duck_duid g1 = duck_duid g" and "duck_type g1 = PAPA" and "isSetup (duckRadio g1)"
    and "networkState g1 = PUBLIC" and "route_wf (routingTable g1)" and "downlink_queue (duck_bridge g1) = []"
    and "sendRouteResponse env (sduid p) (own_route J (sduid p) (duck_duid g)) g1 = Inr (err, g2)"
    and "hub_run J cb env [Arrive u, Poll] g = Inr (duck_insert_route env (sduid p) (sduid p) g2)"
proof -
  obtain h where h: "duck_filter (duck_filter_state g) h" using assms(1) by (auto simp: hub_ok_def)
  have ok: "isSetup (duckRadio g)" "uplink_queue (duck_bridge g) = []" using assms(1) by (simp_all add: hub_ok_def)
  obtain s1 s2 where s: "duck_rx_from_forwarder_cb u g = Inr s1" "receivedFlag (duckRadio s1)" "readReceivedData env s1 = (Some (packet_bytes p), s2)"
    "grows 0 0 g s2" "duck_filter_state s2 = duck_filter_state g" "downlink_queue (duck_bridge s2) = downlink_queue (duck_bridge g)"
    by (rule packet_arrives [OF assms(2,3) ok, of env]) blast
  define p' where "p' = p\<lparr>dcrc := crc32_calculate (cdp_data p), cdp_buffer := packet_bytes p\<rparr>"
  obtain b where b: "bloom_add (duck_filter_state g) (cdp_muid p) = Some b" "duck_filter b (h @ [cdp_muid p])" using bloom.add_total [OF h] by blast
  define g1 where "g1 = s2\<lparr>duck_filter_state := b, delivered := delivered s2 @ [p']\<rparr>"
  have f: "duck_filter (duck_filter_state g1) (h @ [cdp_muid p])" using b by (simp add: g1_def)
  then obtain err g2 where g2: "sendRouteResponse env (sduid p) (own_route J (sduid p) (duck_duid g)) g1 = Inr (err, g2)"
    using reserved_total [OF f, of env "sduid p" topic_rrep] unfolding sendRouteResponse_def by blast
  have id1: "duck_duid g1 = duck_duid g" "duck_type g1 = PAPA" "isSetup (duckRadio g1)" "networkState g1 = PUBLIC" "route_wf (routingTable g1)"
    "downlink_queue (duck_bridge g1) = []"
    using s(4,6) assms(1) by (simp_all add: g1_def grows_defs hub_ok_def)
  have "papa_dispatch J env p' g1 = Inr (duck_insert_route env (sduid p) (sduid p) g2)"
    using assms(4,5,6,7) id1 g2 by (simp add: papa_dispatch_def papa_ifBroadcast_def p'_def)
  then have "papa_handleReceivedPacket J cb env s1 = Inr (duck_insert_route env (sduid p) (sduid p) g2)"
    using s(3,5) packet_bytes_facts(3) [OF assms(2)] assms(8,9) b(1)
    by (simp add: papa_handleReceivedPacket_def p'_def seen_check_def seen_add_def g1_def)
  then have "hub_run J cb env [Arrive u, Poll] g = Inr (duck_insert_route env (sduid p) (sduid p) g2)"
    using s(1,2) by (simp add: processPackets_def)
  then show thesis using that [OF f id1(1,2,3,4,5,6) g2] by blast
qed

lemma insert_route_known: "routingTable (duck_insert_route env d nh s) (duck_toString d) \<noteq> None"
  by (simp add: duck_insert_route_def duck_millis_def insert_lookup Let_def)

lemma insert_route_frame:
  "duck_bridge (duck_insert_route env d nh s) = duck_bridge s" "duck_filter_state (duck_insert_route env d nh s) = duck_filter_state s"
  "networkState (duck_insert_route env d nh s) = networkState s"
  by (simp_all add: duck_insert_route_def duck_millis_def Let_def)

text \<open>
  C10. A node that announces itself with an unprintable address stops the gateway: its request is answered and entered under the text of an error message, and the next
  command to all ducks, whatever its content, makes the gateway copy this text of 30 characters into an array of 8 bytes.
\<close>

theorem unprintable_request_stops_gateway:
  assumes "hub_ok g" and "sendable p" and "carries u (packet_bytes p)" and "cdp_topic p = topic_rreq" and "dduid p = BROADCAST_DUID" and "hopCount p = 0"
    and "sduid p \<noteq> duck_duid g" and "bloom_check (duck_filter_state g) (cdp_muid p) = Some False" and "\<forall>q. cdp_data q = cdp_data p \<longrightarrow> cb q = Inr ()"
    and "\<not> printable (sduid p)" and "\<not> t < topic_max_reserved" and "0 < length msg" and "length msg \<le> 256"
  shows "hub_run J cb env [Arrive u, Poll, Command t msg None] g = Inl OutOfBounds"
proof -
  obtain g1 h err g2 where g1: "duck_filter (duck_filter_state g1) h" "duck_duid g1 = duck_duid g" "duck_type g1 = PAPA" "isSetup (duckRadio g1)"
    "networkState g1 = PUBLIC" "route_wf (routingTable g1)" "downlink_queue (duck_bridge g1) = []"
    and r: "sendRouteResponse env (sduid p) (own_route J (sduid p) (duck_duid g)) g1 = Inr (err, g2)"
    and run: "hub_run J cb env [Arrive u, Poll] g = Inr (duck_insert_route env (sduid p) (sduid p) g2)"
    using hub_rreq [OF assms(1-9), of env J] by blast
  define g3 where "g3 = duck_insert_route env (sduid p) (sduid p) g2"
  have l: "length (sduid p) = 8" using assms(2) by (simp add: sendable_def cdp_wf_def)
  have fr: "grows 1 1 g1 g3" unfolding g3_def by (rule grows_trans0' [OF route_response_grows [OF r] insert_route_grows [OF l]])
  have "routingTable g3 (duck_toString (replicate 8 0xFF)) \<noteq> None"
    using insert_route_known [of env "sduid p" "sduid p" g2] toString_error [OF assms(10)] toString_error [OF broadcast_not_printable]
    by (simp add: g3_def BROADCAST_DUID_def)
  then have "getBestNextHop (replicate 8 0xFF) (routingTable g3) = Inl OutOfBounds"
    using next_hop_overflow [of "routingTable g3" BROADCAST_DUID] broadcast_not_printable fr g1(6) by (simp add: grows_defs BROADCAST_DUID_def)
  then have "hub_step J cb env (Command t msg None) g3 = Inl OutOfBounds"
    using assms(11,12,13) fr g1(5) by (simp add: hub_send_def sendData_bytes_def grows_defs duck_next_hop_def)
  moreover have "hub_run J cb env [Arrive u, Poll, Command t msg None] g = res_bind (hub_run J cb env [Arrive u, Poll] g) (hub_step J cb env (Command t msg None))"
    by (cases "hub_step J cb env (Arrive u) g"; cases "hub_step J cb env Poll (projr (hub_step J cb env (Arrive u) g))")
      (auto simp: res_bind_def split: sum.splits)
  ultimately show ?thesis using run by (simp only: g3_def res_bind_simps)
qed

subsection \<open>Joining\<close>

definition join_ok :: "duck \<Rightarrow> bool" where
  "join_ok a \<longleftrightarrow> (\<exists>h. duck_filter (duck_filter_state a) h) \<and> length (duck_duid a) = 8 \<and> isSetup (duckRadio a) \<and> networkState a = SEARCHING \<and>
     \<not> receivedFlag (duckRadio a) \<and> uplink_queue (duck_bridge a) = [] \<and> downlink_queue (duck_bridge a) = []"

text \<open>The route document fits into one packet.\<close>

definition doc_fits :: "'j json_lib \<Rightarrow> duid \<Rightarrow> duid \<Rightarrow> bool" where
  "doc_fits J target self \<longleftrightarrow> 0 < length (own_route J target self) \<and> length (own_route J target self) \<le> MAX_DATA_LENGTH"

lemma join_request:
  assumes "join_ok a" and "NET_JOIN_DELAY < env_millis env (ms_used a) - lastRreqTime a" and "doc_fits J BROADCAST_DUID (duck_duid a)"
  obtains m a1 x where "attemptNetworkJoin J env a = Inr a1" and "downlink_queue (duck_bridge a1) = [x]" and "uplink_queue (duck_bridge a1) = []"
    and "sendable ((cdp_new BROADCAST_DUID topic_rreq (own_route J BROADCAST_DUID (duck_duid a)) (duck_duid a) (duckType_code (duck_type a)))\<lparr>cdp_muid := m\<rparr>)"
    and "dl_payload x = packet_bytes ((cdp_new BROADCAST_DUID topic_rreq (own_route J BROADCAST_DUID (duck_duid a)) (duck_duid a) (duckType_code (duck_type a)))\<lparr>cdp_muid := m\<rparr>)"
    and "duck_duid a1 = duck_duid a" and "isSetup (duckRadio a1)" and "networkState a1 = SEARCHING"
proof -
  define a0 where "a0 = a\<lparr>ms_used := ms_used a + 1\<rparr>"
  obtain h where h: "duck_filter (duck_filter_state a0) h" using assms(1) by (auto simp: join_ok_def a0_def)
  have id0: "length (duck_duid a0) = 8" "length BROADCAST_DUID = 8" "isSetup (duckRadio a0)"
    "networkState a0 = PUBLIC \<or> networkState a0 = SEARCHING \<and> topic_rreq = topic_rreq"
    using assms(1) by (simp_all add: join_ok_def a0_def BROADCAST_DUID_def)
  define doc where "doc = own_route J BROADCAST_DUID (duck_duid a)"
  have dl: "0 < length doc" "length doc \<le> MAX_DATA_LENGTH" using assms(3) by (simp_all add: doc_fits_def doc_def)
  obtain m s' x where s': "sendReservedTopicData env BROADCAST_DUID topic_rreq doc a0 = Inr (DUCK_ERR_NONE, s')"
    "downlink_queue (duck_bridge s') = downlink_queue (duck_bridge a0) @ [x]" "uplink_queue (duck_bridge s') = uplink_queue (duck_bridge a0)"
    "sendable ((cdp_new BROADCAST_DUID topic_rreq doc (duck_duid a0) (duckType_code (duck_type a0)))\<lparr>cdp_muid := m\<rparr>)"
    "dl_payload x = packet_bytes ((cdp_new BROADCAST_DUID topic_rreq doc (duck_duid a0) (duckType_code (duck_type a0)))\<lparr>cdp_muid := m\<rparr>)"
    using reserved_sends [OF h id0 dl, of env] by blast
  define a1 where "a1 = s'\<lparr>ms_used := ms_used s' + 1, lastRreqTime := env_millis env (ms_used s')\<rparr>"
  have "attemptNetworkJoin J env a = Inr a1"
    using assms(1,2) s'(1) by (simp add: attemptNetworkJoin_def checkForNetworks_def join_ok_def duck_millis_def sendRouteRequest_def doc_def own_route_def a0_def a1_def)
  moreover have "grows 1 1 a0 s'" by (rule reserved_grows [OF s'(1)])
  ultimately show thesis
    using that [of a1 x m] s' assms(1) by (simp add: a1_def a0_def doc_def join_ok_def grows_defs)
qed

lemma join_answer:
  assumes "length (duck_duid a1) = 8" and "isSetup (duckRadio a1)" and "networkState a1 = SEARCHING" and "uplink_queue (duck_bridge a1) = []"
    and "sendable p" and "carries u (packet_bytes p)" and "cdp_topic p = topic_rrep" and "dduid p = duck_duid a1"
  obtains a2 a3 where "duck_rx_from_forwarder_cb u a1 = Inr a2" and "attemptNetworkJoin J env a2 = Inr a3" and "networkState a3 = PUBLIC"
    and "routingTable a3 (duck_toString (sduid p)) \<noteq> None"
proof -
  obtain a2 s2 where s: "duck_rx_from_forwarder_cb u a1 = Inr a2" "receivedFlag (duckRadio a2)" "readReceivedData env a2 = (Some (packet_bytes p), s2)" "grows 0 0 a1 s2"
    by (rule packet_arrives [OF assms(5,6,2,4), of env]) blast
  define a3 where "a3 = (duck_insert_route env (sduid p) (sduid p) s2)\<lparr>networkState := PUBLIC\<rparr>"
  have "networkState s2 = SEARCHING" "duck_duid s2 = duck_duid a1" using s(4) assms(3) by (simp_all add: grows_defs)
  then have "attemptNetworkJoin J env a2 = Inr a3"
    using s(2,3) packet_bytes_facts(3) [OF assms(5)] assms(7,8)
    by (simp add: attemptNetworkJoin_def checkForNetworks_def a3_def insert_route_frame network_state_edges)
  then show thesis using that s(1) insert_route_known [of env "sduid p" "sduid p" s2] by (simp add: a3_def)
qed

lemma join_reception:
  assumes "hub_ok g" and "sendable req" and "carries u (packet_bytes req)" and "cdp_topic req = topic_rreq" and "dduid req = BROADCAST_DUID" and "hopCount req = 0"
    and "sduid req \<noteq> duck_duid g" and "bloom_check (duck_filter_state g) (cdp_muid req) = Some False" and "\<forall>q. cdp_data q = cdp_data req \<longrightarrow> cb q = Inr ()"
    and "doc_fits J (sduid req) (duck_duid g)"
  obtains g1 y rep where "hub_run J cb env [Arrive u, Poll] g = Inr g1" and "downlink_queue (duck_bridge g1) = [y]"
    and "routingTable g1 (duck_toString (sduid req)) \<noteq> None" and "sendable rep" and "dl_payload y = packet_bytes rep" and "cdp_topic rep = topic_rrep"
    and "dduid rep = sduid req" and "sduid rep = duck_duid g"
proof -
  define d where "d = sduid req"
  have la: "length d = 8" using assms(2) by (simp add: d_def sendable_def cdp_wf_def)
  obtain g1 h err g2 where g1: "duck_filter (duck_filter_state g1) h" "duck_duid g1 = duck_duid g" "isSetup (duckRadio g1)" "networkState g1 = PUBLIC"
    "downlink_queue (duck_bridge g1) = []" and r: "sendRouteResponse env d (own_route J d (duck_duid g)) g1 = Inr (err, g2)"
    and run: "hub_run J cb env [Arrive u, Poll] g = Inr (duck_insert_route env d d g2)"
    using hub_rreq [OF assms(1-9), of env J] unfolding d_def by metis
  have pre: "length (duck_duid g1) = 8" "networkState g1 = PUBLIC \<or> networkState g1 = SEARCHING \<and> topic_rrep = topic_rreq"
    using assms(1) g1(2,4) by (simp_all add: hub_ok_def)
  define rep0 where "rep0 = cdp_new d topic_rrep (own_route J d (duck_duid g)) (duck_duid g1) (duckType_code (duck_type g1))"
  obtain m y where y: "downlink_queue (duck_bridge g2) = downlink_queue (duck_bridge g1) @ [y]" "sendable (rep0\<lparr>cdp_muid := m\<rparr>)" "dl_payload y = packet_bytes (rep0\<lparr>cdp_muid := m\<rparr>)"
    using reserved_sends [OF g1(1) pre(1) la g1(3) pre(2), of "own_route J d (duck_duid g)" env] assms(10) r
    unfolding doc_fits_def sendRouteResponse_def rep0_def d_def by (metis prod.inject sum.inject(2))
  show thesis
    by (rule that [OF run _ _ y(2,3)])
      (use y(1) g1(2,5) insert_route_known in \<open>simp_all add: insert_route_frame rep0_def cdp_new_def d_def\<close>)
qed

text \<open>
  C5. A duck that looks for a network joins through the gateway: after its waiting time it sends one request; when the gateway gets this packet and does not take its id
  for a known one, it enters the duck into its table and sends one answer; when the duck gets the answer, it is in the network and knows a route to the gateway.
\<close>

theorem join_through_gateway:
  assumes "hub_ok g" and "join_ok a" and "NET_JOIN_DELAY < env_millis envA (ms_used a) - lastRreqTime a" and "duck_duid a \<noteq> duck_duid g"
    and "doc_fits J BROADCAST_DUID (duck_duid a)" and "doc_fits J (duck_duid a) (duck_duid g)" and "\<forall>q. cdp_data q = own_route J BROADCAST_DUID (duck_duid a) \<longrightarrow> cb q = Inr ()"
  shows "\<exists>a1 x. attemptNetworkJoin J envA a = Inr a1 \<and> downlink_queue (duck_bridge a1) = [x] \<and>
    (\<forall>u1. carries u1 (dl_payload x) \<and> bloom_check (duck_filter_state g) (take 4 (drop 16 (dl_payload x))) = Some False \<longrightarrow>
      (\<exists>g1 y. hub_run J cb envG [Arrive u1, Poll] g = Inr g1 \<and> downlink_queue (duck_bridge g1) = [y] \<and> routingTable g1 (duck_toString (duck_duid a)) \<noteq> None \<and>
        (\<forall>u2. carries u2 (dl_payload y) \<longrightarrow>
          (\<exists>a2 a3. duck_rx_from_forwarder_cb u2 a1 = Inr a2 \<and> attemptNetworkJoin J envA a2 = Inr a3 \<and> networkState a3 = PUBLIC \<and>
            routingTable a3 (duck_toString (duck_duid g)) \<noteq> None))))"
proof -
  obtain m a1 x where a1: "attemptNetworkJoin J envA a = Inr a1" "downlink_queue (duck_bridge a1) = [x]" "uplink_queue (duck_bridge a1) = []"
    "duck_duid a1 = duck_duid a" "isSetup (duckRadio a1)" "networkState a1 = SEARCHING"
    and p: "sendable ((cdp_new BROADCAST_DUID topic_rreq (own_route J BROADCAST_DUID (duck_duid a)) (duck_duid a) (duckType_code (duck_type a)))\<lparr>cdp_muid := m\<rparr>)"
      "dl_payload x = packet_bytes ((cdp_new BROADCAST_DUID topic_rreq (own_route J BROADCAST_DUID (duck_duid a)) (duck_duid a) (duckType_code (duck_type a)))\<lparr>cdp_muid := m\<rparr>)"
    using join_request [OF assms(2,3,5)] by metis
  define req where "req = (cdp_new BROADCAST_DUID topic_rreq (own_route J BROADCAST_DUID (duck_duid a)) (duck_duid a) (duckType_code (duck_type a)))\<lparr>cdp_muid := m\<rparr>"
  have req: "sendable req" "dl_payload x = packet_bytes req" "cdp_topic req = topic_rreq" "dduid req = BROADCAST_DUID" "hopCount req = 0" "sduid req = duck_duid a" "cdp_data req = own_route J BROADCAST_DUID (duck_duid a)"
    using p by (simp_all add: req_def cdp_new_def)
  have la: "length (duck_duid a) = 8" using assms(2) by (simp add: join_ok_def)
  have mu: "take 4 (drop 16 (packet_bytes req)) = cdp_muid req"
    using from_buffer_muid [OF packet_bytes_facts(3) [OF req(1)]] by simp
  have "\<exists>g1 y. hub_run J cb envG [Arrive u1, Poll] g = Inr g1 \<and> downlink_queue (duck_bridge g1) = [y] \<and> routingTable g1 (duck_toString (duck_duid a)) \<noteq> None \<and>
        (\<forall>u2. carries u2 (dl_payload y) \<longrightarrow>
          (\<exists>a2 a3. duck_rx_from_forwarder_cb u2 a1 = Inr a2 \<and> attemptNetworkJoin J envA a2 = Inr a3 \<and> networkState a3 = PUBLIC \<and>
            routingTable a3 (duck_toString (duck_duid g)) \<noteq> None))"
    if u1: "carries u1 (dl_payload x) \<and> bloom_check (duck_filter_state g) (take 4 (drop 16 (dl_payload x))) = Some False" for u1
  proof -
    obtain g1 y rep where g1: "hub_run J cb envG [Arrive u1, Poll] g = Inr g1" "downlink_queue (duck_bridge g1) = [y]" "routingTable g1 (duck_toString (duck_duid a)) \<noteq> None"
      and rep: "sendable rep" "dl_payload y = packet_bytes rep" "cdp_topic rep = topic_rrep" "dduid rep = duck_duid a1" "sduid rep = duck_duid g"
      using join_reception [OF assms(1) req(1) _ req(3,4,5) _ _ assms(7) [folded req(7)], of u1 J envG] u1 req(2,6) mu assms(4,6) a1(4) by metis
    have "\<exists>a2 a3. duck_rx_from_forwarder_cb u2 a1 = Inr a2 \<and> attemptNetworkJoin J envA a2 = Inr a3 \<and> networkState a3 = PUBLIC \<and>
        routingTable a3 (duck_toString (duck_duid g)) \<noteq> None" if "carries u2 (dl_payload y)" for u2
      using join_answer [of a1 rep u2 J envA] a1 la rep that by metis
    then show ?thesis using g1 by blast
  qed
  then show ?thesis using a1(1,2) by blast
qed

subsection \<open>Damaged packets\<close>

lemma damaged_packet_crc:
  assumes "sendable p" and "cdp_data p = pre @ mid @ post" and "length mid' = length mid" and "length mid \<le> 4" and "mid' \<noteq> mid"
    and "bs = take 27 (packet_bytes p) @ pre @ mid' @ post"
  shows "length bs = 27 + length (cdp_data p)" and "toUint32 (drop 23 bs) \<noteq> crc32_calculate (drop 27 bs)"
proof -
  have pb: "length (packet_bytes p) = 27 + length (cdp_data p)" "toUint32 (drop 23 (packet_bytes p)) = crc32_calculate (drop 27 (packet_bytes p))"
    using packet_bytes_facts(2,4) [OF assms(1)] by auto
  have "drop 27 (packet_bytes p) = cdp_data p" using packet_bytes_facts(3) [OF assms(1)] from_buffer_data by fastforce
  then have c: "toUint32 (drop 23 (packet_bytes p)) = crc32_calculate (pre @ mid @ post)" using pb(2) assms(2) by simp
  show "length bs = 27 + length (cdp_data p)" using assms(2,3,6) pb(1) by simp
  have d23: "drop 23 bs = drop 23 (take 27 (packet_bytes p)) @ pre @ mid' @ post" and d27: "drop 27 bs = pre @ mid' @ post" using assms(6) pb(1) by simp_all
  have "drop 23 (packet_bytes p) ! i = drop 23 bs ! i" if "i < 4" for i
    using that pb(1) unfolding d23 by (simp add: nth_append)
  then have "toUint32 (drop 23 bs) = toUint32 (drop 23 (packet_bytes p))" by (simp add: toUint32_def)
  then show "toUint32 (drop 23 bs) \<noteq> crc32_calculate (drop 27 bs)"
    using crc32_burst [of mid mid' pre post] assms(3,4,5) by (simp add: c d27)
qed

text \<open>
  C13. A packet whose data arrive damaged within four consecutive bytes is refused by the receiver, whatever the damage; the intact packet is accepted and has the fields of the one sent.
\<close>

theorem damaged_packet_refused:
  assumes "sendable p" and "cdp_data p = pre @ mid @ post" and "length mid' = length mid" and "length mid \<le> 4" and "mid' \<noteq> mid"
    and "carries u (take 27 (packet_bytes p) @ pre @ mid' @ post)" and "carries v (packet_bytes p)" and "isSetup (duckRadio s)" and "uplink_queue (duck_bridge s) = []"
  shows "(\<exists>s1 s2. duck_rx_from_forwarder_cb u s = Inr s1 \<and> readReceivedData env s1 = (None, s2)) \<and>
    (\<exists>s1 s2 q. duck_rx_from_forwarder_cb v s = Inr s1 \<and> readReceivedData env s1 = (Some (packet_bytes p), s2) \<and> cdp_from_buffer (packet_bytes p) = Inr q \<and>
       sduid q = sduid p \<and> dduid q = dduid p \<and> cdp_muid q = cdp_muid p \<and> cdp_topic q = cdp_topic p \<and> cdp_data q = cdp_data p)"
proof
  define bs where "bs = take 27 (packet_bytes p) @ pre @ mid' @ post"
  note bad = damaged_packet_crc [OF assms(1-5) bs_def]
  have "length bs \<le> 256" using bad(1) assms(1) by (simp add: sendable_def)
  then have u: "up_payload u = bs" "unat (up_size u) = length bs" using assms(6) by (simp_all add: carries_def bs_def [symmetric] unat_of_nat)
  then obtain s1 where s1: "duck_rx_from_forwarder_cb u s = Inr s1" "isSetup (duckRadio s1)" "map upk_payload (uplink_queue (duck_bridge s1)) = [bs]"
    using assms(8,9) by (simp add: duck_rx_from_forwarder_cb_def push_uplink_packet_def)
  then obtain s2 where "rx_take s1 = (bs, s2)" by (auto simp: rx_take_def pop_uplink_packet_def Let_def split: list.splits)
  then have "\<exists>s3. readReceivedData env s1 = (None, s3)" using s1(2) bad by (auto simp: readReceivedData_def Let_def)
  then show "\<exists>s1 s2. duck_rx_from_forwarder_cb u s = Inr s1 \<and> readReceivedData env s1 = (None, s2)" using s1(1) by blast
  show "\<exists>s1 s2 q. duck_rx_from_forwarder_cb v s = Inr s1 \<and> readReceivedData env s1 = (Some (packet_bytes p), s2) \<and> cdp_from_buffer (packet_bytes p) = Inr q \<and>
       sduid q = sduid p \<and> dduid q = dduid p \<and> cdp_muid q = cdp_muid p \<and> cdp_topic q = cdp_topic p \<and> cdp_data q = cdp_data p"
    by (rule packet_arrives [OF assms(1,7,8,9), of env]) (use packet_bytes_facts(3) [OF assms(1)] in auto)
qed

subsection \<open>A command that is too long\<close>

text \<open>The gateway queues a packet of 283 bytes for a message of 256 bytes.\<close>

lemma hub_command_256:
  assumes "hub_ok g" and "\<not> t < topic_max_reserved" and "printable d" and "length d = 8" and "length msg = 256"
  obtains g' x where "hub_send J env t (Some msg) 256 (Some d) g = Inr (0, g')" and "downlink_queue (duck_bridge g') = [x]" and "length (dl_payload x) = 283"
proof -
  obtain h where h: "duck_filter (duck_filter_state g) h" using assms(1) by (auto simp: hub_ok_def)
  have ok: "length (duck_duid g) = 8" "duck_type g = PAPA" "isSetup (duckRadio g)" "networkState g = PUBLIC" "route_wf (routingTable g)" "downlink_queue (duck_bridge g) = []"
    using assms(1) by (simp_all add: hub_ok_def)
  obtain nh rt where nh: "getBestNextHop d (routingTable g) = Inr (nh, rt)" using next_hop_printable [OF ok(5) assms(3,4)] by blast
  define g0 where "g0 = g\<lparr>routingTable := rt\<rparr>"
  define p0 where "p0 = cdp_new d t msg (duck_duid g) (duckType_code (duck_type g))"
  have h0: "duck_filter (duck_filter_state g0) h" using h by (simp add: g0_def)
  obtain m b used where m: "assignUniqueMessageId (\<lambda>i. env_random env (rnd_used g0 + i)) (duck_filter_state g0) p0 = Some (p0\<lparr>cdp_muid := m\<rparr>, b, used)"
    "length m = 4" "duck_filter b (h @ [m])"
    using muid_assigned [OF h0] by blast
  define p where "p = p0\<lparr>cdp_muid := m\<rparr>"
  define g1 where "g1 = g0\<lparr>duck_filter_state := b, rnd_used := rnd_used g0 + used\<rparr>"
  have a: "seen_assign env p0 g0 = Inr (p, g1)" using m(1) by (simp add: seen_assign_def p_def g1_def)
  have "cdp_wf p" "length (cdp_data p) = 256" using ok(1) assms(4,5) m(2) by (simp_all add: p_def p0_def cdp_new_def cdp_wf_def)
  then obtain p' where p': "prepareForSending p = (DUCK_ERR_NONE, p')" "length (cdp_buffer p') = 283" using prepare_length_wraps [of p] by auto
  obtain g2 where g2: "seen_add (cdp_muid p') g1 = Inr g2" using seen_add_total [of g1 "h @ [m]"] m(3) by (auto simp: g1_def)
  have g2f: "isSetup (duckRadio g2)" "duck_bridge g2 = duck_bridge g"
    by (rule seen_add_shape [OF g2]; use ok(3) in \<open>simp add: g1_def g0_def\<close>)+
  have pos: "0 < length (cdp_buffer p')" "length (cdp_buffer p') < 65536" using p'(2) by simp_all
  obtain b' x where b': "startTransmitData (Some (cdp_buffer p')) (int (length (cdp_buffer p'))) (duck_bridge g) = Inr b'"
    "downlink_queue b' = [x]" "dl_payload x = cdp_buffer p'"
    using startTransmitData_queues [OF pos, of "duck_bridge g"] ok(6) by simp
  define g' where "g' = g2\<lparr>ms_used := ms_used g2 + 1, duck_bridge := b'\<rparr>"
  have "sendToRadio env p g1 = Inr (DUCK_ERR_NONE, g')"
    using p'(1) g2 g2f b'(1) by (simp add: sendToRadio_def radio_sendData_def duck_millis_def g'_def)
  then have send: "hub_send J env t (Some msg) 256 (Some d) g = Inr (0, g')"
    using a ok(2,4) assms(2,4,5) nh unfolding p0_def g0_def by (simp add: hub_send_def sendData_bytes_def duck_next_hop_def)
  show thesis by (rule that [OF send, of x]) (use b'(2,3) p'(2) in \<open>simp_all add: g'_def\<close>)
qed

text \<open>
  C11. A command of 256 bytes blocks the downlink for good. The gateway accepts it, since the packet checks its length modulo 256, and queues a packet of 283 bytes; the
  downstream thread of the daemon cannot take this packet, and from then on it takes every packet from the bridge without queueing any.
\<close>

theorem oversized_command_blocks:
  assumes "hub_ok g" and "\<not> t < topic_max_reserved" and "printable d" and "length d = 8" and "length msg = 256" and "down_vars 256 (down_out s)"
    and "e = DownOuter \<or> e = DownInner now"
  shows "\<exists>g'. hub_send J env t (Some msg) 256 (Some d) g = Inr (0, g') \<and>
    (\<exists>s'. down_events cf (e # es) (s\<lparr>down_bridge := duck_bridge g'\<rparr>) = Inr s' \<and> down_queue s' = down_queue s \<and> meas_nb_tx_requested s' = meas_nb_tx_requested s \<and>
      inout_capacity (down_out s') = Some 0)"
proof -
  obtain g' x where g': "hub_send J env t (Some msg) 256 (Some d) g = Inr (0, g')" "downlink_queue (duck_bridge g') = [x]" "length (dl_payload x) = 283"
    using hub_command_256 [OF assms(1-5)] by metis
  define s0 where "s0 = s\<lparr>down_bridge := duck_bridge g'\<rparr>"
  have "\<exists>s'. down_events cf (e # es) s0 = Inr s' \<and> down_queue s' = down_queue s0 \<and> meas_nb_tx_requested s' = meas_nb_tx_requested s0 \<and> inout_capacity (down_out s') = Some 0"
    by (rule oversized_downlink_blocks [of s0 x "[]" e now]) (use assms(6,7) g'(2,3) in \<open>simp_all add: s0_def\<close>)
  then show ?thesis using g'(1) by (auto simp: s0_def)
qed

subsection \<open>Further ways to stop or mislead the gateway\<close>

text \<open>A route packet for the gateway whose document has no origin makes it read through a null pointer.\<close>

lemma route_without_origin:
  assumes "dduid p = duck_duid s" and "duck_duid s \<noteq> BROADCAST_DUID" and "cdp_topic p = topic_rreq \<or> cdp_topic p = topic_rrep"
    and "json_get J (deserializeJson J (cdp_data p)) (cstr ''origin'') = None"
  shows "papa_dispatch J env p s = Inl NullPointer"
  using assms by (auto simp: papa_dispatch_def papa_ifNotBroadcast_def answer_rreq_def route_parse_def)

text \<open>A response for another duck with an empty path makes it remove an element from an empty vector.\<close>

lemma response_with_empty_path:
  assumes "duck_next_hop (getDestination doc) s = Inr (Some d, s1)" and "getDestination doc \<noteq> duck_duid s" and "d \<noteq> sduid p" and "objPath doc = []"
  shows "take_rrep J env p doc s = Inl OutOfBounds"
  using assms by (simp add: take_rrep_def popFromPath_def Let_def)

text \<open>A configuration that the radio refuses is reported as a success, and the gateway takes itself for part of the network.\<close>

lemma invalid_config_accepted:
  assumes "checkLoRaParameters c = DUCK_ERR_INVALID_ARGUMENT" and "networkState s = SEARCHING"
  shows "papa_begin c s = (DUCK_ERR_NONE, s\<lparr>networkState := PUBLIC\<rparr>)"
  using assms by (simp add: papa_begin_def setupLoRaRadio_def setupRadio_def network_state_edges)

subsection \<open>Witnesses\<close>

text \<open>Documents as a map of texts and a map of arrays.\<close>

definition sample_json :: "((cstring \<rightharpoonup> cstring) \<times> (cstring \<rightharpoonup> cstring list)) json_lib" where
  "sample_json = \<lparr>json_null = (Map.empty, Map.empty), deserializeJson = (\<lambda>_. (Map.empty, Map.empty)),
     serializeJson = (\<lambda>(f, a). concat (map (\<lambda>k. case f k of None \<Rightarrow> [] | Some v \<Rightarrow> k @ v) [cstr ''origin'', cstr ''destination'']) @
       (case a (cstr ''path'') of None \<Rightarrow> [] | Some xs \<Rightarrow> concat xs)),
     json_get = (\<lambda>(f, a) k. f k), json_set = (\<lambda>(f, a) k v. (f(k \<mapsto> v), a)),
     json_get_array = (\<lambda>(f, a) k. case a k of None \<Rightarrow> [] | Some xs \<Rightarrow> xs), json_set_array = (\<lambda>(f, a) k xs. (f, a(k \<mapsto> xs)))\<rparr>"

definition sample_env :: duck_env where
  "sample_env = \<lparr>env_random = (\<lambda>i. i), env_millis = (\<lambda>i. 20000 + of_nat i)\<rparr>"

definition sample_hub :: duck where
  "sample_hub = snd (hub_init_and_setup (hub_new [7, 11]))"

definition sample_joiner :: duck where
  "sample_joiner = (hub_new [7, 11])\<lparr>duck_duid := sample_device, duck_type := MAMA, duckRadio := (duckRadio (hub_new [7, 11]))\<lparr>isSetup := True\<rparr>\<rparr>"

definition sample_uplink :: "u8 list \<Rightarrow> uplink" where
  "sample_uplink bs = \<lparr>up_payload = bs, up_size = of_nat (length bs), up_rssi = -80, up_snr = 5, up_freq_hz = 922800000, up_tmst = 0, up_rf_chain = 0,
     up_bandwidth_hz = 125000, up_datarate_sf = 7, up_coderate = 1\<rparr>"

lemma sample_carries: "carries (sample_uplink bs) bs"
  by (simp add: carries_def sample_uplink_def)

lemma default_params_ok: "checkLoRaParameters defaultRadioParams = DUCK_ERR_NONE"
  by code_simp

text \<open>The gateway after its initialisation.\<close>

lemma hub_init_ok:
  assumes "length seeds = 2"
  shows "fst (hub_init_and_setup (hub_new seeds))" and "hub_ok (snd (hub_init_and_setup (hub_new seeds)))"
    and "duck_filter_state (snd (hub_init_and_setup (hub_new seeds))) = bloom_init (bloom_default_conf seeds)"
  using duck_filter_init [OF assms]
  by (auto simp: hub_init_and_setup_def papa_begin_def setupLoRaRadio_def setupRadio_def default_params_ok hub_new_def network_state_edges hub_ok_def route_wf_empty
      cdp_bridge_register_rx_callback_def g_bridge_init_def cstr_def)

lemma sample_hub_facts: "hub_ok sample_hub" "bloom_check (duck_filter_state sample_hub) m = Some False" "duck_duid sample_hub = cstr ''PAPADUCK''"
  using hub_init_ok [of "[7, 11]"] bloom_init_empty [of "[7, 11]" m]
  by (simp_all add: sample_hub_def)
    (simp add: hub_init_and_setup_def papa_begin_def setupLoRaRadio_def setupRadio_def default_params_ok hub_new_def)

lemma sample_ids_differ: "sample_device \<noteq> duck_duid sample_hub" "PAPADUCK_DUID \<noteq> duck_duid sample_hub"
  unfolding sample_hub_facts(3) by code_simp+

lemma sample_joiner_ok: "join_ok sample_joiner"
  using duck_filter_init [of "[7, 11]"] sample_device_facts(2)
  by (auto simp: join_ok_def sample_joiner_def hub_new_def g_bridge_init_def)

definition sample_packet :: "duid \<Rightarrow> cdp_packet" where
  "sample_packet d = cdp_new BROADCAST_DUID topic_rreq [1, 2, 3] d 2"

lemma sample_packet_facts:
  "length d = 8 \<Longrightarrow> sendable (sample_packet d)" "cdp_topic (sample_packet d) = topic_rreq" "dduid (sample_packet d) = BROADCAST_DUID" "hopCount (sample_packet d) = 0"
  "sduid (sample_packet d) = d" "cdp_data (sample_packet d) = [1] @ [2] @ [3]"
  by (simp_all add: sample_packet_def cdp_new_def sendable_def cdp_wf_def BROADCAST_DUID_def)

lemma sample_docs_fit: "doc_fits sample_json BROADCAST_DUID sample_device" "doc_fits sample_json sample_device (cstr ''PAPADUCK'')"
  by code_simp+

theorem unprintable_request_stops_gateway_witness:
  "hub_run sample_json (\<lambda>_. Inr ()) sample_env [Arrive (sample_uplink (packet_bytes (sample_packet PAPADUCK_DUID))), Poll, Command 0x10 [65] None] sample_hub = Inl OutOfBounds"
proof (rule unprintable_request_stops_gateway [OF sample_hub_facts(1) _ sample_carries])
  show "sendable (sample_packet PAPADUCK_DUID)" by (simp add: sample_packet_facts PAPADUCK_DUID_def)
qed (simp_all add: sample_packet_facts sample_hub_facts(2) sample_ids_differ papaduck_not_printable)

theorem join_through_gateway_witness:
  "\<exists>a1 x. attemptNetworkJoin sample_json sample_env sample_joiner = Inr a1 \<and> downlink_queue (duck_bridge a1) = [x] \<and>
    (\<exists>g1 y. hub_run sample_json (\<lambda>_. Inr ()) sample_env [Arrive (sample_uplink (dl_payload x)), Poll] sample_hub = Inr g1 \<and> downlink_queue (duck_bridge g1) = [y] \<and>
      (\<exists>a2 a3. duck_rx_from_forwarder_cb (sample_uplink (dl_payload y)) a1 = Inr a2 \<and> attemptNetworkJoin sample_json sample_env a2 = Inr a3 \<and> networkState a3 = PUBLIC))"
proof -
  have id: "duck_duid sample_joiner = sample_device" by (simp add: sample_joiner_def)
  have "NET_JOIN_DELAY < env_millis sample_env (ms_used sample_joiner) - lastRreqTime sample_joiner" by (simp add: sample_env_def sample_joiner_def hub_new_def)
  from join_through_gateway [OF sample_hub_facts(1) sample_joiner_ok this, of sample_json "\<lambda>_. Inr ()" sample_env]
  show ?thesis
    using sample_docs_fit sample_ids_differ(1) sample_hub_facts(2) sample_carries unfolding id sample_hub_facts(3) by metis
qed

theorem damaged_packet_refused_witness:
  "\<exists>s1 s2. duck_rx_from_forwarder_cb (sample_uplink (take 27 (packet_bytes (sample_packet sample_device)) @ [1] @ [9] @ [3])) sample_hub = Inr s1 \<and>
    readReceivedData sample_env s1 = (None, s2)"
  using damaged_packet_refused [OF sample_packet_facts(1) [OF sample_device_facts(2)] sample_packet_facts(6), of "[9]" "sample_uplink (take 27 (packet_bytes (sample_packet sample_device)) @ [1] @ [9] @ [3])"
      "sample_uplink (packet_bytes (sample_packet sample_device))" sample_hub sample_env]
    sample_carries sample_hub_facts(1) by (auto simp: hub_ok_def)

theorem oversized_command_blocks_witness:
  "\<exists>g'. hub_send sample_json sample_env 0x10 (Some (replicate 256 65)) 256 (Some sample_device) sample_hub = Inr (0, g') \<and>
    (\<exists>s'. down_events down_conf_sample [DownInner 5, DuckSubmit [1, 2, 3], DownOuter] ((down_sample [])\<lparr>down_bridge := duck_bridge g'\<rparr>) = Inr s' \<and>
      inout_capacity (down_out s') = Some 0)"
  using oversized_command_blocks [OF sample_hub_facts(1) _ sample_device_facts, of "0x10" "replicate 256 65" "down_sample []" "DownInner 5" 5] down_sample_facts(1) by fastforce

text \<open>The gateway with one request waiting handles it.\<close>

lemma sample_poll:
  obtains s s' y h where "duck_rx_from_forwarder_cb (sample_uplink (packet_bytes (sample_packet sample_device))) sample_hub = Inr s"
    and "processPackets sample_json (\<lambda>_. Inr ()) sample_env s = Inr s'" and "downlink_queue (duck_bridge s') = [y]" and "downlink_queue (duck_bridge s) = []"
    and "duck_filter (duck_filter_state s) h" and "duck_duid s = duck_duid sample_hub" and "duck_type s = PAPA"
proof -
  define p where "p = sample_packet sample_device"
  have pf: "sendable p" "cdp_topic p = topic_rreq" "dduid p = BROADCAST_DUID" "hopCount p = 0" "sduid p \<noteq> duck_duid sample_hub"
    "bloom_check (duck_filter_state sample_hub) (cdp_muid p) = Some False" "doc_fits sample_json (sduid p) (duck_duid sample_hub)"
    using sample_packet_facts sample_device_facts(2) sample_hub_facts(2,3) sample_ids_differ(1) sample_docs_fit(2) by (simp_all add: p_def)
  obtain g1 y where g1: "hub_run sample_json (\<lambda>_. Inr ()) sample_env [Arrive (sample_uplink (packet_bytes p)), Poll] sample_hub = Inr g1" "downlink_queue (duck_bridge g1) = [y]"
    using join_reception [OF sample_hub_facts(1) pf(1) sample_carries pf(2-6) _ pf(7), of "\<lambda>_. Inr ()" sample_env] by blast
  then obtain s where s: "duck_rx_from_forwarder_cb (sample_uplink (packet_bytes p)) sample_hub = Inr s" "processPackets sample_json (\<lambda>_. Inr ()) sample_env s = Inr g1"
    by (auto simp: res_bind_Inr_iff)
  have "downlink_queue (duck_bridge s) = []" "grows 0 0 sample_hub s" "duck_filter_state s = duck_filter_state sample_hub"
    using s(1) sample_hub_facts(1) by (auto simp: duck_rx_from_forwarder_cb_def push_uplink_packet_def hub_ok_def grows_defs split: if_splits)
  moreover obtain h where "duck_filter (duck_filter_state sample_hub) h" using sample_hub_facts(1) by (auto simp: hub_ok_def)
  ultimately show thesis using that [of s g1 y h] s g1(2) sample_hub_facts(1) by (simp add: p_def hub_ok_def grows_defs push_uplink_packet_def)
qed

theorem papa_never_relays_witness:
  "\<exists>s s' new. processPackets sample_json (\<lambda>_. Inr ()) sample_env s = Inr s' \<and> downlink_queue (duck_bridge s') = downlink_queue (duck_bridge s) @ new \<and> new \<noteq> [] \<and>
    (\<forall>x\<in>set new. take 8 (dl_payload x) = take (length (dl_payload x)) (cstr ''PAPADUCK''))"
proof -
  obtain s s' y h where s: "processPackets sample_json (\<lambda>_. Inr ()) sample_env s = Inr s'" "downlink_queue (duck_bridge s') = [y]" "downlink_queue (duck_bridge s) = []"
    "duck_filter (duck_filter_state s) h" "duck_duid s = duck_duid sample_hub" using sample_poll by metis
  have "length (duck_duid s) = 8" using s(5) sample_hub_facts(1) by (simp add: hub_ok_def)
  from papa_never_relays [OF s(4) this s(1)] show ?thesis using s sample_hub_facts(3) by (metis append_Nil list.distinct(1))
qed

theorem delivered_at_most_once_witness:
  "\<exists>s s1 s2 p new. hub_step sample_json (\<lambda>_. Inr ()) sample_env Poll s = Inr s1 \<and> delivered s1 = delivered s @ [p] \<and>
    hub_run sample_json (\<lambda>_. Inr ()) sample_env [Arrive (sample_uplink [1, 2]), Arrive (sample_uplink [3])] s1 = Inr s2 \<and> delivered s2 = delivered s @ [p] @ new \<and>
    (\<forall>q\<in>set new. cdp_muid q \<noteq> cdp_muid p)"
proof -
  obtain s s1 y h where s: "processPackets sample_json (\<lambda>_. Inr ()) sample_env s = Inr s1" "downlink_queue (duck_bridge s1) = [y]" "downlink_queue (duck_bridge s) = []"
    "duck_filter (duck_filter_state s) h" "duck_duid s = duck_duid sample_hub" "duck_type s = PAPA" using sample_poll by metis
  have "length (duck_duid s) = 8" using s(5) sample_hub_facts(1) by (simp add: hub_ok_def)
  have "papa_handleReceivedPacket sample_json (\<lambda>_. Inr ()) sample_env s = Inr s1" using s(1,2,3) by (auto simp: processPackets_def split: if_splits)
  from s(4) this obtain p where p: "delivered s1 = delivered s @ [p]"
  proof (cases rule: papa_handle_cases)
    case ignored
    then show ?thesis using \<open>length (duck_duid s) = 8\<close> s(2,3) by (simp add: grows_def queue_grows_def)
  qed blast
  obtain s2 where "hub_run sample_json (\<lambda>_. Inr ()) sample_env [Arrive (sample_uplink [1, 2]), Arrive (sample_uplink [3])] s1 = Inr s2"
    by (simp add: duck_rx_from_forwarder_cb_def sample_uplink_def)
  with delivered_at_most_once [OF s(4,6) _ p this] s(1) p show ?thesis by fastforce
qed

end
