(* ===== verification/EventProps.thy ===== *)
theory EventProps
  imports Event HubProps Base64Props
begin

text \<open>
  The event of a packet: its receiver can recover the payload, the coordinates in the texts are exact, and no text is cut off by the buffers it is formatted in.
\<close>

subsection \<open>The message of an event\<close>

lemma c_str_id: "0 \<notin> set s \<Longrightarrow> c_str s = s"
  unfolding c_str_def by (induction s) auto

lemma safe_text_no_null: "is_safe_json_text (Some s) \<Longrightarrow> 0 \<notin> set s"
  by (auto simp: is_safe_json_text_def list_all_iff)

lemma safe_enc_no_null: "0 \<notin> set (safe_enc_blocks bs)"
proof -
  have "list_all (\<lambda>c. c \<noteq> 0) B64_CHARS" by code_simp
  moreover have "length B64_CHARS = 64" by code_simp
  moreover have "unat (drop_bit s v AND 0x3F) < 64" for s and v :: u32
  proof -
    have "drop_bit s v AND 0x3F \<le> 0x3F" by (rule word_and_le1)
    then show ?thesis by (simp add: word_le_nat_alt)
  qed
  ultimately have "b64_table v s \<noteq> 0" for s v by (simp add: b64_table_def list_all_length)
  moreover have "code_pad \<noteq> 0" by simp
  ultimately show ?thesis by (induction bs rule: safe_enc_blocks.induct) (auto simp: Let_def)
qed

lemma length_safe_enc_blocks: "length (safe_enc_blocks bs) = safe_b64_encoded_len (length bs)"
proof -
  obtain cs where "b64_enc_blocks bs = Inr cs" "length cs = b64_nopad_len (length bs)" using enc_dec_blocks by blast
  then show ?thesis using safe_enc_blocks_eq [of bs cs] b64_padded_length [of "length bs"] by simp
qed

lemma safe_decode_encoded: "length bs \<le> length buf \<Longrightarrow> safe_b64_decode (Some (safe_enc_blocks bs)) (Some buf) = (int (length bs), Some (mem_write buf bs))"
proof -
  assume room: "length bs \<le> length buf"
  obtain cs where cs: "b64_enc_blocks bs = Inr cs" "length cs = b64_nopad_len (length bs)" "\<forall>c\<in>set cs. c \<noteq> code_pad \<and> c \<noteq> 10 \<and> c \<noteq> 13"
    using enc_dec_blocks by blast
  then show ?thesis using safe_enc_blocks_eq [OF cs(1)] safe_b64_decode_enc [OF cs room] by simp
qed

text \<open>What a receiver of the event does with the message.\<close>

definition event_receive :: "event_doc \<Rightarrow> u8 list option" where
  "event_receive doc =
     (case ev_Message doc of
        None \<Rightarrow> None
      | Some m \<Rightarrow>
          (if ev_encoding doc = None then Some m
           else case safe_b64_decode (Some m) (Some (replicate (length m) 0)) of
                  (n, Some buf) \<Rightarrow> if n < 0 then None else Some (take (nat n) buf)
                | _ \<Rightarrow> None))"

lemma event_message_received:
  assumes "ev_encoding doc = None"
  shows "event_receive (event_message m doc) = Some m"
proof (cases "is_safe_json_text (Some m)")
  case True
  then show ?thesis using assms by (simp add: event_message_def event_receive_def c_str_id safe_text_no_null)
next
  case False
  define buf where "buf = replicate (safe_b64_encoded_len (length m) + 1) (0 :: u8)"
  define cs where "cs = safe_enc_blocks m"
  have l: "length cs = safe_b64_encoded_len (length m)" by (simp add: cs_def length_safe_enc_blocks)
  have e: "safe_b64_encode (Some m) (Some buf) = (int (length cs), Some (mem_write buf (cs @ [0])))"
    by (simp add: safe_b64_encode_def buf_def cs_def Let_def)
  have "mem_write buf (cs @ [0]) = cs @ [0]" using l by (simp add: mem_write_def buf_def)
  moreover have "c_str (cs @ [0]) = cs" using safe_enc_no_null [of m] by (simp add: c_str_def cs_def takeWhile_append)
  ultimately have ev: "event_message m doc = doc\<lparr>ev_Message := Some cs, ev_encoding := Some (cstr ''base64'')\<rparr>"
    using False e by (simp add: event_message_def buf_def)
  have lm: "length m \<le> length (replicate (length cs) (0 :: u8))" using l by (simp add: safe_b64_encoded_len_def)
  have "safe_b64_decode (Some cs) (Some (replicate (length cs) 0)) = (int (length m), Some (mem_write (replicate (length cs) 0) m))"
    using safe_decode_encoded [OF lm] by (simp add: cs_def)
  then show ?thesis using ev by (simp add: event_receive_def)
qed

text \<open>
  C16. The payload of a packet that is neither a route request or response nor in the binary format (a first byte of 1) can be recovered from its event: an event is made, and its message,
  decoded when it is marked as base64, is the payload; for the two encrypted transports it is the payload behind the first byte, which the type of the event is made of, and the
  binary format is looked for behind that byte. Route packets and binary payloads are turned into other texts, from which the bytes cannot be recovered.
\<close>

theorem event_payload_recovered:
  assumes "cdp_topic p \<noteq> topic_rreq" and "cdp_topic p \<noteq> topic_rrep"
    and "sealed = ((cdp_topic p = topic_sealed_uplink \<or> cdp_topic p = topic_encrypted_data) \<and> cdp_data p \<noteq> [])"
    and "\<not> isProtobuf (if sealed then drop 1 (cdp_data p) else cdp_data p)"
  shows "\<exists>doc. processMessageFromDucks J pb p = Inr doc \<and> event_receive doc = Some (if sealed then drop 1 (cdp_data p) else cdp_data p) \<and>
    ev_eventType doc = c_str (topicToString (if sealed then p\<lparr>cdp_topic := cdp_data p ! 0\<rparr> else p)) \<and>
    (sealed \<longleftrightarrow> ev_transport doc \<noteq> None)"
proof -
  define m where "m = (if sealed then drop 1 (cdp_data p) else cdp_data p)"
  define doc1 where "doc1 = (if sealed then (event_new p)\<lparr>ev_eventType := c_str (topicToString (p\<lparr>cdp_topic := cdp_data p ! 0\<rparr>)),
      ev_transport := Some (c_str (topicToString p))\<rparr> else event_new p)"
  have "processMessageFromDucks J pb p = Inr (event_message m doc1)"
    using assms by (simp add: processMessageFromDucks_def event_data_def m_def doc1_def Let_def)
  moreover have "ev_encoding doc1 = None" by (simp add: doc1_def event_new_def)
  then have "event_receive (event_message m doc1) = Some m" by (rule event_message_received)
  moreover have "ev_eventType (event_message m doc1) = ev_eventType doc1" "ev_transport (event_message m doc1) = ev_transport doc1"
    by (simp_all add: event_message_def split: prod.splits option.splits)
  ultimately show ?thesis by (auto simp: m_def doc1_def event_new_def)
qed

subsection \<open>Numbers in texts\<close>

lemma length_dec_nat: "n < 10 ^ k \<Longrightarrow> 0 < k \<Longrightarrow> length (dec_nat n) \<le> k"
proof (induction k arbitrary: n)
  case (Suc k)
  show ?case
  proof (cases "n < 10")
    case True
    then show ?thesis by (simp add: dec_nat.simps [of n])
  next
    case False
    then have "0 < k" using Suc.prems(1) by (cases k) auto
    moreover have "n div 10 < 10 ^ k" using Suc.prems(1) by (simp add: less_mult_imp_div_less mult.commute)
    ultimately show ?thesis using Suc.IH [of "n div 10"] False by (simp add: dec_nat.simps [of n])
  qed
qed simp

lemma length_dec_uint: "length (dec_nat (unat (w :: u32))) \<le> 10"
proof -
  have "unat w < 2 ^ LENGTH(32)" by (rule unsigned_less)
  then show ?thesis by (intro length_dec_nat) simp_all
qed

lemma sint_u32_bounds: "- (2 ^ 31) \<le> sint (w :: u32)" "sint (w :: u32) < 2 ^ 31"
  using sint_greater_eq [of w] sint_less [of w] by simp_all

lemma length_dec_sint: "length (dec_int (sint (w :: u32))) \<le> 11"
proof -
  have "length (dec_nat n) \<le> 10" if "n \<le> 2147483648" for n using that by (intro length_dec_nat) simp_all
  then have "length (dec_nat (nat (- sint w))) \<le> 10" if "sint w < 0" using sint_u32_bounds(1) [of w] that by simp
  moreover have "length (dec_nat (nat (sint w))) \<le> 10" if "\<not> sint w < 0" using sint_u32_bounds(2) [of w] that by (intro length_dec_nat) simp_all
  ultimately show ?thesis by (cases "sint w < 0") (simp_all add: dec_int_def)
qed

lemma length_fixed_text: "n < 10 ^ (k + d) \<Longrightarrow> 0 < k \<Longrightarrow> 0 < d \<Longrightarrow> length (fixed_text d neg n) \<le> k + d + 2"
proof -
  assume a: "n < 10 ^ (k + d)" "0 < k" "0 < d"
  have "n < 10 ^ d * 10 ^ k" using a(1) by (simp add: power_add mult.commute)
  then have "n div 10 ^ d < 10 ^ k" by (simp add: less_mult_imp_div_less mult.commute)
  then have "length (dec_nat (n div 10 ^ d)) \<le> k" using a(2) by (rule length_dec_nat)
  moreover have "length (dec_nat (n mod 10 ^ d)) \<le> d" using a(3) by (intro length_dec_nat) simp_all
  then have "length (zero_pad d (n mod 10 ^ d)) = d" by (simp add: zero_pad_def)
  ultimately show ?thesis by (simp add: fixed_text_def)
qed

text \<open>Rounding a quotient to a double and printing it with as many decimals gives the integer back.\<close>

lemma round_half_even_near: "\<bar>y - of_int n\<bar> < 1 / 2 \<Longrightarrow> round_half_even y = n"
proof -
  assume a: "\<bar>y - of_int n\<bar> < 1 / 2"
  have "\<bar>of_int (round_half_even y) - y\<bar> \<le> 1 / 2" by (rule round_half_even_err)
  then have "\<bar>of_int (round_half_even y) - of_int n :: rat\<bar> < 1" using a by linarith
  then show ?thesis by linarith
qed

lemma printf_fixed_exact:
  assumes "\<bar>n\<bar> < 2 ^ 52"
  shows "printf_fixed d (dbl (of_int n / 10 ^ d)) = fixed_text d (n < 0) (nat \<bar>n\<bar>)"
proof -
  define x where "x = of_int \<bar>n\<bar> / (10 ^ d :: rat)"
  have x: "0 \<le> x" by (simp add: x_def)
  have q: "of_int n / 10 ^ d = (if n < 0 then - x else x)" by (simp add: x_def)
  have p10: "(0 :: rat) < 10 ^ d" by simp
  have err: "\<bar>dbl x * 10 ^ d - of_int \<bar>n\<bar>\<bar> \<le> of_int \<bar>n\<bar> / 2 ^ 53"
  proof -
    have "\<bar>dbl x * 10 ^ d - x * 10 ^ d\<bar> = \<bar>dbl x - x\<bar> * 10 ^ d" by (simp add: abs_mult left_diff_distrib [symmetric])
    also have "\<dots> \<le> x / 2 ^ 53 * 10 ^ d" using dbl_err [OF x] by (intro mult_right_mono) simp_all
    finally show ?thesis by (simp add: x_def)
  qed
  have "(of_int \<bar>n\<bar> :: rat) < of_int (2 ^ 52)" using assms by (simp only: of_int_less_iff)
  then have small: "of_int \<bar>n\<bar> / 2 ^ 53 < (1 / 2 :: rat)" by (simp add: field_simps)
  have r: "round_half_even (dbl x * 10 ^ d) = \<bar>n\<bar>" by (rule round_half_even_near) (use err small in linarith)
  have ge: "0 \<le> dbl x" using x by (rule dbl_ge_0)
  have pos: "0 < dbl x" if "n \<noteq> 0"
  proof (rule ccontr)
    assume "\<not> 0 < dbl x"
    then have "dbl x = 0" using ge by simp
    then show False using r that by (simp add: round_half_even_def Let_def)
  qed
  show ?thesis
  proof (cases "n < 0")
    case True
    then show ?thesis using q r pos ge by (simp add: printf_fixed_def dbl_minus)
  next
    case False
    then show ?thesis using q r ge by (simp add: printf_fixed_def)
  qed
qed

lemma coord_text_fixed: "coord_text e7 = fixed_text 7 (sint e7 < 0) (nat \<bar>sint e7\<bar>)"
proof -
  have "\<bar>sint e7\<bar> \<le> 2 ^ 31" using sint_u32_bounds [of e7] by linarith
  then have "\<bar>sint e7\<bar> < 2 ^ 52" by simp
  then show ?thesis using printf_fixed_exact [of "sint e7" 7] by (simp add: coord_text_def)
qed

lemma coord_text_length: "length (coord_text e7) \<le> 12"
proof -
  have "\<bar>sint e7\<bar> \<le> 2 ^ 31" using sint_u32_bounds [of e7] by linarith
  then have "length (fixed_text 7 (sint e7 < 0) (nat \<bar>sint e7\<bar>)) \<le> 3 + 7 + 2" by (intro length_fixed_text) simp_all
  then show ?thesis by (simp add: coord_text_fixed)
qed

text \<open>
  C17. A coordinate is printed exactly: for every value that a message can hold, the division in double precision and the rounding to seven decimals give the sign and the
  digits of the integer, with the point before the last seven, in at most 12 characters.
\<close>

theorem coordinate_text_exact: "coord_text e7 = fixed_text 7 (sint e7 < 0) (nat \<bar>sint e7\<bar>) \<and> length (coord_text e7) \<le> 12"
  using coord_text_fixed coord_text_length by blast

lemma speed_text_length: "length (speed_text v) \<le> 12"
proof -
  have b: "uint v < 2 ^ LENGTH(32)" by (rule unsigned_less)
  have "unat v < 2 ^ LENGTH(32)" by (rule unsigned_less)
  then have "length (fixed_text 1 False (nat \<bar>uint v\<bar>)) \<le> 9 + 1 + 2" by (intro length_fixed_text) simp_all
  then show ?thesis using b printf_fixed_exact [of "uint v" 1] by (simp add: speed_text_def)
qed

subsection \<open>Buffers\<close>

lemma snprintf_fits: "length s < n \<Longrightarrow> c_snprintf n s = s"
  by (simp add: c_snprintf_def)

lemma length_cstr [simp]: "length (cstr s) = length s"
  by (simp add: cstr_def)

lemma enum_text_lengths: "length (gpsSourceToString i) \<le> 6" "length (noFixReasonToString i) \<le> 11" "length (sosOriginToString i) \<le> 7"
  by (simp_all add: gpsSourceToString_def noFixReasonToString_def sosOriginToString_def)

lemmas text_lengths = enum_text_lengths coord_text_length speed_text_length length_dec_uint length_dec_sint

text \<open>No field is cut off: every text is what it would be with unlimited buffers.\<close>

lemma fields_fit:
  fixes v w :: u32
  shows "c_snprintf 160 (cstr '',LAT:'' @ coord_text a @ cstr '',LNG:'' @ coord_text b) = cstr '',LAT:'' @ coord_text a @ cstr '',LNG:'' @ coord_text b"
  and "c_snprintf 160 (cstr '',BATT:'' @ dec_int (sint w)) = cstr '',BATT:'' @ dec_int (sint w)"
  and "c_snprintf 32 (coord_text a) = coord_text a"
  and "c_snprintf 64 (cstr ''C:'' @ dec_nat (unat v) @ cstr ''|FM:'' @ dec_int (sint w)) = cstr ''C:'' @ dec_nat (unat v) @ cstr ''|FM:'' @ dec_int (sint w)"
  and "c_snprintf 160 (cstr ''GPS,FIX:0,SRC:'' @ gpsSourceToString i @ cstr '',REASON:'' @ noFixReasonToString j @ cstr '',BATT:'' @ dec_int (sint w)) =
     cstr ''GPS,FIX:0,SRC:'' @ gpsSourceToString i @ cstr '',REASON:'' @ noFixReasonToString j @ cstr '',BATT:'' @ dec_int (sint w)"
  using coord_text_length [of a] coord_text_length [of b] length_dec_sint [of w] length_dec_uint [of v] enum_text_lengths(1) [of i] enum_text_lengths(2) [of j]
  by (intro snprintf_fits; simp)+

subsection \<open>The callback of the gateway\<close>

text \<open>The callback returns for every packet except for a route packet without origin or destination, for which it reads through a null pointer; the \<^verbatim>\<open>catch\<close> around it does not help.\<close>

lemma callback_result:
  "handleDuckData J pb p =
     (if (cdp_topic p = topic_rreq \<or> cdp_topic p = topic_rrep) \<and>
         (json_get J (deserializeJson J (cdp_data p)) (cstr ''origin'') = None \<or> json_get J (deserializeJson J (cdp_data p)) (cstr ''destination'') = None)
      then Inl NullPointer else Inr ())"
  by (auto simp: handleDuckData_def processMessageFromDucks_def event_route_def route_parse_def Let_def split: option.splits)

definition sample_pb :: pb_lib where
  "sample_pb = \<lparr>parse_GpsReading = (\<lambda>_. None), parse_SosAlert = (\<lambda>_. None), parse_HealthStatus = (\<lambda>_. None), parse_MTalk = (\<lambda>_. None),
     parse_StatusReport = (\<lambda>_. None), parse_OpText = Some\<rparr>"

theorem event_payload_recovered_witness:
  "\<exists>doc. processMessageFromDucks sample_json sample_pb (cdp_new PAPADUCK_DUID 0x1C [0x14, 200, 0, 7] sample_device 2) = Inr doc \<and>
    event_receive doc = Some [200, 0, 7] \<and> ev_transport doc \<noteq> None"
  using event_payload_recovered [of "cdp_new PAPADUCK_DUID 0x1C [0x14, 200, 0, 7] sample_device 2" True sample_json sample_pb]
  by (auto simp: cdp_new_def isProtobuf_def)

end
