(* ===== verification/Spec2Isabelle.thy ===== *)
theory Spec2Isabelle
  imports JitQueueProps TimeOnAirProps Base64Props MqttProps RxBufferProps TimestampProps HalConfProps CrcProps HalRxProps UplinkProps
    HalTxProps GpsProps JitSchedule BridgeProps DownlinkProps BeaconProps Daemon GpsFix CdpProps BloomProps RouterProps EventProps
begin

text \<open>
  \<^bold>\<open>Verification of meshbeacon-uplink.\<close>

  The program is a gateway daemon, \<^verbatim>\<open>clusterduckd\<close>, that connects a LoRa mesh of ClusterDuck nodes with an MQTT broker, on top of \<^verbatim>\<open>libloragw\<close>, the driver of the SX1302
  concentrator. Received packets go from the concentrator's FIFO through \<^verbatim>\<open>lgw_receive\<close> and the thread \<^verbatim>\<open>thread_up\<close> to the mesh protocol; packets to send go through a
  just-in-time queue to \<^verbatim>\<open>lgw_send\<close>; events of the mesh are published over MQTT, commands arrive from there. This development models the C and C++ code of these paths and proves
  what makes it correct; where the code does not do what it means to do, a theorem says what happens instead.

  \<^bold>\<open>Conventions\<close> (theories \<open>Prelude\<close>, \<open>CDouble\<close>, \<open>HalTypes\<close>). An unsigned integer is a word of its width. A signed one is a word read with \<open>sint\<close>, or an \<open>int\<close> where the
  source cannot leave the range or leaving it is modelled as a fault. A pointer that may be NULL is an \<open>option\<close>, a fixed array a list of that length, an
  out-parameter a part of the result. A function that can run into undefined behaviour, a failed assertion or \<^verbatim>\<open>exit\<close> returns \<open>c_fault + 'a\<close>, sequenced with \<open>res_bind\<close>. A
  \<^verbatim>\<open>double\<close> is the rational number it stands for, and each operation on it is rounded with \<open>dbl\<close> (\<open>flt\<close> for \<^verbatim>\<open>float\<close>), to nearest, ties to even, with unbounded exponents. What
  comes from outside the modelled code (register reads, FIFO contents, the clock, the MQTT client, memory allocation) is an argument of the functions that use it, or a
  record of functions over an abstract state. Log output and mutexes are left out, and so are most statistics counters; every function that the source runs under a
  mutex is one step.

  Where the source relies on something that C leaves open, the model follows what gcc does, and it is said here: the comparison functions of both sorts subtract signed
  numbers, and the difference wraps around (\<open>compare_jit\<close>, \<open>compare_pkt_tmst\<close>); the bytes of GPS times are shifted by 24 as numbers of 32 bits (\<open>le32\<close>). \<^verbatim>\<open>mktime\<close> is taken
  with a fixed offset of the time zone, without daylight saving and without the history of a zone (\<open>mktime\<close>, \<open>gps_get_utc\<close>). An overlapping \<^verbatim>\<open>memcpy\<close> is the fault
  \<open>OverlappingCopy\<close>, except on a platform of which it is assumed that it copies upwards.

  \<^bold>\<open>Just-in-time queue\<close> (\<open>JitQueue\<close>, \<open>JitQueueLemmas\<close>, \<open>JitQueueProps\<close>; \<^verbatim>\<open>clusterduck/src/jitqueue.c\<close>). The queue record, enqueue with its collision test and the search for a free slot,
  peek with the purge of missed packets, dequeue, and sorting by departure time. The invariant \<open>jit_wf\<close> and the absence of collisions hold in every reachable queue; a
  request is accepted exactly when it has room, is in time and collides with nothing; peek and dequeue hand out the earliest packet. Reachable are the queues after any calls, except a
  dequeue at an index in the array past the packets, of which a theorem shows how it breaks the queue. The queue is an instance of the
  locale \<open>slot_store\<close>, arrays from which an element is removed by moving the last one into its place, and the C library's sort is used through the locale \<open>qsort_contract\<close>.
  One theorem shows the access outside the array that \<^verbatim>\<open>jit_peek\<close> makes after a purge.

  \<^bold>\<open>Air time\<close> (\<open>TimeOnAir\<close>, \<open>TimeOnAirProps\<close>; \<^verbatim>\<open>libloragw/src/loragw_aux.c\<close>, \<^verbatim>\<open>lgw_time_on_air\<close>). The floating-point computation equals the exact formula over the integers for all
  valid parameters.

  \<^bold>\<open>Base64\<close> (\<open>Base64\<close>, \<open>Base64Props\<close>; \<^verbatim>\<open>libtools/src/base64.c\<close>, \<^verbatim>\<open>clusterduck/src/utils/safe_base64.cpp\<close>). Both codecs: round trip, agreement of the encoders, bounds of the safe
  decoder, and how each treats malformed input.

  \<^bold>\<open>MQTT bridge\<close> (\<open>Mqtt\<close>, \<open>MqttProps\<close>; \<^verbatim>\<open>clusterduck/src/clusterduckd.c\<close>). The ring of messages that could not be published, connecting with exponential back-off, publishing,
  and the handler of arriving commands. The ring refines a bounded queue that drops its oldest entry (locales \<open>bounded_log\<close> and \<open>drop_oldest_fifo\<close>); the client
  library, the JSON parser and the mesh bridge are the record \<open>mqtt_env\<close>. Publishing stops at the first refusal, and each command either is sent and answered or changes nothing.

  \<^bold>\<open>Receive buffer\<close> (\<open>RxBuffer\<close>, \<open>RxBufferProps\<close>; \<^verbatim>\<open>libloragw/src/loragw_sx1302_rx.c\<close>). Fetching the FIFO and parsing packets out of it: any sequence of valid packets is read back
  field by field; a parse makes progress or changes nothing; the unchecked number of timestamp metrics overruns the packet structure.

  \<^bold>\<open>Timestamps\<close> (\<open>Timestamp\<close>, \<open>TimestampProps\<close>; \<^verbatim>\<open>libloragw/src/loragw_sx1302_timestamp.c\<close>). The 27-bit counters extended to 32 bits equal the real time over any number of
  roll-overs; the history of PPS counters holds the last sixteen (an instance of \<open>bounded_log\<close>); the corrections are total and bounded.

  \<^bold>\<open>Configuration\<close> (\<open>HalConf\<close>, \<open>HalConfProps\<close>; \<^verbatim>\<open>libloragw/src/loragw_hal.c\<close>). The context and the functions that fill it. Every sequence of calls, accepted or refused, leaves
  the fields that the calls check in their ranges, \<open>hal_ctx_wf\<close>; the receive and transmit paths rely on it. The values that no call checks are shown by an example.

  \<^bold>\<open>Checksums\<close> (\<open>Crc\<close>, \<open>CrcProps\<close>). The unrolled payload CRC and the bitwise beacon CRC are divisions by the same polynomial, of the message and of the
  message followed by sixteen zero bits, and short bursts are always detected.

  \<^bold>\<open>Receive path\<close> (\<open>HalRx\<close>, \<open>HalRxProps\<close>; \<^verbatim>\<open>sx1302_fetch\<close>, \<^verbatim>\<open>sx1302_parse\<close>, \<^verbatim>\<open>lgw_receive\<close>). One call of \<^verbatim>\<open>lgw_receive\<close> from the FIFO to the list of packets: parsing has no other faults
  than those of the receive buffer and of fine timestamps, and the removal of duplicates (again a \<open>slot_store\<close>) terminates, keeps one of each group and sorts.

  \<^bold>\<open>Upstream thread\<close> (\<open>Uplink\<close>, \<open>UplinkProps\<close>; \<^verbatim>\<open>thread_up\<close>). Which packets reach the mesh protocol, and how one packet at the head of the receive buffer that is refused without being
  consumed ends the process.

  \<^bold>\<open>Transmit path\<close> (\<open>Sx1302Tx\<close>, \<open>HalTx\<close>, \<open>HalTxProps\<close>; \<^verbatim>\<open>sx1302_send\<close>, \<^verbatim>\<open>lgw_send\<close>, \<^verbatim>\<open>libloragw/src/loragw_lbt.c\<close>). A send as the list of register operations it performs on a bus that may
  fail at any of them: the trigger comes after everything else, the registers hold what the packet asks for, and a listen-before-talk session is always closed. The
  polling loops range over the readings that fit into their time limit.

  \<^bold>\<open>Time reference\<close> (\<open>Gps\<close>, \<open>GpsProps\<close>; \<^verbatim>\<open>libloragw/src/loragw_gps.c\<close>, \<^verbatim>\<open>thread_valid\<close>). Synchronisation with GPS time, the conversions, and the crystal correction: three states of
  the threads in any interleaving keep the reference usable and the correction within 100 ppm, with all rounding errors.

  \<^bold>\<open>GPS receiver\<close> (\<open>GpsSerial\<close>, \<open>GpsSerialProps\<close>, \<open>GpsFix\<close>; \<^verbatim>\<open>thread_gps\<close>, \<^verbatim>\<open>lgw_parse_ubx\<close>, \<^verbatim>\<open>lgw_parse_nmea\<close>, \<^verbatim>\<open>lgw_gps_get\<close>). The serial buffer, the search for frames in it, both
  parsers with the C library's number scanning and calendar, and the solution handed to the synchronisation. Every read of the buffer is checked against the end of
  its array. However the bytes are cut into reads, the thread handles the frames of a stream of UBX messages and NMEA sentences (\<open>gps_segment\<close>: stray bytes that are \<open>quiet\<close>, and a
  frame whose inside is \<open>inert\<close>, sync characters in it allowed, of at most 121 bytes together), each once and in order; whatever is received, no access leaves the arrays unless a
  NAV-TIMEGPS message is too short; the moves of the buffer overlap, which a theorem turns into a fault for platforms whose \<^verbatim>\<open>memcpy\<close> does not copy upwards; the time written in an RMC sentence is the time
  delivered, and the GPS time is accurate to the nanosecond; a synchronisation can happen before any date is known.

  \<^bold>\<open>Bridge to the mesh protocol\<close> (\<open>Bridge\<close>, \<open>BridgeProps\<close>; \<^verbatim>\<open>clusterduck/src/bridge/ClusterDuckBridge.cpp\<close>). The queue of received packets, another instance of
  \<open>drop_oldest_fifo\<close>, and the queue of packets to send, through which the C code and the C++ mesh protocol exchange packets.

  \<^bold>\<open>Downstream and transmission threads\<close> (\<open>Downlink\<close>, \<open>DownlinkProps\<close>, \<open>BeaconProps\<close>; \<^verbatim>\<open>thread_down\<close>, \<^verbatim>\<open>get_tx_gain_lut_index\<close>, \<^verbatim>\<open>thread_jit\<close>). Composing beacons and queueing them for
  the slots of the beacon period, turning packets of the bridge into immediate downlinks, and taking packets that are due from the queue to \<^verbatim>\<open>lgw_send\<close>. The beacon
  frame can be read back, its position is accurate to two units, beacons are queued for increasing multiples of the period; the power is the one the HAL will choose.
  Two theorems show how packets get lost: all of them after an oversized one, and a packet taken at the start of the outer loop with a stale reading of the counter.

  \<^bold>\<open>Mesh packets\<close> (\<open>Cdp\<close>, \<open>CdpProps\<close>; \<^verbatim>\<open>clusterduck/src/CdpPacket.h\<close>, \<^verbatim>\<open>CdpPacket.cpp\<close>, \<^verbatim>\<open>utils/CRC32.cpp\<close>, \<^verbatim>\<open>utils/DuckUtils.h\<close>). The packet format with its CRC-32 and the conversions of
  addresses. The table-driven checksum is the bitwise one and detects every error within four bytes; packets and addresses are read back as written; the length check is
  done modulo 256.

  \<^bold>\<open>Seen messages\<close> (\<open>Bloom\<close>, \<open>BloomProps\<close>; \<^verbatim>\<open>routing/bloomfilter.cpp\<close>). The two-phase Bloom filter. It implements the locale \<open>seen_filter\<close>, the contract the ducks rely on: its operations
  end, and the last 100 messages added are recognised.

  \<^bold>\<open>Routing table\<close> (\<open>Router\<close>, \<open>RouterProps\<close>; \<^verbatim>\<open>routing/DuckRouter.cpp\<close>, \<^verbatim>\<open>Neighbor.h\<close>). Its invariant \<open>route_wf\<close>, the life time of the records, also across a wrap-around of the clock, and
  the next hop of a lookup, which is always the destination.

  \<^bold>\<open>Ducks\<close> (\<open>Duck\<close>, \<open>DuckProps\<close>, \<open>Papa\<close>, \<open>PapaProps\<close>, \<open>HubProps\<close>; \<^verbatim>\<open>routing/RouteJSON.h\<close>, \<^verbatim>\<open>radio/DuckLoRa.cpp\<close>, \<^verbatim>\<open>Ducks\<close>, \<^verbatim>\<open>Init.cpp\<close>). The record \<open>duck\<close> holds the radio, the filter, the table and the
  bridge; the handlers of the gateway, the relay, the end node and the detector are functions on it, with the JSON library as the record \<open>json_lib\<close> and the callback of
  the gateway as an argument. The relation \<open>grows\<close> says for each operation what it may send and add to the filter. From it follow that a message is delivered at most once
  within a window and that the gateway relays nothing. \<open>HubProps\<close> composes nodes and components: a duck joins through the gateway, a damaged packet is refused, an
  unprintable address stops the gateway at its next broadcast, and a command of 256 bytes blocks the downlink of the daemon.

  \<^bold>\<open>Events\<close> (\<open>Event\<close>, \<open>EventProps\<close>; \<^verbatim>\<open>processMessageFromDucks\<close> of \<^verbatim>\<open>Init.cpp\<close>, \<^verbatim>\<open>payloads/DuckPayloads.cpp\<close>). The document that is published for a delivered packet, with the generated
  protobuf parsers as the record \<open>pb_lib\<close>. The receiver recovers a payload that is neither a route packet nor in the binary format, from text or from base64; coordinates are printed exactly and no buffer cuts a text off; the
  callback returns for every packet except a malformed route packet.

  \<^bold>\<open>The threads together\<close> (\<open>JitSchedule\<close>, \<open>Daemon\<close>). \<open>Daemon\<close> interleaves the steps of both threads and of the mesh protocol at the granularity of the mutexes and shows
  that the queues stay valid, that there are never more than three beacons, and that the index a poll gives is still valid when it is used, in runs without faults whose departures stay
  within \<open>2^30\<close> microseconds of the counter. \<open>JitSchedule\<close> adds running time: when
  the queue is polled often enough and the counter is read shortly before each insertion, no packet is missed, and the packet dequeued is the one that was peeked.

  \<^bold>\<open>Bounds and fuel.\<close> No function takes fuel: every loop is a structural or measured recursion, so each theorem speaks about results that exist; the probing loop of the
  Bloom filter may not end and gives an \<open>option\<close>, and it is proved that it does end. Polling loops with a time
  limit are given the finite list of readings made before the limit, and the loops of \<^verbatim>\<open>thread_down\<close> the list of what their turns read, with a flag that says whether
  the loop ended within it. Sizes (32 queue slots, 100 messages, 16 history entries, 4096 bytes of FIFO) are those of the source.

  \<^bold>\<open>Not modelled.\<close> Vendored and generated code: \<^verbatim>\<open>parson.c\<close>, \<^verbatim>\<open>ArduinoJson.h\<close>, \<^verbatim>\<open>tinymt32.c\<close>, the protobuf code, the firmware images and the register table. The original packet forwarder
  \<^verbatim>\<open>packet_forwarder\<close>, which the daemon replaces. The start-up sequence of the concentrator and its radios, the access to SPI, USB and I2C, the micro controller
  protocol and the calibration, which are sequences of hardware accesses without state of their own. Parsing of the configuration file, and \<^verbatim>\<open>main\<close>. The test programs and
  utilities.
\<close>

end
